(* ===== verification/Geth_Prelude.thy ===== *)
theory Geth_Prelude
  imports Main "HOL-Library.Word" "HOL-Library.Finite_Map" "HOL-Library.Multiset"
begin

unbundle bit_operations_syntax

text \<open>
  Shared vocabulary of the development: the Go integer and byte types as words of
  their width, the parts of the Go standard library the sources use
  (\<^verbatim>\<open>math/bits\<close>, \<^verbatim>\<open>sort.Search\<close>, \<^verbatim>\<open>bytes.HasPrefix\<close>, slices), the checked arithmetic
  of \<^verbatim>\<open>common/math/integer.go\<close>, \<^verbatim>\<open>common/types_arbitrum.go\<close> and \<^verbatim>\<open>common/bytes.go\<close>,
  and the lemmas on words, lists and finite maps that several components use.

  Go maps are finite maps (\<^typ>\<open>('k, 'v) fmap\<close>): \<open>fmlookup m k\<close> is the comma-ok read,
  \<open>fmupd\<close> the assignment and \<open>fmdrop\<close> the \<^verbatim>\<open>delete\<close> built-in.
\<close>

subsection \<open>Types\<close>

type_synonym u8 = "8 word"
type_synonym u16 = "16 word"
type_synonym u32 = "32 word"
type_synonym u64 = "64 word"
type_synonym u256 = "256 word"
type_synonym bytes = "u8 list"

text \<open>
  \<^verbatim>\<open>common.Address\<close> is a \<^verbatim>\<open>[20]byte\<close> and \<^verbatim>\<open>common.Hash\<close> a \<^verbatim>\<open>[32]byte\<close>; both are read as the
  big-endian numbers they spell, which is a bijection (see \<open>be_bytes\<close> below).
\<close>

type_synonym address = "160 word"
type_synonym hash = "256 word"

named_theorems go_arith \<open>facts that move Go word arithmetic to the naturals\<close>
named_theorems fm_simps \<open>lookup and domain facts of finite maps\<close>

abbreviation MaxUint64 :: u64 where
  "MaxUint64 \<equiv> 0xFFFFFFFFFFFFFFFF"

lemma MaxUint64_minus_one: "MaxUint64 = - 1"
  by simp

lemma unat_MaxUint64 [go_arith]: "unat MaxUint64 = 2 ^ 64 - 1"
  by simp

subsection \<open>\<^verbatim>\<open>math/bits\<close>\<close>

text \<open>\<^verbatim>\<open>bits.Add64\<close>, \<^verbatim>\<open>bits.Sub64\<close> and \<^verbatim>\<open>bits.Mul64\<close> as the Go documentation specifies them.\<close>

definition bits_Add64 :: "u64 \<Rightarrow> u64 \<Rightarrow> u64 \<Rightarrow> u64 \<times> u64" where
  "bits_Add64 x y carry =
     (x + y + carry, if 2 ^ 64 \<le> unat x + unat y + unat carry then 1 else 0)"

definition bits_Sub64 :: "u64 \<Rightarrow> u64 \<Rightarrow> u64 \<Rightarrow> u64 \<times> u64" where
  "bits_Sub64 x y borrow =
     (x - y - borrow, if unat x < unat y + unat borrow then 1 else 0)"

definition bits_Mul64 :: "u64 \<Rightarrow> u64 \<Rightarrow> u64 \<times> u64" where
  "bits_Mul64 x y =
     (word_of_nat (unat x * unat y div 2 ^ 64), word_of_nat (unat x * unat y mod 2 ^ 64))"

text \<open>For evaluation they are computed on binary integers.\<close>

lemma bits_Add64_code [code]:
  "bits_Add64 x y c = (x + y + c, if 18446744073709551616 \<le> uint x + uint y + uint c then 1 else 0)"
proof -
  have "18446744073709551616 \<le> uint x + uint y + uint c \<longleftrightarrow> 18446744073709551616 \<le> unat x + unat y + unat c"
    unfolding uint_nat by linarith
  then show ?thesis by (simp add: bits_Add64_def)
qed

lemma bits_Sub64_code [code]:
  "bits_Sub64 x y b = (x - y - b, if uint x < uint y + uint b then 1 else 0)"
proof -
  have "uint x < uint y + uint b \<longleftrightarrow> unat x < unat y + unat b"
    unfolding uint_nat by linarith
  then show ?thesis by (simp add: bits_Sub64_def)
qed

lemma bits_Mul64_code [code]:
  "bits_Mul64 x y = (word_of_int (uint x * uint y div 18446744073709551616),
     word_of_int (uint x * uint y mod 18446744073709551616))"
proof -
  have "uint x * uint y div 18446744073709551616 = int (unat x * unat y div 2 ^ 64)"
    "uint x * uint y mod 18446744073709551616 = int (unat x * unat y mod 2 ^ 64)"
    unfolding uint_nat by (simp_all only: zdiv_int zmod_int of_nat_mult of_nat_power of_nat_numeral) simp_all
  then show ?thesis by (simp only: bits_Mul64_def of_int_of_nat_eq)
qed

subsection \<open>\<^verbatim>\<open>common/math/integer.go\<close>\<close>

definition math_SafeSub :: "u64 \<Rightarrow> u64 \<Rightarrow> u64 \<times> bool" where
  "math_SafeSub x y = (let (diff, borrowOut) = bits_Sub64 x y 0 in (diff, borrowOut \<noteq> 0))"

definition math_SafeAdd :: "u64 \<Rightarrow> u64 \<Rightarrow> u64 \<times> bool" where
  "math_SafeAdd x y = (let (s, carryOut) = bits_Add64 x y 0 in (s, carryOut \<noteq> 0))"

definition math_SafeMul :: "u64 \<Rightarrow> u64 \<Rightarrow> u64 \<times> bool" where
  "math_SafeMul x y = (let (hi, lo) = bits_Mul64 x y in (lo, hi \<noteq> 0))"

lemma u64_bound: "unat (x::u64) < 2 ^ 64"
  using unsigned_less [of x, where 'a = nat] by simp

lemma unat_add_no_overflow [go_arith]:
  "unat (x::u64) + unat y < 2 ^ 64 \<Longrightarrow> unat (x + y) = unat x + unat y"
  by (simp add: unat_word_ariths)

lemma unat_sub_no_underflow [go_arith]:
  "unat (y::u64) \<le> unat x \<Longrightarrow> unat (x - y) = unat x - unat y"
  by (simp add: unat_sub word_le_nat_alt)

lemma unat_mult_no_overflow [go_arith]:
  "unat (x::u64) * unat y < 2 ^ 64 \<Longrightarrow> unat (x * y) = unat x * unat y"
  by (simp add: unat_word_ariths)

lemma math_SafeAdd_eq [go_arith]:
  "math_SafeAdd x y = (x + y, 2 ^ 64 \<le> unat x + unat y)"
  by (simp add: math_SafeAdd_def bits_Add64_def)

lemma math_SafeSub_eq [go_arith]:
  "math_SafeSub x y = (x - y, unat x < unat y)"
  by (simp add: math_SafeSub_def bits_Sub64_def)

lemma math_SafeMul_eq [go_arith]:
  "math_SafeMul x y = (x * y, 2 ^ 64 \<le> unat x * unat y)"
proof -
  have le: "unat x * unat y div 2 ^ 64 < 2 ^ 64"
  proof -
    have "unat x < 2 ^ 64" and "unat y < 2 ^ 64"
      by (rule u64_bound)+
    then have "unat x * unat y < 2 ^ 64 * 2 ^ 64"
      by (intro mult_strict_mono') simp_all
    then show ?thesis
      by (simp add: less_mult_imp_div_less)
  qed
  have "(word_of_nat (unat x * unat y div 2 ^ 64) :: u64) = 0 \<longleftrightarrow> unat x * unat y div 2 ^ 64 = 0"
    using le by (auto simp: word_of_nat_eq_0_iff dest: nat_dvd_not_less)
  moreover have "unat x * unat y div 2 ^ 64 = 0 \<longleftrightarrow> unat x * unat y < 2 ^ 64"
    by (simp add: div_eq_0_iff)
  moreover have "(word_of_nat (unat x * unat y mod 2 ^ 64) :: u64) = x * y"
    by (rule word_unat_eq_iff [THEN iffD2]) (simp add: unat_of_nat unat_word_ariths)
  ultimately show ?thesis
    by (auto simp: math_SafeMul_def bits_Mul64_def not_less)
qed

subsection \<open>\<^verbatim>\<open>common/types_arbitrum.go\<close>\<close>

definition MinInt :: "'a::linorder \<Rightarrow> 'a \<Rightarrow> 'a" where
  "MinInt v ceil = (if v > ceil then ceil else v)"

definition MaxInt :: "'a::linorder \<Rightarrow> 'a \<Rightarrow> 'a" where
  "MaxInt v flr = (if v < flr then flr else v)"

definition SaturatingUAdd :: "'a::len word \<Rightarrow> 'a word \<Rightarrow> 'a word" where
  "SaturatingUAdd a b = (let s = a + b in if s < a \<or> s < b then NOT 0 else s)"

lemma unat_SaturatingUAdd:
  "unat (SaturatingUAdd a (b::'a::len word)) = min (2 ^ LENGTH('a) - 1) (unat a + unat b)"
proof (cases "unat a + unat b < 2 ^ LENGTH('a)")
  case True
  then have "unat (a + b) = unat a + unat b"
    by (simp add: unat_word_ariths)
  with True show ?thesis
    by (simp add: SaturatingUAdd_def word_less_nat_alt)
next
  case False
  have "unat a < 2 ^ LENGTH('a)" "unat b < 2 ^ LENGTH('a)"
    by (rule unsigned_less)+
  then have "unat a + unat b - 2 ^ LENGTH('a) < 2 ^ LENGTH('a)"
    by linarith
  then have "(unat a + unat b) mod 2 ^ LENGTH('a) = unat a + unat b - 2 ^ LENGTH('a)"
    using False by (simp add: le_mod_geq)
  then have "unat (a + b) = unat a + unat b - 2 ^ LENGTH('a)"
    by (simp add: unat_word_ariths)
  with False \<open>unat b < 2 ^ LENGTH('a)\<close> have "unat (a + b) < unat a"
    by linarith
  then have "a + b < a"
    by (simp add: word_less_nat_alt)
  moreover have "unat (NOT (0::'a word)) = 2 ^ LENGTH('a) - 1"
    by (simp add: unsigned_minus_1_eq_mask mask_eq_exp_minus_1)
  ultimately show ?thesis
    using False by (simp add: SaturatingUAdd_def)
qed

subsection \<open>\<^verbatim>\<open>common/bytes.go\<close>\<close>

definition RightPadBytes :: "bytes \<Rightarrow> nat \<Rightarrow> bytes" where
  "RightPadBytes b l =
     (if l \<le> length b then b else b @ replicate (l - length b) 0)"

definition LeftPadBytes :: "bytes \<Rightarrow> nat \<Rightarrow> bytes" where
  "LeftPadBytes b l =
     (if l \<le> length b then b else replicate (l - length b) 0 @ b)"

definition TrimLeftZeroes :: "bytes \<Rightarrow> bytes" where
  "TrimLeftZeroes s = dropWhile (\<lambda>b. b = 0) s"

definition TrimRightZeroes :: "bytes \<Rightarrow> bytes" where
  "TrimRightZeroes s = rev (dropWhile (\<lambda>b. b = 0) (rev s))"

lemma length_RightPadBytes [simp]: "length (RightPadBytes s l) = max l (length s)"
  by (simp add: RightPadBytes_def)

lemma length_LeftPadBytes [simp]: "length (LeftPadBytes s l) = max l (length s)"
  by (simp add: LeftPadBytes_def)

lemma TrimLeft_LeftPad: "TrimLeftZeroes (LeftPadBytes s l) = TrimLeftZeroes s"
proof -
  have "dropWhile (\<lambda>b. b = 0) (replicate n 0 @ s) = dropWhile (\<lambda>b. b = 0) s" for n
    by (induction n) auto
  then show ?thesis by (simp add: TrimLeftZeroes_def LeftPadBytes_def)
qed

lemma TrimRight_RightPad: "TrimRightZeroes (RightPadBytes s l) = TrimRightZeroes s"
proof -
  have "dropWhile (\<lambda>b. b = 0) (replicate n 0 @ rev s) = dropWhile (\<lambda>b. b = 0) (rev s)" for n
    by (induction n) auto
  then show ?thesis by (simp add: TrimRightZeroes_def RightPadBytes_def)
qed

subsection \<open>Big-endian bytes\<close>

definition be_bytes :: "nat \<Rightarrow> 'a::len word \<Rightarrow> bytes" where
  "be_bytes n x = rev (map (\<lambda>i. ucast (drop_bit (8 * i) x)) [0..<n])"

definition be_word :: "bytes \<Rightarrow> 'a::len word" where
  "be_word bs = fold (\<lambda>b acc. push_bit 8 acc OR ucast b) bs 0"

definition bytes_HasPrefix :: "bytes \<Rightarrow> bytes \<Rightarrow> bool" where
  "bytes_HasPrefix s p \<longleftrightarrow> length p \<le> length s \<and> take (length p) s = p"

lemma length_be_bytes [simp]: "length (be_bytes n x) = n"
  by (simp add: be_bytes_def)

lemma be_word_snoc: "be_word (bs @ [b]) = push_bit 8 (be_word bs) OR ucast b"
  by (simp add: be_word_def)

lemma bit_be_word:
  "bit (be_word bs :: 'a::len word) i \<longleftrightarrow>
     i < LENGTH('a) \<and> i div 8 < length bs \<and> bit (rev bs ! (i div 8)) (i mod 8)"
proof (induction bs arbitrary: i rule: rev_induct)
  case Nil
  then show ?case by (simp add: be_word_def)
next
  case (snoc b bs)
  show ?case
  proof (cases "i < 8")
    case True
    then show ?thesis
      by (auto simp: be_word_snoc bit_or_iff bit_push_bit_iff bit_ucast_iff dest: bit_imp_le_length)
  next
    case False
    then obtain k where i: "i = k + 8" by (metis le_add_diff_inverse2 not_less)
    have "\<not> bit b i" using False bit_imp_le_length [of b i] by auto
    then show ?thesis
      using snoc.IH [of k] False by (auto simp: be_word_snoc bit_or_iff bit_push_bit_iff bit_ucast_iff i)
  qed
qed

lemma be_bytes_nth: "i < n \<Longrightarrow> rev (be_bytes n x) ! i = ucast (drop_bit (8 * i) x)"
  by (simp add: be_bytes_def)

lemma be_word_be_bytes:
  "LENGTH('a) \<le> 8 * n \<Longrightarrow> be_word (be_bytes n (x :: 'a::len word)) = x"
proof (rule bit_word_eqI)
  fix i
  assume n: "LENGTH('a) \<le> 8 * n" "i < LENGTH('a)"
  then have "i div 8 < n" by (simp add: less_mult_imp_div_less mult.commute)
  with n show "bit (be_word (be_bytes n x) :: 'a word) i = bit x i"
    by (simp add: bit_be_word be_bytes_nth bit_ucast_iff bit_drop_bit_eq)
qed

lemma be_bytes_be_word:
  assumes "8 * length bs \<le> LENGTH('a::len)"
  shows "be_bytes (length bs) (be_word bs :: 'a word) = bs"
proof -
  have "rev (be_bytes (length bs) (be_word bs :: 'a word)) = rev bs"
  proof (rule nth_equalityI)
    fix i
    assume "i < length (rev (be_bytes (length bs) (be_word bs :: 'a word)))"
    then have i: "i < length bs" by simp
    have "bit (ucast (drop_bit (8 * i) (be_word bs :: 'a word)) :: u8) j = bit (rev bs ! i) j" if "j < 8" for j
    proof -
      have "i * 8 + j < LENGTH('a)" using i that assms by linarith
      then show ?thesis using i that by (simp add: bit_ucast_iff bit_drop_bit_eq bit_be_word ac_simps)
    qed
    then show "rev (be_bytes (length bs) (be_word bs :: 'a word)) ! i = rev bs ! i"
      using i by (auto simp: be_bytes_nth intro: bit_word_eqI)
  qed simp
  then show ?thesis by simp
qed

text \<open>The number of bits without leading zeroes: \<^verbatim>\<open>bits.Len64\<close> and the methods \<^verbatim>\<open>BitLen\<close>.\<close>

function bitlen :: "int \<Rightarrow> nat" where
  "bitlen n = (if n \<le> 0 then 0 else bitlen (n div 2) + 1)"
  by pat_completeness auto
termination by (relation "measure nat") auto

declare bitlen.simps [simp del]

lemma bitlen_0 [simp]: "bitlen 0 = 0"
  by (subst bitlen.simps) simp

lemma bitlen_bounds: "0 < n \<Longrightarrow> 0 < bitlen n \<and> 2 ^ (bitlen n - 1) \<le> n \<and> n < 2 ^ bitlen n"
proof (induction n rule: bitlen.induct)
  case (1 n)
  show ?case
  proof (cases "n = 1")
    case True
    then show ?thesis by (simp add: bitlen.simps)
  next
    case False
    with 1 have "0 < bitlen (n div 2)" "2 ^ (bitlen (n div 2) - 1) \<le> n div 2" "n div 2 < 2 ^ bitlen (n div 2)" by auto
    moreover obtain k where "bitlen (n div 2) = Suc k" using \<open>0 < bitlen (n div 2)\<close> by (cases "bitlen (n div 2)") auto
    moreover have "bitlen n = bitlen (n div 2) + 1" using 1(2) by (subst bitlen.simps) simp
    ultimately show ?thesis by auto
  qed
qed

lemma be_word_be_bytes_small:
  assumes "uint x < 2 ^ (8 * n)"
  shows "be_word (be_bytes n (x :: 'a::len word)) = x"
proof (rule bit_word_eqI)
  fix i
  assume i: "i < LENGTH('a)"
  have "take_bit (8 * n) (uint x) = uint x" using assms by (simp add: take_bit_int_eq_self)
  then have "bit (uint x) i \<Longrightarrow> i < 8 * n" by (metis bit_take_bit_iff)
  then have "bit x i \<Longrightarrow> i < 8 * n" using i by (simp add: bit_uint_iff)
  moreover have "i div 8 < n \<longleftrightarrow> i < 8 * n" by (simp add: div_less_iff_less_mult mult.commute)
  ultimately show "bit (be_word (be_bytes n x) :: 'a word) i = bit x i"
    using i by (auto simp: bit_be_word be_bytes_nth bit_ucast_iff bit_drop_bit_eq)
qed

subsection \<open>Finite maps\<close>

lemma fmmap_same: "(\<And>x. f x = x) \<Longrightarrow> fmmap f m = m"
  by (rule fmap_ext) (simp add: option.map_ident_strong)

lemma fmdrop_fmupd_absent [fm_simps]: "fmlookup m k = None \<Longrightarrow> fmdrop k (fmupd k v m) = m"
  by (rule fmap_ext) simp

lemma fmupd_idle [fm_simps]: "fmlookup m k = Some v \<Longrightarrow> fmupd k v m = m"
  by (rule fmap_ext) auto

lemma fmdrop_idle_lookup [fm_simps]: "fmlookup m k = None \<Longrightarrow> fmdrop k m = m"
  by (rule fmap_ext) auto

lemma fmupd_twice [fm_simps]: "fmupd k v (fmupd k w m) = fmupd k v m"
  by (rule fmap_ext) simp

lemma fmupd_fmdrop [fm_simps]: "fmupd k v (fmdrop k m) = fmupd k v m"
  by (rule fmap_ext) simp

lemma fmdrop_fmupd_same [fm_simps]: "fmdrop k (fmupd k v m) = fmdrop k m"
  by (rule fmap_ext) simp

subsection \<open>\<^verbatim>\<open>sort.Search\<close>\<close>

text \<open>
  The documented binary search: the smallest index below \<open>n\<close> at which \<open>f\<close> is true, or \<open>n\<close>,
  for a predicate that is false and then true.
\<close>

function sort_Search_loop :: "(nat \<Rightarrow> bool) \<Rightarrow> nat \<Rightarrow> nat \<Rightarrow> nat" where
  "sort_Search_loop f i j =
     (if i < j then
        let h = (i + j) div 2
        in if \<not> f h then sort_Search_loop f (h + 1) j else sort_Search_loop f i h
      else i)"
  by pat_completeness auto
termination
  by (relation "measure (\<lambda>(f, i, j). j - i)") auto

declare sort_Search_loop.simps [simp del]

definition sort_Search :: "nat \<Rightarrow> (nat \<Rightarrow> bool) \<Rightarrow> nat" where
  "sort_Search n f = sort_Search_loop f 0 n"

lemma sort_Search_loop_correct:
  "i \<le> k \<Longrightarrow> k \<le> j \<Longrightarrow> (\<And>a. i \<le> a \<Longrightarrow> a < j \<Longrightarrow> f a \<longleftrightarrow> k \<le> a) \<Longrightarrow> sort_Search_loop f i j = k"
proof (induction f i j rule: sort_Search_loop.induct)
  case (1 f i j)
  show ?case
  proof (cases "i < j")
    case True
    define h where "h = (i + j) div 2"
    from True have h: "i \<le> h" "h < j" by (auto simp: h_def)
    with "1.prems"(3) have "f h \<longleftrightarrow> k \<le> h" by simp
    then show ?thesis
      using "1.IH" [OF True h_def] "1.prems" h
      by (subst sort_Search_loop.simps) (auto simp: h_def [symmetric] Let_def True)
  qed (use "1.prems" in \<open>simp add: sort_Search_loop.simps\<close>)
qed

lemma sort_Search_correct:
  "k \<le> n \<Longrightarrow> (\<And>a. a < n \<Longrightarrow> f a \<longleftrightarrow> k \<le> a) \<Longrightarrow> sort_Search n f = k"
  unfolding sort_Search_def by (rule sort_Search_loop_correct) simp_all

lemma sort_Search_le: "sort_Search n f \<le> n"
proof -
  have "i \<le> j \<Longrightarrow> sort_Search_loop f i j \<le> j" for i j
  proof (induction f i j rule: sort_Search_loop.induct)
    case (1 f i j)
    show ?case
    proof (cases "i < j")
      case True
      then have "i \<le> (i + j) div 2" "(i + j) div 2 < j" by auto
      with "1.IH" [OF True refl] show ?thesis
        by (subst sort_Search_loop.simps) (auto simp: Let_def intro: order_trans)
    qed (use 1 in \<open>simp add: sort_Search_loop.simps\<close>)
  qed
  then show ?thesis by (simp add: sort_Search_def)
qed

text \<open>Searching a strictly increasing sequence for one of its elements.\<close>

lemma sort_Search_sorted:
  assumes "sorted_wrt (<) (map key xs)" "k < length xs"
  shows "sort_Search (length xs) (\<lambda>i. key (xs ! i) \<ge> (key (xs ! k) :: 'a::linorder)) = k"
proof (rule sort_Search_correct)
  fix a
  assume a: "a < length xs"
  have lt: "key (xs ! i) < key (xs ! j)" if "i < j" "j < length xs" for i j
    using assms(1) that by (simp add: sorted_wrt_iff_nth_less)
  show "key (xs ! k) \<le> key (xs ! a) \<longleftrightarrow> k \<le> a"
    using lt [of a k] lt [of k a] a assms(2) by (cases a k rule: linorder_cases) auto
qed (use assms in simp)

end
