(* ===== verification/Rlp.thy ===== *)
theory Rlp
imports Geth_Prelude
begin

text \<open>
  The serialization format RLP (\<^verbatim>\<open>rlp/encode.go\<close>, \<^verbatim>\<open>rlp/encbuffer.go\<close>, \<^verbatim>\<open>rlp/raw.go\<close>, \<^verbatim>\<open>rlp/iterator.go\<close>): the
  buffer that encodes values, with its list headers kept apart from the data until the end,
  and the functions that take encoded data apart. The lengths of slices, an \<^verbatim>\<open>int\<close> in the source,
  are natural numbers here.
\<close>

subsection \<open>Sizes and headers\<close>

definition byte_at :: "u64 \<Rightarrow> nat \<Rightarrow> u8" where
  "byte_at i n = ucast (drop_bit n i)"

text \<open>The bytes that \<^verbatim>\<open>putint\<close> writes.\<close>

definition putint :: "u64 \<Rightarrow> bytes" where
  "putint i =
     (if i < 0x100 then [byte_at i 0]
      else if i < 0x10000 then [byte_at i 8, byte_at i 0]
      else if i < 0x1000000 then [byte_at i 16, byte_at i 8, byte_at i 0]
      else if i < 0x100000000 then [byte_at i 24, byte_at i 16, byte_at i 8, byte_at i 0]
      else if i < 0x10000000000 then [byte_at i 32, byte_at i 24, byte_at i 16, byte_at i 8, byte_at i 0]
      else if i < 0x1000000000000 then
        [byte_at i 40, byte_at i 32, byte_at i 24, byte_at i 16, byte_at i 8, byte_at i 0]
      else if i < 0x100000000000000 then
        [byte_at i 48, byte_at i 40, byte_at i 32, byte_at i 24, byte_at i 16, byte_at i 8, byte_at i 0]
      else [byte_at i 56, byte_at i 48, byte_at i 40, byte_at i 32, byte_at i 24, byte_at i 16, byte_at i 8, byte_at i 0])"

definition intsize :: "u64 \<Rightarrow> nat" where
  "intsize i = (if i = 0 then 1 else (bitlen (uint i) + 7) div 8)"

definition headsize :: "u64 \<Rightarrow> nat" where
  "headsize sz = (if sz < 56 then 1 else 1 + intsize sz)"

text \<open>The bytes that \<^verbatim>\<open>puthead\<close> writes.\<close>

definition puthead :: "u8 \<Rightarrow> u8 \<Rightarrow> u64 \<Rightarrow> bytes" where
  "puthead smalltag largetag sz =
     (if sz < 56 then [smalltag + ucast sz]
      else (largetag + word_of_nat (length (putint sz))) # putint sz)"

subsection \<open>The encoder buffer\<close>

record listhead =
  lh_offset :: nat
  lh_size :: nat

record encBuffer =
  eb_str :: bytes
  eb_lheads :: "listhead list"
  eb_lhsize :: nat

definition eb_reset :: encBuffer where
  "eb_reset = \<lparr>eb_str = [], eb_lheads = [], eb_lhsize = 0\<rparr>"

definition eb_size :: "encBuffer \<Rightarrow> nat" where
  "eb_size buf = length (eb_str buf) + eb_lhsize buf"

definition lh_encode :: "listhead \<Rightarrow> bytes" where
  "lh_encode h = puthead 0xC0 0xF7 (word_of_nat (lh_size h))"

text \<open>The loop of \<^verbatim>\<open>copyTo\<close>: what it writes, from the position \<open>strpos\<close> of the data on.\<close>

fun copyTo :: "bytes \<Rightarrow> nat \<Rightarrow> listhead list \<Rightarrow> bytes" where
  "copyTo str strpos [] = drop strpos str"
| "copyTo str strpos (h # hs) =
     take (lh_offset h - strpos) (drop strpos str) @ lh_encode h @ copyTo str (lh_offset h) hs"

definition makeBytes :: "encBuffer \<Rightarrow> bytes" where
  "makeBytes buf = copyTo (eb_str buf) 0 (eb_lheads buf)"

definition eb_Write :: "bytes \<Rightarrow> encBuffer \<Rightarrow> encBuffer" where
  "eb_Write b buf = buf\<lparr>eb_str := eb_str buf @ b\<rparr>"

definition writeBool :: "bool \<Rightarrow> encBuffer \<Rightarrow> encBuffer" where
  "writeBool b = eb_Write [if b then 0x01 else 0x80]"

definition writeUint64 :: "u64 \<Rightarrow> encBuffer \<Rightarrow> encBuffer" where
  "writeUint64 i =
     (if i = 0 then eb_Write [0x80]
      else if i < 128 then eb_Write [ucast i]
      else eb_Write ((0x80 + word_of_nat (length (putint i))) # putint i))"

definition encodeStringHeader :: "nat \<Rightarrow> encBuffer \<Rightarrow> encBuffer" where
  "encodeStringHeader sz =
     (if sz < 56 then eb_Write [0x80 + word_of_nat sz]
      else eb_Write ((0xB7 + word_of_nat (length (putint (word_of_nat sz)))) # putint (word_of_nat sz)))"

definition writeBytes :: "bytes \<Rightarrow> encBuffer \<Rightarrow> encBuffer" where
  "writeBytes b buf =
     (if length b = 1 \<and> b ! 0 \<le> 0x7F then eb_Write [b ! 0] buf
      else eb_Write b (encodeStringHeader (length b) buf))"

text \<open>\<^verbatim>\<open>math.ReadBits\<close>: the absolute value in big-endian order, in as many bytes as there is room.\<close>

definition ReadBits :: "nat \<Rightarrow> int \<Rightarrow> bytes" where
  "ReadBits n i = rev (map (\<lambda>k. word_of_int (\<bar>i\<bar> div 2 ^ (8 * k))) [0..<n])"

definition writeBigInt :: "int \<Rightarrow> encBuffer \<Rightarrow> encBuffer" where
  "writeBigInt i buf =
     (let bl = bitlen \<bar>i\<bar> in
      if bl \<le> 64 then writeUint64 (word_of_int \<bar>i\<bar>) buf
      else let n = (bl + 7) div 8 in eb_Write (ReadBits n i) (encodeStringHeader n buf))"

definition writeUint256 :: "u256 \<Rightarrow> encBuffer \<Rightarrow> encBuffer" where
  "writeUint256 z =
     (let bl = bitlen (uint z) in
      if bl \<le> 64 then writeUint64 (ucast z)
      else let nBytes = (bl + 7) div 8
           in eb_Write ((0x80 + word_of_nat nBytes) # drop (32 - nBytes) (be_bytes 32 z)))"

definition eb_list :: "encBuffer \<Rightarrow> nat \<times> encBuffer" where
  "eb_list buf =
     (length (eb_lheads buf),
      buf\<lparr>eb_lheads := eb_lheads buf @ [\<lparr>lh_offset = length (eb_str buf), lh_size = eb_lhsize buf\<rparr>]\<rparr>)"

definition listEnd :: "nat \<Rightarrow> encBuffer \<Rightarrow> encBuffer" where
  "listEnd index buf =
     (let lh = eb_lheads buf ! index;
          sz = eb_size buf - lh_offset lh - lh_size lh;
          buf = buf\<lparr>eb_lheads := (eb_lheads buf)[index := lh\<lparr>lh_size := sz\<rparr>]\<rparr>
      in if sz < 56 then buf\<lparr>eb_lhsize := eb_lhsize buf + 1\<rparr>
         else buf\<lparr>eb_lhsize := eb_lhsize buf + 1 + intsize (word_of_nat sz)\<rparr>)"

text \<open>
  The values that the writers for Go types take apart by reflection: the scalar types, and
  lists for slices and structures. A slice without elements is written without a header.
\<close>

datatype rlp_value =
    VBytes bytes
  | VUint u64
  | VBool bool
  | VBig int
  | VU256 u256
  | VStruct "rlp_value list"
  | VSlice "rlp_value list"

text \<open>\<open>None\<close> is the error \<^verbatim>\<open>ErrNegativeBigInt\<close>.\<close>

fun write_value :: "rlp_value \<Rightarrow> encBuffer \<Rightarrow> encBuffer option"
and write_values :: "rlp_value list \<Rightarrow> encBuffer \<Rightarrow> encBuffer option" where
  "write_value (VBytes b) buf = Some (writeBytes b buf)"
| "write_value (VUint i) buf = Some (writeUint64 i buf)"
| "write_value (VBool b) buf = Some (writeBool b buf)"
| "write_value (VBig i) buf = (if i < 0 then None else Some (writeBigInt i buf))"
| "write_value (VU256 z) buf = Some (writeUint256 z buf)"
| "write_value (VStruct vs) buf =
     (case eb_list buf of (lh, buf) \<Rightarrow> map_option (listEnd lh) (write_values vs buf))"
| "write_value (VSlice vs) buf =
     (if vs = [] then Some (eb_Write [0xC0] buf)
      else case eb_list buf of (lh, buf) \<Rightarrow> map_option (listEnd lh) (write_values vs buf))"
| "write_values [] buf = Some buf"
| "write_values (v # vs) buf = (case write_value v buf of None \<Rightarrow> None | Some buf \<Rightarrow> write_values vs buf)"

definition EncodeToBytes :: "rlp_value \<Rightarrow> bytes option" where
  "EncodeToBytes v = map_option makeBytes (write_value v eb_reset)"

subsection \<open>Taking encoded data apart\<close>

datatype Kind = Byte | String | List

datatype rlp_error =
    ErrUnexpectedEOF
  | ErrExpectedString
  | ErrExpectedList
  | ErrCanonInt
  | ErrCanonSize
  | ErrValueTooLarge
  | errUintOverflow

definition StringSize :: "bytes \<Rightarrow> nat" where
  "StringSize s =
     (if length s = 0 then 1
      else if length s = 1 then if s ! 0 \<le> 0x7F then 1 else 2
      else headsize (word_of_nat (length s)) + length s)"

definition ListSize :: "u64 \<Rightarrow> u64" where
  "ListSize contentSize = word_of_nat (headsize contentSize) + contentSize"

definition IntSize :: "u64 \<Rightarrow> nat" where
  "IntSize x = (if x < 0x80 then 1 else 1 + intsize x)"

definition readSize :: "bytes \<Rightarrow> nat \<Rightarrow> rlp_error + u64" where
  "readSize b slen =
     (if slen > length b then Inl ErrUnexpectedEOF
      else let s = be_word (take slen b) in
        if s < 56 \<or> b ! 0 = 0 then Inl ErrCanonSize else Inr s)"

definition readKind :: "bytes \<Rightarrow> rlp_error + Kind \<times> u64 \<times> u64" where
  "readKind buf =
     (if buf = [] then Inl ErrUnexpectedEOF
      else
        let b = buf ! 0;
            r = (if b < 0x80 then Inr (Byte, 0, 1)
                 else if b < 0xB8 then
                   let contentsize = ucast (b - 0x80)
                   in if contentsize = 1 \<and> length buf > 1 \<and> buf ! 1 < 128 then Inl ErrCanonSize
                      else Inr (String, 1, contentsize)
                 else if b < 0xC0 then
                   (case readSize (drop 1 buf) (unat (b - 0xB7)) of
                      Inl e \<Rightarrow> Inl e
                    | Inr s \<Rightarrow> Inr (String, ucast (b - 0xB7) + 1, s))
                 else if b < 0xF8 then Inr (List, 1, ucast (b - 0xC0))
                 else
                   (case readSize (drop 1 buf) (unat (b - 0xF7)) of
                      Inl e \<Rightarrow> Inl e
                    | Inr s \<Rightarrow> Inr (List, ucast (b - 0xF7) + 1, s)))
        in case r of
             Inl e \<Rightarrow> Inl e
           | Inr (k, tagsize, contentsize) \<Rightarrow>
               if contentsize > word_of_nat (length buf) - tagsize then Inl ErrValueTooLarge
               else Inr (k, tagsize, contentsize))"

text \<open>The results of the functions below are in the order of the source, without the rest in the error case.\<close>

definition Split :: "bytes \<Rightarrow> rlp_error + Kind \<times> bytes \<times> bytes" where
  "Split b =
     (case readKind b of
        Inl e \<Rightarrow> Inl e
      | Inr (k, ts, cs) \<Rightarrow> Inr (k, take (unat cs) (drop (unat ts) b), drop (unat (ts + cs)) b))"

definition SplitString :: "bytes \<Rightarrow> rlp_error + bytes \<times> bytes" where
  "SplitString b =
     (case Split b of
        Inl e \<Rightarrow> Inl e
      | Inr (k, content, rest) \<Rightarrow> if k = List then Inl ErrExpectedString else Inr (content, rest))"

definition SplitUint64 :: "bytes \<Rightarrow> rlp_error + u64 \<times> bytes" where
  "SplitUint64 b =
     (case SplitString b of
        Inl e \<Rightarrow> Inl e
      | Inr (content, rest) \<Rightarrow>
          let n = length content in
          if n = 0 then Inr (0, rest)
          else if n = 1 then if content ! 0 = 0 then Inl ErrCanonInt else Inr (ucast (content ! 0), rest)
          else if n > 8 then Inl errUintOverflow
          else (case readSize content n of Inl _ \<Rightarrow> Inl ErrCanonInt | Inr x \<Rightarrow> Inr (x, rest)))"

definition SplitList :: "bytes \<Rightarrow> rlp_error + bytes \<times> bytes" where
  "SplitList b =
     (case Split b of
        Inl e \<Rightarrow> Inl e
      | Inr (k, content, rest) \<Rightarrow> if k \<noteq> List then Inl ErrExpectedList else Inr (content, rest))"

definition AppendUint64 :: "bytes \<Rightarrow> u64 \<Rightarrow> bytes" where
  "AppendUint64 b i =
     (if i = 0 then b @ [0x80]
      else if i < 128 then b @ [byte_at i 0]
      else if i < 0x100 then b @ [0x81, byte_at i 0]
      else if i < 0x10000 then b @ [0x82, byte_at i 8, byte_at i 0]
      else if i < 0x1000000 then b @ [0x83, byte_at i 16, byte_at i 8, byte_at i 0]
      else if i < 0x100000000 then b @ [0x84, byte_at i 24, byte_at i 16, byte_at i 8, byte_at i 0]
      else if i < 0x10000000000 then b @ [0x85, byte_at i 32, byte_at i 24, byte_at i 16, byte_at i 8, byte_at i 0]
      else if i < 0x1000000000000 then
        b @ [0x86, byte_at i 40, byte_at i 32, byte_at i 24, byte_at i 16, byte_at i 8, byte_at i 0]
      else if i < 0x100000000000000 then
        b @ [0x87, byte_at i 48, byte_at i 40, byte_at i 32, byte_at i 24, byte_at i 16, byte_at i 8, byte_at i 0]
      else b @ [0x88, byte_at i 56, byte_at i 48, byte_at i 40, byte_at i 32, byte_at i 24, byte_at i 16, byte_at i 8,
                byte_at i 0])"

text \<open>
  A loop that does not end is \<open>None\<close>: each round drops the value it has found, and that this is
  progress is a theorem below.
\<close>

partial_function (option) CountValues_loop :: "bytes \<Rightarrow> nat \<Rightarrow> (rlp_error + nat) option" where
  "CountValues_loop b i =
     (if b = [] then Some (Inr i)
      else case readKind b of
             Inl e \<Rightarrow> Some (Inl e)
           | Inr (k, tagsize, sz) \<Rightarrow> CountValues_loop (drop (unat (tagsize + sz)) b) (i + 1))"

definition CountValues :: "bytes \<Rightarrow> (rlp_error + nat) option" where
  "CountValues b = CountValues_loop b 0"

record listIterator =
  it_data :: bytes
  it_next :: bytes
  it_err :: "rlp_error option"

definition NewListIterator :: "bytes \<Rightarrow> rlp_error + listIterator" where
  "NewListIterator data =
     (case readKind data of
        Inl e \<Rightarrow> Inl e
      | Inr (k, t, c) \<Rightarrow>
          if k \<noteq> List then Inl ErrExpectedList
          else Inr \<lparr>it_data = take (unat c) (drop (unat t) data), it_next = [], it_err = None\<rparr>)"

definition it_Next :: "listIterator \<Rightarrow> bool \<times> listIterator" where
  "it_Next it =
     (if it_data it = [] then (False, it)
      else case readKind (it_data it) of
             Inl e \<Rightarrow> (True, it\<lparr>it_next := [], it_err := Some e\<rparr>)
           | Inr (_, t, c) \<Rightarrow>
               (True, it\<lparr>it_next := take (unat (t + c)) (it_data it), it_data := drop (unat (t + c)) (it_data it),
                        it_err := None\<rparr>))"

subsection \<open>Sizes of integers\<close>

lemma intsize_bounds:
  assumes "i \<noteq> 0"
  shows "1 \<le> intsize i" "intsize i \<le> 8" "2 ^ (8 * (intsize i - 1)) \<le> uint i" "uint i < 2 ^ (8 * intsize i)"
proof -
  let ?l = "bitlen (uint i)"
  have i: "0 < uint i" using assms uint_ge_0 [of i] by (metis less_le uint_0_iff)
  from bitlen_bounds [OF i] have l: "0 < ?l" "2 ^ (?l - 1) \<le> uint i" "uint i < 2 ^ ?l" by auto
  have k: "intsize i = (?l + 7) div 8" using assms by (simp add: intsize_def)
  show 1: "1 \<le> intsize i" using l(1) k by linarith
  have "8 * (intsize i - 1) \<le> ?l - 1" "?l \<le> 8 * intsize i" using l(1) k by linarith+
  then have "(2 :: int) ^ (8 * (intsize i - 1)) \<le> 2 ^ (?l - 1)" "(2 :: int) ^ ?l \<le> 2 ^ (8 * intsize i)"
    by (simp_all add: power_increasing)
  with l show lower: "2 ^ (8 * (intsize i - 1)) \<le> uint i" and "uint i < 2 ^ (8 * intsize i)" by linarith+
  have "uint i < 2 ^ 64" using uint_bounded [of i] by simp
  with lower have "(2 :: int) ^ (8 * (intsize i - 1)) < 2 ^ 64" by linarith
  then have "8 * (intsize i - 1) < 64" by (simp only: power_strict_increasing_iff)
  then show "intsize i \<le> 8" by linarith
qed

lemma intsize_unique:
  assumes "2 ^ (8 * (k - 1)) \<le> uint i" "uint i < 2 ^ (8 * k)" "1 \<le> k"
  shows "intsize i = k"
proof -
  have "i \<noteq> 0" using assms(1) by auto
  note b = intsize_bounds [OF this]
  have "(2 :: int) ^ (8 * (intsize i - 1)) < 2 ^ (8 * k)" "(2 :: int) ^ (8 * (k - 1)) < 2 ^ (8 * intsize i)"
    using b(3,4) assms(1,2) by linarith+
  then have "8 * (intsize i - 1) < 8 * k" "8 * (k - 1) < 8 * intsize i" by (simp_all only: power_strict_increasing_iff)
  with b(1) assms(3) show ?thesis by linarith
qed

lemma be_bytes_list:
  "be_bytes 1 i = [byte_at i 0]"
  "be_bytes 2 i = [byte_at i 8, byte_at i 0]"
  "be_bytes 3 i = [byte_at i 16, byte_at i 8, byte_at i 0]"
  "be_bytes 4 i = [byte_at i 24, byte_at i 16, byte_at i 8, byte_at i 0]"
  "be_bytes 5 i = [byte_at i 32, byte_at i 24, byte_at i 16, byte_at i 8, byte_at i 0]"
  "be_bytes 6 i = [byte_at i 40, byte_at i 32, byte_at i 24, byte_at i 16, byte_at i 8, byte_at i 0]"
  "be_bytes 7 i = [byte_at i 48, byte_at i 40, byte_at i 32, byte_at i 24, byte_at i 16, byte_at i 8, byte_at i 0]"
  "be_bytes 8 i =
     [byte_at i 56, byte_at i 48, byte_at i 40, byte_at i 32, byte_at i 24, byte_at i 16, byte_at i 8, byte_at i 0]"
  by (simp_all add: be_bytes_def byte_at_def upt_rec)

lemma putint_eq: "putint i = be_bytes (intsize i) i"
proof -
  have k: "2 ^ (8 * (k - 1)) \<le> uint i \<Longrightarrow> uint i < 2 ^ (8 * k) \<Longrightarrow> 1 \<le> k \<Longrightarrow> intsize i = k" for k
    by (rule intsize_unique)
  have pos: "i \<noteq> 0 \<Longrightarrow> 1 \<le> uint i" using uint_ge_0 [of i] by (metis int_one_le_iff_zero_less less_le uint_0_iff)
  consider "i = 0" | "i \<noteq> 0" "uint i < 0x100" | "0x100 \<le> uint i" "uint i < 0x10000" | "0x10000 \<le> uint i" "uint i < 0x1000000"
    | "0x1000000 \<le> uint i" "uint i < 0x100000000" | "0x100000000 \<le> uint i" "uint i < 0x10000000000"
    | "0x10000000000 \<le> uint i" "uint i < 0x1000000000000" | "0x1000000000000 \<le> uint i" "uint i < 0x100000000000000"
    | "0x100000000000000 \<le> uint i" by linarith
  then show ?thesis
    using k [of 1] k [of 2] k [of 3] k [of 4] k [of 5] k [of 6] k [of 7] k [of 8] uint_bounded [of i] pos
    by cases (simp_all add: putint_def word_less_def be_bytes_list be_bytes_list(1) [unfolded One_nat_def] intsize_def)
qed

lemma length_putint [simp]: "length (putint i) = intsize i"
  by (simp add: putint_eq)

lemma intsize_pos [simp]: "0 < intsize i" "intsize i \<noteq> 0" "intsize i \<le> 8"
  using intsize_bounds(1,2) [of i] by (cases "i = 0"; simp add: intsize_def)+

lemma be_word_putint: "be_word (putint i) = i"
  using intsize_bounds(4) [of i] by (cases "i = 0") (simp_all add: putint_eq be_word_be_bytes_small)

lemma uint_ge_bit: "bit (x :: 'a::len word) n \<Longrightarrow> 2 ^ n \<le> uint x"
proof -
  assume "bit x n"
  then have "bit (uint x) n" using bit_imp_le_length [of x n] by (simp add: bit_uint_iff)
  then have "odd (uint x div 2 ^ n)" by (simp add: bit_iff_odd)
  then have "uint x div 2 ^ n \<noteq> 0" by (metis even_zero)
  then show ?thesis 
    using div_pos_pos_trivial [OF uint_ge_0, of x "2 ^ n"] by (cases "uint x < 2 ^ n") simp_all
qed

lemma int_div_less: "(0 :: int) < d \<Longrightarrow> x < e * d \<Longrightarrow> x div d < e"
  using div_mult_mod_eq [of x d] pos_mod_sign [of d x] mult_right_mono [of e "x div d" d] by (cases "x div d < e") linarith+

lemma uint_drop_bit: "uint (drop_bit n (x :: 'a::len word)) = uint x div 2 ^ n"
  unfolding drop_bit_eq_div [of _ "uint x", symmetric]
  by (rule bit_eqI) (auto simp: bit_uint_iff bit_drop_bit_eq dest: bit_imp_le_length)

lemma putint_hd: "i \<noteq> 0 \<Longrightarrow> putint i ! 0 \<noteq> 0"
proof
  assume i: "i \<noteq> 0" and "putint i ! 0 = 0"
  let ?n = "8 * (intsize i - 1)"
  have "putint i ! 0 = rev (putint i) ! (intsize i - 1)" by (simp add: rev_nth)
  then have z: "(ucast (drop_bit ?n i) :: u8) = 0" using \<open>putint i ! 0 = 0\<close> by (simp add: putint_eq be_bytes_nth)
  have "?n + 8 = 8 * intsize i" using intsize_bounds(1) [OF i] by linarith
  then have "uint i < 2 ^ ?n * 2 ^ 8" using intsize_bounds(4) [OF i] by (metis power_add)
  then have "uint i div 2 ^ ?n < 2 ^ 8" by (intro int_div_less) (simp_all only: mult.commute zero_less_power zero_less_numeral)
  moreover have "uint (drop_bit ?n i) = uint i div 2 ^ ?n" by (rule uint_drop_bit)
  ultimately have "uint (ucast (drop_bit ?n i) :: u8) = uint i div 2 ^ ?n"
    by (simp add: unsigned_ucast_eq take_bit_eq_mod mod_pos_pos_trivial pos_imp_zdiv_nonneg_iff)
  with z have "uint i div 2 ^ ?n = 0" by simp
  with intsize_bounds(3) [OF i] show False
    using zdiv_mono1 [of "2 ^ ?n" "uint i" "2 ^ ?n"] by simp
qed

lemma putint_be_word:
  assumes "bs \<noteq> []" "length bs \<le> 8" "bs ! 0 \<noteq> 0"
  shows "putint (be_word bs) = bs" "intsize (be_word bs) = length bs"
proof -
  let ?x = "be_word bs :: u64" and ?n = "length bs"
  have "\<exists>j. bit (bs ! 0) j" using assms(3) by (auto intro: bit_word_eqI)
  then obtain j where j: "bit (bs ! 0) j" "j < 8" using bit_imp_le_length [of "bs ! 0"] by auto
  have "rev bs ! (?n - 1) = bs ! 0" using assms(1) by (simp add: rev_nth)
  then have "bit ?x (8 * (?n - 1) + j)" using j assms(1,2) by (auto simp: bit_be_word)
  then have "2 ^ (8 * (?n - 1) + j) \<le> uint ?x" by (rule uint_ge_bit)
  moreover have "(2 :: int) ^ (8 * (?n - 1)) \<le> 2 ^ (8 * (?n - 1) + j)" by (rule power_increasing) simp_all
  ultimately have lower: "2 ^ (8 * (?n - 1)) \<le> uint ?x" by linarith
  have "\<not> bit ?x i" if "8 * ?n \<le> i" for i using that by (auto simp: bit_be_word)
  then have "take_bit (8 * ?n) (uint ?x) = uint ?x"
    by (intro bit_eqI) (auto simp: bit_take_bit_iff bit_uint_iff intro: leI)
  then have upper: "uint ?x < 2 ^ (8 * ?n)" by (metis take_bit_int_less_exp)
  show size: "intsize ?x = ?n" using lower upper assms(1) by (intro intsize_unique) (auto simp: Suc_le_eq)
  show "putint ?x = bs" using assms(2) by (simp add: putint_eq size be_bytes_be_word)
qed

lemma readSize_putint: "56 \<le> s \<Longrightarrow> readSize (putint s @ rest) (intsize s) = Inr s"
  using putint_hd [of s] by (cases "s = 0") (auto simp: readSize_def Let_def be_word_putint nth_append not_less)

lemma readSizeD:
  assumes "readSize b n = Inr s" "n \<le> 8" "0 < n"
  shows "n \<le> length b" "putint s = take n b" "intsize s = n" "56 \<le> s"
proof -
  from assms show n: "n \<le> length b" and s: "56 \<le> s" by (auto simp: readSize_def Let_def split: if_splits)
  from assms(1) have "s = be_word (take n b)" "b ! 0 \<noteq> 0" by (auto simp: readSize_def Let_def split: if_splits)
  with n assms(2,3) putint_be_word [of "take n b"] show "putint s = take n b" "intsize s = n"
    by (cases b; auto)+
qed

subsection \<open>Headers\<close>

lemma tag_small:
  assumes "n < (56 :: u64)" "t \<in> {0x80, 0xC0}"
  shows "unat (t + ucast n :: u8) = unat t + unat n" "ucast (t + ucast n - t :: u8) = n"
proof -
  have n: "unat n < 56" using assms(1) by (simp add: word_less_nat_alt)
  then have u: "unat (ucast n :: u8) = unat n" by (simp add: unsigned_ucast_eq unsigned_take_bit_eq take_bit_nat_eq_self)
  with n assms(2) show "unat (t + ucast n :: u8) = unat t + unat n" by (auto simp: unat_add_lem [THEN iffD1])
  have "unat (ucast (ucast n :: u8) :: u64) = unat n" using n u by (simp add: unsigned_ucast_eq unsigned_take_bit_eq take_bit_nat_eq_self)
  then show "ucast (t + ucast n - t :: u8) = n" by (simp add: word_unat_eq_iff)
qed

lemma tag_large:
  assumes "0 < k" "k \<le> 8" "t \<in> {0xB7, 0xF7}"
  shows "unat (t + word_of_nat k :: u8) = unat t + k" "unat (t + word_of_nat k - t :: u8) = k"
    "(ucast (t + word_of_nat k - t :: u8) :: u64) = word_of_nat k"
proof -
  have u: "unat (word_of_nat k :: u8) = k" using assms(2) by (simp add: unat_of_nat)
  with assms(2,3) show "unat (t + word_of_nat k :: u8) = unat t + k" by (auto simp: unat_add_lem [THEN iffD1])
  show k: "unat (t + word_of_nat k - t :: u8) = k" using u by simp
  then have "unat (ucast (t + word_of_nat k - t :: u8) :: u64) = k"
    using assms(2) by (simp add: unsigned_ucast_eq unsigned_take_bit_eq take_bit_nat_eq_self)
  then show "(ucast (t + word_of_nat k - t :: u8) :: u64) = word_of_nat k"
    using assms(2) by (simp add: word_unat_eq_iff unat_of_nat)
qed

lemma fits_in: "h + c \<le> l \<Longrightarrow> l < 2 ^ 64 \<Longrightarrow> (word_of_nat c :: u64) \<le> word_of_nat l - word_of_nat h"
  by (simp add: word_le_nat_alt unat_of_nat flip: of_nat_diff)

lemma length_puthead [simp]: "length (puthead st lt n) = headsize n"
  by (simp add: puthead_def headsize_def)

lemma headsize_bounds: "0 < headsize n" "headsize n \<le> 9"
  using intsize_pos [of n] by (auto simp: headsize_def)

text \<open>A single byte below 128 is its own encoding.\<close>

definition single :: "bytes \<Rightarrow> bool" where
  "single b \<longleftrightarrow> length b = 1 \<and> b ! 0 \<le> 0x7F"

lemma readKind_string:
  assumes "length (puthead 0x80 0xB7 (word_of_nat (length c)) @ c @ rest) < 2 ^ 64" "\<not> single c"
  shows "readKind (puthead 0x80 0xB7 (word_of_nat (length c)) @ c @ rest) =
    Inr (String, word_of_nat (headsize (word_of_nat (length c))), word_of_nat (length c))"
proof -
  let ?n = "word_of_nat (length c) :: u64"
  let ?b = "puthead 0x80 0xB7 ?n @ c @ rest"
  have n: "unat ?n = length c" using assms(1) by (simp add: unat_of_nat)
  have "?n \<le> word_of_nat (length ?b) - word_of_nat (headsize ?n)" by (rule fits_in) (use assms(1) in simp_all)
  then have fits: "\<not> word_of_nat (length ?b) - word_of_nat (headsize ?n) < ?n" by simp
  show ?thesis
  proof (cases "?n < 56")
    case True
    note t = tag_small [where t = "0x80", OF this, simplified]
    have "length c = 1 \<Longrightarrow> \<not> c ! 0 < 128" using assms(2) by (auto simp: single_def word_less_nat_alt word_le_nat_alt)
    then have "\<not> (?n = 1 \<and> length ?b > 1 \<and> ?b ! 1 < 128)"
      using n True by (auto simp: puthead_def nth_append word_unat_eq_iff)
    moreover let ?t = "0x80 + ucast ?n :: u8"
    have "\<not> ?t < 0x80" "?t < 0xB8" using t(1) True by (simp_all add: word_less_nat_alt)
    ultimately show ?thesis using True t fits
      by (auto simp: readKind_def puthead_def Let_def headsize_def)
  next
    case False
    note t = tag_large [where k = "intsize ?n" and t = "0xB7", simplified]
    let ?t = "0xB7 + word_of_nat (intsize ?n) :: u8"
    have "\<not> ?t < 0x80" "\<not> ?t < 0xB8" "?t < 0xC0"
      using t(1) by (simp_all add: word_less_nat_alt order.strict_trans1 [OF intsize_pos(3)])
    moreover have "readSize (putint ?n @ c @ rest) (intsize ?n) = Inr ?n"
      using False by (simp add: readSize_putint not_less)
    ultimately show ?thesis using False t fits
      by (simp add: readKind_def puthead_def Let_def headsize_def add.commute)
  qed
qed

lemma readKind_list:
  assumes "length (puthead 0xC0 0xF7 (word_of_nat (length c)) @ c @ rest) < 2 ^ 64"
  shows "readKind (puthead 0xC0 0xF7 (word_of_nat (length c)) @ c @ rest) =
    Inr (List, word_of_nat (headsize (word_of_nat (length c))), word_of_nat (length c))"
proof -
  let ?n = "word_of_nat (length c) :: u64"
  let ?b = "puthead 0xC0 0xF7 ?n @ c @ rest"
  have n: "unat ?n = length c" using assms(1) by (simp add: unat_of_nat)
  have "?n \<le> word_of_nat (length ?b) - word_of_nat (headsize ?n)" by (rule fits_in) (use assms(1) in simp_all)
  then have fits: "\<not> word_of_nat (length ?b) - word_of_nat (headsize ?n) < ?n" by simp
  show ?thesis
  proof (cases "?n < 56")
    case True
    note t = tag_small [where t = "0xC0", OF this, simplified]
    let ?t = "0xC0 + ucast ?n :: u8"
    have "\<not> ?t < 0x80" "\<not> ?t < 0xB8" "\<not> ?t < 0xC0" "?t < 0xF8"
      using t(1) True by (simp_all add: word_less_nat_alt)
    with True t fits show ?thesis
      by (simp add: readKind_def puthead_def Let_def headsize_def)
  next
    case False
    note t = tag_large [where k = "intsize ?n" and t = "0xF7", simplified]
    let ?t = "0xF7 + word_of_nat (intsize ?n) :: u8"
    have "\<not> ?t < 0x80" "\<not> ?t < 0xB8" "\<not> ?t < 0xC0" "\<not> ?t < 0xF8"
      using t(1) intsize_pos(1) [of ?n] by (simp_all add: word_less_nat_alt Suc_le_eq less_Suc_eq_le)
    moreover have "readSize (putint ?n @ c @ rest) (intsize ?n) = Inr ?n"
      using False by (simp add: readSize_putint not_less)
    ultimately show ?thesis using False t fits
      by (simp add: readKind_def puthead_def Let_def headsize_def add.commute)
  qed
qed

lemma readKind_single: "single c \<Longrightarrow> length (c @ rest) < 2 ^ 64 \<Longrightarrow> readKind (c @ rest) = Inr (Byte, 0, 1)"
  using fits_in [of 0 1 "length (c @ rest)"]
  by (auto simp: single_def readKind_def Let_def nth_append word_less_nat_alt word_le_nat_alt not_less)

text \<open>What the header was when \<^verbatim>\<open>readKind\<close> accepts the data.\<close>

lemma sub_tag: "(b :: u8) - t = word_of_nat k \<Longrightarrow> b = t + word_of_nat k"
  by (metis add.commute diff_add_cancel)

definition header_of :: "Kind \<Rightarrow> u64 \<Rightarrow> bytes" where
  "header_of k n = (case k of Byte \<Rightarrow> [] | String \<Rightarrow> puthead 0x80 0xB7 n | List \<Rightarrow> puthead 0xC0 0xF7 n)"

lemma ucast_back: "ucast (ucast (b :: u8) :: u64) = b"
  by (simp add: word_unat_eq_iff unsigned_ucast_eq unsigned_take_bit_eq take_bit_nat_eq_self
      order.strict_trans [OF unsigned_less [of b]])

lemma small_header:
  assumes "t \<in> {0x80, 0xC0}" "t \<le> b" "b < t + 56"
  shows "puthead t lt (ucast (b - t :: u8)) = [b]" "headsize (ucast (b - t)) = 1"
proof -
  have "unat (b - t) < 56" using assms by (auto simp: unat_sub word_less_nat_alt word_le_nat_alt)
  then have "unat (ucast (b - t) :: u64) < 56" by (simp add: unsigned_ucast_eq unsigned_take_bit_eq take_bit_nat_eq_self)
  then have s: "(ucast (b - t) :: u64) < 56" by (simp add: word_less_nat_alt)
  then show "headsize (ucast (b - t)) = 1" by (simp add: headsize_def)
  from s show "puthead t lt (ucast (b - t :: u8)) = [b]" by (simp add: puthead_def ucast_back)
qed

lemma large_header:
  assumes "t \<in> {0xB7, 0xF7}" "t < b" "b \<le> t + 8" "readSize bs (unat (b - t)) = Inr n"
  shows "puthead st t n = b # take (unat (b - t)) bs" "headsize n = 1 + unat (b - t)" "unat (b - t) \<le> length bs"
proof -
  have k: "0 < unat (b - t)" "unat (b - t) \<le> 8" using assms(1-3) by (auto simp: unat_sub word_less_nat_alt word_le_nat_alt)
  note s = readSizeD [OF assms(4) k(2,1)]
  from s k show "puthead st t n = b # take (unat (b - t)) bs" by (auto simp: puthead_def)
  from s show "headsize n = 1 + unat (b - t)" "unat (b - t) \<le> length bs" by (auto simp: headsize_def)
qed

lemma fitsD:
  assumes "\<not> word_of_nat l - ts < (cs :: u64)" "unat ts \<le> l" "l < 2 ^ 64"
  shows "unat ts + unat cs \<le> l" "unat (ts + cs) = unat ts + unat cs"
proof -
  have "unat (word_of_nat l - ts :: u64) = l - unat ts"
    using assms(2,3) by (subst unat_sub) (simp_all add: word_le_nat_alt unat_of_nat)
  with assms show s: "unat ts + unat cs \<le> l" by (simp add: word_less_nat_alt)
  with assms(3) show "unat (ts + cs) = unat ts + unat cs" by (simp add: unat_add_lem [THEN iffD1])
qed

lemma large_tag:
  assumes "readSize bs (unat (x - t)) = Inr n" "t \<in> {0xB7, 0xF7}" "t < x" "x \<le> t + 8"
    "ts = ucast (x - t) + (1 :: u64)"
  shows "unat ts = headsize n" "take (unat ts) (x # bs) = puthead st t n" "unat ts \<le> length (x # bs)" "56 \<le> n"
proof -
  note h = large_header [OF assms(2-4,1)]
  have "unat (x - t) \<le> 8" using assms(2-4) by (auto simp: unat_sub word_less_nat_alt word_le_nat_alt)
  then have ts: "unat ts = 1 + unat (x - t)"
    unfolding assms(5) by (simp add: unat_add_lem [THEN iffD1] unsigned_ucast_eq unsigned_take_bit_eq take_bit_nat_eq_self)
  with h show "unat ts = headsize n" "take (unat ts) (x # bs) = puthead st t n" "unat ts \<le> length (x # bs)" by simp_all
  show "56 \<le> n" using assms(1) by (auto simp: readSize_def Let_def split: if_splits)
qed

lemma readKind_cases:
  assumes "readKind (x # bs) = Inr (k, ts, cs)"
  obtains
    (byte) "x < 0x80" "k = Byte" "ts = 0" "cs = 1"
  | (short) "0x80 \<le> x" "x < 0x80 + 56" "k = String" "ts = 1" "cs = ucast (x - 0x80)" "cs = 1 \<longrightarrow> bs \<noteq> [] \<longrightarrow> \<not> bs ! 0 < 128"
  | (long) "0xB7 < x" "x \<le> 0xB7 + 8" "k = String" "ts = ucast (x - 0xB7) + 1" "readSize bs (unat (x - 0xB7)) = Inr cs"
  | (short_list) "0xC0 \<le> x" "x < 0xC0 + 56" "k = List" "ts = 1" "cs = ucast (x - 0xC0)"
  | (long_list) "0xF7 < x" "x \<le> 0xF7 + 8" "k = List" "ts = ucast (x - 0xF7) + 1" "readSize bs (unat (x - 0xF7)) = Inr cs"
  using assms unsigned_less [of x, where 'a = nat]
  by (auto simp: readKind_def Let_def word_less_nat_alt word_le_nat_alt split: if_splits sum.splits prod.splits)

lemma readKind_fits: "readKind b = Inr (k, ts, cs) \<Longrightarrow> \<not> word_of_nat (length b) - ts < cs"
  by (auto simp: readKind_def Let_def split: if_splits sum.splits prod.splits)

lemma readKindD:
  assumes "readKind b = Inr (k, ts, cs)" "length b < 2 ^ 64"
  shows "take (unat ts) b = header_of k cs" "unat ts \<le> length b" "0 < unat ts + unat cs"
    "k = Byte \<Longrightarrow> single (take 1 b) \<and> cs = 1" "k = String \<Longrightarrow> \<not> single (take (unat cs) (drop (unat ts) b))"
proof -
  obtain x bs where b: "b = x # bs" using assms(1) by (cases b) (auto simp: readKind_def)
  from assms(1) [unfolded b] have all: "take (unat ts) b = header_of k cs \<and> unat ts \<le> length b \<and> 0 < unat ts + unat cs \<and>
    (k = Byte \<longrightarrow> single (take 1 b) \<and> cs = 1) \<and> (k = String \<longrightarrow> \<not> single (take (unat cs) (drop (unat ts) b)))"
  proof (cases rule: readKind_cases)
    case byte
    then show ?thesis by (auto simp: b header_of_def single_def word_less_nat_alt word_le_nat_alt)
  next
    case short
    have "\<not> single (take (unat cs) bs)"
    proof
      assume s: "single (take (unat cs) bs)"
      then have "unat cs = 1 \<or> length bs = 1 \<and> 1 < unat cs" by (auto simp: single_def)
      moreover have "\<not> length bs < unat cs"
        using fitsD(1) [OF readKind_fits [OF assms(1)] _ assms(2)] short by (simp add: b)
      ultimately have "cs = 1" by (auto simp: word_unat_eq_iff)
      with s short(6) show False by (auto simp: single_def word_less_nat_alt word_le_nat_alt)
    qed
    with short small_header(1) [of "0x80" x "0xB7"] show ?thesis by (auto simp: b header_of_def)
  next
    case long
    note h = large_tag [OF long(5) _ long(1,2,4)]
    have "56 \<le> unat cs" using h(4) by (simp add: word_le_nat_alt)
    moreover have "unat ts + unat cs \<le> length b"
      using fitsD(1) [OF readKind_fits [OF assms(1)] _ assms(2)] h(3) by (simp add: b)
    ultimately have "\<not> single (take (unat cs) (drop (unat ts) b))" by (auto simp: single_def)
    with h long(3) \<open>56 \<le> unat cs\<close> show ?thesis by (auto simp: b header_of_def)
  next
    case short_list
    with small_header(1) [of "0xC0" x "0xF7"] show ?thesis by (auto simp: b header_of_def)
  next
    case long_list
    note h = large_tag [OF long_list(5) _ long_list(1,2,4)]
    have "56 \<le> unat cs" using h(4) by (simp add: word_le_nat_alt)
    with h long_list(3) show ?thesis by (auto simp: b header_of_def)
  qed
  then show "take (unat ts) b = header_of k cs" "unat ts \<le> length b" "0 < unat ts + unat cs"
    "k = Byte \<Longrightarrow> single (take 1 b) \<and> cs = 1" "k = String \<Longrightarrow> \<not> single (take (unat cs) (drop (unat ts) b))" by auto
qed

lemma header_length: "length (header_of k n) = (if k = Byte then 0 else headsize n)"
  by (cases k) (simp_all add: header_of_def)

text \<open>Accepted data is a header, the content it announces, and the rest.\<close>

lemma SplitD:
  assumes "Split b = Inr (k, c, rest)" "length b < 2 ^ 64"
  shows "b = header_of k (word_of_nat (length c)) @ c @ rest" "single c \<longleftrightarrow> k = Byte \<or> k = List \<and> single c"
proof -
  from assms(1) obtain ts cs where r: "readKind b = Inr (k, ts, cs)"
    and c: "c = take (unat cs) (drop (unat ts) b)" "rest = drop (unat (ts + cs)) b"
    by (auto simp: Split_def split: sum.splits prod.splits)
  note d = readKindD [OF r assms(2)]
  note f = fitsD [OF readKind_fits [OF r] d(2) assms(2)]
  have len: "length c = unat cs" using f(1) c(1) by simp
  have "drop (unat ts) b = c @ rest" unfolding c f(2) by (metis append_take_drop_id drop_drop add.commute)
  then have "b = take (unat ts) b @ c @ rest" by (metis append_take_drop_id)
  then show "b = header_of k (word_of_nat (length c)) @ c @ rest" using d(1) len by simp
  have "k = Byte \<Longrightarrow> unat ts = 0" using d(1,2) by (cases "unat ts"; cases b) (auto simp: header_of_def)
  then show "single c \<longleftrightarrow> k = Byte \<or> k = List \<and> single c"
    using d(4,5) c(1) by (cases k) auto
qed

subsection \<open>The format\<close>

text \<open>
  RLP as it is specified: an item is a byte string or a list of items.
\<close>

datatype item = Str bytes | Lst "item list"

fun enc :: "item \<Rightarrow> bytes" where
  "enc (Str b) = (if single b then b else puthead 0x80 0xB7 (word_of_nat (length b)) @ b)"
| "enc (Lst xs) =
     (let c = concat (map enc xs) in puthead 0xC0 0xF7 (word_of_nat (length c)) @ c)"

fun kind_of :: "item \<Rightarrow> Kind" where
  "kind_of (Str b) = (if single b then Byte else String)"
| "kind_of (Lst xs) = List"

fun content_of :: "item \<Rightarrow> bytes" where
  "content_of (Str b) = b"
| "content_of (Lst xs) = concat (map enc xs)"

lemma enc_split: "enc x = header_of (kind_of x) (word_of_nat (length (content_of x))) @ content_of x"
  by (cases x) (simp_all add: header_of_def Let_def)

lemma readKind_enc:
  assumes "length (enc x @ rest) < 2 ^ 64"
  shows "readKind (enc x @ rest) =
    Inr (kind_of x, word_of_nat (length (header_of (kind_of x) (word_of_nat (length (content_of x))))),
         word_of_nat (length (content_of x)))"
proof (cases x)
  case (Str b)
  then show ?thesis using assms readKind_string [of b rest] readKind_single [of b rest]
    by (cases "single b") (auto simp: header_of_def single_def)
next
  case (Lst xs)
  then show ?thesis using assms readKind_list [of "content_of x" rest] by (simp add: header_of_def Let_def)
qed

lemma enc_words:
  assumes "length (enc x @ rest) < 2 ^ 64"
  defines "h \<equiv> length (header_of (kind_of x) (word_of_nat (length (content_of x))))"
  shows "unat (word_of_nat h :: u64) = h" "unat (word_of_nat (length (content_of x)) :: u64) = length (content_of x)"
    "unat (word_of_nat h + word_of_nat (length (content_of x)) :: u64) = length (enc x)"
proof -
  have l: "h + length (content_of x) < 2 ^ 64" "length (enc x) = h + length (content_of x)"
    using assms(1) by (simp_all add: enc_split h_def)
  then show "unat (word_of_nat h :: u64) = h" "unat (word_of_nat (length (content_of x)) :: u64) = length (content_of x)"
    "unat (word_of_nat h + word_of_nat (length (content_of x)) :: u64) = length (enc x)"
    by (simp_all add: unat_of_nat flip: of_nat_add)
qed

lemma Split_enc:
  assumes "length (enc x @ rest) < 2 ^ 64"
  shows "Split (enc x @ rest) = Inr (kind_of x, content_of x, rest)"
  using readKind_enc [OF assms] enc_words [OF assms] by (simp add: Split_def) (simp add: enc_split)

lemma enc_nonempty: "enc x \<noteq> []"
  by (cases x) (auto simp: single_def puthead_def Let_def)

lemma split_iff:
  assumes "length b < 2 ^ 64"
  shows "SplitString b = Inr (c, rest) \<longleftrightarrow> b = enc (Str c) @ rest"
    and "SplitList b = Inr (c, rest) \<longleftrightarrow> b = puthead 0xC0 0xF7 (word_of_nat (length c)) @ c @ rest"
proof -
  show "SplitString b = Inr (c, rest) \<longleftrightarrow> b = enc (Str c) @ rest"
  proof
    assume "SplitString b = Inr (c, rest)"
    then obtain k where "Split b = Inr (k, c, rest)" "k \<noteq> List" by (auto simp: SplitString_def split: sum.splits if_splits)
    with SplitD [OF this(1) assms] show "b = enc (Str c) @ rest" by (cases k) (auto simp: header_of_def)
  qed (use assms Split_enc [of "Str c" rest] in \<open>auto simp: SplitString_def\<close>)
  show "SplitList b = Inr (c, rest) \<longleftrightarrow> b = puthead 0xC0 0xF7 (word_of_nat (length c)) @ c @ rest"
  proof
    assume "SplitList b = Inr (c, rest)"
    then have "Split b = Inr (List, c, rest)" by (auto simp: SplitList_def split: sum.splits if_splits)
    from SplitD [OF this assms] show "b = puthead 0xC0 0xF7 (word_of_nat (length c)) @ c @ rest" by (simp add: header_of_def)
  next
    assume b: "b = puthead 0xC0 0xF7 (word_of_nat (length c)) @ c @ rest"
    with assms have "unat (word_of_nat (headsize (word_of_nat (length c))) :: u64) = headsize (word_of_nat (length c))"
      "unat (word_of_nat (length c) :: u64) = length c"
      "unat (word_of_nat (headsize (word_of_nat (length c))) + word_of_nat (length c) :: u64) = headsize (word_of_nat (length c)) + length c"
      by (simp_all add: unat_of_nat flip: of_nat_add)
    with b assms readKind_list [of c rest] show "SplitList b = Inr (c, rest)" by (simp add: SplitList_def Split_def)
  qed
qed

text \<open>
  C34: strings in the format are exactly what \<^verbatim>\<open>SplitString\<close> accepts, and each string has one encoding:
  it returns the content \<open>c\<close> and the rest if and only if the data is the encoding of \<open>c\<close>
  followed by the rest. The same holds for \<^verbatim>\<open>SplitList\<close> with the encoded elements as the content.
\<close>

theorem split_canonical:
  assumes "length b < 2 ^ 64"
  shows "(SplitString b = Inr (c, rest) \<longleftrightarrow> b = enc (Str c) @ rest) \<and>
    (SplitList b = Inr (c, rest) \<longleftrightarrow> b = puthead 0xC0 0xF7 (word_of_nat (length c)) @ c @ rest)"
  using split_iff [OF assms] by simp

theorem split_canonical_witness:
  "SplitString [0x83, 1, 2, 3, 7] = Inr ([1, 2, 3], [7]) \<and> SplitList [0x81, 1] \<noteq> Inr ([1], [])"
proof -
  have "SplitString [0x83, 1, 2, 3, 7] = Inr ([1, 2, 3], [7])"
    by (subst split_canonical [THEN conjunct1]) (simp_all add: puthead_def single_def)
  moreover have "SplitList [0x81, 1] \<noteq> Inr ([1], [])"
    by (subst split_canonical [THEN conjunct2]) (simp_all add: puthead_def)
  ultimately show ?thesis by simp
qed

text \<open>Encodings are prefix-free, so that a sequence of them is read in only one way.\<close>

lemma concat_enc_eq:
  assumes "\<And>x y r s. x \<in> set xs \<Longrightarrow> enc x @ r = enc y @ s \<Longrightarrow> length (enc x @ r) < 2 ^ 64 \<Longrightarrow> x = y \<and> r = s"
    and "concat (map enc xs) = concat (map enc ys)" "length (concat (map enc xs)) < 2 ^ 64"
  shows "xs = ys"
  using assms
proof (induction xs arbitrary: ys)
  case Nil
  then show ?case by (cases ys) (auto simp: enc_nonempty)
next
  case (Cons x xs)
  then obtain y zs where ys: "ys = y # zs" by (cases ys) (auto simp: enc_nonempty)
  have "x = y \<and> concat (map enc xs) = concat (map enc zs)"
    using Cons.prems(2,3) by (intro Cons.prems(1)) (auto simp: ys)
  with Cons.IH [of zs] Cons.prems(1,3) show ?case by (auto simp: ys)
qed

lemma enc_parts:
  assumes "enc x @ r = enc y @ s" "length (enc x @ r) < 2 ^ 64"
  shows "kind_of x = kind_of y" "content_of x = content_of y" "r = s"
  using Split_enc [OF assms(2)] Split_enc [OF assms(2) [unfolded assms(1)]] unfolding assms(1) by simp_all

lemma enc_inj: "enc x @ r = enc y @ s \<Longrightarrow> length (enc x @ r) < 2 ^ 64 \<Longrightarrow> x = y \<and> r = s"
proof (induction x arbitrary: y r s)
  case (Str b)
  from enc_parts [OF Str] show ?case by (cases y) (simp_all split: if_splits)
next
  case (Lst xs)
  from enc_parts [OF Lst.prems] obtain ys where y: "y = Lst ys" "concat (map enc xs) = concat (map enc ys)" "r = s"
    by (cases y) (simp_all split: if_splits)
  have "length (concat (map enc xs)) < 2 ^ 64" using Lst.prems(2) by (simp add: Let_def)
  from concat_enc_eq [OF Lst.IH y(2) this] y show ?case by simp
qed

subsection \<open>Integers\<close>

text \<open>An integer is encoded as the string of its significant bytes.\<close>

definition min_bytes :: "u64 \<Rightarrow> bytes" where
  "min_bytes i = (if i = 0 then [] else putint i)"

lemma single_Nil [simp]: "\<not> single []"
  by (simp add: single_def)

lemma putint_small: "i < 0x100 \<Longrightarrow> putint i = [ucast i]"
  by (simp add: putint_def byte_at_def)

lemma single_putint: "single (putint i) \<longleftrightarrow> i < 128"
proof
  assume "i < 128"
  then have "i < 0x100" "unat i < 128" by (auto simp: word_less_nat_alt)
  then show "single (putint i)"
    by (simp add: putint_small single_def word_le_nat_alt unsigned_ucast_eq unsigned_take_bit_eq take_bit_nat_eq_self)
next
  assume s: "single (putint i)"
  then have "intsize i = 1" by (simp add: single_def)
  with intsize_bounds(4) [of i] have "uint i < 0x100" by (cases "i = 0") simp_all
  then have i: "i < 0x100" by (simp add: word_less_def)
  then have "unat i < 0x100" by (simp add: word_less_nat_alt)
  with s i have "unat i \<le> 127"
    by (simp add: putint_small single_def word_le_nat_alt unsigned_ucast_eq unsigned_take_bit_eq take_bit_nat_eq_self)
  then show "i < 128" by (simp add: word_less_nat_alt)
qed

lemma enc_min_bytes:
  "enc (Str (min_bytes i)) =
     (if i = 0 then [0x80] else if i < 128 then [ucast i] else (0x80 + word_of_nat (intsize i)) # putint i)"
proof -
  have "i < 128 \<Longrightarrow> putint i = [ucast i]" by (rule putint_small) (auto simp: word_less_nat_alt)
  moreover have k: "unat (word_of_nat (intsize i) :: u64) = intsize i" "unat (word_of_nat (intsize i) :: u8) = intsize i"
    by (simp_all add: unat_of_nat order.strict_trans1 [OF intsize_pos(3)])
  then have "(word_of_nat (intsize i) :: u64) < 56" by (simp add: word_less_nat_alt order.strict_trans1 [OF intsize_pos(3)])
  moreover have "ucast (word_of_nat (intsize i) :: u64) = (word_of_nat (intsize i) :: u8)"
    by (simp add: word_unat_eq_iff unsigned_ucast_eq unsigned_take_bit_eq k take_bit_nat_eq_self
        order.strict_trans1 [OF intsize_pos(3)])
  ultimately show ?thesis by (auto simp: min_bytes_def single_putint puthead_def single_Nil)
qed

lemma AppendUint64_eq: "AppendUint64 b i = b @ enc (Str (min_bytes i))"
proof -
  consider "i < 128" | "\<not> i < 128" "i < 0x100" | "\<not> i < 0x100" "i < 0x10000" | "\<not> i < 0x10000" "i < 0x1000000"
    | "\<not> i < 0x1000000" "i < 0x100000000" | "\<not> i < 0x100000000" "i < 0x10000000000"
    | "\<not> i < 0x10000000000" "i < 0x1000000000000" | "\<not> i < 0x1000000000000" "i < 0x100000000000000"
    | "\<not> i < 0x100000000000000" by blast
  then show ?thesis
    unfolding enc_min_bytes length_putint [symmetric]
    by cases (auto simp: AppendUint64_def putint_def byte_at_def word_less_nat_alt)
qed

lemma writeUint64_eq: "writeUint64 i = eb_Write (enc (Str (min_bytes i)))"
  unfolding writeUint64_def enc_min_bytes by simp

lemma min_bytes_Nil: "min_bytes i = [] \<longleftrightarrow> i = 0"
  using intsize_pos(2) [of i] by (auto simp: min_bytes_def simp flip: length_0_conv)

lemma min_bytes_one: "min_bytes i = [x] \<longleftrightarrow> x \<noteq> 0 \<and> i = ucast x"
proof
  assume m: "min_bytes i = [x]"
  then have i: "i \<noteq> 0" "putint i = [x]" by (auto simp: min_bytes_def split: if_splits)
  have "i = be_word [x]" using be_word_putint [of i] i(2) by simp
  with putint_hd [OF i(1)] i(2) show "x \<noteq> 0 \<and> i = ucast x" by (simp add: be_word_def)
next
  assume x: "x \<noteq> 0 \<and> i = ucast x"
  have "unat (ucast x :: u64) = unat x"
    using unsigned_less [of x, where 'a = nat] by (simp add: unsigned_ucast_eq unsigned_take_bit_eq take_bit_nat_eq_self)
  with x unsigned_less [of x, where 'a = nat] have "i < 0x100" "i \<noteq> 0" by (auto simp: word_less_nat_alt word_unat_eq_iff)
  with x show "min_bytes i = [x]" by (simp add: min_bytes_def putint_small ucast_back)
qed

lemma min_bytes_iff: "[] = min_bytes i \<longleftrightarrow> i = 0" "[x] = min_bytes i \<longleftrightarrow> x \<noteq> 0 \<and> i = ucast x"
  by (metis min_bytes_Nil, metis min_bytes_one)

lemma readSize_min_bytes:
  assumes "1 < length c" "length c \<le> 8"
  shows "readSize c (length c) = Inr i \<longleftrightarrow> c = min_bytes i"
proof
  assume "readSize c (length c) = Inr i"
  moreover have "c \<noteq> []" using assms(1) by auto
  ultimately have "putint i = c" "56 \<le> i" using readSizeD [of c "length c" i] assms by simp_all
  then show "c = min_bytes i" by (auto simp: min_bytes_def)
next
  assume c: "c = min_bytes i"
  with assms(1) have i: "i \<noteq> 0" "c = putint i" by (auto simp: min_bytes_def split: if_splits)
  then have "1 < intsize i" using assms(1) by simp
  then have "(2 :: int) ^ 8 \<le> 2 ^ (8 * (intsize i - 1))" by (intro power_increasing) auto
  with intsize_bounds(3) [OF i(1)] have "56 \<le> i" by (simp add: word_le_def)
  then show "readSize c (length c) = Inr i" using readSize_putint [of i "[]"] i(2) by simp
qed

lemma SplitUint64_iff: "SplitUint64 b = Inr (i, rest) \<longleftrightarrow> SplitString b = Inr (min_bytes i, rest)"
proof (cases "SplitString b")
  case (Inl e)
  then show ?thesis by (simp add: SplitUint64_def)
next
  case (Inr p)
  obtain c r where p: "p = (c, r)" by (cases p)
  consider "c = []" | x where "c = [x]" | "8 < length c" | "1 < length c" "length c \<le> 8" by (cases c; cases "tl c"; force)
  then show ?thesis
  proof cases
    case 3
    then have "c \<noteq> min_bytes i" using leD [OF intsize_pos(3) [of i]] by (auto simp: min_bytes_def)
    with 3 show ?thesis by (auto simp: SplitUint64_def Inr p Let_def)
  next
    case 4
    then show ?thesis using readSize_min_bytes [OF 4, of i]
      by (auto simp: SplitUint64_def Inr p Let_def split: sum.splits)
  qed (auto simp: SplitUint64_def Inr p Let_def min_bytes_iff)
qed

text \<open>
  C35: the two encoders for 64-bit integers agree, and \<^verbatim>\<open>SplitUint64\<close> is the inverse of \<^verbatim>\<open>AppendUint64\<close> that
  accepts nothing else: leading zeroes and values that do not fit are errors.
\<close>

theorem uint64_roundtrip:
  assumes "length b < 2 ^ 64"
  shows "(SplitUint64 b = Inr (i, rest) \<longleftrightarrow> b = AppendUint64 [] i @ rest) \<and>
    eb_str (writeUint64 i buf) = AppendUint64 (eb_str buf) i"
proof
  show "eb_str (writeUint64 i buf) = AppendUint64 (eb_str buf) i"
    by (simp add: writeUint64_eq AppendUint64_eq eb_Write_def)
  show "SplitUint64 b = Inr (i, rest) \<longleftrightarrow> b = AppendUint64 [] i @ rest"
    by (simp add: SplitUint64_iff split_iff(1) [OF assms] AppendUint64_eq del: enc.simps)
qed

theorem uint64_roundtrip_witness:
  "SplitUint64 [0x82, 4, 0, 7] = Inr (0x400, [7]) \<and> SplitUint64 [0] \<noteq> Inr (0, [])"
proof -
  have "SplitUint64 [0x82, 4, 0, 7] = Inr (0x400, [7])"
    by (subst uint64_roundtrip [THEN conjunct1]) (simp_all add: AppendUint64_def byte_at_def drop_bit_eq_div)
  moreover have "SplitUint64 [0] \<noteq> Inr (0, [])"
    by (subst uint64_roundtrip [THEN conjunct1]) (simp_all add: AppendUint64_def)
  ultimately show ?thesis by simp
qed

subsection \<open>Sequences of values\<close>

lemma readKind_progress:
  assumes "readKind b = Inr (k, ts, cs)" "length b < 2 ^ 64"
  shows "0 < unat (ts + cs)" "unat (ts + cs) \<le> length b"
  using readKindD(3) [OF assms] fitsD [OF readKind_fits [OF assms(1)] readKindD(2) [OF assms] assms(2)] by simp_all

lemma CountValues_loop_ends: "length b < 2 ^ 64 \<Longrightarrow> \<exists>r. CountValues_loop b i = Some r"
proof (induction "length b" arbitrary: b i rule: less_induct)
  case less
  show ?case
  proof (cases "b = [] \<or> (\<exists>e. readKind b = Inl e)")
    case True
    then show ?thesis by (subst CountValues_loop.simps) auto
  next
    case False
    then obtain k ts cs where r: "readKind b = Inr (k, ts, cs)" by (cases "readKind b") auto
    with readKind_progress [OF r less.prems] less.hyps [of "drop (unat (ts + cs)) b"] less.prems False
    show ?thesis by (subst CountValues_loop.simps) (auto simp: r)
  qed
qed

lemma CountValues_loop_enc:
  "length (concat (map enc xs)) < 2 ^ 64 \<Longrightarrow> CountValues_loop (concat (map enc xs)) i = Some (Inr (i + length xs))"
proof (induction xs arbitrary: i)
  case Nil
  then show ?case by (simp add: CountValues_loop.simps)
next
  case (Cons x xs)
  have l: "length (enc x @ concat (map enc xs)) < 2 ^ 64" using Cons.prems by simp
  with Cons.IH [of "i + 1"] show ?case
    by (subst CountValues_loop.simps) (simp add: enc_nonempty readKind_enc [OF l] enc_words [OF l])
qed

text \<open>
  C36: \<^verbatim>\<open>CountValues\<close> always ends, since every value it accepts takes at least one byte, and it counts
  the values of a sequence of encodings.
\<close>

theorem CountValues_correct:
  "(length b < 2 ^ 64 \<longrightarrow> (\<exists>r. CountValues b = Some r)) \<and>
   (length (concat (map enc xs)) < 2 ^ 64 \<longrightarrow> CountValues (concat (map enc xs)) = Some (Inr (length xs)))"
  by (simp add: CountValues_def CountValues_loop_ends CountValues_loop_enc)

theorem CountValues_correct_witness: "CountValues [1, 0x80, 0xC0] = Some (Inr 3)"
  using CountValues_correct [of "[]" "[Str [1], Str [], Lst []]"] by (simp add: single_def puthead_def)

subsection \<open>The encoder\<close>

definition big_bytes :: "int \<Rightarrow> bytes" where
  "big_bytes i = ReadBits ((bitlen i + 7) div 8) i"

text \<open>The item that a value stands for.\<close>

fun item_of :: "rlp_value \<Rightarrow> item" where
  "item_of (VBytes b) = Str b"
| "item_of (VUint i) = Str (min_bytes i)"
| "item_of (VBool b) = Str (if b then [1] else [])"
| "item_of (VBig i) = Str (big_bytes i)"
| "item_of (VU256 z) = Str (big_bytes (uint z))"
| "item_of (VStruct vs) = Lst (map item_of vs)"
| "item_of (VSlice vs) = Lst (map item_of vs)"

lemma length_ReadBits [simp]: "length (ReadBits n i) = n"
  by (simp add: ReadBits_def)

lemma ReadBits_uint: "ReadBits n (uint (z :: 'a::len word)) = be_bytes n z"
proof -
  have "(word_of_int (uint z div 2 ^ k) :: u8) = ucast (drop_bit k z)" for k
    unfolding ucast_eq uint_drop_bit ..
  then show ?thesis by (simp add: ReadBits_def be_bytes_def)
qed

lemma big_bytes_word: "big_bytes (uint (i :: u64)) = min_bytes i"
proof (cases "i = 0")
  case True
  then show ?thesis by (simp add: big_bytes_def ReadBits_def min_bytes_def)
next
  case False
  then show ?thesis by (simp add: big_bytes_def ReadBits_uint min_bytes_def putint_eq intsize_def)
qed

lemma bitlen_le: "0 \<le> n \<Longrightarrow> n < 2 ^ k \<Longrightarrow> bitlen n \<le> k"
proof (cases "n = 0")
  case False
  assume "0 \<le> n" "n < 2 ^ k"
  with False bitlen_bounds [of n] have "(2 :: int) ^ (bitlen n - 1) < 2 ^ k" "0 < bitlen n" by linarith+
  then show ?thesis by (simp add: power_strict_increasing_iff)
qed simp

lemma bitlen_word: "0 \<le> n \<Longrightarrow> bitlen n \<le> 64 \<Longrightarrow> uint (word_of_int n :: u64) = n"
proof -
  assume n: "0 \<le> n" "bitlen n \<le> 64"
  have "n < 2 ^ 64"
  proof (cases "n = 0")
    case False
    have "(2 :: int) ^ bitlen n \<le> 2 ^ 64" using n(2) by (intro power_increasing) auto
    with bitlen_bounds [of n] n False show ?thesis by linarith
  qed simp
  with n show ?thesis by (simp add: uint_word_of_int_eq take_bit_int_eq_self)
qed

lemma drop_be_bytes: "n \<le> m \<Longrightarrow> drop (m - n) (be_bytes m z) = be_bytes n z"
  by (simp add: be_bytes_def drop_rev take_map)

lemma ucast_word_of_nat: "ucast (word_of_nat n :: u64) = (word_of_nat n :: u8)"
  by (simp add: word_unat_eq_iff unsigned_ucast_eq unsigned_take_bit_eq unat_of_nat take_bit_eq_mod mod_mod_cancel)

text \<open>The scalar writers append the encoding of the item.\<close>

lemma encodeStringHeader_eq: "sz < 2 ^ 64 \<Longrightarrow> encodeStringHeader sz = eb_Write (puthead 0x80 0xB7 (word_of_nat sz))"
proof -
  assume sz: "sz < 2 ^ 64"
  then have "sz < 56 \<longleftrightarrow> (word_of_nat sz :: u64) < 56" by (simp add: word_less_nat_alt unat_of_nat)
  moreover have "ucast (word_of_nat sz :: u64) = (word_of_nat sz :: u8)"
    by (rule ucast_word_of_nat)
  ultimately show ?thesis by (simp add: encodeStringHeader_def puthead_def)
qed

lemma eb_Write_Write: "eb_Write b (eb_Write a buf) = eb_Write (a @ b) buf"
  by (simp add: eb_Write_def)

lemma writeBytes_eq: "length b < 2 ^ 64 \<Longrightarrow> writeBytes b = eb_Write (enc (Str b))"
  by (rule ext) (auto simp: writeBytes_def encodeStringHeader_eq eb_Write_Write single_def length_Suc_conv)

lemma writeBigInt_eq:
  assumes "0 \<le> i" "length (big_bytes i) < 2 ^ 64"
  shows "writeBigInt i = eb_Write (enc (Str (big_bytes i)))"
proof (cases "bitlen i \<le> 64")
  case True
  with big_bytes_word [of "word_of_int i"] bitlen_word [OF assms(1) True] assms(1) show ?thesis
    by (simp add: writeBigInt_def writeUint64_eq fun_eq_iff)
next
  case False
  then have "\<not> single (big_bytes i)" by (auto simp: single_def big_bytes_def)
  with False assms show ?thesis
    by (auto simp: writeBigInt_def encodeStringHeader_eq eb_Write_Write big_bytes_def Let_def fun_eq_iff)
qed

lemma writeUint256_eq: "writeUint256 z = eb_Write (enc (Str (big_bytes (uint z))))"
proof (cases "bitlen (uint z) \<le> 64")
  case True
  have "uint (ucast z :: u64) = uint z" unfolding ucast_eq by (rule bitlen_word [OF uint_ge_0 True])
  then have "big_bytes (uint z) = min_bytes (ucast z)" using big_bytes_word [of "ucast z"] by simp
  with True show ?thesis by (simp add: writeUint256_def writeUint64_eq Let_def del: enc.simps)
next
  case False
  let ?n = "(bitlen (uint z) + 7) div 8"
  have "bitlen (uint z) \<le> 256" by (rule bitlen_le) (use uint_bounded [of z] in simp_all)
  then have n: "?n \<le> 32" "1 < ?n" using False by simp_all
  then have "puthead 0x80 0xB7 (word_of_nat ?n) = [0x80 + word_of_nat ?n]"
    by (simp add: puthead_def word_less_nat_alt unat_of_nat ucast_word_of_nat)
  moreover have "\<not> single (big_bytes (uint z))" using n by (auto simp: single_def big_bytes_def)
  ultimately show ?thesis using False n
    by (simp add: writeUint256_def Let_def big_bytes_def ReadBits_uint drop_be_bytes)
qed

lemma writeBool_eq: "writeBool b = eb_Write (enc (Str (if b then [1] else [])))"
  by (simp add: writeBool_def single_def puthead_def)

text \<open>
  What has been written since the data had length \<open>n\<close>: the data \<open>s\<close> and the list headers \<open>hs\<close> are
  copied out as \<open>e\<close>, whatever comes before and after.
\<close>

definition emits :: "nat \<Rightarrow> bytes \<Rightarrow> listhead list \<Rightarrow> bytes \<Rightarrow> bool" where
  "emits n s hs e \<longleftrightarrow>
     (\<forall>h \<in> set hs. n \<le> lh_offset h) \<and>
     (\<forall>pre suf hs'. length pre = n \<longrightarrow> (\<forall>h \<in> set hs'. n + length s \<le> lh_offset h) \<longrightarrow>
        copyTo (pre @ s @ suf) n (hs @ hs') = e @ copyTo (pre @ s @ suf) (n + length s) hs')"

lemma emits_data: "emits n s [] s"
proof -
  have "copyTo (pre @ s @ suf) (length pre) hs = s @ copyTo (pre @ s @ suf) (length pre + length s) hs"
    if "\<forall>h \<in> set hs. length pre + length s \<le> lh_offset h" for pre suf hs
    using that by (cases hs) (auto simp: take_append)
  then show ?thesis by (auto simp: emits_def)
qed

lemma emitsD:
  assumes "emits n s hs e"
  shows "h \<in> set hs \<Longrightarrow> n \<le> lh_offset h"
    "length pre = n \<Longrightarrow> \<forall>h \<in> set hs'. n + length s \<le> lh_offset h \<Longrightarrow>
       copyTo (pre @ s @ suf) n (hs @ hs') = e @ copyTo (pre @ s @ suf) (n + length s) hs'"
  using assms unfolding emits_def by blast+

lemma emits_append:
  assumes "emits n s hs e" "emits (n + length s) s' hs' e'"
  shows "emits n (s @ s') (hs @ hs') (e @ e')"
  unfolding emits_def
proof (intro conjI allI impI)
  show "\<forall>h \<in> set (hs @ hs'). n \<le> lh_offset h"
    using emitsD(1) [OF assms(1)] emitsD(1) [OF assms(2)] by (auto dest: add_leD1)
  fix pre suf :: bytes and hs'' :: "listhead list"
  assume pre: "length pre = n" "\<forall>h \<in> set hs''. n + length (s @ s') \<le> lh_offset h"
  then have "\<forall>h \<in> set (hs' @ hs''). n + length s \<le> lh_offset h" using emitsD(1) [OF assms(2)] by auto
  from emitsD(2) [OF assms(1) pre(1) this]
  have "copyTo (pre @ s @ s' @ suf) n (hs @ hs' @ hs'') = e @ copyTo (pre @ s @ s' @ suf) (n + length s) (hs' @ hs'')" .
  also have "copyTo (pre @ s @ s' @ suf) (n + length s) (hs' @ hs'') =
      e' @ copyTo (pre @ s @ s' @ suf) (n + length s + length s') hs''"
    using emitsD(2) [OF assms(2), of "pre @ s" hs'' suf] pre by (simp add: add.assoc)
  finally show "copyTo (pre @ (s @ s') @ suf) n ((hs @ hs') @ hs'') =
      (e @ e') @ copyTo (pre @ (s @ s') @ suf) (n + length (s @ s')) hs''" by (simp add: add.assoc)
qed

lemma emits_head:
  "emits n s hs e \<Longrightarrow> emits n s (\<lparr>lh_offset = n, lh_size = length e\<rparr> # hs) (puthead 0xC0 0xF7 (word_of_nat (length e)) @ e)"
  by (simp add: emits_def lh_encode_def)

text \<open>The buffer has grown by the encoding \<open>e\<close>.\<close>

definition grown :: "encBuffer \<Rightarrow> encBuffer \<Rightarrow> bytes \<Rightarrow> bool" where
  "grown buf buf' e \<longleftrightarrow>
     (\<exists>s hs. eb_str buf' = eb_str buf @ s \<and> eb_lheads buf' = eb_lheads buf @ hs \<and>
        emits (length (eb_str buf)) s hs e \<and> length s + eb_lhsize buf' = length e + eb_lhsize buf)"

lemma grown_write: "grown buf (eb_Write e buf) e"
  using emits_data by (fastforce simp: grown_def eb_Write_def)

lemma grown_refl: "grown buf buf []"
  using emits_data [of _ "[]"] by (auto simp: grown_def)

lemma grown_trans: "grown a b e \<Longrightarrow> grown b c e' \<Longrightarrow> grown a c (e @ e')"
  unfolding grown_def
proof (elim exE conjE, goal_cases)
  case (1 s s' hs hs')
  then show ?case using emits_append [of "length (eb_str a)" s hs e s' hs' e'] by (intro exI conjI) (auto)
qed

lemma grown_list:
  assumes "grown (snd (eb_list buf)) buf' e" "length e < 2 ^ 64"
  shows "grown buf (listEnd (fst (eb_list buf)) buf') (puthead 0xC0 0xF7 (word_of_nat (length e)) @ e)"
proof -
  from assms(1) obtain s hs where g: "eb_str buf' = eb_str buf @ s"
    "eb_lheads buf' = eb_lheads buf @ \<lparr>lh_offset = length (eb_str buf), lh_size = eb_lhsize buf\<rparr> # hs"
    "emits (length (eb_str buf)) s hs e" "length s + eb_lhsize buf' = length e + eb_lhsize buf"
    by (auto simp: grown_def eb_list_def)
  have sz: "eb_size buf' - length (eb_str buf) - eb_lhsize buf = length e" using g(1,4) by (simp add: eb_size_def)
  have "(length e < 56) = ((word_of_nat (length e) :: u64) < 56)" using assms(2) by (simp add: word_less_nat_alt unat_of_nat)
  then show ?thesis using g sz emits_head [OF g(3)]
    unfolding grown_def listEnd_def eb_list_def
    by (intro exI [of _ s] exI [of _ "\<lparr>lh_offset = length (eb_str buf), lh_size = length e\<rparr> # hs"])
      (auto simp: Let_def headsize_def)
qed

lemma write_grown:
  "write_value v buf = Some buf' \<Longrightarrow> length (enc (item_of v)) < 2 ^ 64 \<Longrightarrow> grown buf buf' (enc (item_of v))"
  "write_values vs buf = Some buf' \<Longrightarrow> length (concat (map (\<lambda>v. enc (item_of v)) vs)) < 2 ^ 64 \<Longrightarrow>
     grown buf buf' (concat (map (\<lambda>v. enc (item_of v)) vs))"
proof (induction v buf and vs buf arbitrary: buf' and buf' rule: write_value_write_values.induct)
  case (1 b buf)
  then have "length b < 2 ^ 64" by (auto split: if_splits)
  with 1 show ?case using grown_write by (auto simp: writeBytes_eq simp del: enc.simps)
next
  case (2 i buf)
  then show ?case using grown_write by (auto simp: writeUint64_eq simp del: enc.simps)
next
  case (3 b buf)
  then show ?case using grown_write by (auto simp: writeBool_eq simp del: enc.simps)
next
  case (4 i buf)
  then have "0 \<le> i" "length (big_bytes i) < 2 ^ 64" by (auto split: if_splits)
  with 4 show ?case using grown_write by (auto simp: writeBigInt_eq simp del: enc.simps)
next
  case (5 z buf)
  then show ?case using grown_write by (auto simp: writeUint256_eq simp del: enc.simps)
next
  case (6 vs buf)
  obtain lh b where l: "eb_list buf = (lh, b)" by (cases "eb_list buf")
  from 6(2) l obtain b' where b': "write_values vs b = Some b'" "buf' = listEnd lh b'" by auto
  have "length (concat (map (\<lambda>v. enc (item_of v)) vs)) < 2 ^ 64" using 6(3) by (simp add: Let_def comp_def)
  from grown_list [of buf b', unfolded l snd_conv fst_conv, OF 6(1) [OF l [symmetric] b'(1) this] this]
  show ?case by (simp add: b'(2) Let_def comp_def)
next
  case (7 vs buf)
  show ?case
  proof (cases "vs = []")
    case True
    with 7(2) show ?thesis using grown_write [of buf "[0xC0]"] by (simp add: Let_def puthead_def)
  next
    case False
    obtain lh b where l: "eb_list buf = (lh, b)" by (cases "eb_list buf")
    from False 7(2) l obtain b' where b': "write_values vs b = Some b'" "buf' = listEnd lh b'" by auto
    have "length (concat (map (\<lambda>v. enc (item_of v)) vs)) < 2 ^ 64" using 7(3) by (simp add: Let_def comp_def)
    from grown_list [of buf b', unfolded l snd_conv fst_conv, OF 7(1) [OF False l [symmetric] b'(1) this] this]
    show ?thesis by (simp add: b'(2) Let_def comp_def)
  qed
next
  case (8 buf)
  then show ?case by (simp add: grown_refl)
next
  case (9 v vs buf)
  then show ?case by (auto intro: grown_trans split: option.splits)
qed

text \<open>Only negative integers cannot be encoded.\<close>

fun encodable :: "rlp_value \<Rightarrow> bool" where
  "encodable (VBig i) \<longleftrightarrow> 0 \<le> i"
| "encodable (VStruct vs) \<longleftrightarrow> (\<forall>v \<in> set vs. encodable v)"
| "encodable (VSlice vs) \<longleftrightarrow> (\<forall>v \<in> set vs. encodable v)"
| "encodable v \<longleftrightarrow> True"

lemma write_None:
  "write_value v buf = None \<longleftrightarrow> \<not> encodable v"
  "write_values vs buf = None \<longleftrightarrow> (\<exists>v \<in> set vs. \<not> encodable v)"
  by (induction v buf and vs buf rule: write_value_write_values.induct)
    (auto split: option.splits prod.splits)

text \<open>
  C33: the encoder with its two buffers produces the encoding of the format. It fails only on
  negative integers, and the size it computes beforehand, with which it allocates the output,
  is the size of what it writes.
\<close>

theorem encoder_refines:
  assumes "length (enc (item_of v)) < 2 ^ 64"
  shows "EncodeToBytes v = (if encodable v then Some (enc (item_of v)) else None) \<and>
    (\<forall>buf. write_value v eb_reset = Some buf \<longrightarrow> eb_size buf = length (enc (item_of v)))"
proof (cases "write_value v eb_reset")
  case None
  then show ?thesis using write_None(1) [of v eb_reset] by (simp add: EncodeToBytes_def)
next
  case (Some buf)
  from write_grown(1) [OF Some assms] obtain s hs where g: "eb_str buf = s" "eb_lheads buf = hs"
    "emits 0 s hs (enc (item_of v))" "length s + eb_lhsize buf = length (enc (item_of v))"
    by (auto simp: grown_def eb_reset_def)
  have "makeBytes buf = enc (item_of v)" using emitsD(2) [OF g(3), of "[]" "[]" "[]"] g(1,2) by (simp add: makeBytes_def)
  with Some g(1,4) write_None(1) [of v eb_reset] show ?thesis by (auto simp: EncodeToBytes_def eb_size_def)
qed

theorem encoder_refines_witness:
  "EncodeToBytes (VStruct [VBytes [1, 2], VUint 0x400, VSlice []]) = Some [0xC7, 0x82, 1, 2, 0x82, 4, 0, 0xC0]"
proof -
  have "enc (item_of (VStruct [VBytes [1, 2], VUint 0x400, VSlice []])) = [0xC7, 0x82, 1, 2, 0x82, 4, 0, 0xC0]"
    by (simp add: min_bytes_def putint_def byte_at_def drop_bit_eq_div single_def puthead_def Let_def)
  moreover have "encodable (VStruct [VBytes [1, 2], VUint 0x400, VSlice []])" by simp
  ultimately show ?thesis
    by (subst encoder_refines [THEN conjunct1]) (simp_all del: enc.simps item_of.simps encodable.simps)
qed

subsection \<open>Iterating over a list\<close>

text \<open>
  The loop \<^verbatim>\<open>for it.Next()\<close> of a client that collects the values and does not ask for the error,
  cut off after some rounds: \<open>None\<close> when it is still running.
\<close>

primrec it_values :: "nat \<Rightarrow> listIterator \<Rightarrow> bytes list option" where
  "it_values 0 it = None"
| "it_values (Suc n) it =
     (case it_Next it of
        (False, _) \<Rightarrow> Some []
      | (True, it) \<Rightarrow> map_option (Cons (it_next it)) (it_values n it))"

lemma it_Next_enc:
  assumes "length (enc x @ rest) < 2 ^ 64" "it_data it = enc x @ rest"
  shows "it_Next it = (True, it\<lparr>it_next := enc x, it_data := rest, it_err := None\<rparr>)"
  using assms readKind_enc [OF assms(1)] enc_words [OF assms(1)] by (simp add: it_Next_def enc_nonempty)

lemma it_values_enc:
  "it_data it = concat (map enc xs) \<Longrightarrow> length (concat (map enc xs)) < 2 ^ 64 \<Longrightarrow>
     it_values (Suc (length xs)) it = Some (map enc xs)"
proof (induction xs arbitrary: it)
  case Nil
  then show ?case by (simp add: it_Next_def)
next
  case (Cons x xs)
  have "it_Next it = (True, it\<lparr>it_next := enc x, it_data := concat (map enc xs), it_err := None\<rparr>)"
    by (rule it_Next_enc) (use Cons.prems in simp_all)
  with Cons.IH [of "it\<lparr>it_next := enc x, it_data := concat (map enc xs), it_err := None\<rparr>"] Cons.prems(2)
  show ?case by (simp del: it_values.simps(2) add: it_values.simps(2) [of "Suc (length xs)"])
qed

lemma it_Next_stuck:
  "it_data it \<noteq> [] \<Longrightarrow> readKind (it_data it) = Inl e \<Longrightarrow> it_Next it = (True, it\<lparr>it_next := [], it_err := Some e\<rparr>)"
  by (simp add: it_Next_def)

lemma it_values_stuck: "it_data it \<noteq> [] \<Longrightarrow> readKind (it_data it) = Inl e \<Longrightarrow> it_values n it = None"
  by (induction n arbitrary: it) (simp_all add: it_Next_stuck)

lemma NewListIterator_enc:
  assumes "length (enc (Lst xs) @ rest) < 2 ^ 64"
  shows "NewListIterator (enc (Lst xs) @ rest) = Inr \<lparr>it_data = concat (map enc xs), it_next = [], it_err = None\<rparr>"
  using readKind_enc [OF assms] enc_words(1,2) [OF assms] enc_split [of "Lst xs"]
  by (simp add: NewListIterator_def del: enc.simps)

text \<open>
  C37: iterating over a list gives the encodings of its elements and ends after them. On data that
  is not well formed, \<^verbatim>\<open>Next\<close> reports success without moving on: a loop that only asks \<^verbatim>\<open>Next\<close>, and not
  \<^verbatim>\<open>Err\<close>, never ends.
\<close>

theorem list_iterator:
  "(length (enc (Lst xs)) < 2 ^ 64 \<longrightarrow>
      (\<exists>it. NewListIterator (enc (Lst xs)) = Inr it \<and> it_values (Suc (length xs)) it = Some (map enc xs))) \<and>
   (it_data it \<noteq> [] \<and> readKind (it_data it) = Inl e \<longrightarrow> (\<forall>n. it_values n it = None))"
proof -
  have "length (enc (Lst xs)) < 2 ^ 64 \<Longrightarrow> length (concat (map enc xs)) < 2 ^ 64" by (simp add: Let_def)
  then show ?thesis
    using NewListIterator_enc [of xs "[]"] it_values_enc [of "\<lparr>it_data = concat (map enc xs), it_next = [], it_err = None\<rparr>" xs]
      it_values_stuck [of it e] by auto
qed

theorem list_iterator_witness:
  "(\<exists>it. NewListIterator [0xC2, 1, 0x80] = Inr it \<and> it_values 3 it = Some [[1], [0x80]]) \<and>
   (\<forall>n. it_values n \<lparr>it_data = [0x81], it_next = [], it_err = None\<rparr> = None)"
proof -
  have "readKind [0x81] = Inl ErrValueTooLarge" by (simp add: readKind_def Let_def)
  with list_iterator [of "[Str [1], Str []]" "\<lparr>it_data = [0x81], it_next = [], it_err = None\<rparr>" ErrValueTooLarge]
  show ?thesis by (simp add: single_def puthead_def Let_def numeral_3_eq_3)
qed

end
