(* ===== verification/AccessList.thy ===== *)
theory AccessList
  imports Geth_Prelude
begin

text \<open>
  The EIP-2930 access list of \<^verbatim>\<open>core/state/access_list.go\<close>: the map from addresses to an index
  into the slice of slot sets (-1 for an address without slots) and every operation on it.
  \<^verbatim>\<open>map[common.Hash]struct{}\<close> is a finite set of hashes. A Go panic (an explicit one, or a
  slice index out of range) is \<open>None\<close>.

  The lemmas show the invariant \<open>al_wf\<close> of the index structure, that the operations
  implement a plain set of addresses and of address/slot pairs, and that the two deletions
  used by the journal are exact inverses of the additions when they run in reverse order.
\<close>

subsection \<open>The data structure\<close>

record accessList =
  al_addresses :: "(address, int) fmap"
  al_slots :: "hash fset list"

definition ContainsAddress :: "accessList \<Rightarrow> address \<Rightarrow> bool" where
  "ContainsAddress al addr \<longleftrightarrow> fmlookup (al_addresses al) addr \<noteq> None"

text \<open>Reading \<^verbatim>\<open>al.slots[idx]\<close>.\<close>

definition slots_at :: "hash fset list \<Rightarrow> int \<Rightarrow> hash fset option" where
  "slots_at xs i = (if 0 \<le> i \<and> nat i < length xs then Some (xs ! nat i) else None)"

definition al_Contains :: "accessList \<Rightarrow> address \<Rightarrow> hash \<Rightarrow> (bool \<times> bool) option" where
  "al_Contains al addr slot =
     (case fmlookup (al_addresses al) addr of
        None \<Rightarrow> Some (False, False)
      | Some idx \<Rightarrow>
          if idx = -1 then Some (True, False)
          else map_option (\<lambda>m. (True, slot |\<in>| m)) (slots_at (al_slots al) idx))"

definition newAccessList :: accessList where
  "newAccessList = \<lparr>al_addresses = fmempty, al_slots = []\<rparr>"

text \<open>\<^verbatim>\<open>maps.Clone\<close> of a finite map is the map itself, so the copy is built field by field.\<close>

definition al_Copy :: "accessList \<Rightarrow> accessList" where
  "al_Copy al = \<lparr>al_addresses = al_addresses al, al_slots = map (\<lambda>slotMap. slotMap) (al_slots al)\<rparr>"

definition AddAddress :: "accessList \<Rightarrow> address \<Rightarrow> accessList \<times> bool" where
  "AddAddress al addr =
     (if fmlookup (al_addresses al) addr \<noteq> None then (al, False)
      else (al\<lparr>al_addresses := fmupd addr (-1) (al_addresses al)\<rparr>, True))"

text \<open>The result is the new list with the pair (address change, slot change).\<close>

definition AddSlot :: "accessList \<Rightarrow> address \<Rightarrow> hash \<Rightarrow> (accessList \<times> bool \<times> bool) option" where
  "AddSlot al addr slot =
     (let idx = fmlookup (al_addresses al) addr
      in if idx = None \<or> idx = Some (-1) then
           Some (al\<lparr>al_addresses := fmupd addr (int (length (al_slots al))) (al_addresses al),
                    al_slots := al_slots al @ [{|slot|}]\<rparr>, idx = None, True)
         else case slots_at (al_slots al) (the idx) of
           None \<Rightarrow> None
         | Some slotmap \<Rightarrow>
             if slot |\<notin>| slotmap
             then Some (al\<lparr>al_slots := (al_slots al)[nat (the idx) := finsert slot slotmap]\<rparr>, False, True)
             else Some (al, False, False))"

definition DeleteSlot :: "accessList \<Rightarrow> address \<Rightarrow> hash \<Rightarrow> accessList option" where
  "DeleteSlot al addr slot =
     (case fmlookup (al_addresses al) addr of
        None \<Rightarrow> None
      | Some idx \<Rightarrow>
          (case slots_at (al_slots al) idx of
             None \<Rightarrow> None
           | Some slotmap \<Rightarrow>
               let slotmap = slotmap |-| {|slot|};
                   al = al\<lparr>al_slots := (al_slots al)[nat idx := slotmap]\<rparr>
               in Some (if fcard slotmap = 0
                        then al\<lparr>al_slots := take (nat idx) (al_slots al),
                                al_addresses := fmupd addr (-1) (al_addresses al)\<rparr>
                        else al)))"

definition DeleteAddress :: "accessList \<Rightarrow> address \<Rightarrow> accessList" where
  "DeleteAddress al addr = al\<lparr>al_addresses := fmdrop addr (al_addresses al)\<rparr>"

definition al_Equal :: "accessList \<Rightarrow> accessList \<Rightarrow> bool" where
  "al_Equal al other \<longleftrightarrow>
     (if al_addresses al \<noteq> al_addresses other then False
      else list_all2 (\<lambda>m m'. m = m') (al_slots al) (al_slots other))"

subsection \<open>The index invariant\<close>

text \<open>
  Every index is -1 or points at a non-empty slot set, and two addresses never share a set.
\<close>

definition al_wf :: "accessList \<Rightarrow> bool" where
  "al_wf al \<longleftrightarrow>
     (\<forall>a i. fmlookup (al_addresses al) a = Some i \<longrightarrow>
        i = -1 \<or> (\<exists>m. slots_at (al_slots al) i = Some m \<and> m \<noteq> {||})) \<and>
     (\<forall>a b i. fmlookup (al_addresses al) a = Some i \<longrightarrow> fmlookup (al_addresses al) b = Some i \<longrightarrow>
        i \<noteq> -1 \<longrightarrow> a = b)"

text \<open>The specification: which addresses and which address/slot pairs are warm.\<close>

definition al_addrs :: "accessList \<Rightarrow> address set" where
  "al_addrs al = {a. ContainsAddress al a}"

definition al_pairs :: "accessList \<Rightarrow> (address \<times> hash) set" where
  "al_pairs al =
     {(a, k). \<exists>i m. fmlookup (al_addresses al) a = Some i \<and> i \<noteq> -1 \<and>
                    slots_at (al_slots al) i = Some m \<and> k |\<in>| m}"

lemma slots_at_append:
  "slots_at (xs @ [m]) i =
     (if i = int (length xs) then Some m else slots_at xs i)"
  by (auto simp: slots_at_def nth_append nat_eq_iff2 not_less)

lemma slots_at_SomeD: "slots_at xs i = Some m \<Longrightarrow> 0 \<le> i \<and> nat i < length xs \<and> xs ! nat i = m"
  by (simp add: slots_at_def split: if_splits)

lemma slots_at_update:
  "slots_at xs i = Some m0 \<Longrightarrow>
   slots_at (xs[nat i := m]) j = (if j = i then Some m else slots_at xs j)"
  by (auto simp: slots_at_def nth_list_update nat_eq_iff split: if_splits)

lemma al_wfD1:
  "al_wf al \<Longrightarrow> fmlookup (al_addresses al) a = Some i \<Longrightarrow> i \<noteq> -1 \<Longrightarrow>
   \<exists>m. slots_at (al_slots al) i = Some m \<and> m \<noteq> {||}"
  unfolding al_wf_def by blast

lemma al_wfD2:
  "al_wf al \<Longrightarrow> fmlookup (al_addresses al) a = Some i \<Longrightarrow> fmlookup (al_addresses al) b = Some i \<Longrightarrow>
   i \<noteq> -1 \<Longrightarrow> a = b"
  unfolding al_wf_def by blast

lemma al_wf_fresh_index:
  "al_wf al \<Longrightarrow> fmlookup (al_addresses al) a \<noteq> Some (int (length (al_slots al)))"
  using al_wfD1 [of al a "int (length (al_slots al))"] by (auto simp: slots_at_def)

subsection \<open>The invariant is preserved\<close>

lemma newAccessList_wf [simp]: "al_wf newAccessList"
  by (simp add: al_wf_def newAccessList_def)

lemma AddAddress_wf: "al_wf al \<Longrightarrow> al_wf (fst (AddAddress al a))"
  by (auto simp: AddAddress_def al_wf_def split: if_splits)

lemma AddSlot_new_wf:
  assumes "al_wf al" "fmlookup (al_addresses al) a = None \<or> fmlookup (al_addresses al) a = Some (-1)"
  shows "al_wf (al\<lparr>al_addresses := fmupd a (int (length (al_slots al))) (al_addresses al),
                  al_slots := al_slots al @ [{|k|}]\<rparr>)"
proof -
  have at: "slots_at (al_slots al @ [{|k|}]) i = Some m" if "slots_at (al_slots al) i = Some m" for i m
    using that slots_at_SomeD [OF that] by (auto simp: slots_at_append)
  have fresh: "fmlookup (al_addresses al) b \<noteq> Some (int (length (al_slots al)))" for b
    by (rule al_wf_fresh_index [OF assms(1)])
  show ?thesis
    unfolding al_wf_def
  proof (intro conjI allI impI)
    fix b i
    assume "fmlookup (al_addresses (al\<lparr>al_addresses := fmupd a (int (length (al_slots al))) (al_addresses al),
      al_slots := al_slots al @ [{|k|}]\<rparr>)) b = Some i"
    then show "i = - 1 \<or> (\<exists>m. slots_at (al_slots (al\<lparr>al_addresses := fmupd a (int (length (al_slots al)))
      (al_addresses al), al_slots := al_slots al @ [{|k|}]\<rparr>)) i = Some m \<and> m \<noteq> {||})"
      using al_wfD1 [OF assms(1), of b i] at by (cases "b = a") (auto simp: slots_at_append)
  next
    fix b c i
    assume "fmlookup (al_addresses (al\<lparr>al_addresses := fmupd a (int (length (al_slots al))) (al_addresses al),
        al_slots := al_slots al @ [{|k|}]\<rparr>)) b = Some i"
      "fmlookup (al_addresses (al\<lparr>al_addresses := fmupd a (int (length (al_slots al))) (al_addresses al),
        al_slots := al_slots al @ [{|k|}]\<rparr>)) c = Some i" "i \<noteq> -1"
    then show "b = c"
      using al_wfD2 [OF assms(1), of b i c] fresh [of b] fresh [of c] by (auto split: if_splits)
  qed
qed

lemma al_wf_grow:
  assumes "al_wf al" "slots_at (al_slots al) i = Some m"
  shows "al_wf (al\<lparr>al_slots := (al_slots al)[nat i := finsert k m]\<rparr>)"
  using assms(1) unfolding al_wf_def by (auto simp: slots_at_update [OF assms(2)])

lemma AddSlot_wf:
  assumes "al_wf al"
  shows "\<exists>al' ac sc. AddSlot al a k = Some (al', ac, sc) \<and> al_wf al'"
proof (cases "fmlookup (al_addresses al) a = None \<or> fmlookup (al_addresses al) a = Some (-1)")
  case True
  with AddSlot_new_wf [OF assms, of a k] show ?thesis by (auto simp: AddSlot_def)
next
  case False
  then obtain i where i: "fmlookup (al_addresses al) a = Some i" "i \<noteq> -1" by auto
  with al_wfD1 [OF assms] obtain m where m: "slots_at (al_slots al) i = Some m" by blast
  with i assms al_wf_grow [OF assms m, of k] show ?thesis by (auto simp: AddSlot_def)
qed

lemma al_Contains_wf:
  "al_wf al \<Longrightarrow> al_Contains al a k = Some (a \<in> al_addrs al, (a, k) \<in> al_pairs al)"
  using al_wfD1 [of al a]
  by (fastforce simp: al_Contains_def al_addrs_def al_pairs_def ContainsAddress_def split: option.splits)

subsection \<open>Additions implement set insertion\<close>

lemma AddAddress_sets:
  "al_addrs (fst (AddAddress al a)) = insert a (al_addrs al)"
  "al_pairs (fst (AddAddress al a)) = al_pairs al"
  "snd (AddAddress al a) \<longleftrightarrow> a \<notin> al_addrs al"
  by (auto simp: AddAddress_def al_addrs_def al_pairs_def ContainsAddress_def split: if_splits)

lemma AddSlot_sets:
  assumes "al_wf al" "AddSlot al a k = Some (al', ac, sc)"
  shows "al_addrs al' = insert a (al_addrs al)"
    and "al_pairs al' = insert (a, k) (al_pairs al)"
    and "ac \<longleftrightarrow> a \<notin> al_addrs al" and "sc \<longleftrightarrow> (a, k) \<notin> al_pairs al"
proof -
  have *: "al_addrs al' = insert a (al_addrs al) \<and> al_pairs al' = insert (a, k) (al_pairs al) \<and>
    (ac \<longleftrightarrow> a \<notin> al_addrs al) \<and> (sc \<longleftrightarrow> (a, k) \<notin> al_pairs al)"
  proof (cases "fmlookup (al_addresses al) a = None \<or> fmlookup (al_addresses al) a = Some (-1)")
    case True
    have bound: "slots_at (al_slots al) i = Some m \<Longrightarrow> i \<noteq> int (length (al_slots al))" for i m
      using slots_at_SomeD [of "al_slots al" i m] by auto
    from True assms(2) have "al' = al\<lparr>al_addresses := fmupd a (int (length (al_slots al))) (al_addresses al),
        al_slots := al_slots al @ [{|k|}]\<rparr>" "ac \<longleftrightarrow> fmlookup (al_addresses al) a = None" sc
      by (auto simp: AddSlot_def)
    with True al_wf_fresh_index [OF assms(1)] show ?thesis
      by (auto simp: al_addrs_def al_pairs_def ContainsAddress_def slots_at_append dest: bound)
  next
    case False
    then obtain i where i: "fmlookup (al_addresses al) a = Some i" "i \<noteq> -1" by auto
    with al_wfD1 [OF assms(1)] obtain m where m: "slots_at (al_slots al) i = Some m" by blast
    have inj: "fmlookup (al_addresses al) b = Some i \<Longrightarrow> b = a" for b
      using al_wfD2 [OF assms(1) _ i(1,2)] .
    show ?thesis
    proof (cases "k |\<in>| m")
      case True
      with i m assms(2) have "al' = al" "\<not> ac" "\<not> sc" by (auto simp: AddSlot_def)
      with True i m show ?thesis by (auto simp: al_addrs_def al_pairs_def ContainsAddress_def)
    next
      case False
      with i m assms(2) have "al' = al\<lparr>al_slots := (al_slots al)[nat i := finsert k m]\<rparr>" "\<not> ac" sc
        by (auto simp: AddSlot_def)
      with False i m show ?thesis
        by (auto simp: al_addrs_def al_pairs_def ContainsAddress_def slots_at_update [OF m]
            split: if_splits dest: inj)
    qed
  qed
  then show "al_addrs al' = insert a (al_addrs al)" "al_pairs al' = insert (a, k) (al_pairs al)"
    "ac \<longleftrightarrow> a \<notin> al_addrs al" "sc \<longleftrightarrow> (a, k) \<notin> al_pairs al" by simp_all
qed

subsection \<open>Deletions are exact inverses\<close>

lemma AddAddress_undo: "AddAddress al a = (al', True) \<Longrightarrow> DeleteAddress al' a = al"
  by (auto simp: AddAddress_def DeleteAddress_def fmdrop_fmupd_absent split: if_splits)

lemma AddAddress_no_change: "AddAddress al a = (al', False) \<Longrightarrow> al' = al"
  by (auto simp: AddAddress_def split: if_splits)

lemma AddSlot_undo:
  assumes "al_wf al" "AddSlot al a k = Some (al', ac, True)"
  shows "\<exists>al1. DeleteSlot al' a k = Some al1 \<and> (if ac then DeleteAddress al1 a else al1) = al"
proof (cases "fmlookup (al_addresses al) a = None \<or> fmlookup (al_addresses al) a = Some (-1)")
  case True
  from True assms(2) have "al' = al\<lparr>al_addresses := fmupd a (int (length (al_slots al))) (al_addresses al),
      al_slots := al_slots al @ [{|k|}]\<rparr>" "ac \<longleftrightarrow> fmlookup (al_addresses al) a = None"
    by (auto simp: AddSlot_def)
  with True show ?thesis
    by (auto simp: DeleteSlot_def slots_at_append DeleteAddress_def fmdrop_fmupd_absent fmupd_idle)
next
  case False
  then obtain i where i: "fmlookup (al_addresses al) a = Some i" "i \<noteq> -1" by auto
  with al_wfD1 [OF assms(1)] obtain m where m: "slots_at (al_slots al) i = Some m" "m \<noteq> {||}" by blast
  with i assms(2) have al': "al' = al\<lparr>al_slots := (al_slots al)[nat i := finsert k m]\<rparr>" "\<not> ac" "k |\<notin>| m"
    by (auto simp: AddSlot_def split: if_splits)
  have "finsert k m |-| {|k|} = m" using al'(3) by auto
  moreover have "(al_slots al)[nat i := m] = al_slots al"
    using slots_at_SomeD [OF m(1)] by (metis list_update_id)
  ultimately show ?thesis
    using i m(2) al' by (simp add: DeleteSlot_def slots_at_update [OF m(1)])
qed

lemma AddSlot_no_change:
  "AddSlot al a k = Some (al', ac, False) \<Longrightarrow> al' = al \<and> \<not> ac"
  by (auto simp: AddSlot_def Let_def split: if_splits option.splits)

subsection \<open>Property\<close>

text \<open>
  C19: on a well-formed access list, adding an address or a slot never panics, keeps the list
  well-formed, inserts exactly that address or slot into the sets that \<^verbatim>\<open>Contains\<close> answers from
  and reports exactly what was new; the deletions that the journal makes on a revert give
  back the very same structure.
\<close>

theorem access_list_sets:
  assumes "al_wf al"
  shows "al_Contains al a k = Some (a \<in> al_addrs al, (a, k) \<in> al_pairs al) \<and>
    (\<exists>al'. AddAddress al a = (al', a \<notin> al_addrs al) \<and> al_wf al' \<and>
       al_addrs al' = insert a (al_addrs al) \<and> al_pairs al' = al_pairs al \<and>
       (if a \<in> al_addrs al then al' = al else DeleteAddress al' a = al)) \<and>
    (\<exists>al'. AddSlot al a k = Some (al', a \<notin> al_addrs al, (a, k) \<notin> al_pairs al) \<and> al_wf al' \<and>
       al_addrs al' = insert a (al_addrs al) \<and> al_pairs al' = insert (a, k) (al_pairs al) \<and>
       (if (a, k) \<in> al_pairs al then al' = al
        else \<exists>al1. DeleteSlot al' a k = Some al1 \<and> (if a \<in> al_addrs al then al1 else DeleteAddress al1 a) = al))"
proof -
  obtain al1 ad where ad: "AddAddress al a = (al1, ad)" by (cases "AddAddress al a")
  obtain al2 ac sc where sl: "AddSlot al a k = Some (al2, ac, sc)" "al_wf al2" using AddSlot_wf [OF assms] by blast
  note sets = AddSlot_sets [OF assms sl(1)]
  have "ad \<longleftrightarrow> a \<notin> al_addrs al" using AddAddress_sets(3) [of al a] ad by simp
  then have "if a \<in> al_addrs al then al1 = al else DeleteAddress al1 a = al"
    using ad AddAddress_undo AddAddress_no_change by auto
  moreover have "if (a, k) \<in> al_pairs al then al2 = al
      else \<exists>al1. DeleteSlot al2 a k = Some al1 \<and> (if a \<in> al_addrs al then al1 else DeleteAddress al1 a) = al"
    using sl(1) sets(3,4) AddSlot_undo [OF assms, of a k al2 ac] AddSlot_no_change [of al a k al2 ac] by auto
  ultimately show ?thesis
    using al_Contains_wf [OF assms] ad AddAddress_sets [of al a] AddAddress_wf [OF assms, of a] sl sets by simp
qed

theorem access_list_sets_witness:
  "\<exists>al'. AddSlot newAccessList 7 9 = Some (al', True, True) \<and> DeleteSlot al' 7 9 \<noteq> None"
  using access_list_sets [OF newAccessList_wf, of 7 9]
  by (auto simp: al_addrs_def al_pairs_def newAccessList_def ContainsAddress_def)

end
