(* ===== verification/TransientStorage.thy ===== *)
theory TransientStorage
  imports Geth_Prelude
begin

text \<open>
  The EIP-1153 transient storage of \<^verbatim>\<open>core/state/transient_storage.go\<close> and the \<^verbatim>\<open>Storage\<close> map of
  \<^verbatim>\<open>core/state/state_object.go\<close>: a two-level map in which the zero value is represented by
  absence. The invariant \<open>ts_wf\<close> (no zero value and no empty inner map is stored) makes the
  representation canonical, so that setting a slot back to its previous value gives back the
  same map.
\<close>

type_synonym Storage = "(hash, hash) fmap"
type_synonym transientStorage = "(address, Storage) fmap"

definition newTransientStorage :: transientStorage where
  "newTransientStorage = fmempty"

definition Storage_Copy :: "Storage \<Rightarrow> Storage" where
  "Storage_Copy s = s"

definition ts_Set :: "transientStorage \<Rightarrow> address \<Rightarrow> hash \<Rightarrow> hash \<Rightarrow> transientStorage" where
  "ts_Set t addr key v =
     (if v = 0 then
        (case fmlookup t addr of
           Some st \<Rightarrow>
             let st = fmdrop key st; t = fmupd addr st t
             in if fmdom st = {||} then fmdrop addr t else t
         | None \<Rightarrow> t)
      else
        let t = (if fmlookup t addr = None then fmupd addr fmempty t else t)
        in fmupd addr (fmupd key v (the (fmlookup t addr))) t)"

text \<open>Reading a missing key of a Go map gives the zero value.\<close>

definition Storage_get :: "Storage \<Rightarrow> hash \<Rightarrow> hash" where
  "Storage_get st key = (case fmlookup st key of Some v \<Rightarrow> v | None \<Rightarrow> 0)"

definition ts_Get :: "transientStorage \<Rightarrow> address \<Rightarrow> hash \<Rightarrow> hash" where
  "ts_Get t addr key = (case fmlookup t addr of None \<Rightarrow> 0 | Some val \<Rightarrow> Storage_get val key)"

definition ts_Copy :: "transientStorage \<Rightarrow> transientStorage" where
  "ts_Copy t = fmmap Storage_Copy t"

definition ts_wf :: "transientStorage \<Rightarrow> bool" where
  "ts_wf t \<longleftrightarrow>
     (\<forall>a st. fmlookup t a = Some st \<longrightarrow> st \<noteq> fmempty \<and> (\<forall>k v. fmlookup st k = Some v \<longrightarrow> v \<noteq> 0))"

lemma fm_nonempty_iff: "m \<noteq> fmempty \<longleftrightarrow> (\<exists>k v. fmlookup m k = Some v)"
  by (metis fmap_ext fmempty_lookup option.exhaust option.distinct(1))

lemma fmdom_empty_iff: "fmdom m = {||} \<longleftrightarrow> m = fmempty"
  by (metis (no_types, lifting) fmdom'_empty fmdom'_notD fmdom_empty fmdom'_alt_def fmap_ext
      fmempty_lookup fset_simps(1) empty_iff)

lemma fmupd_nonempty [simp]: "fmupd k v m \<noteq> fmempty"
  by (metis fmempty_lookup fmupd_lookup option.distinct(1))

lemma ts_wf_new [simp]: "ts_wf newTransientStorage"
  by (simp add: ts_wf_def newTransientStorage_def)

lemma ts_wf_Set: "ts_wf t \<Longrightarrow> ts_wf (ts_Set t a k v)"
  by (cases "fmlookup t a")
    (auto simp: ts_Set_def ts_wf_def Let_def fmdom_empty_iff split: if_splits)

lemma ts_Get_Set:
  "ts_Get (ts_Set t a k v) b j = (if b = a \<and> j = k then v else ts_Get t b j)"
proof (cases "fmlookup t a")
  case None
  then show ?thesis
    by (auto simp: ts_Get_def ts_Set_def Storage_get_def Let_def)
next
  case (Some st)
  have "fmdrop k st = fmempty \<Longrightarrow> j \<noteq> k \<Longrightarrow> fmlookup st j = None" for j
    using fmlookup_drop [of k st j] by simp
  with Some show ?thesis
    by (auto simp: ts_Get_def ts_Set_def Storage_get_def Let_def fmdom_empty_iff)
qed

lemma ts_wfD:
  "ts_wf t \<Longrightarrow> fmlookup t a = Some st \<Longrightarrow> fmlookup st k \<noteq> Some 0 \<and> (\<exists>j. fmlookup st j \<noteq> None)"
  unfolding ts_wf_def fm_nonempty_iff by blast

lemma ts_Get_None_iff:
  assumes "ts_wf t"
  shows "fmlookup t a = None \<longleftrightarrow> (\<forall>k. ts_Get t a k = 0)"
proof (cases "fmlookup t a")
  case (Some st)
  with ts_wfD [OF assms Some] obtain j v where "fmlookup st j = Some v" "v \<noteq> 0" by fastforce
  with Some show ?thesis by (auto simp: ts_Get_def Storage_get_def intro!: exI [of _ j])
qed (simp add: ts_Get_def)

lemma ts_ext:
  assumes "ts_wf t" "ts_wf u" "\<And>a k. ts_Get t a k = ts_Get u a k"
  shows "t = u"
proof (rule fmap_ext)
  fix a
  show "fmlookup t a = fmlookup u a"
  proof (cases "fmlookup t a")
    case None
    with assms show ?thesis by (metis ts_Get_None_iff)
  next
    case (Some st)
    with assms obtain su where su: "fmlookup u a = Some su" by (metis ts_Get_None_iff option.exhaust)
    have "fmlookup st k = fmlookup su k" for k
      using assms(3) [of a k] ts_wfD [OF assms(1) Some, of k] ts_wfD [OF assms(2) su, of k] Some su
      by (auto simp: ts_Get_def Storage_get_def split: option.splits)
    then have "st = su" by (rule fmap_ext)
    with Some su show ?thesis by simp
  qed
qed

lemma ts_Set_undo: "ts_wf t \<Longrightarrow> ts_Set (ts_Set t a k v) a k (ts_Get t a k) = t"
  by (rule ts_ext) (simp_all add: ts_wf_Set ts_Get_Set)

text \<open>
  C20: transient storage behaves as a total map that is zero at first: a write changes exactly
  its slot, the representation stays free of zero entries and empty accounts, and writing
  back the value read before a write restores the very same structure.
\<close>

theorem transient_storage_map:
  assumes "ts_wf t"
  shows "ts_Get newTransientStorage b j = 0 \<and>
    ts_Get (ts_Set t a k v) b j = (if b = a \<and> j = k then v else ts_Get t b j) \<and>
    ts_wf (ts_Set t a k v) \<and> ts_Set (ts_Set t a k v) a k (ts_Get t a k) = t \<and> ts_Copy t = t"
proof -
  have "ts_Copy t = t" by (simp add: ts_Copy_def Storage_Copy_def fmmap_same)
  moreover have "ts_Get newTransientStorage b j = 0" by (simp add: ts_Get_def newTransientStorage_def)
  ultimately show ?thesis using assms by (simp add: ts_Get_Set ts_wf_Set ts_Set_undo)
qed

theorem transient_storage_map_witness:
  "ts_Set (ts_Set newTransientStorage 1 2 3) 1 2 0 = newTransientStorage"
  using transient_storage_map [OF ts_wf_new, of 1 2 1 2 3] by metis

end
