(* ===== verification/Lru.thy ===== *)
theory Lru
  imports Geth_Prelude "HOL-Library.Monad_Syntax"
begin

text \<open>
  The least-recently-used cache of \<^verbatim>\<open>common/lru/basiclru.go\<close>, down to its pointers: the
  circular doubly-linked list lives in an explicit memory from element addresses to nodes
  (the root node is address 0), and the cache pairs it with a map from keys to list elements.
  Dereferencing a nil pointer is a panic, \<open>None\<close>.

  The lemmas show that on a well-linked list the pointer operations implement the obvious
  operations on a sequence, and that the whole cache refines a bounded association list
  ordered by recency.
\<close>

subsection \<open>The linked list\<close>

type_synonym ptr = nat

record 'k listElem =
  le_next :: "ptr option"
  le_prev :: "ptr option"
  le_v :: 'k

text \<open>\<^verbatim>\<open>dl_brk\<close> is the next address \<^verbatim>\<open>new(listElem)\<close> returns.\<close>

record 'k dlist =
  dl_mem :: "ptr \<Rightarrow> 'k listElem"
  dl_brk :: ptr

definition dl_root :: ptr where
  "dl_root = 0"

definition set_next :: "ptr option \<Rightarrow> ptr option \<Rightarrow> 'k dlist \<Rightarrow> 'k dlist option" where
  "set_next p v l =
     map_option (\<lambda>a. l\<lparr>dl_mem := (dl_mem l)(a := (dl_mem l a)\<lparr>le_next := v\<rparr>)\<rparr>) p"

definition set_prev :: "ptr option \<Rightarrow> ptr option \<Rightarrow> 'k dlist \<Rightarrow> 'k dlist option" where
  "set_prev p v l =
     map_option (\<lambda>a. l\<lparr>dl_mem := (dl_mem l)(a := (dl_mem l a)\<lparr>le_prev := v\<rparr>)\<rparr>) p"

definition set_v :: "ptr \<Rightarrow> 'k \<Rightarrow> 'k dlist \<Rightarrow> 'k dlist" where
  "set_v p k l = l\<lparr>dl_mem := (dl_mem l)(p := (dl_mem l p)\<lparr>le_v := k\<rparr>)\<rparr>"

definition list_init :: "'k dlist \<Rightarrow> 'k dlist" where
  "list_init l =
     l\<lparr>dl_mem := (dl_mem l)(dl_root := (dl_mem l dl_root)\<lparr>le_next := Some dl_root, le_prev := Some dl_root\<rparr>)\<rparr>"

definition newList :: "'k::zero dlist" where
  "newList = list_init \<lparr>dl_mem = (\<lambda>_. \<lparr>le_next = None, le_prev = None, le_v = 0\<rparr>), dl_brk = 1\<rparr>"

definition pushElem :: "'k dlist \<Rightarrow> ptr \<Rightarrow> 'k dlist option" where
  "pushElem l e = do {
     l \<leftarrow> set_prev (Some e) (Some dl_root) l;
     l \<leftarrow> set_next (Some e) (le_next (dl_mem l dl_root)) l;
     l \<leftarrow> set_next (Some dl_root) (Some e) l;
     set_prev (le_next (dl_mem l e)) (Some e) l
   }"

text \<open>The two assignments that \<^verbatim>\<open>moveToFront\<close> and \<^verbatim>\<open>remove\<close> share.\<close>

definition unlink :: "'k dlist \<Rightarrow> ptr \<Rightarrow> 'k dlist option" where
  "unlink l e = do {
     l \<leftarrow> set_next (le_prev (dl_mem l e)) (le_next (dl_mem l e)) l;
     set_prev (le_next (dl_mem l e)) (le_prev (dl_mem l e)) l
   }"

definition moveToFront :: "'k dlist \<Rightarrow> ptr \<Rightarrow> 'k dlist option" where
  "moveToFront l e = do { l \<leftarrow> unlink l e; pushElem l e }"

definition list_remove :: "'k dlist \<Rightarrow> ptr \<Rightarrow> 'k dlist option" where
  "list_remove l e = do {
     l \<leftarrow> unlink l e;
     l \<leftarrow> set_next (Some e) None l;
     set_prev (Some e) None l
   }"

text \<open>\<^verbatim>\<open>last\<close> compares the pointer with the root and returns nil (\<open>None\<close>) when they agree.\<close>

definition list_last :: "'k dlist \<Rightarrow> ptr option" where
  "list_last l = (if le_prev (dl_mem l dl_root) = Some dl_root then None else le_prev (dl_mem l dl_root))"

definition list_removeLast :: "'k dlist \<Rightarrow> ('k dlist \<times> ptr option) option" where
  "list_removeLast l =
     (case list_last l of
        None \<Rightarrow> Some (l, None)
      | Some e \<Rightarrow> do { l \<leftarrow> list_remove l e; Some (l, Some e) })"

partial_function (option) appendTo_loop :: "'k dlist \<Rightarrow> ptr option \<Rightarrow> 'k list \<Rightarrow> 'k list option" where
  "appendTo_loop l e acc =
     (case e of
        None \<Rightarrow> None
      | Some p \<Rightarrow>
          if p = dl_root then Some acc
          else appendTo_loop l (le_prev (dl_mem l p)) (acc @ [le_v (dl_mem l p)]))"

definition list_appendTo :: "'k dlist \<Rightarrow> 'k list \<Rightarrow> 'k list option" where
  "list_appendTo l xs = appendTo_loop l (le_prev (dl_mem l dl_root)) xs"

subsection \<open>The cache\<close>

record 'v cacheItem =
  ci_elem :: ptr
  ci_value :: 'v

record ('k, 'v) BasicLRU =
  lru_list :: "'k dlist"
  lru_items :: "('k, 'v cacheItem) fmap"
  lru_cap :: int

definition NewBasicLRU :: "int \<Rightarrow> ('k::zero, 'v) BasicLRU" where
  "NewBasicLRU capacity =
     (let capacity = (if capacity \<le> 0 then 1 else capacity)
      in \<lparr>lru_list = newList, lru_items = fmempty, lru_cap = capacity\<rparr>)"

definition lru_Len :: "('k, 'v) BasicLRU \<Rightarrow> int" where
  "lru_Len c = int (fcard (fmdom (lru_items c)))"

text \<open>\<^verbatim>\<open>c.items[key].value\<close>: the zero value when the key is missing.\<close>

definition item_value :: "('k, 'v::zero) BasicLRU \<Rightarrow> 'k \<Rightarrow> 'v" where
  "item_value c key = (case fmlookup (lru_items c) key of Some item \<Rightarrow> ci_value item | None \<Rightarrow> 0)"

text \<open>
  The result is the new cache with the evicted entry, if any; \<open>None\<close> as the outer value is a
  nil dereference.
\<close>

definition lru_Add3 ::
  "('k, 'v::zero) BasicLRU \<Rightarrow> 'k \<Rightarrow> 'v \<Rightarrow> (('k, 'v) BasicLRU \<times> ('k \<times> 'v) option) option" where
  "lru_Add3 c key v =
     (case fmlookup (lru_items c) key of
        Some item \<Rightarrow>
          let c = c\<lparr>lru_items := fmupd key (item\<lparr>ci_value := v\<rparr>) (lru_items c)\<rparr>
          in do { l \<leftarrow> moveToFront (lru_list c) (ci_elem item); Some (c\<lparr>lru_list := l\<rparr>, None) }
      | None \<Rightarrow> do {
          (c, elem, ev) \<leftarrow>
            (if lru_Len c \<ge> lru_cap c then do {
               (l, elem) \<leftarrow> list_removeLast (lru_list c);
               elem \<leftarrow> elem;
               let ek = le_v (dl_mem l elem);
               Some (c\<lparr>lru_list := l, lru_items := fmdrop ek (lru_items c)\<rparr>, elem, Some (ek, item_value c ek))
             } else
               Some (c\<lparr>lru_list := (lru_list c)\<lparr>dl_brk := dl_brk (lru_list c) + 1\<rparr>\<rparr>,
                     dl_brk (lru_list c), None));
          let l = set_v elem key (lru_list c);
          let items = fmupd key \<lparr>ci_elem = elem, ci_value = v\<rparr> (lru_items c);
          l \<leftarrow> pushElem l elem;
          Some (c\<lparr>lru_list := l, lru_items := items\<rparr>, ev)
        })"

definition lru_Add :: "('k, 'v::zero) BasicLRU \<Rightarrow> 'k \<Rightarrow> 'v \<Rightarrow> (('k, 'v) BasicLRU \<times> bool) option" where
  "lru_Add c key v = map_option (\<lambda>(c, ev). (c, ev \<noteq> None)) (lru_Add3 c key v)"

definition lru_Contains :: "('k, 'v) BasicLRU \<Rightarrow> 'k \<Rightarrow> bool" where
  "lru_Contains c key \<longleftrightarrow> fmlookup (lru_items c) key \<noteq> None"

definition lru_Get :: "('k, 'v) BasicLRU \<Rightarrow> 'k \<Rightarrow> (('k, 'v) BasicLRU \<times> 'v option) option" where
  "lru_Get c key =
     (case fmlookup (lru_items c) key of
        None \<Rightarrow> Some (c, None)
      | Some item \<Rightarrow> do {
          l \<leftarrow> moveToFront (lru_list c) (ci_elem item);
          Some (c\<lparr>lru_list := l\<rparr>, Some (ci_value item)) })"

definition lru_Peek :: "('k, 'v) BasicLRU \<Rightarrow> 'k \<Rightarrow> 'v option" where
  "lru_Peek c key = map_option ci_value (fmlookup (lru_items c) key)"

definition lru_GetOldest :: "('k, 'v::zero) BasicLRU \<Rightarrow> ('k \<times> 'v) option" where
  "lru_GetOldest c =
     (case list_last (lru_list c) of
        None \<Rightarrow> None
      | Some e \<Rightarrow> let key = le_v (dl_mem (lru_list c) e) in Some (key, item_value c key))"

definition lru_Purge :: "('k, 'v) BasicLRU \<Rightarrow> ('k, 'v) BasicLRU" where
  "lru_Purge c = c\<lparr>lru_list := list_init (lru_list c), lru_items := fmempty\<rparr>"

definition lru_Remove :: "('k, 'v) BasicLRU \<Rightarrow> 'k \<Rightarrow> (('k, 'v) BasicLRU \<times> bool) option" where
  "lru_Remove c key =
     (case fmlookup (lru_items c) key of
        None \<Rightarrow> Some (c, False)
      | Some item \<Rightarrow> do {
          l \<leftarrow> list_remove (lru_list c) (ci_elem item);
          Some (c\<lparr>lru_items := fmdrop key (lru_items c), lru_list := l\<rparr>, True) })"

definition lru_RemoveOldest :: "('k, 'v::zero) BasicLRU \<Rightarrow> (('k, 'v) BasicLRU \<times> ('k \<times> 'v) option) option" where
  "lru_RemoveOldest c =
     (case list_last (lru_list c) of
        None \<Rightarrow> Some (c, None)
      | Some e \<Rightarrow> do {
          let key = le_v (dl_mem (lru_list c) e);
          l \<leftarrow> list_remove (lru_list c) e;
          Some (c\<lparr>lru_items := fmdrop key (lru_items c), lru_list := l\<rparr>, Some (key, item_value c key)) })"

definition lru_Keys :: "('k, 'v) BasicLRU \<Rightarrow> 'k list option" where
  "lru_Keys c = list_appendTo (lru_list c) []"

definition lru_Capacity :: "('k, 'v) BasicLRU \<Rightarrow> int" where
  "lru_Capacity c = lru_cap c"

subsection \<open>\<^verbatim>\<open>RecentWasms\<close> of \<^verbatim>\<open>core/state/statedb_arbitrum.go\<close>\<close>

text \<open>The set of Stylus programs initialised in the current block; \<^verbatim>\<open>struct{}\<close> is \<^typ>\<open>unit\<close>.\<close>

instantiation unit :: zero
begin

definition zero_unit :: unit where
  "zero_unit = ()"

instance ..

end

record RecentWasms =
  rw_cache :: "(hash, unit) BasicLRU option"

definition NewRecentWasms :: RecentWasms where
  "NewRecentWasms = \<lparr>rw_cache = None\<rparr>"

definition RecentWasms_Insert :: "RecentWasms \<Rightarrow> hash \<Rightarrow> u16 \<Rightarrow> (RecentWasms \<times> bool) option" where
  "RecentWasms_Insert p item retain =
     (let cache = (case rw_cache p of None \<Rightarrow> NewBasicLRU (int (unat retain)) | Some c \<Rightarrow> c)
      in do {
        (cache, hit) \<leftarrow> lru_Get cache item;
        if hit \<noteq> None then Some (\<lparr>rw_cache = Some cache\<rparr>, True)
        else do {
          (cache, _) \<leftarrow> lru_Add cache item ();
          Some (\<lparr>rw_cache = Some cache\<rparr>, False)
        }
      })"

fun add_all :: "(hash, unit) BasicLRU \<Rightarrow> hash list \<Rightarrow> (hash, unit) BasicLRU option" where
  "add_all cache [] = Some cache"
| "add_all cache (item # items) = do { (cache, _) \<leftarrow> lru_Add cache item (); add_all cache items }"

definition RecentWasms_Copy :: "RecentWasms \<Rightarrow> RecentWasms option" where
  "RecentWasms_Copy p =
     (case rw_cache p of
        None \<Rightarrow> Some NewRecentWasms
      | Some c \<Rightarrow> do {
          ks \<leftarrow> lru_Keys c;
          cache \<leftarrow> add_all (NewBasicLRU (lru_Capacity c)) ks;
          Some \<lparr>rw_cache = Some cache\<rparr>
        })"

subsection \<open>Well-linked lists\<close>

text \<open>The nodes \<open>ps\<close> lie, in this order, between \<open>x\<close> and \<open>y\<close>, linked both ways.\<close>

fun chain :: "(ptr \<Rightarrow> 'k listElem) \<Rightarrow> ptr \<Rightarrow> ptr list \<Rightarrow> ptr \<Rightarrow> bool" where
  "chain m x [] y \<longleftrightarrow> le_next (m x) = Some y \<and> le_prev (m y) = Some x"
| "chain m x (p # ps) y \<longleftrightarrow> le_next (m x) = Some p \<and> le_prev (m p) = Some x \<and> chain m p ps y"

definition dl_ok :: "'k dlist \<Rightarrow> ptr list \<Rightarrow> bool" where
  "dl_ok l ps \<longleftrightarrow>
     chain (dl_mem l) dl_root ps dl_root \<and> distinct (dl_root # ps) \<and> (\<forall>p\<in>set (dl_root # ps). p < dl_brk l)"

lemma chain_append: "chain m x (xs @ p # ys) y \<longleftrightarrow> chain m x xs p \<and> chain m p ys y"
  by (induction xs arbitrary: x) auto

lemma chain_frame:
  "(\<And>p. p \<in> set (x # ps) \<Longrightarrow> le_next (m' p) = le_next (m p)) \<Longrightarrow>
   (\<And>p. p \<in> set (ps @ [y]) \<Longrightarrow> le_prev (m' p) = le_prev (m p)) \<Longrightarrow>
   chain m' x ps y \<longleftrightarrow> chain m x ps y"
  by (induction ps arbitrary: x) auto

lemma chain_last: "chain m x (ps @ [q]) y \<Longrightarrow> le_prev (m y) = Some q"
  by (simp add: chain_append)

text \<open>Only the links of the listed nodes change, the payloads never do.\<close>

definition same_payload :: "'k dlist \<Rightarrow> 'k dlist \<Rightarrow> bool" where
  "same_payload l l' \<longleftrightarrow> (\<forall>p. le_v (dl_mem l' p) = le_v (dl_mem l p)) \<and> dl_brk l' = dl_brk l"

lemmas link_defs = set_next_def set_prev_def

lemma pushElem_links:
  assumes "le_next (dl_mem l dl_root) = Some n" "n \<noteq> e" "e \<noteq> dl_root"
  shows "\<exists>l'. pushElem l e = Some l' \<and> same_payload l l' \<and>
    (\<forall>q. le_next (dl_mem l' q) = (if q = dl_root then Some e else if q = e then Some n else le_next (dl_mem l q))) \<and>
    (\<forall>q. le_prev (dl_mem l' q) = (if q = n then Some e else if q = e then Some dl_root else le_prev (dl_mem l q)))"
  using assms by (auto simp: pushElem_def link_defs same_payload_def)

lemma pushElem_ok:
  assumes "dl_ok l ps" "e \<notin> set (dl_root # ps)" "e < dl_brk l"
  shows "\<exists>l'. pushElem l e = Some l' \<and> dl_ok l' (e # ps) \<and> same_payload l l'"
proof -
  define n where "n = hd (ps @ [dl_root])"
  have next_root: "le_next (dl_mem l dl_root) = Some n"
    using assms(1) by (cases ps) (auto simp: dl_ok_def n_def)
  have n: "n \<noteq> e" and e: "e \<noteq> dl_root" using assms(2) by (cases ps; auto simp: n_def)+
  from pushElem_links [OF next_root n e] obtain l' where push: "pushElem l e = Some l'" "same_payload l l'"
    and mn: "\<And>q. le_next (dl_mem l' q) = (if q = dl_root then Some e else if q = e then Some n else le_next (dl_mem l q))"
    and mp: "\<And>q. le_prev (dl_mem l' q) = (if q = n then Some e else if q = e then Some dl_root else le_prev (dl_mem l q))"
    by blast
  have "chain (dl_mem l') e ps dl_root"
  proof (cases ps)
    case Nil
    with e show ?thesis by (simp add: mn mp n_def)
  next
    case (Cons q qs)
    from assms(1) Cons have old: "chain (dl_mem l) q qs dl_root" and d: "distinct (dl_root # q # qs)"
      by (auto simp: dl_ok_def)
    have "chain (dl_mem l') q qs dl_root \<longleftrightarrow> chain (dl_mem l) q qs dl_root"
      using d assms(2) Cons by (intro chain_frame) (auto simp: mn mp n_def)
    with old Cons e show ?thesis by (simp add: mn mp n_def)
  qed
  then have "dl_ok l' (e # ps)"
    using assms n push(2) by (auto simp: dl_ok_def mn mp same_payload_def)
  with push show ?thesis by blast
qed

lemma unlink_links:
  assumes "le_prev (dl_mem l e) = Some p" "le_next (dl_mem l e) = Some n" "p \<noteq> e"
  shows "\<exists>l'. unlink l e = Some l' \<and> same_payload l l' \<and>
    (\<forall>q. le_next (dl_mem l' q) = (if q = p then Some n else le_next (dl_mem l q))) \<and>
    (\<forall>q. le_prev (dl_mem l' q) = (if q = n then Some p else le_prev (dl_mem l q)))"
  using assms by (auto simp: unlink_def link_defs same_payload_def)

lemma unlink_ok:
  assumes "dl_ok l (xs @ e # ys)"
  shows "\<exists>l'. unlink l e = Some l' \<and> dl_ok l' (xs @ ys) \<and> same_payload l l'"
proof -
  define p where "p = last (dl_root # xs)"
  define n where "n = hd (ys @ [dl_root])"
  have c: "chain (dl_mem l) dl_root xs e" "chain (dl_mem l) e ys dl_root"
    and d: "distinct (dl_root # xs @ e # ys)"
    using assms by (auto simp: dl_ok_def chain_append)
  have prv: "le_prev (dl_mem l e) = Some p"
    using c(1) by (cases xs rule: rev_cases) (auto simp: p_def chain_append)
  have nxt: "le_next (dl_mem l e) = Some n"
    using c(2) by (cases ys) (auto simp: n_def)
  have pe: "p \<noteq> e" and py: "p \<notin> set ys"
    using d by (cases xs rule: rev_cases; auto simp: p_def)+
  from unlink_links [OF prv nxt pe] obtain l' where unl: "unlink l e = Some l'" "same_payload l l'"
    and mn: "\<And>q. le_next (dl_mem l' q) = (if q = p then Some n else le_next (dl_mem l q))"
    and mp: "\<And>q. le_prev (dl_mem l' q) = (if q = n then Some p else le_prev (dl_mem l q))"
    by blast
  have right: "chain (dl_mem l') p ys dl_root"
  proof (cases ys)
    case (Cons q qs)
    have "chain (dl_mem l') q qs dl_root \<longleftrightarrow> chain (dl_mem l) q qs dl_root"
      using d Cons py by (intro chain_frame) (auto simp: mn mp n_def)
    then show ?thesis using c(2) Cons by (simp add: mn mp n_def)
  qed (simp add: mn mp n_def)
  have "chain (dl_mem l') dl_root (xs @ ys) dl_root"
  proof (cases xs rule: rev_cases)
    case Nil
    with right show ?thesis by (simp add: p_def)
  next
    case (snoc zs z)
    have "chain (dl_mem l') dl_root zs z \<longleftrightarrow> chain (dl_mem l) dl_root zs z"
      using d snoc by (intro chain_frame) (cases ys; auto simp: mn mp p_def n_def)+
    with c(1) right snoc show ?thesis by (simp add: chain_append p_def)
  qed
  then have "dl_ok l' (xs @ ys)" using assms unl(2) by (auto simp: dl_ok_def same_payload_def)
  with unl show ?thesis by blast
qed

lemma moveToFront_ok:
  assumes "dl_ok l (xs @ e # ys)"
  shows "\<exists>l'. moveToFront l e = Some l' \<and> dl_ok l' (e # xs @ ys) \<and> same_payload l l'"
proof -
  from unlink_ok [OF assms] obtain l1
    where l1: "unlink l e = Some l1" "dl_ok l1 (xs @ ys)" "same_payload l l1" by blast
  moreover have "e \<notin> set (dl_root # xs @ ys)" "e < dl_brk l1"
    using assms l1(3) by (auto simp: dl_ok_def same_payload_def)
  ultimately show ?thesis
    using pushElem_ok [of l1 "xs @ ys" e] by (auto simp: moveToFront_def same_payload_def)
qed

lemma list_remove_ok:
  assumes "dl_ok l (xs @ e # ys)"
  shows "\<exists>l'. list_remove l e = Some l' \<and> dl_ok l' (xs @ ys) \<and> same_payload l l'"
proof -
  from unlink_ok [OF assms] obtain l1
    where l1: "unlink l e = Some l1" "dl_ok l1 (xs @ ys)" "same_payload l l1" by blast
  define l2 where "l2 = l1\<lparr>dl_mem := (dl_mem l1)(e := (dl_mem l1 e)\<lparr>le_next := None, le_prev := None\<rparr>)\<rparr>"
  have fresh: "e \<notin> set (dl_root # xs @ ys)" using assms by (auto simp: dl_ok_def)
  have "chain (dl_mem l2) dl_root (xs @ ys) dl_root \<longleftrightarrow> chain (dl_mem l1) dl_root (xs @ ys) dl_root"
    using fresh by (intro chain_frame) (auto simp: l2_def)
  then have "dl_ok l2 (xs @ ys)" using l1(2) by (simp add: dl_ok_def l2_def)
  moreover have "same_payload l l2" using l1(3) by (simp add: same_payload_def l2_def)
  moreover have "list_remove l e = Some l2" using l1(1) by (simp add: list_remove_def link_defs l2_def)
  ultimately show ?thesis by blast
qed

lemma list_last_ok: "dl_ok l ps \<Longrightarrow> list_last l = (if ps = [] then None else Some (last ps))"
  by (cases ps rule: rev_cases) (auto simp: dl_ok_def list_last_def chain_append)

lemma appendTo_loop_ok:
  "chain (dl_mem l) dl_root ps y \<Longrightarrow> dl_root \<notin> set ps \<Longrightarrow>
   appendTo_loop l (le_prev (dl_mem l y)) acc = Some (acc @ map (\<lambda>p. le_v (dl_mem l p)) (rev ps))"
proof (induction ps arbitrary: y acc rule: rev_induct)
  case Nil
  then show ?case by (subst appendTo_loop.simps) simp
next
  case (snoc q qs)
  then have "le_prev (dl_mem l y) = Some q" "chain (dl_mem l) dl_root qs q" "q \<noteq> dl_root"
    by (auto simp: chain_append)
  with snoc.IH [of q "acc @ [le_v (dl_mem l q)]"] snoc.prems(2) show ?case
    by (subst appendTo_loop.simps) simp
qed

lemma list_appendTo_ok:
  "dl_ok l ps \<Longrightarrow> list_appendTo l acc = Some (acc @ map (\<lambda>p. le_v (dl_mem l p)) (rev ps))"
  unfolding list_appendTo_def by (rule appendTo_loop_ok) (auto simp: dl_ok_def)

subsection \<open>The cache refines a list ordered by recency\<close>

definition lru_inv :: "('k, 'v) BasicLRU \<Rightarrow> ptr list \<Rightarrow> bool" where
  "lru_inv c ps \<longleftrightarrow>
     dl_ok (lru_list c) ps \<and> int (length ps) \<le> lru_cap c \<and> 0 < lru_cap c \<and>
     (\<forall>k i. fmlookup (lru_items c) k = Some i \<longrightarrow>
        ci_elem i \<in> set ps \<and> le_v (dl_mem (lru_list c) (ci_elem i)) = k) \<and>
     (\<forall>p\<in>set ps. \<exists>i. fmlookup (lru_items c) (le_v (dl_mem (lru_list c) p)) = Some i \<and> ci_elem i = p)"

definition lru_kv :: "('k, 'v::zero) BasicLRU \<Rightarrow> ptr \<Rightarrow> 'k \<times> 'v" where
  "lru_kv c p = (le_v (dl_mem (lru_list c) p), item_value c (le_v (dl_mem (lru_list c) p)))"

definition lru_repr :: "('k, 'v::zero) BasicLRU \<Rightarrow> ('k \<times> 'v) list \<Rightarrow> bool" where
  "lru_repr c xs \<longleftrightarrow> (\<exists>ps. lru_inv c ps \<and> xs = map (lru_kv c) ps)"

text \<open>The specification: most recently used entries first.\<close>

definition spec_drop :: "'k \<Rightarrow> ('k \<times> 'v) list \<Rightarrow> ('k \<times> 'v) list" where
  "spec_drop k xs = filter (\<lambda>e. fst e \<noteq> k) xs"

definition spec_get :: "'k \<Rightarrow> ('k \<times> 'v) list \<Rightarrow> ('k \<times> 'v) list" where
  "spec_get k xs = (case map_of xs k of None \<Rightarrow> xs | Some v \<Rightarrow> (k, v) # spec_drop k xs)"

definition spec_add :: "int \<Rightarrow> 'k \<Rightarrow> 'v \<Rightarrow> ('k \<times> 'v) list \<Rightarrow> ('k \<times> 'v) list \<times> ('k \<times> 'v) option" where
  "spec_add cap k v xs =
     (if map_of xs k \<noteq> None then ((k, v) # spec_drop k xs, None)
      else if int (length xs) \<ge> cap then ((k, v) # butlast xs, Some (last xs))
      else ((k, v) # xs, None))"

lemma lru_inv_dl: "lru_inv c ps \<Longrightarrow> dl_ok (lru_list c) ps \<and> distinct ps"
  by (simp add: lru_inv_def dl_ok_def)

lemma lru_inv_elem:
  "lru_inv c ps \<Longrightarrow> p \<in> set ps \<Longrightarrow>
   \<exists>i. fmlookup (lru_items c) (le_v (dl_mem (lru_list c) p)) = Some i \<and> ci_elem i = p"
  unfolding lru_inv_def by blast

lemma lru_inv_item:
  "lru_inv c ps \<Longrightarrow> fmlookup (lru_items c) k = Some i \<Longrightarrow>
   ci_elem i \<in> set ps \<and> le_v (dl_mem (lru_list c) (ci_elem i)) = k"
  unfolding lru_inv_def by blast

lemma lru_inv_key_inj:
  assumes "lru_inv c ps" "p \<in> set ps" "q \<in> set ps"
    and eq: "le_v (dl_mem (lru_list c) p) = le_v (dl_mem (lru_list c) q)"
  shows "p = q"
proof -
  from lru_inv_elem [OF assms(1,2)] obtain i
    where i: "fmlookup (lru_items c) (le_v (dl_mem (lru_list c) p)) = Some i" "ci_elem i = p" by blast
  from lru_inv_elem [OF assms(1,3)] obtain j
    where j: "fmlookup (lru_items c) (le_v (dl_mem (lru_list c) q)) = Some j" "ci_elem j = q" by blast
  from i(1) j(1) have "i = j" unfolding eq by simp
  with i(2) j(2) show ?thesis by blast
qed

lemma lru_inv_keys:
  assumes "lru_inv c ps"
  shows "fset (fmdom (lru_items c)) = (\<lambda>p. le_v (dl_mem (lru_list c) p)) ` set ps"
proof (rule set_eqI)
  fix k
  have "fmlookup (lru_items c) k \<noteq> None \<longleftrightarrow> (\<exists>p\<in>set ps. le_v (dl_mem (lru_list c) p) = k)"
    using lru_inv_elem [OF assms] lru_inv_item [OF assms, of k] by fastforce
  then show "k \<in> fset (fmdom (lru_items c)) \<longleftrightarrow> k \<in> (\<lambda>p. le_v (dl_mem (lru_list c) p)) ` set ps"
    by (auto simp: fmlookup_dom_iff image_iff)
qed

lemma lru_Len_eq: "lru_inv c ps \<Longrightarrow> lru_Len c = int (length ps)"
proof -
  assume inv: "lru_inv c ps"
  then have "inj_on (\<lambda>p. le_v (dl_mem (lru_list c) p)) (set ps)"
    by (auto intro!: inj_onI dest: lru_inv_key_inj)
  with inv show ?thesis
    by (simp add: lru_Len_def fcard.rep_eq lru_inv_keys card_image distinct_card lru_inv_dl)
qed

lemma lru_lookup:
  assumes "lru_inv c ps"
  shows "map_of (map (lru_kv c) ps) k = map_option ci_value (fmlookup (lru_items c) k)"
proof -
  have "map_of (map (lru_kv c) qs) k =
      (if k \<in> (\<lambda>p. le_v (dl_mem (lru_list c) p)) ` set qs then Some (item_value c k) else None)" for qs
    by (induction qs) (auto simp: lru_kv_def)
  moreover have "k \<in> (\<lambda>p. le_v (dl_mem (lru_list c) p)) ` set ps \<longleftrightarrow> fmlookup (lru_items c) k \<noteq> None"
    using lru_inv_keys [OF assms] by (metis fmdom_notD fmdom_notI)
  ultimately show ?thesis by (auto simp: item_value_def split: option.splits)
qed

lemma lru_kv_cong:
  "(\<And>p. p \<in> set ps \<Longrightarrow> le_v (dl_mem (lru_list c') p) = le_v (dl_mem (lru_list c) p)) \<Longrightarrow>
   (\<And>p. p \<in> set ps \<Longrightarrow> fmlookup (lru_items c') (le_v (dl_mem (lru_list c) p)) =
                        fmlookup (lru_items c) (le_v (dl_mem (lru_list c) p))) \<Longrightarrow>
   map (lru_kv c') ps = map (lru_kv c) ps"
  by (simp add: lru_kv_def item_value_def)

lemma spec_drop_split:
  assumes "lru_inv c (xs @ e # ys)" "le_v (dl_mem (lru_list c) e) = k"
  shows "spec_drop k (map (lru_kv c) (xs @ e # ys)) = map (lru_kv c) (xs @ ys)"
proof -
  have ne: "le_v (dl_mem (lru_list c) p) \<noteq> k" if "p \<in> set (xs @ ys)" for p
  proof
    assume "le_v (dl_mem (lru_list c) p) = k"
    then have "p = e" using assms that by (intro lru_inv_key_inj [OF assms(1)]) auto
    with that lru_inv_dl [OF assms(1)] show False by auto
  qed
  have "filter (\<lambda>p. fst (lru_kv c p) \<noteq> k) (xs @ e # ys) = xs @ ys"
    using ne assms(2) by (auto simp: lru_kv_def filter_id_conv)
  then show ?thesis by (simp only: spec_drop_def filter_map comp_def)
qed

lemma lru_move:
  assumes "lru_inv c (xs @ e # ys)"
  shows "\<exists>l. moveToFront (lru_list c) e = Some l \<and> lru_inv (c\<lparr>lru_list := l\<rparr>) (e # xs @ ys) \<and>
    map (lru_kv (c\<lparr>lru_list := l\<rparr>)) (e # xs @ ys) = map (lru_kv c) (e # xs @ ys)"
proof -
  from moveToFront_ok [of "lru_list c" xs e ys] lru_inv_dl [OF assms]
  obtain l where l: "moveToFront (lru_list c) e = Some l" "dl_ok l (e # xs @ ys)" "same_payload (lru_list c) l"
    by blast
  have pay: "le_v (dl_mem l p) = le_v (dl_mem (lru_list c) p)" for p
    using l(3) by (simp add: same_payload_def)
  have "lru_inv (c\<lparr>lru_list := l\<rparr>) (e # xs @ ys)"
    using assms l(2) unfolding lru_inv_def by (auto simp: pay)
  moreover have "map (lru_kv (c\<lparr>lru_list := l\<rparr>)) (e # xs @ ys) = map (lru_kv c) (e # xs @ ys)"
    by (rule lru_kv_cong) (simp_all add: pay)
  ultimately show ?thesis using l(1) by blast
qed

lemma lru_unlink:
  assumes "lru_inv c (xs @ e # ys)" "le_v (dl_mem (lru_list c) e) = k"
  shows "\<exists>l. list_remove (lru_list c) e = Some l \<and> same_payload (lru_list c) l \<and>
    lru_inv (c\<lparr>lru_items := fmdrop k (lru_items c), lru_list := l\<rparr>) (xs @ ys) \<and>
    map (lru_kv (c\<lparr>lru_items := fmdrop k (lru_items c), lru_list := l\<rparr>)) (xs @ ys) = map (lru_kv c) (xs @ ys)"
proof -
  from list_remove_ok [of "lru_list c" xs e ys] lru_inv_dl [OF assms(1)]
  obtain l where l: "list_remove (lru_list c) e = Some l" "dl_ok l (xs @ ys)" "same_payload (lru_list c) l"
    by blast
  have pay: "le_v (dl_mem l p) = le_v (dl_mem (lru_list c) p)" for p
    using l(3) by (simp add: same_payload_def)
  have ne: "le_v (dl_mem (lru_list c) p) \<noteq> k" if "p \<in> set (xs @ ys)" for p
    using that lru_inv_key_inj [OF assms(1), of p e] assms(2) lru_inv_dl [OF assms(1)] by auto
  let ?c = "c\<lparr>lru_items := fmdrop k (lru_items c), lru_list := l\<rparr>"
  have item: "ci_elem i \<in> set (xs @ ys) \<and> le_v (dl_mem l (ci_elem i)) = j"
    if "fmlookup (lru_items c) j = Some i" "j \<noteq> k" for j i
    using lru_inv_item [OF assms(1) that(1)] that(2) assms(2) by (auto simp: pay)
  have elem: "\<exists>i. fmlookup (fmdrop k (lru_items c)) (le_v (dl_mem l p)) = Some i \<and> ci_elem i = p"
    if "p \<in> set (xs @ ys)" for p
    using lru_inv_elem [OF assms(1), of p] that ne [OF that] by (auto simp: pay)
  have "lru_inv ?c (xs @ ys)"
    using assms(1) l(2) item elem unfolding lru_inv_def by auto
  moreover have "map (lru_kv ?c) (xs @ ys) = map (lru_kv c) (xs @ ys)"
    by (rule lru_kv_cong) (use ne in \<open>auto simp: pay\<close>)
  ultimately show ?thesis using l(1,3) by blast
qed

lemma dl_ok_set_v: "e \<notin> set (dl_root # ps) \<Longrightarrow> dl_ok (set_v e k l) ps \<longleftrightarrow> dl_ok l ps"
proof -
  have "chain (dl_mem (set_v e k l)) x ps y \<longleftrightarrow> chain (dl_mem l) x ps y" for x y
    by (intro chain_frame) (auto simp: set_v_def)
  then show ?thesis by (simp add: dl_ok_def set_v_def)
qed

lemma lru_push:
  assumes inv: "lru_inv c ps" and room: "int (length ps) < lru_cap c"
    and e: "e \<notin> set (dl_root # ps)" "e < dl_brk (lru_list c)" and k: "fmlookup (lru_items c) k = None"
  shows "\<exists>l. pushElem (set_v e k (lru_list c)) e = Some l \<and>
    lru_inv (c\<lparr>lru_list := l, lru_items := fmupd k \<lparr>ci_elem = e, ci_value = v\<rparr> (lru_items c)\<rparr>) (e # ps) \<and>
    map (lru_kv (c\<lparr>lru_list := l, lru_items := fmupd k \<lparr>ci_elem = e, ci_value = v\<rparr> (lru_items c)\<rparr>)) (e # ps) =
      (k, v) # map (lru_kv c) ps"
proof -
  have ok: "dl_ok (set_v e k (lru_list c)) ps"
    using dl_ok_set_v [OF e(1), of k "lru_list c"] lru_inv_dl [OF inv] by blast
  have "e < dl_brk (set_v e k (lru_list c))" using e(2) by (simp add: set_v_def)
  from pushElem_ok [OF ok e(1) this] obtain l
    where l: "pushElem (set_v e k (lru_list c)) e = Some l" "dl_ok l (e # ps)"
      "same_payload (set_v e k (lru_list c)) l" by blast
  have pay: "le_v (dl_mem l p) = (if p = e then k else le_v (dl_mem (lru_list c) p))" for p
    using l(3) by (simp add: same_payload_def set_v_def)
  have ne: "le_v (dl_mem (lru_list c) p) \<noteq> k \<and> p \<noteq> e" if "p \<in> set ps" for p
    using lru_inv_elem [OF inv that] k e(1) that by auto
  let ?c = "c\<lparr>lru_list := l, lru_items := fmupd k \<lparr>ci_elem = e, ci_value = v\<rparr> (lru_items c)\<rparr>"
  have item: "ci_elem i \<in> set ps \<and> le_v (dl_mem l (ci_elem i)) = j"
    if "fmlookup (lru_items c) j = Some i" for j i
    using lru_inv_item [OF inv that] ne by (auto simp: pay)
  have elem: "\<exists>i. fmlookup (fmupd k \<lparr>ci_elem = e, ci_value = v\<rparr> (lru_items c)) (le_v (dl_mem l p)) = Some i \<and>
      ci_elem i = p" if "p \<in> set ps" for p
    using lru_inv_elem [OF inv that] ne [OF that] by (auto simp: pay)
  have "lru_inv ?c (e # ps)"
    using inv room l(2) item elem pay [of e] unfolding lru_inv_def by (auto split: if_splits)
  moreover have "map (lru_kv ?c) ps = map (lru_kv c) ps"
    by (rule lru_kv_cong) (use ne in \<open>auto simp: pay\<close>)
  ultimately show ?thesis using l(1) by (auto simp: lru_kv_def item_value_def pay)
qed

lemma lru_New_repr: "lru_repr (NewBasicLRU n :: ('k::zero, 'v::zero) BasicLRU) []"
  by (auto simp: lru_repr_def lru_inv_def NewBasicLRU_def newList_def list_init_def dl_ok_def
      dl_root_def Let_def)

lemma lru_inv_split:
  assumes "lru_inv c ps" "fmlookup (lru_items c) k = Some i"
  obtains xs ys where "ps = xs @ ci_elem i # ys"
  using lru_inv_item [OF assms] by (meson split_list)

lemma lru_Get_refines:
  assumes "lru_repr c xs"
  shows "\<exists>c'. lru_Get c k = Some (c', map_of xs k) \<and> lru_repr c' (spec_get k xs) \<and> lru_cap c' = lru_cap c"
proof -
  from assms obtain ps where ps: "lru_inv c ps" "xs = map (lru_kv c) ps" by (auto simp: lru_repr_def)
  note look = lru_lookup [OF ps(1), of k, folded ps(2)]
  show ?thesis
  proof (cases "fmlookup (lru_items c) k")
    case None
    with look assms show ?thesis by (simp add: lru_Get_def spec_get_def)
  next
    case (Some i)
    from lru_inv_split [OF ps(1) Some] obtain as bs where sp: "ps = as @ ci_elem i # bs" .
    from lru_inv_item [OF ps(1) Some] have key: "le_v (dl_mem (lru_list c) (ci_elem i)) = k" by blast
    from lru_move [of c as "ci_elem i" bs] ps(1) sp obtain l
      where l: "moveToFront (lru_list c) (ci_elem i) = Some l" "lru_inv (c\<lparr>lru_list := l\<rparr>) (ci_elem i # as @ bs)"
        "map (lru_kv (c\<lparr>lru_list := l\<rparr>)) (ci_elem i # as @ bs) = map (lru_kv c) (ci_elem i # as @ bs)" by blast
    have "lru_kv c (ci_elem i) = (k, ci_value i)" using Some key by (simp add: lru_kv_def item_value_def)
    moreover have "spec_drop k xs = map (lru_kv c) (as @ bs)"
      using spec_drop_split [of c as "ci_elem i" bs k] ps sp key by simp
    ultimately have "map (lru_kv (c\<lparr>lru_list := l\<rparr>)) (ci_elem i # as @ bs) = spec_get k xs"
      using l(3) look Some by (simp add: spec_get_def)
    with l Some look show ?thesis
      by (auto simp: lru_Get_def lru_repr_def intro!: exI [of _ "ci_elem i # as @ bs"])
  qed
qed

lemma lru_Add3_present:
  assumes "lru_inv c ps" "fmlookup (lru_items c) k = Some i"
  shows "\<exists>c'. lru_Add3 c k v = Some (c', None) \<and>
    lru_repr c' ((k, v) # spec_drop k (map (lru_kv c) ps)) \<and> lru_cap c' = lru_cap c"
proof -
  from lru_inv_split [OF assms] obtain as bs where sp: "ps = as @ ci_elem i # bs" .
  from lru_inv_item [OF assms] have key: "le_v (dl_mem (lru_list c) (ci_elem i)) = k" by blast
  define c1 where "c1 = c\<lparr>lru_items := fmupd k (i\<lparr>ci_value := v\<rparr>) (lru_items c)\<rparr>"
  have inv1: "lru_inv c1 ps"
  proof -
    have "\<exists>j. fmlookup (lru_items c1) (le_v (dl_mem (lru_list c1) p)) = Some j \<and> ci_elem j = p"
      if "p \<in> set ps" for p
      using lru_inv_elem [OF assms(1) that] assms(2) by (auto simp: c1_def)
    moreover have "ci_elem j \<in> set ps \<and> le_v (dl_mem (lru_list c1) (ci_elem j)) = q"
      if "fmlookup (lru_items c1) q = Some j" for q j
      using that lru_inv_item [OF assms(1)] assms(2) by (auto simp: c1_def split: if_splits)
    ultimately show ?thesis using assms(1) by (simp add: lru_inv_def c1_def)
  qed
  from lru_move [of c1 as "ci_elem i" bs] inv1 sp obtain l
    where l: "moveToFront (lru_list c1) (ci_elem i) = Some l" "lru_inv (c1\<lparr>lru_list := l\<rparr>) (ci_elem i # as @ bs)"
      "map (lru_kv (c1\<lparr>lru_list := l\<rparr>)) (ci_elem i # as @ bs) = map (lru_kv c1) (ci_elem i # as @ bs)" by blast
  have ne: "le_v (dl_mem (lru_list c) p) \<noteq> k" if "p \<in> set (as @ bs)" for p
    using that lru_inv_key_inj [OF assms(1), of p "ci_elem i"] sp key lru_inv_dl [OF assms(1)] by auto
  have "map (lru_kv c1) (as @ bs) = map (lru_kv c) (as @ bs)"
    by (rule lru_kv_cong) (use ne in \<open>auto simp: c1_def\<close>)
  also have "\<dots> = spec_drop k (map (lru_kv c) ps)"
    using spec_drop_split [of c as "ci_elem i" bs k] assms(1) sp key by simp
  finally have "map (lru_kv c1) (as @ bs) = spec_drop k (map (lru_kv c) ps)" .
  moreover have "lru_kv c1 (ci_elem i) = (k, v)" using key by (simp add: lru_kv_def item_value_def c1_def)
  ultimately have "lru_repr (c1\<lparr>lru_list := l\<rparr>) ((k, v) # spec_drop k (map (lru_kv c) ps))"
    unfolding lru_repr_def using l(2,3) by (intro exI [of _ "ci_elem i # as @ bs"]) simp
  moreover have "lru_Add3 c k v = Some (c1\<lparr>lru_list := l\<rparr>, None)"
    using l(1) assms(2) by (simp add: lru_Add3_def c1_def)
  ultimately show ?thesis by (auto simp: c1_def)
qed

lemma lru_Add3_room:
  assumes "lru_inv c ps" "fmlookup (lru_items c) k = None" "int (length ps) < lru_cap c"
  shows "\<exists>c'. lru_Add3 c k v = Some (c', None) \<and> lru_repr c' ((k, v) # map (lru_kv c) ps) \<and>
    lru_cap c' = lru_cap c"
proof -
  define e where "e = dl_brk (lru_list c)"
  define c1 where "c1 = c\<lparr>lru_list := (lru_list c)\<lparr>dl_brk := e + 1\<rparr>\<rparr>"
  have inv1: "lru_inv c1 ps"
    using assms(1) by (auto simp: lru_inv_def dl_ok_def c1_def e_def)
  have "e \<notin> set (dl_root # ps)" using assms(1) by (auto simp: lru_inv_def dl_ok_def e_def)
  with lru_push [OF inv1, of e k v] assms obtain l
    where l: "pushElem (set_v e k (lru_list c1)) e = Some l"
      "lru_inv (c1\<lparr>lru_list := l, lru_items := fmupd k \<lparr>ci_elem = e, ci_value = v\<rparr> (lru_items c1)\<rparr>) (e # ps)"
      "map (lru_kv (c1\<lparr>lru_list := l, lru_items := fmupd k \<lparr>ci_elem = e, ci_value = v\<rparr> (lru_items c1)\<rparr>)) (e # ps) =
        (k, v) # map (lru_kv c1) ps"
    by (auto simp: c1_def)
  have "map (lru_kv c1) ps = map (lru_kv c) ps" by (rule lru_kv_cong) (simp_all add: c1_def)
  with l have "lru_repr (c1\<lparr>lru_list := l, lru_items := fmupd k \<lparr>ci_elem = e, ci_value = v\<rparr> (lru_items c1)\<rparr>)
      ((k, v) # map (lru_kv c) ps)"
    unfolding lru_repr_def by (intro exI [of _ "e # ps"]) simp
  moreover have "lru_Add3 c k v =
      Some (c1\<lparr>lru_list := l, lru_items := fmupd k \<lparr>ci_elem = e, ci_value = v\<rparr> (lru_items c1)\<rparr>, None)"
    using l(1) assms(2,3) lru_Len_eq [OF assms(1)] by (simp add: lru_Add3_def c1_def e_def)
  ultimately show ?thesis by (auto simp: c1_def)
qed

lemma lru_Add3_full:
  assumes "lru_inv c ps" "fmlookup (lru_items c) k = None" "\<not> int (length ps) < lru_cap c"
  shows "\<exists>c'. lru_Add3 c k v = Some (c', Some (last (map (lru_kv c) ps))) \<and>
    lru_repr c' ((k, v) # butlast (map (lru_kv c) ps)) \<and> lru_cap c' = lru_cap c"
proof -
  from assms(1,3) have "ps \<noteq> []" by (auto simp: lru_inv_def)
  then obtain qs q where sp: "ps = qs @ [q]" by (metis rev_exhaust)
  define ek where "ek = le_v (dl_mem (lru_list c) q)"
  from lru_unlink [of c qs q "[]" ek] assms(1) sp ek_def obtain l
    where l: "list_remove (lru_list c) q = Some l" "same_payload (lru_list c) l"
      "lru_inv (c\<lparr>lru_items := fmdrop ek (lru_items c), lru_list := l\<rparr>) qs"
      "map (lru_kv (c\<lparr>lru_items := fmdrop ek (lru_items c), lru_list := l\<rparr>)) qs = map (lru_kv c) qs" by auto
  define c1 where "c1 = c\<lparr>lru_items := fmdrop ek (lru_items c), lru_list := l\<rparr>"
  have ek: "le_v (dl_mem l q) = ek" using l(2) by (simp add: same_payload_def ek_def)
  have rl: "list_removeLast (lru_list c) = Some (l, Some q)"
    using l(1) list_last_ok [of "lru_list c" ps] lru_inv_dl [OF assms(1)] sp by (simp add: list_removeLast_def)
  have q: "q \<notin> set (dl_root # qs)" "q < dl_brk (lru_list c1)" "int (length qs) < lru_cap c1"
    using assms(1) sp l(2) by (auto simp: lru_inv_def dl_ok_def c1_def same_payload_def)
  have "fmlookup (lru_items c1) k = None" using assms(2) by (simp add: c1_def)
  with lru_push [of c1 qs q k v] l(3) q obtain l2
    where l2: "pushElem (set_v q k (lru_list c1)) q = Some l2"
      "lru_inv (c1\<lparr>lru_list := l2, lru_items := fmupd k \<lparr>ci_elem = q, ci_value = v\<rparr> (lru_items c1)\<rparr>) (q # qs)"
      "map (lru_kv (c1\<lparr>lru_list := l2, lru_items := fmupd k \<lparr>ci_elem = q, ci_value = v\<rparr> (lru_items c1)\<rparr>)) (q # qs) =
        (k, v) # map (lru_kv c1) qs"
    by (auto simp: c1_def)
  have "map (lru_kv c1) qs = butlast (map (lru_kv c) ps)" using l(4) sp by (simp add: c1_def)
  with l2 have "lru_repr (c1\<lparr>lru_list := l2, lru_items := fmupd k \<lparr>ci_elem = q, ci_value = v\<rparr> (lru_items c1)\<rparr>)
      ((k, v) # butlast (map (lru_kv c) ps))"
    unfolding lru_repr_def by (intro exI [of _ "q # qs"]) simp
  moreover have "last (map (lru_kv c) ps) = (ek, item_value c ek)" using sp by (simp add: lru_kv_def ek_def)
  ultimately show ?thesis
    using l2(1) rl assms(2,3) lru_Len_eq [OF assms(1)]
    by (auto simp: lru_Add3_def c1_def ek simp del: last_map)
qed

lemma lru_Add3_refines:
  assumes "lru_repr c xs"
  shows "\<exists>c'. lru_Add3 c k v = Some (c', snd (spec_add (lru_cap c) k v xs)) \<and>
    lru_repr c' (fst (spec_add (lru_cap c) k v xs)) \<and> lru_cap c' = lru_cap c"
proof -
  from assms obtain ps where ps: "lru_inv c ps" "xs = map (lru_kv c) ps" by (auto simp: lru_repr_def)
  note look = lru_lookup [OF ps(1), of k, folded ps(2)]
  show ?thesis
  proof (cases "fmlookup (lru_items c) k")
    case None
    then show ?thesis
      using lru_Add3_room [OF ps(1) None, of v] lru_Add3_full [OF ps(1) None, of v] look ps(2)
      by (cases "int (length ps) < lru_cap c") (auto simp: spec_add_def simp del: last_map)
  next
    case (Some i)
    with lru_Add3_present [OF ps(1) Some, of v] look ps(2) show ?thesis by (simp add: spec_add_def)
  qed
qed

lemma lru_Keys_refines: "lru_repr c xs \<Longrightarrow> lru_Keys c = Some (rev (map fst xs))"
  by (auto simp: lru_repr_def lru_Keys_def lru_kv_def rev_map comp_def dest!: lru_inv_dl
      list_appendTo_ok [where acc = "[]"])

lemma lru_Contains_refines: "lru_repr c xs \<Longrightarrow> lru_Contains c k \<longleftrightarrow> k \<in> fst ` set xs"
proof -
  assume "lru_repr c xs"
  then obtain ps where ps: "lru_inv c ps" "xs = map (lru_kv c) ps" by (auto simp: lru_repr_def)
  with lru_lookup [OF ps(1), of k] map_of_eq_None_iff [of xs k] show ?thesis
    by (auto simp: lru_Contains_def)
qed

lemma lru_repr_distinct:
  assumes "lru_repr c xs"
  shows "distinct (map fst xs)" and "int (length xs) \<le> lru_cap c" and "0 < lru_cap c"
proof -
  from assms obtain ps where ps: "lru_inv c ps" "xs = map (lru_kv c) ps" by (auto simp: lru_repr_def)
  from ps(1) have "inj_on (\<lambda>p. le_v (dl_mem (lru_list c) p)) (set ps)"
    by (auto intro!: inj_onI dest: lru_inv_key_inj)
  with lru_inv_dl [OF ps(1)] ps(2) show "distinct (map fst xs)"
    by (simp add: distinct_map lru_kv_def comp_def inj_on_def)
  show "int (length xs) \<le> lru_cap c" "0 < lru_cap c" using ps by (auto simp: lru_inv_def)
qed

lemma spec_drop_absent: "map_of xs k = None \<Longrightarrow> spec_drop k xs = xs"
  by (auto simp: spec_drop_def filter_id_conv map_of_eq_None_iff)

lemma lru_Remove_refines:
  assumes "lru_repr c xs"
  shows "\<exists>c'. lru_Remove c k = Some (c', map_of xs k \<noteq> None) \<and> lru_repr c' (spec_drop k xs) \<and> lru_cap c' = lru_cap c"
proof -
  from assms obtain ps where ps: "lru_inv c ps" "xs = map (lru_kv c) ps" by (auto simp: lru_repr_def)
  note look = lru_lookup [OF ps(1), of k, folded ps(2)]
  show ?thesis
  proof (cases "fmlookup (lru_items c) k")
    case None
    with look assms show ?thesis by (simp add: lru_Remove_def spec_drop_absent)
  next
    case (Some i)
    from lru_inv_split [OF ps(1) Some] obtain as bs where sp: "ps = as @ ci_elem i # bs" .
    from lru_inv_item [OF ps(1) Some] have key: "le_v (dl_mem (lru_list c) (ci_elem i)) = k" by blast
    from lru_unlink [of c as "ci_elem i" bs k] ps(1) sp key obtain l
      where l: "list_remove (lru_list c) (ci_elem i) = Some l"
        "lru_inv (c\<lparr>lru_items := fmdrop k (lru_items c), lru_list := l\<rparr>) (as @ bs)"
        "map (lru_kv (c\<lparr>lru_items := fmdrop k (lru_items c), lru_list := l\<rparr>)) (as @ bs) = map (lru_kv c) (as @ bs)" by blast
    have "spec_drop k xs = map (lru_kv c) (as @ bs)"
      using spec_drop_split [of c as "ci_elem i" bs k] ps sp key by simp
    with l have "lru_repr (c\<lparr>lru_items := fmdrop k (lru_items c), lru_list := l\<rparr>) (spec_drop k xs)"
      unfolding lru_repr_def by (intro exI [of _ "as @ bs"]) simp
    with l(1) Some look show ?thesis by (simp add: lru_Remove_def)
  qed
qed

lemma lru_RemoveOldest_refines:
  assumes "lru_repr c xs"
  shows "lru_GetOldest c = (if xs = [] then None else Some (last xs))"
    and "\<exists>c'. lru_RemoveOldest c = Some (c', if xs = [] then None else Some (last xs)) \<and>
      lru_repr c' (butlast xs) \<and> lru_cap c' = lru_cap c"
proof -
  from assms obtain ps where ps: "lru_inv c ps" "xs = map (lru_kv c) ps" by (auto simp: lru_repr_def)
  have oldest: "list_last (lru_list c) = (if ps = [] then None else Some (last ps))"
    using list_last_ok lru_inv_dl [OF ps(1)] by blast
  then show "lru_GetOldest c = (if xs = [] then None else Some (last xs))"
    using ps(2) by (simp add: lru_GetOldest_def last_map) (simp add: lru_kv_def Let_def)
  show "\<exists>c'. lru_RemoveOldest c = Some (c', if xs = [] then None else Some (last xs)) \<and>
      lru_repr c' (butlast xs) \<and> lru_cap c' = lru_cap c"
  proof (cases "ps = []")
    case True
    with oldest ps assms show ?thesis by (simp add: lru_RemoveOldest_def)
  next
    case False
    then obtain qs q where sp: "ps = qs @ [q]" by (metis rev_exhaust)
    define ek where "ek = le_v (dl_mem (lru_list c) q)"
    from lru_unlink [of c qs q "[]" ek] ps(1) sp ek_def obtain l
      where l: "list_remove (lru_list c) q = Some l"
        "lru_inv (c\<lparr>lru_items := fmdrop ek (lru_items c), lru_list := l\<rparr>) qs"
        "map (lru_kv (c\<lparr>lru_items := fmdrop ek (lru_items c), lru_list := l\<rparr>)) qs = map (lru_kv c) qs" by auto
    have "lru_repr (c\<lparr>lru_items := fmdrop ek (lru_items c), lru_list := l\<rparr>) (butlast xs)"
      unfolding lru_repr_def using l(2,3) ps(2) sp by (intro exI [of _ qs]) simp
    moreover have "last xs = (ek, item_value c ek)" using ps(2) sp by (simp add: lru_kv_def ek_def)
    ultimately show ?thesis using oldest l(1) sp ps(2) by (simp add: lru_RemoveOldest_def ek_def Let_def)
  qed
qed

lemma lru_readers_refine:
  assumes "lru_repr c xs"
  shows "lru_Peek c k = map_of xs k" "lru_Len c = int (length xs)"
proof -
  from assms obtain ps where ps: "lru_inv c ps" "xs = map (lru_kv c) ps" by (auto simp: lru_repr_def)
  with lru_lookup [OF ps(1), of k] lru_Len_eq [OF ps(1)] show "lru_Peek c k = map_of xs k" "lru_Len c = int (length xs)"
    by (simp_all add: lru_Peek_def)
qed

lemma lru_Purge_refines:
  assumes "lru_repr c xs"
  shows "lru_repr (lru_Purge c) []" "lru_cap (lru_Purge c) = lru_cap c"
  using assms by (auto simp: lru_repr_def lru_inv_def lru_Purge_def list_init_def dl_ok_def dl_root_def)

lemma lru_Add_refines:
  assumes "lru_repr c xs"
  shows "\<exists>c'. lru_Add c k v = Some (c', snd (spec_add (lru_cap c) k v xs) \<noteq> None) \<and>
    lru_repr c' (fst (spec_add (lru_cap c) k v xs)) \<and> lru_cap c' = lru_cap c"
  using lru_Add3_refines [OF assms, of k v] by (auto simp: lru_Add_def)

subsection \<open>Recency caches as an interface\<close>

text \<open>
  What the users of the cache rely on: \<open>repr c xs\<close> says that the cache holds \<open>xs\<close>, most
  recently used first, and \<open>add\<close> and \<open>get\<close> follow the specification.
\<close>

locale recency_cache =
  fixes repr :: "'c \<Rightarrow> ('k \<times> 'v) list \<Rightarrow> bool"
    and capacity :: "'c \<Rightarrow> int"
    and add :: "'c \<Rightarrow> 'k \<Rightarrow> 'v \<Rightarrow> ('c \<times> ('k \<times> 'v) option) option"
    and get :: "'c \<Rightarrow> 'k \<Rightarrow> ('c \<times> 'v option) option"
  assumes repr_bound: "repr c xs \<Longrightarrow> distinct (map fst xs) \<and> int (length xs) \<le> capacity c"
    and add_law: "repr c xs \<Longrightarrow> \<exists>c'. add c k v = Some (c', snd (spec_add (capacity c) k v xs)) \<and>
      repr c' (fst (spec_add (capacity c) k v xs)) \<and> capacity c' = capacity c"
    and get_law: "repr c xs \<Longrightarrow> \<exists>c'. get c k = Some (c', map_of xs k) \<and> repr c' (spec_get k xs) \<and>
      capacity c' = capacity c"
begin

fun insert_all :: "'c \<Rightarrow> ('k \<times> 'v) list \<Rightarrow> 'c option" where
  "insert_all c [] = Some c"
| "insert_all c ((k, v) # ys) = do { (c, _) \<leftarrow> add c k v; insert_all c ys }"

lemma insert_all_fresh:
  "repr c xs \<Longrightarrow> distinct (map fst (xs @ ys)) \<Longrightarrow> int (length xs + length ys) \<le> capacity c \<Longrightarrow>
   \<exists>c'. insert_all c ys = Some c' \<and> repr c' (rev ys @ xs) \<and> capacity c' = capacity c"
proof (induction ys arbitrary: c xs)
  case (Cons y ys)
  obtain k v where y: "y = (k, v)" by (cases y)
  from Cons.prems(2) y have "map_of xs k = None" by (simp add: map_of_eq_None_iff)
  with Cons.prems(3) have spec: "spec_add (capacity c) k v xs = ((k, v) # xs, None)"
    by (simp add: spec_add_def)
  from add_law [OF Cons.prems(1), of k v] spec obtain c1
    where c1: "add c k v = Some (c1, None)" "repr c1 ((k, v) # xs)" "capacity c1 = capacity c" by auto
  from Cons.IH [OF c1(2)] Cons.prems(2,3) y c1(3)
  have "\<exists>c'. insert_all c1 ys = Some c' \<and> repr c' (rev ys @ (k, v) # xs) \<and> capacity c' = capacity c"
    by auto
  with c1(1) y show ?case by simp
qed simp

lemma get_after_add:
  assumes "repr c xs" "add c k v = Some (c', ev)"
  shows "\<exists>c''. get c' k = Some (c'', Some v)"
proof -
  from add_law [OF assms(1), of k v] assms(2) have "repr c' (fst (spec_add (capacity c) k v xs))" by auto
  from get_law [OF this, of k] show ?thesis by (auto simp: spec_add_def split: if_splits)
qed

end

interpretation lru: recency_cache lru_repr lru_cap lru_Add3 lru_Get
proof
  show "distinct (map fst xs) \<and> int (length xs) \<le> lru_cap c" if "lru_repr c xs"
    for c :: "('a, 'b::zero) BasicLRU" and xs
    using lru_repr_distinct(1,2) [OF that] by simp
qed (rule lru_Add3_refines lru_Get_refines, assumption)+

lemma add_all_insert_all: "add_all c ks = lru.insert_all c (map (\<lambda>k. (k, ())) ks)"
proof (induction ks arbitrary: c)
  case (Cons k ks)
  then show ?case by (cases "lru_Add3 c k ()") (simp_all add: lru_Add_def split_beta)
qed simp

lemma unit_pairs: "map (\<lambda>k. (k, ())) (map fst xs) = (xs :: ('k \<times> unit) list)"
  by (induction xs) auto

lemma RecentWasms_Copy_repr:
  assumes "lru_repr c xs"
  shows "\<exists>c'. RecentWasms_Copy \<lparr>rw_cache = Some c\<rparr> = Some \<lparr>rw_cache = Some c'\<rparr> \<and>
    lru_repr c' xs \<and> lru_cap c' = lru_cap c"
proof -
  let ?new = "NewBasicLRU (lru_Capacity c) :: (hash, unit) BasicLRU"
  let ?ys = "map (\<lambda>k. (k, ())) (rev (map fst xs))"
  have cap: "lru_cap ?new = lru_cap c"
    using lru_repr_distinct(3) [OF assms] by (simp add: NewBasicLRU_def lru_Capacity_def)
  have ys: "rev ?ys = xs" using unit_pairs [of xs] by (simp add: rev_map)
  have "map fst ?ys = rev (map fst xs)" by (simp add: comp_def)
  then have "distinct (map fst ([] @ ?ys))" using lru_repr_distinct(1) [OF assms] by simp
  moreover have "int (length ([] :: (hash \<times> unit) list) + length ?ys) \<le> lru_cap ?new"
    using lru_repr_distinct(2) [OF assms] cap by simp
  ultimately obtain c'
    where "lru.insert_all ?new ?ys = Some c'" "lru_repr c' (rev ?ys @ [])" "lru_cap c' = lru_cap ?new"
    using lru.insert_all_fresh [OF lru_New_repr, of ?ys "lru_Capacity c"] by blast
  then show ?thesis unfolding ys append_Nil2 cap
    by (simp add: RecentWasms_Copy_def lru_Keys_refines [OF assms] add_all_insert_all)
qed

subsection \<open>Properties\<close>

text \<open>
  C10: the pointer-based LRU cache refines a duplicate-free list bounded by the capacity and
  ordered by recency. A lookup returns the stored value and moves the key to the front; an
  insertion updates in place, extends the list or evicts exactly the least recently used
  entry; a removal drops exactly the entry of the key, or the oldest one, and says whether there
  was one; \<^verbatim>\<open>Purge\<close> empties the cache; \<^verbatim>\<open>Peek\<close>, \<^verbatim>\<open>GetOldest\<close>, \<^verbatim>\<open>Contains\<close> and \<^verbatim>\<open>Len\<close> read the list
  without changing the order; \<^verbatim>\<open>Keys\<close> lists the keys from oldest to newest. No operation
  dereferences nil, and none changes the capacity.
\<close>

theorem lru_refines:
  assumes "lru_repr c xs"
  shows "(\<exists>c'. lru_Add3 c k v = Some (c', snd (spec_add (lru_cap c) k v xs)) \<and>
            lru_repr c' (fst (spec_add (lru_cap c) k v xs)) \<and> lru_cap c' = lru_cap c) \<and>
    (\<exists>c'. lru_Add c k v = Some (c', snd (spec_add (lru_cap c) k v xs) \<noteq> None) \<and>
            lru_repr c' (fst (spec_add (lru_cap c) k v xs)) \<and> lru_cap c' = lru_cap c) \<and>
    (\<exists>c'. lru_Get c k = Some (c', map_of xs k) \<and> lru_repr c' (spec_get k xs) \<and> lru_cap c' = lru_cap c) \<and>
    (\<exists>c'. lru_Remove c k = Some (c', map_of xs k \<noteq> None) \<and> lru_repr c' (spec_drop k xs) \<and> lru_cap c' = lru_cap c) \<and>
    (\<exists>c'. lru_RemoveOldest c = Some (c', if xs = [] then None else Some (last xs)) \<and>
            lru_repr c' (butlast xs) \<and> lru_cap c' = lru_cap c) \<and>
    lru_repr (lru_Purge c) [] \<and> lru_cap (lru_Purge c) = lru_cap c \<and>
    lru_GetOldest c = (if xs = [] then None else Some (last xs)) \<and>
    lru_Peek c k = map_of xs k \<and> (lru_Contains c k \<longleftrightarrow> k \<in> fst ` set xs) \<and> lru_Len c = int (length xs) \<and>
    lru_Keys c = Some (rev (map fst xs)) \<and> distinct (map fst xs) \<and> int (length xs) \<le> lru_cap c"
  by (intro conjI lru_Add3_refines [OF assms] lru_Add_refines [OF assms] lru_Get_refines [OF assms] lru_Remove_refines [OF assms]
      lru_RemoveOldest_refines [OF assms] lru_Purge_refines [OF assms] lru_readers_refine [OF assms]
      lru_Contains_refines [OF assms] lru_Keys_refines [OF assms] lru_repr_distinct [OF assms])

theorem lru_refines_witness:
  "\<exists>c c'. lru_Add3 (NewBasicLRU 2 :: (nat, nat) BasicLRU) 5 6 = Some (c, None) \<and> lru_repr c [(5, 6)] \<and>
    lru_Remove c 5 = Some (c', True) \<and> lru_repr c' []"
proof -
  from lru_refines [OF lru_New_repr [of 2], of 5 6] obtain c
    where c: "lru_Add3 (NewBasicLRU 2 :: (nat, nat) BasicLRU) 5 6 = Some (c, None)" "lru_repr c [(5, 6)]"
    by (auto simp: spec_add_def NewBasicLRU_def)
  from lru_refines [OF c(2), of 5] c show ?thesis by (auto simp: spec_drop_def)
qed

text \<open>
  C16: \<^verbatim>\<open>RecentWasms.Copy\<close> rebuilds a cache with the same programs in the same recency order
  and the same capacity, so that the copy charges and evicts exactly like the original.
\<close>

theorem RecentWasms_Copy_same:
  assumes "lru_repr c xs" "rw_cache p = Some c"
  shows "\<exists>c'. RecentWasms_Copy p = Some \<lparr>rw_cache = Some c'\<rparr> \<and> lru_repr c' xs \<and> lru_cap c' = lru_cap c"
  using RecentWasms_Copy_repr [OF assms(1)] assms(2) by (cases p) simp

theorem RecentWasms_Copy_same_witness:
  "\<exists>c'. RecentWasms_Copy \<lparr>rw_cache = Some (NewBasicLRU 3)\<rparr> = Some \<lparr>rw_cache = Some c'\<rparr> \<and> lru_repr c' []"
  using RecentWasms_Copy_same [OF lru_New_repr [of 3], of "\<lparr>rw_cache = Some (NewBasicLRU 3)\<rparr>"] by auto

end
