(* ===== verification/StateTypes.thy ===== *)
theory StateTypes
  imports AccessList TransientStorage Lru
begin

text \<open>
  The data of the state database: accounts (\<^verbatim>\<open>core/types/state_account.go\<close>), logs
  (\<^verbatim>\<open>core/types/log.go\<close>), state objects (\<^verbatim>\<open>core/state/state_object.go\<close>), journal entries
  (\<^verbatim>\<open>core/state/journal.go\<close>, \<^verbatim>\<open>journal_arbitrum.go\<close>) and the \<^verbatim>\<open>StateDB\<close> struct itself
  (\<^verbatim>\<open>core/state/statedb.go\<close>, \<^verbatim>\<open>statedb_arbitrum.go\<close>).

  Everything the state database calls but does not implement is a field of the record
  \<open>Env\<close>: the database reader it is opened on, the Keccak hash, the wasm store, and the order
  in which the Go runtime ranges over a map. The hash tries, the prefetcher, the stateless
  witness and the metric counters do not influence any result modelled here and are left out.
\<close>

subsection \<open>Accounts and logs\<close>

record StateAccount =
  Nonce :: u64
  Balance :: u256
  Root :: hash
  CodeHash :: hash

record Log =
  log_Address :: address
  log_Topics :: "hash list"
  log_Data :: bytes
  log_BlockNumber :: u64
  log_TxHash :: hash
  log_TxIndex :: u64
  log_BlockHash :: hash
  log_BlockTimestamp :: u64
  log_Index :: u64
  log_Removed :: bool

type_synonym AccessTuple = "address \<times> hash list"

text \<open>\<^verbatim>\<open>rawdb.WasmTarget\<close> is a string type.\<close>

type_synonym WasmTarget = string
type_synonym ActivatedWasm = "(WasmTarget, bytes) fmap"

datatype db_error =
    ReaderError string
  | AccountError address db_error
  | CodeError hash db_error
  | CodeNotFound hash

subsection \<open>The environment\<close>

record Env =
  env_Account :: "address \<Rightarrow> db_error + StateAccount option"
  env_Storage :: "address \<Rightarrow> hash \<Rightarrow> db_error + hash"
  env_Code :: "address \<Rightarrow> hash \<Rightarrow> bytes \<times> db_error option"
  env_CodeSize :: "address \<Rightarrow> hash \<Rightarrow> int \<times> db_error option"
  env_keccak :: "bytes \<Rightarrow> hash"
  env_ActivatedAsm :: "WasmTarget \<Rightarrow> hash \<Rightarrow> bytes"
  env_LocalTarget :: WasmTarget
  env_range_addr :: "address fset \<Rightarrow> address list"
  env_range_key :: "hash fset \<Rightarrow> hash list"
  env_range_wasm :: "hash fset \<Rightarrow> hash list"

definition EmptyRootHash :: hash where
  "EmptyRootHash = 0x56e81f171bcc55a6ff8345e692c0f86e5b48e01b996cadc001622fb5e363b421"

definition EmptyCodeHash :: "Env \<Rightarrow> hash" where
  "EmptyCodeHash E = env_keccak E []"

definition NewEmptyStateAccount :: "Env \<Rightarrow> StateAccount" where
  "NewEmptyStateAccount E = \<lparr>Nonce = 0, Balance = 0, Root = EmptyRootHash, CodeHash = EmptyCodeHash E\<rparr>"

subsection \<open>State objects\<close>

record stateObject =
  so_address :: address
  so_origin :: "StateAccount option"
  so_data :: StateAccount
  so_code :: bytes
  so_originStorage :: Storage
  so_dirtyStorage :: Storage
  so_pendingStorage :: Storage
  so_uncommittedStorage :: Storage
  so_dirtyCode :: bool
  so_selfDestructed :: bool
  so_newContract :: bool

definition newObject :: "Env \<Rightarrow> address \<Rightarrow> StateAccount option \<Rightarrow> stateObject" where
  "newObject E addr acct =
     (let origin = acct;
          acct = (case acct of None \<Rightarrow> NewEmptyStateAccount E | Some a \<Rightarrow> a)
      in \<lparr>so_address = addr, so_origin = origin, so_data = acct, so_code = [],
          so_originStorage = fmempty, so_dirtyStorage = fmempty, so_pendingStorage = fmempty,
          so_uncommittedStorage = fmempty, so_dirtyCode = False, so_selfDestructed = False,
          so_newContract = False\<rparr>)"

definition so_empty :: "Env \<Rightarrow> stateObject \<Rightarrow> bool" where
  "so_empty E obj \<longleftrightarrow>
     Nonce (so_data obj) = 0 \<and> Balance (so_data obj) = 0 \<and> CodeHash (so_data obj) = EmptyCodeHash E"

subsection \<open>The journal\<close>

datatype journalEntry =
    createObjectChange address
  | createZombieChange address
  | createContractChange address
  | selfDestructChange address
  | balanceChange address u256
  | nonceChange address u64
  | storageChange address hash hash hash
  | codeChange address bytes
  | refundChange u64
  | addLogChange hash
  | touchChange address
  | accessListAddAccountChange address
  | accessListAddSlotChange address hash
  | transientStorageChange address hash hash
  | wasmActivation hash
  | CacheWasm hash u16 u32 bool
  | EvictWasm hash u16 u32 bool

fun dirtied :: "journalEntry \<Rightarrow> address option" where
  "dirtied (createObjectChange a) = Some a"
| "dirtied (createZombieChange a) = Some a"
| "dirtied (createContractChange a) = None"
| "dirtied (selfDestructChange a) = Some a"
| "dirtied (balanceChange a _) = Some a"
| "dirtied (nonceChange a _) = Some a"
| "dirtied (storageChange a _ _ _) = Some a"
| "dirtied (codeChange a _) = Some a"
| "dirtied (refundChange _) = None"
| "dirtied (addLogChange _) = None"
| "dirtied (touchChange a) = Some a"
| "dirtied (accessListAddAccountChange _) = None"
| "dirtied (accessListAddSlotChange _ _) = None"
| "dirtied (transientStorageChange _ _ _) = None"
| "dirtied (wasmActivation _) = None"
| "dirtied (CacheWasm _ _ _ _) = None"
| "dirtied (EvictWasm _ _ _ _) = None"

fun isZombie :: "journalEntry \<Rightarrow> bool" where
  "isZombie (createZombieChange _) = True"
| "isZombie _ = False"

record revision =
  rev_id :: int
  rev_journalIndex :: nat
  rev_unexpectedBalanceDelta :: int

record journal =
  jr_zombieEntries :: "(address, int) fmap"
  jr_entries :: "journalEntry list"
  jr_dirties :: "(address, int) fmap"
  jr_validRevisions :: "revision list"
  jr_nextRevisionId :: int

subsection \<open>The state database\<close>

datatype mutationType = update | deletion

record mutation =
  mut_typ :: mutationType
  mut_applied :: bool

text \<open>
  \<^verbatim>\<open>CacheWasmRust\<close> and \<^verbatim>\<open>EvictWasmRust\<close> are hooks into the Rust cache; their calls are
  recorded in order.
\<close>

datatype rust_call =
    CacheWasmRust bytes hash u16 u32 bool
  | EvictWasmRust hash u16 u32 bool

text \<open>A hook or an interface value that is only stored and passed on, known by its identity.\<close>

type_synonym handle = nat

record ArbitrumExtraData =
  arb_unexpectedBalanceDelta :: int
  arb_userWasms :: "(hash, ActivatedWasm) fmap option"
  arb_openWasmPages :: u16
  arb_everWasmPages :: u16
  arb_activatedWasms :: "(hash, ActivatedWasm) fmap"
  arb_recentWasms :: RecentWasms
  arb_arbTxFilter :: bool
  arb_addressCheckerState :: "handle option"

record StateDB =
  arbExtraData :: ArbitrumExtraData
  stateObjects :: "(address, stateObject) fmap"
  stateObjectsDestruct :: "(address, stateObject) fmap"
  mutations :: "(address, mutation) fmap"
  dbErr :: "db_error option"
  sdb_refund :: u64
  sdb_thash :: hash
  sdb_txIndex :: int
  sdb_logs :: "(hash, Log list) fmap"
  sdb_logSize :: u64
  sdb_preimages :: "(hash, bytes) fmap"
  sdb_accessList :: accessList
  sdb_transientStorage :: transientStorage
  sdb_journal :: journal
  sdb_rust :: "rust_call list"
  sdb_deterministic :: bool
  sdb_recording :: bool
  sdb_OnCommit :: "handle option"

definition newJournal :: journal where
  "newJournal = \<lparr>jr_zombieEntries = fmempty, jr_entries = [], jr_dirties = fmempty,
     jr_validRevisions = [], jr_nextRevisionId = 0\<rparr>"

definition NewWithReader :: StateDB where
  "NewWithReader = \<lparr>
     arbExtraData = \<lparr>arb_unexpectedBalanceDelta = 0, arb_userWasms = None, arb_openWasmPages = 0,
       arb_everWasmPages = 0, arb_activatedWasms = fmempty, arb_recentWasms = NewRecentWasms,
       arb_arbTxFilter = False, arb_addressCheckerState = None\<rparr>,
     stateObjects = fmempty, stateObjectsDestruct = fmempty, mutations = fmempty, dbErr = None,
     sdb_refund = 0, sdb_thash = 0, sdb_txIndex = 0, sdb_logs = fmempty, sdb_logSize = 0,
     sdb_preimages = fmempty, sdb_accessList = newAccessList,
     sdb_transientStorage = newTransientStorage, sdb_journal = newJournal, sdb_rust = [],
     sdb_deterministic = False, sdb_recording = False, sdb_OnCommit = None\<rparr>"

end
