(* ===== verification/Bloom.thy ===== *)
theory Bloom
imports Rlp StateTypes
begin

text \<open>
  Bloom filters of logs (\<^verbatim>\<open>core/types/bloom9.go\<close>) and their computation from encoded receipts as they
  come from the network (\<^verbatim>\<open>eth/protocols/eth/receipt.go\<close>). Keccak is the parameter \<open>kec\<close>.
\<close>

subsection \<open>Filters\<close>

text \<open>A \<^verbatim>\<open>Bloom\<close> is an array of 256 bytes.\<close>

type_synonym Bloom = bytes

definition BloomByteLength :: nat where
  "BloomByteLength = 256"

definition empty_bloom :: Bloom where
  "empty_bloom = replicate BloomByteLength 0"

text \<open>The bit and the index of the byte that two bytes of the hash select.\<close>

definition bloom_value :: "u8 \<Rightarrow> u8 \<Rightarrow> nat \<times> u8" where
  "bloom_value hi lo =
     (BloomByteLength - unat (drop_bit 3 ((push_bit 8 (ucast hi) OR ucast lo :: u16) AND 0x7FF)) - 1,
      push_bit (unat (lo AND 7)) 1)"

definition bloomValues :: "(bytes \<Rightarrow> hash) \<Rightarrow> bytes \<Rightarrow> (nat \<times> u8) list" where
  "bloomValues kec data =
     (let hashbuf = take 6 (be_bytes 32 (kec data))
      in [bloom_value (hashbuf ! 0) (hashbuf ! 1), bloom_value (hashbuf ! 2) (hashbuf ! 3),
          bloom_value (hashbuf ! 4) (hashbuf ! 5)])"

definition bloom_or :: "nat \<times> u8 \<Rightarrow> Bloom \<Rightarrow> Bloom" where
  "bloom_or iv b = b[fst iv := b ! fst iv OR snd iv]"

definition bloom_Add :: "(bytes \<Rightarrow> hash) \<Rightarrow> bytes \<Rightarrow> Bloom \<Rightarrow> Bloom" where
  "bloom_Add kec d b = fold bloom_or (bloomValues kec d) b"

definition bloom_Test :: "(bytes \<Rightarrow> hash) \<Rightarrow> bytes \<Rightarrow> Bloom \<Rightarrow> bool" where
  "bloom_Test kec topic b = list_all (\<lambda>(i, v). v = v AND b ! i) (bloomValues kec topic)"

text \<open>\<open>None\<close> is the panic for too many bytes.\<close>

definition bloom_SetBytes :: "bytes \<Rightarrow> Bloom \<Rightarrow> Bloom option" where
  "bloom_SetBytes d b =
     (if length b < length d then None else Some (take (BloomByteLength - length d) b @ d))"

definition BytesToBloom :: "bytes \<Rightarrow> Bloom option" where
  "BytesToBloom b = bloom_SetBytes b empty_bloom"

definition Bloom9 :: "bytes \<Rightarrow> bytes option" where
  "Bloom9 data = bloom_SetBytes data empty_bloom"

definition CreateBloom :: "(bytes \<Rightarrow> hash) \<Rightarrow> Log list \<Rightarrow> Bloom" where
  "CreateBloom kec logs =
     fold (\<lambda>l bin.
       fold (\<lambda>t. bloom_Add kec (be_bytes 32 t)) (log_Topics l) (bloom_Add kec (be_bytes 20 (log_Address l)) bin))
       logs empty_bloom"

text \<open>What merging reads of a receipt: its logs and its filter.\<close>

definition MergeBloom :: "(Log list \<times> Bloom) list \<Rightarrow> Bloom" where
  "MergeBloom receipts =
     fold (\<lambda>(logs, bl) bin. if logs \<noteq> [] then map2 (\<lambda>x y. x OR y) bin bl else bin) receipts empty_bloom"

subsection \<open>Filters of encoded receipts\<close>

text \<open>
  The content of a string or a list at the start of the data, and what follows it, when errors
  are ignored: on an error there is no content and nothing is consumed.
\<close>

definition lenient :: "(bytes \<Rightarrow> rlp_error + bytes \<times> bytes) \<Rightarrow> bytes \<Rightarrow> bytes \<times> bytes" where
  "lenient split b = (case split b of Inl e \<Rightarrow> ([], b) | Inr r \<Rightarrow> r)"

text \<open>The two loops of \<^verbatim>\<open>Receipt.bloom\<close>; \<open>None\<close> when they do not end.\<close>

partial_function (option) bloom_topics :: "(bytes \<Rightarrow> hash) \<Rightarrow> listIterator \<Rightarrow> Bloom \<Rightarrow> Bloom option" where
  "bloom_topics kec it b =
     (case it_Next it of
        (ok, it) \<Rightarrow>
          if ok then bloom_topics kec it (bloom_Add kec (fst (lenient SplitString (it_next it))) b) else Some b)"

partial_function (option) bloom_logs :: "(bytes \<Rightarrow> hash) \<Rightarrow> listIterator \<Rightarrow> Bloom \<Rightarrow> Bloom option" where
  "bloom_logs kec it b =
     (case it_Next it of
        (ok, it) \<Rightarrow>
          if ok then
            (case lenient SplitString (fst (lenient SplitList (it_next it))) of
               (address, log) \<Rightarrow>
                 (case NewListIterator log of
                    Inl e \<Rightarrow> Some (bloom_Add kec address b)
                  | Inr topicsIter \<Rightarrow>
                      Option.bind (bloom_topics kec topicsIter (bloom_Add kec address b)) (bloom_logs kec it)))
          else Some b)"

definition receipt_bloom :: "(bytes \<Rightarrow> hash) \<Rightarrow> bytes \<Rightarrow> Bloom option" where
  "receipt_bloom kec logs =
     (case NewListIterator logs of
        Inl e \<Rightarrow> Some empty_bloom
      | Inr logsIter \<Rightarrow> bloom_logs kec logsIter empty_bloom)"

subsection \<open>No false negatives\<close>

lemma bloom_index: "(i, v) \<in> set (bloomValues kec d) \<Longrightarrow> i < 256"
  by (auto simp: bloomValues_def Let_def bloom_value_def BloomByteLength_def)

lemma length_bloom_or [simp]: "length (bloom_or iv b) = length b"
  by (simp add: bloom_or_def)

lemma length_fold_or [simp]: "length (fold bloom_or ivs b) = length b"
  by (induction ivs arbitrary: b) simp_all

lemma length_bloom_Add [simp]: "length (bloom_Add kec d b) = length b"
  by (simp add: bloom_Add_def)

lemma length_empty_bloom [simp]: "length empty_bloom = 256"
  by (simp add: empty_bloom_def BloomByteLength_def)

text \<open>All bits of one filter are in another.\<close>

definition within :: "Bloom \<Rightarrow> Bloom \<Rightarrow> bool" where
  "within b c \<longleftrightarrow> length b = length c \<and> (\<forall>i < length b. b ! i = b ! i AND c ! i)"

lemma word_and_trans: "(x :: u8) = x AND y \<Longrightarrow> y = y AND z \<Longrightarrow> x = x AND z"
  by (metis and.assoc)

lemma within_refl [simp]: "within b b"
  by (simp add: within_def)

lemma within_trans: "within a b \<Longrightarrow> within b c \<Longrightarrow> within a c"
  unfolding within_def by (metis word_and_trans)

lemma within_or: "within b (bloom_or iv b)"
proof -
  have "b ! i = b ! i AND b[fst iv := b ! fst iv OR snd iv] ! i" if "i < length b" for i
    using that by (cases "i = fst iv") (auto simp: bit_simps intro!: bit_word_eqI)
  then show ?thesis by (simp add: within_def bloom_or_def)
qed

lemma within_fold_or: "within b (fold bloom_or ivs b)"
proof (induction ivs arbitrary: b)
  case (Cons iv ivs)
  show ?case using within_trans [OF within_or Cons.IH] by simp
qed simp

lemma within_Add: "within b (bloom_Add kec d b)"
  by (simp add: bloom_Add_def within_fold_or)

lemma within_fold: "(\<And>x b. within b (f x b)) \<Longrightarrow> within b (fold f xs b)"
  by (induction xs arbitrary: b) (auto intro: within_trans)

lemma Test_within: "within b c \<Longrightarrow> length b = 256 \<Longrightarrow> bloom_Test kec d b \<Longrightarrow> bloom_Test kec d c"
proof -
  assume w: "within b c" "length b = 256" and t: "bloom_Test kec d b"
  have "v = v AND c ! i" if "(i, v) \<in> set (bloomValues kec d)" for i v
  proof (rule word_and_trans)
    show "v = v AND b ! i" using t that by (auto simp: bloom_Test_def list_all_iff)
    show "b ! i = b ! i AND c ! i" using w bloom_index [OF that] by (simp add: within_def)
  qed
  then show ?thesis by (auto simp: bloom_Test_def list_all_iff)
qed

lemma fold_or_sets:
  "iv \<in> set ivs \<Longrightarrow> fst iv < length b \<Longrightarrow> snd iv = snd iv AND fold bloom_or ivs b ! fst iv"
proof (induction ivs arbitrary: b)
  case (Cons jv ivs)
  show ?case
  proof (cases "iv = jv")
    case True
    have "snd iv = snd iv AND bloom_or iv b ! fst iv"
      using Cons.prems(2) by (auto simp: bloom_or_def bit_simps intro: bit_word_eqI)
    with within_fold_or [of "bloom_or iv b" ivs] Cons.prems(2) True show ?thesis
      by (auto simp: within_def intro: word_and_trans)
  qed (use Cons in auto)
qed simp

lemma Test_Add: "length b = 256 \<Longrightarrow> bloom_Test kec d (bloom_Add kec d b)"
  using fold_or_sets [of _ "bloomValues kec d" b]
  by (fastforce simp: bloom_Test_def bloom_Add_def list_all_iff dest: bloom_index)

text \<open>The address and the topics of a log pass the test.\<close>

definition finds :: "(bytes \<Rightarrow> hash) \<Rightarrow> Log \<Rightarrow> Bloom \<Rightarrow> bool" where
  "finds kec l b \<longleftrightarrow>
     bloom_Test kec (be_bytes 20 (log_Address l)) b \<and> (\<forall>t \<in> set (log_Topics l). bloom_Test kec (be_bytes 32 t) b)"

lemma finds_within: "within b c \<Longrightarrow> length b = 256 \<Longrightarrow> finds kec l b \<Longrightarrow> finds kec l c"
  by (auto simp: finds_def intro: Test_within)

lemma length_fold_Add [simp]: "length (fold (\<lambda>t. bloom_Add kec (f t)) ts b) = length b"
  by (induction ts arbitrary: b) simp_all

lemma Test_fold_Add:
  "t \<in> set ts \<Longrightarrow> length b = 256 \<Longrightarrow> bloom_Test kec (f t) (fold (\<lambda>t. bloom_Add kec (f t)) ts b)"
proof (induction ts arbitrary: b)
  case (Cons u ts)
  show ?case
  proof (cases "t = u")
    case True
    have "within (bloom_Add kec (f u) b) (fold (\<lambda>t. bloom_Add kec (f t)) ts (bloom_Add kec (f u) b))"
      by (rule within_fold) (rule within_Add)
    from Test_within [OF this] Cons.prems(2) True show ?thesis by (simp add: Test_Add)
  qed (use Cons in auto)
qed simp

definition add_log :: "(bytes \<Rightarrow> hash) \<Rightarrow> Log \<Rightarrow> Bloom \<Rightarrow> Bloom" where
  "add_log kec l bin =
     fold (\<lambda>t. bloom_Add kec (be_bytes 32 t)) (log_Topics l) (bloom_Add kec (be_bytes 20 (log_Address l)) bin)"

lemma CreateBloom_add_log: "CreateBloom kec logs = fold (add_log kec) logs empty_bloom"
  by (simp add: CreateBloom_def add_log_def [abs_def])

lemma length_add_log [simp]: "length (add_log kec l b) = length b"
  by (simp add: add_log_def)

lemma within_add_log: "within b (add_log kec l b)"
  unfolding add_log_def by (rule within_trans [OF within_Add within_fold]) (rule within_Add)

lemma finds_add_log: "length b = 256 \<Longrightarrow> finds kec l (add_log kec l b)"
proof -
  assume b: "length b = 256"
  let ?c = "bloom_Add kec (be_bytes 20 (log_Address l)) b"
  have "within ?c (add_log kec l b)" unfolding add_log_def by (rule within_fold) (rule within_Add)
  from Test_within [OF this] b have "bloom_Test kec (be_bytes 20 (log_Address l)) (add_log kec l b)" by (simp add: Test_Add)
  with b show ?thesis by (simp add: finds_def add_log_def Test_fold_Add [where f = "be_bytes 32"])
qed

lemma length_fold_add_log [simp]: "length (fold (add_log kec) logs b) = length b"
  by (induction logs arbitrary: b) simp_all

lemma finds_CreateBloom:
  "l \<in> set logs \<Longrightarrow> length b = 256 \<Longrightarrow> finds kec l (fold (add_log kec) logs b)"
proof (induction logs arbitrary: b)
  case (Cons m logs)
  show ?case
  proof (cases "l = m")
    case True
    have "within (add_log kec m b) (fold (add_log kec) logs (add_log kec m b))"
      by (rule within_fold) (rule within_add_log)
    from finds_within [OF this] Cons.prems(2) True show ?thesis by (simp add: finds_add_log)
  qed (use Cons in auto)
qed simp

definition merge :: "Log list \<times> Bloom \<Rightarrow> Bloom \<Rightarrow> Bloom" where
  "merge r bin = (if fst r \<noteq> [] then map2 (\<lambda>x y. x OR y) bin (snd r) else bin)"

lemma within_merge: "length b = 256 \<Longrightarrow> length (snd r) = 256 \<Longrightarrow> within b (merge r b) \<and> (fst r \<noteq> [] \<longrightarrow> within (snd r) (merge r b))"
  by (auto simp: merge_def within_def bit_simps intro!: bit_word_eqI)

lemma within_fold_merge:
  "length b = 256 \<Longrightarrow> \<forall>r \<in> set rs. length (snd r) = 256 \<Longrightarrow>
     within b (fold merge rs b) \<and> (\<forall>r \<in> set rs. fst r \<noteq> [] \<longrightarrow> within (snd r) (fold merge rs b))"
proof (induction rs arbitrary: b)
  case (Cons r rs)
  have w: "within b (merge r b)" "fst r \<noteq> [] \<longrightarrow> within (snd r) (merge r b)" using within_merge [of b r] Cons.prems by auto
  moreover have "length (merge r b) = 256" using w(1) Cons.prems(1) by (simp add: within_def)
  ultimately show ?case using Cons.IH [of "merge r b"] Cons.prems(2) by (auto intro: within_trans)
qed simp

text \<open>
  C38: filters have no false negatives. The filter of a receipt finds the address and the
  topics of each of its logs, and so does the filter of the block, which is merged from those
  of the receipts.
\<close>

theorem bloom_no_false_negatives:
  assumes "(logs, CreateBloom kec logs) \<in> set receipts" "\<forall>(ls, bl) \<in> set receipts. bl = CreateBloom kec ls" "l \<in> set logs"
  shows "finds kec l (CreateBloom kec logs) \<and> finds kec l (MergeBloom receipts)"
proof -
  have f: "finds kec l (CreateBloom kec logs)" using finds_CreateBloom [OF assms(3)] by (simp add: CreateBloom_add_log)
  have "\<forall>r \<in> set receipts. length (snd r) = 256" using assms(2) by (auto simp: CreateBloom_add_log)
  from within_fold_merge [of empty_bloom, OF _ this] assms(1,3)
  have "within (CreateBloom kec logs) (fold merge receipts empty_bloom)" by fastforce
  moreover have "MergeBloom receipts = fold merge receipts empty_bloom"
    by (simp add: MergeBloom_def merge_def [abs_def] case_prod_unfold)
  ultimately show ?thesis using f finds_within [of "CreateBloom kec logs"] by (simp add: CreateBloom_add_log)
qed

definition example_log :: Log where
  "example_log =
     \<lparr>log_Address = 7, log_Topics = [5], log_Data = [], log_BlockNumber = 0, log_TxHash = 0, log_TxIndex = 0,
      log_BlockHash = 0, log_BlockTimestamp = 0, log_Index = 0, log_Removed = False\<rparr>"

theorem bloom_no_false_negatives_witness:
  "finds (\<lambda>b. of_nat (length b)) example_log (MergeBloom [([example_log], CreateBloom (\<lambda>b. of_nat (length b)) [example_log])])"
  using bloom_no_false_negatives [of "[example_log]" "\<lambda>b. of_nat (length b)"
      "[([example_log], CreateBloom (\<lambda>b. of_nat (length b)) [example_log])]" example_log] by simp

subsection \<open>Encoded receipts\<close>

text \<open>A log as it is encoded in a receipt.\<close>

definition log_item :: "Log \<Rightarrow> item" where
  "log_item l = Lst [Str (be_bytes 20 (log_Address l)), Lst (map (\<lambda>t. Str (be_bytes 32 t)) (log_Topics l)), Str (log_Data l)]"

lemma lenient_string: "length (enc (Str c) @ rest) < 2 ^ 64 \<Longrightarrow> lenient SplitString (enc (Str c) @ rest) = (c, rest)"
  using split_iff(1) [of "enc (Str c) @ rest" c rest] by (simp add: lenient_def del: enc.simps)

lemma lenient_list:
  "length (enc (Lst xs) @ rest) < 2 ^ 64 \<Longrightarrow> lenient SplitList (enc (Lst xs) @ rest) = (concat (map enc xs), rest)"
  using split_iff(2) [of "enc (Lst xs) @ rest" "concat (map enc xs)" rest] by (simp add: lenient_def Let_def)

lemma bloom_topics_enc:
  "it_data it = concat (map (\<lambda>t. enc (Str (f t))) ts) \<Longrightarrow> length (concat (map (\<lambda>t. enc (Str (f t))) ts)) < 2 ^ 64 \<Longrightarrow>
     bloom_topics kec it b = Some (fold (\<lambda>t. bloom_Add kec (f t)) ts b)"
proof (induction ts arbitrary: it b)
  case Nil
  then show ?case by (subst bloom_topics.simps) (simp add: it_Next_def)
next
  case (Cons t ts)
  let ?rest = "concat (map (\<lambda>t. enc (Str (f t))) ts)"
  have "it_Next it = (True, it\<lparr>it_next := enc (Str (f t)), it_data := ?rest, it_err := None\<rparr>)"
    by (rule it_Next_enc) (use Cons.prems in \<open>simp_all del: enc.simps\<close>)
  moreover have "lenient SplitString (enc (Str (f t))) = (f t, [])"
    using lenient_string [of "f t" "[]"] Cons.prems(2) by (simp del: enc.simps)
  ultimately show ?case using Cons.IH [of "it\<lparr>it_next := enc (Str (f t)), it_data := ?rest, it_err := None\<rparr>"] Cons.prems(2)
    by (subst bloom_topics.simps) (simp del: enc.simps)
qed

lemma bloom_logs_step:
  assumes "it_data it = enc (log_item l) @ rest" "length (enc (log_item l) @ rest) < 2 ^ 64"
  shows "bloom_logs kec it b = bloom_logs kec (it\<lparr>it_next := enc (log_item l), it_data := rest, it_err := None\<rparr>) (add_log kec l b)"
proof -
  let ?topics = "Lst (map (\<lambda>t. Str (be_bytes 32 t)) (log_Topics l))"
  let ?tail = "enc ?topics @ enc (Str (log_Data l))"
  have step: "it_Next it = (True, it\<lparr>it_next := enc (log_item l), it_data := rest, it_err := None\<rparr>)"
    by (rule it_Next_enc) (use assms in simp_all)
  have log: "lenient SplitList (enc (log_item l)) = (enc (Str (be_bytes 20 (log_Address l))) @ ?tail, [])"
    using lenient_list [of "[Str (be_bytes 20 (log_Address l)), ?topics, Str (log_Data l)]" "[]"] assms(2)
    by (simp add: log_item_def del: enc.simps)
  have len: "length (enc (Str (be_bytes 20 (log_Address l))) @ ?tail) < 2 ^ 64"
    using assms(2) by (simp add: log_item_def Let_def del: enc.simps(1))
  have addr: "lenient SplitString (enc (Str (be_bytes 20 (log_Address l))) @ ?tail) = (be_bytes 20 (log_Address l), ?tail)"
    by (rule lenient_string) (fact len)
  have "length ?tail < 2 ^ 64" using len by (simp del: enc.simps)
  note topics = NewListIterator_enc [OF this]
  have "length (concat (map (\<lambda>t. enc (Str (be_bytes 32 t))) (log_Topics l))) < 2 ^ 64"
    using len by (simp add: Let_def comp_def del: enc.simps(1))
  then have ts: "bloom_topics kec \<lparr>it_data = concat (map enc (map (\<lambda>t. Str (be_bytes 32 t)) (log_Topics l))), it_next = [], it_err = None\<rparr> c =
      Some (fold (\<lambda>t. bloom_Add kec (be_bytes 32 t)) (log_Topics l) c)" for c
    by (intro bloom_topics_enc) (simp_all add: comp_def del: enc.simps)
  show ?thesis
    by (subst bloom_logs.simps) (simp add: step log addr topics ts add_log_def [abs_def] del: enc.simps map_map)
qed

lemma bloom_logs_enc:
  "it_data it = concat (map (\<lambda>l. enc (log_item l)) logs) \<Longrightarrow> length (concat (map (\<lambda>l. enc (log_item l)) logs)) < 2 ^ 64 \<Longrightarrow>
     bloom_logs kec it b = Some (fold (add_log kec) logs b)"
proof (induction logs arbitrary: it b)
  case Nil
  then show ?case by (subst bloom_logs.simps) (simp add: it_Next_def)
next
  case (Cons l logs)
  then show ?case using bloom_logs_step [of it l "concat (map (\<lambda>l. enc (log_item l)) logs)" kec b] by simp
qed

subsection \<open>Malformed topics\<close>

text \<open>A list whose content need not be well formed.\<close>

definition wrap :: "bytes \<Rightarrow> bytes" where
  "wrap c = puthead 0xC0 0xF7 (word_of_nat (length c)) @ c"

lemma SplitList_wrap: "length (wrap c @ rest) < 2 ^ 64 \<Longrightarrow> SplitList (wrap c @ rest) = Inr (c, rest)"
  using split_iff(2) [of "wrap c @ rest" c rest] by (simp add: wrap_def)

lemma wrap_list:
  assumes "length (wrap c @ rest) < 2 ^ 64"
  shows "lenient SplitList (wrap c @ rest) = (c, rest)"
    "NewListIterator (wrap c @ rest) = Inr \<lparr>it_data = c, it_next = [], it_err = None\<rparr>"
    "it_data it = wrap c @ rest \<Longrightarrow> it_Next it = (True, it\<lparr>it_next := wrap c, it_data := rest, it_err := None\<rparr>)"
proof -
  note sp = SplitList_wrap [OF assms]
  then show "lenient SplitList (wrap c @ rest) = (c, rest)" by (simp add: lenient_def)
  obtain t n where k: "readKind (wrap c @ rest) = Inr (List, t, n)" "take (unat n) (drop (unat t) (wrap c @ rest)) = c"
      "drop (unat (t + n)) (wrap c @ rest) = rest"
    using sp by (auto simp: SplitList_def Split_def split: sum.splits if_splits)
  then show "NewListIterator (wrap c @ rest) = Inr \<lparr>it_data = c, it_next = [], it_err = None\<rparr>"
    by (simp add: NewListIterator_def)
  have "take (unat (t + n)) (wrap c @ rest) = wrap c"
    using append_take_drop_id [of "unat (t + n)" "wrap c @ rest"] k(3) by (metis append_same_eq)
  moreover have "wrap c \<noteq> []" using k(1) by (auto simp: wrap_def puthead_def)
  ultimately show "it_data it = wrap c @ rest \<Longrightarrow> it_Next it = (True, it\<lparr>it_next := wrap c, it_data := rest, it_err := None\<rparr>)"
    using k(1,3) by (simp add: it_Next_def)
qed

lemma bloom_topics_stuck:
  assumes "it_Next it = (True, it')" "it_Next it' = (True, it')"
  shows "bloom_topics kec it b = None"
proof (rule ccontr)
  assume "bloom_topics kec it b \<noteq> None"
  then obtain c where "bloom_topics kec it b = Some c" by blast
  from bloom_topics.raw_induct [OF _ this, where P = "\<lambda>_ it _ _. \<not> (it_Next it = (True, it') \<and> it_Next it' = (True, it'))"]
  show False using assms by (fastforce split: prod.splits if_splits)
qed

lemma bloom_topics_malformed:
  assumes "bad \<noteq> []" "readKind bad = Inl e"
  shows "it_data it = concat (map (\<lambda>t. enc (Str t)) ts) @ bad \<Longrightarrow> length (it_data it) < 2 ^ 64 \<Longrightarrow> bloom_topics kec it b = None"
proof (induction ts arbitrary: it b)
  case Nil
  with assms show ?case
    by (intro bloom_topics_stuck [where it' = "it\<lparr>it_next := [], it_err := Some e\<rparr>"]) (simp_all add: it_Next_def)
next
  case (Cons t ts)
  let ?rest = "concat (map (\<lambda>t. enc (Str t)) ts) @ bad"
  have "it_Next it = (True, it\<lparr>it_next := enc (Str t), it_data := ?rest, it_err := None\<rparr>)"
    by (rule it_Next_enc) (use Cons.prems in \<open>simp_all del: enc.simps\<close>)
  then show ?case using Cons.IH [of "it\<lparr>it_next := enc (Str t), it_data := ?rest, it_err := None\<rparr>"] Cons.prems
    by (subst bloom_topics.simps) (simp del: enc.simps)
qed

lemma bloom_logs_malformed:
  assumes "bad \<noteq> []" "readKind bad = Inl e"
    and log_def: "log = enc (Str a) @ wrap (concat (map (\<lambda>t. enc (Str t)) ts) @ bad) @ data"
  shows "it_data it = concat (map (\<lambda>l. enc (log_item l)) logs) @ wrap log @ rest \<Longrightarrow> length (it_data it) < 2 ^ 64 \<Longrightarrow>
    bloom_logs kec it b = None"
proof (induction logs arbitrary: it b)
  case Nil
  then have len: "length (wrap log @ rest) < 2 ^ 64" "it_data it = wrap log @ rest" by simp_all
  from len(1) have len1: "length (wrap log @ []) < 2 ^ 64" "length log < 2 ^ 64" by (simp_all add: wrap_def)
  have addr: "lenient SplitString log = (a, wrap (concat (map (\<lambda>t. enc (Str t)) ts) @ bad) @ data)"
    unfolding log_def by (rule lenient_string) (use len1(2) in \<open>simp add: log_def del: enc.simps\<close>)
  have len2: "length (wrap (concat (map (\<lambda>t. enc (Str t)) ts) @ bad) @ data) < 2 ^ 64"
    using len1(2) by (simp add: log_def del: enc.simps)
  then have len3: "length (concat (map (\<lambda>t. enc (Str t)) ts) @ bad) < 2 ^ 64" by (simp add: wrap_def del: enc.simps)
  have "bloom_topics kec \<lparr>it_data = concat (map (\<lambda>t. enc (Str t)) ts) @ bad, it_next = [], it_err = None\<rparr> c = None" for c
    by (rule bloom_topics_malformed [OF assms(1,2)]) (use len3 in \<open>simp_all del: enc.simps\<close>)
  then show ?case
    using wrap_list(3) [OF len] wrap_list(1) [OF len1(1)] addr wrap_list(2) [OF len2]
    by (subst bloom_logs.simps) (simp del: enc.simps)
next
  case (Cons l logs)
  then show ?case
    using bloom_logs_step [of it l "concat (map (\<lambda>l. enc (log_item l)) logs) @ wrap log @ rest" kec b] by simp
qed

subsection \<open>Properties of the filter of an encoded receipt\<close>

text \<open>
  C39: the bloom filter a receipt computes from its encoded logs is the bloom filter of the logs,
  whatever they are, and the loops over the encoding end.
\<close>

theorem receipt_bloom_correct:
  assumes "length (enc (Lst (map log_item logs))) < 2 ^ 64"
  shows "receipt_bloom kec (enc (Lst (map log_item logs))) = Some (CreateBloom kec logs)"
proof -
  have "length (concat (map (\<lambda>l. enc (log_item l)) logs)) < 2 ^ 64" using assms by (simp add: Let_def comp_def)
  then show ?thesis
    using NewListIterator_enc [of "map log_item logs" "[]"] assms
    by (simp add: receipt_bloom_def CreateBloom_add_log comp_def bloom_logs_enc del: enc.simps)
qed

theorem receipt_bloom_correct_witness:
  "receipt_bloom (\<lambda>b. 0) (enc (Lst (map log_item [example_log]))) = Some (CreateBloom (\<lambda>b. 0) [example_log])"
proof -
  have "length (enc (Lst (map log_item [example_log]))) < 100" by code_simp
  then have "length (enc (Lst (map log_item [example_log]))) < 2 ^ 64" by (rule less_trans) simp
  then show ?thesis by (rule receipt_bloom_correct)
qed

text \<open>
  C40: on malformed topics the loop does not end. Whatever well-formed logs come before, when a log
  has a list of topics in which, after any number of well-formed ones, an item cannot be parsed,
  then \<^verbatim>\<open>Receipt.bloom\<close> never returns: it asks the iterator for the next topic, which reports success
  without moving on, and never asks for the error.
\<close>

theorem receipt_bloom_never_returns:
  assumes "bad \<noteq> []" "readKind bad = Inl e"
    and "encoded = wrap (concat (map (\<lambda>l. enc (log_item l)) logs) @
      wrap (enc (Str a) @ wrap (concat (map (\<lambda>t. enc (Str t)) ts) @ bad) @ data) @ rest)"
    and "length encoded < 2 ^ 64"
  shows "receipt_bloom kec encoded = None"
proof -
  let ?c = "concat (map (\<lambda>l. enc (log_item l)) logs) @
      wrap (enc (Str a) @ wrap (concat (map (\<lambda>t. enc (Str t)) ts) @ bad) @ data) @ rest"
  have len: "length (wrap ?c @ []) < 2 ^ 64" using assms(3,4) by simp
  then have "length ?c < 2 ^ 64" by (simp only: wrap_def [of ?c] length_append)
  then have "bloom_logs kec \<lparr>it_data = ?c, it_next = [], it_err = None\<rparr> empty_bloom = None"
    by (intro bloom_logs_malformed [OF assms(1,2) refl]) (simp_all del: enc.simps)
  with wrap_list(2) [OF len] assms(3) show ?thesis by (simp add: receipt_bloom_def)
qed

theorem receipt_bloom_never_returns_witness: "receipt_bloom (\<lambda>_. 0) [0xC4, 0xC3, 0x80, 0xC1, 0x81] = None"
proof -
  have bad: "[0x81 :: u8] \<noteq> []" "readKind [0x81] = Inl ErrValueTooLarge" by simp code_simp
  have enc: "[0xC4, 0xC3, 0x80, 0xC1, 0x81] = wrap (concat (map (\<lambda>l. enc (log_item l)) []) @
      wrap (enc (Str []) @ wrap (concat (map (\<lambda>t. enc (Str t)) []) @ [0x81]) @ []) @ [])" by code_simp
  show ?thesis by (rule receipt_bloom_never_returns [OF bad enc]) simp
qed

end
