(* ===== verification/MultiGas.thy ===== *)
theory MultiGas
  imports Geth_Prelude
begin

text \<open>
  The multi-dimensional gas value of \<^verbatim>\<open>arbitrum/multigas/resources.go\<close>: the resource
  kinds, the \<^verbatim>\<open>MultiGas\<close> struct (per-kind amounts, cached total, refund) and every
  arithmetic operation on it. The fixed-size Go array \<^verbatim>\<open>[NumResourceKind]uint64\<close> is a
  function from the kinds; a loop \<^verbatim>\<open>for i := 0; i < NumResourceKind; i++\<close> runs over
  \<open>allResourceKinds\<close>, the kinds in the order of their constants.

  The invariant \<open>mg_consistent\<close> says that the cached total is the exact sum of the
  dimensions; it is what makes the single-dimensional gas the EVM charges agree with
  the amounts attributed to resources.
\<close>

subsection \<open>Resource kinds\<close>

datatype ResourceKind =
    ResourceKindUnknown
  | ResourceKindComputation
  | ResourceKindHistoryGrowth
  | ResourceKindStorageAccessRead
  | ResourceKindStorageAccessWrite
  | ResourceKindStorageGrowth
  | ResourceKindSingleDim
  | ResourceKindL2Calldata
  | ResourceKindWasmComputation

definition allResourceKinds :: "ResourceKind list" where
  "allResourceKinds =
     [ResourceKindUnknown, ResourceKindComputation, ResourceKindHistoryGrowth,
      ResourceKindStorageAccessRead, ResourceKindStorageAccessWrite,
      ResourceKindStorageGrowth, ResourceKindSingleDim, ResourceKindL2Calldata,
      ResourceKindWasmComputation]"

definition NumResourceKind :: nat where
  "NumResourceKind = 9"

instantiation ResourceKind :: enum
begin

definition enum_ResourceKind :: "ResourceKind list" where
  "enum_ResourceKind = allResourceKinds"

definition enum_all_ResourceKind :: "(ResourceKind \<Rightarrow> bool) \<Rightarrow> bool" where
  "enum_all_ResourceKind P \<longleftrightarrow> list_all P allResourceKinds"

definition enum_ex_ResourceKind :: "(ResourceKind \<Rightarrow> bool) \<Rightarrow> bool" where
  "enum_ex_ResourceKind P \<longleftrightarrow> list_ex P allResourceKinds"

instance
proof
  have all: "k \<in> set allResourceKinds" for k
    by (cases k) (simp_all add: allResourceKinds_def)
  show "(UNIV :: ResourceKind set) = set enum_class.enum"
    using all by (auto simp: enum_ResourceKind_def)
  show "distinct (enum_class.enum :: ResourceKind list)"
    by (simp add: enum_ResourceKind_def allResourceKinds_def)
  show "enum_class.enum_all P \<longleftrightarrow> Ball UNIV (P :: ResourceKind \<Rightarrow> bool)" for P
    using all by (auto simp: enum_all_ResourceKind_def list_all_iff)
  show "enum_class.enum_ex P \<longleftrightarrow> Bex UNIV (P :: ResourceKind \<Rightarrow> bool)" for P
    using all by (auto simp: enum_ex_ResourceKind_def list_ex_iff)
qed

end

lemma in_allResourceKinds [simp]: "k \<in> set allResourceKinds"
  by (cases k) (simp_all add: allResourceKinds_def)

lemma distinct_allResourceKinds [simp]: "distinct allResourceKinds"
  by (simp add: allResourceKinds_def)

lemma length_allResourceKinds: "length allResourceKinds = NumResourceKind"
  by (simp add: allResourceKinds_def NumResourceKind_def)

datatype multigas_error = InvalidResourceId u8

definition CheckResourceKind :: "u8 \<Rightarrow> multigas_error + ResourceKind" where
  "CheckResourceKind i =
     (if i \<le> 0 \<or> i \<ge> word_of_nat NumResourceKind then Inl (InvalidResourceId i)
      else Inr (allResourceKinds ! unat i))"

subsection \<open>The value and its constructors\<close>

record MultiGas =
  mg_gas :: "ResourceKind \<Rightarrow> u64"
  mg_total :: u64
  mg_refund :: u64

type_synonym Pair = "ResourceKind \<times> u64"

definition saturatingScalarAdd :: "u64 \<Rightarrow> u64 \<Rightarrow> u64 \<times> bool" where
  "saturatingScalarAdd a b =
     (let (s, carry) = bits_Add64 a b 0 in if carry \<noteq> 0 then (MaxUint64, True) else (s, False))"

definition saturatingScalarSub :: "u64 \<Rightarrow> u64 \<Rightarrow> u64 \<times> bool" where
  "saturatingScalarSub a b =
     (let (diff, borrow) = bits_Sub64 a b 0 in if borrow \<noteq> 0 then (0, True) else (diff, False))"

fun recomputeTotal_loop :: "ResourceKind list \<Rightarrow> (ResourceKind \<Rightarrow> u64) \<Rightarrow> u64 \<Rightarrow> u64 \<times> bool" where
  "recomputeTotal_loop [] g t = (t, False)"
| "recomputeTotal_loop (k # ks) g t =
     (let (t', overflow) = saturatingScalarAdd t (g k)
      in if overflow then (t', True) else recomputeTotal_loop ks g t')"

definition recomputeTotal :: "MultiGas \<Rightarrow> MultiGas \<times> bool" where
  "recomputeTotal z =
     (let (t, overflow) = recomputeTotal_loop allResourceKinds (mg_gas z) 0
      in (z\<lparr>mg_total := t\<rparr>, overflow))"

definition ZeroGas :: MultiGas where
  "ZeroGas = \<lparr>mg_gas = (\<lambda>_. 0), mg_total = 0, mg_refund = 0\<rparr>"

definition NewMultiGas :: "ResourceKind \<Rightarrow> u64 \<Rightarrow> MultiGas" where
  "NewMultiGas kind amount =
     (let mg = ZeroGas; mg = mg\<lparr>mg_gas := (mg_gas mg)(kind := amount)\<rparr>
      in mg\<lparr>mg_total := amount\<rparr>)"

text \<open>\<open>None\<close> is the panic on overflow.\<close>

definition MultiGasFromPairs :: "Pair list \<Rightarrow> MultiGas option" where
  "MultiGasFromPairs pairs =
     (let mg = fold (\<lambda>p mg. mg\<lparr>mg_gas := (mg_gas mg)(fst p := snd p)\<rparr>) pairs ZeroGas;
          (mg', overflow) = recomputeTotal mg
      in if overflow then None else Some mg')"

definition ComputationGas :: "u64 \<Rightarrow> MultiGas" where
  "ComputationGas amount = NewMultiGas ResourceKindComputation amount"

definition HistoryGrowthGas :: "u64 \<Rightarrow> MultiGas" where
  "HistoryGrowthGas amount = NewMultiGas ResourceKindHistoryGrowth amount"

definition StorageAccessReadGas :: "u64 \<Rightarrow> MultiGas" where
  "StorageAccessReadGas amount = NewMultiGas ResourceKindStorageAccessRead amount"

definition StorageAccessWriteGas :: "u64 \<Rightarrow> MultiGas" where
  "StorageAccessWriteGas amount = NewMultiGas ResourceKindStorageAccessWrite amount"

definition StorageGrowthGas :: "u64 \<Rightarrow> MultiGas" where
  "StorageGrowthGas amount = NewMultiGas ResourceKindStorageGrowth amount"

definition SingleDimGas :: "u64 \<Rightarrow> MultiGas" where
  "SingleDimGas amount = NewMultiGas ResourceKindSingleDim amount"

definition L2CalldataGas :: "u64 \<Rightarrow> MultiGas" where
  "L2CalldataGas amount = NewMultiGas ResourceKindL2Calldata amount"

definition WasmComputationGas :: "u64 \<Rightarrow> MultiGas" where
  "WasmComputationGas amount = NewMultiGas ResourceKindWasmComputation amount"

subsection \<open>Operations\<close>

definition mg_Get :: "MultiGas \<Rightarrow> ResourceKind \<Rightarrow> u64" where
  "mg_Get z kind = mg_gas z kind"

definition mg_With :: "MultiGas \<Rightarrow> ResourceKind \<Rightarrow> u64 \<Rightarrow> MultiGas \<times> bool" where
  "mg_With z kind amount =
     (let (t, overflow) = saturatingScalarAdd (mg_total z - mg_gas z kind) amount
      in if overflow then (z, True)
         else (z\<lparr>mg_gas := (mg_gas z)(kind := amount), mg_total := t\<rparr>, False))"

definition mg_GetRefund :: "MultiGas \<Rightarrow> u64" where
  "mg_GetRefund z = mg_refund z"

definition mg_WithRefund :: "MultiGas \<Rightarrow> u64 \<Rightarrow> MultiGas" where
  "mg_WithRefund z amount = z\<lparr>mg_refund := amount\<rparr>"

text \<open>The array loop of the checked operations: it stops at the first kind that fails.\<close>

fun checked_loop ::
  "(u64 \<Rightarrow> u64 \<Rightarrow> u64 \<times> bool) \<Rightarrow> ResourceKind list \<Rightarrow> (ResourceKind \<Rightarrow> u64) \<Rightarrow>
   (ResourceKind \<Rightarrow> u64) \<Rightarrow> (ResourceKind \<Rightarrow> u64) \<times> bool" where
  "checked_loop f [] g x = (g, False)"
| "checked_loop f (k # ks) g x =
     (let (v, bad) = f (g k) (x k)
      in if bad then (g(k := v), True) else checked_loop f ks (g(k := v)) x)"

definition SafeAdd :: "MultiGas \<Rightarrow> MultiGas \<Rightarrow> MultiGas \<times> bool" where
  "SafeAdd z x =
     (let (g, overflow) = checked_loop saturatingScalarAdd allResourceKinds (mg_gas z) (mg_gas x)
      in if overflow then (z, True) else
      let (t, overflow) = saturatingScalarAdd (mg_total z) (mg_total x)
      in if overflow then (z, True) else
      let (r, overflow) = saturatingScalarAdd (mg_refund z) (mg_refund x)
      in if overflow then (z, True)
         else (z\<lparr>mg_gas := g, mg_total := t, mg_refund := r\<rparr>, False))"

definition SaturatingAdd :: "MultiGas \<Rightarrow> MultiGas \<Rightarrow> MultiGas" where
  "SaturatingAdd z x =
     (let g = fold (\<lambda>k g. g(k := fst (saturatingScalarAdd (g k) (mg_gas x k)))) allResourceKinds (mg_gas z)
      in z\<lparr>mg_gas := g,
           mg_total := fst (saturatingScalarAdd (mg_total z) (mg_total x)),
           mg_refund := fst (saturatingScalarAdd (mg_refund z) (mg_refund x))\<rparr>)"

text \<open>The in-place variant assigns the same fields of its receiver; the result is the new receiver.\<close>

definition SaturatingAddInto :: "MultiGas \<Rightarrow> MultiGas \<Rightarrow> MultiGas" where
  "SaturatingAddInto z x =
     (let z = z\<lparr>mg_gas := fold (\<lambda>k g. g(k := fst (saturatingScalarAdd (g k) (mg_gas x k)))) allResourceKinds (mg_gas z)\<rparr>;
          z = z\<lparr>mg_total := fst (saturatingScalarAdd (mg_total z) (mg_total x))\<rparr>
      in z\<lparr>mg_refund := fst (saturatingScalarAdd (mg_refund z) (mg_refund x))\<rparr>)"

definition SafeSub :: "MultiGas \<Rightarrow> MultiGas \<Rightarrow> MultiGas \<times> bool" where
  "SafeSub z x =
     (let (g, underflow) = checked_loop saturatingScalarSub allResourceKinds (mg_gas z) (mg_gas x)
      in if underflow then (z, True) else
      let (r, underflow) = saturatingScalarSub (mg_refund z) (mg_refund x)
      in if underflow then (z, True)
         else (fst (recomputeTotal (z\<lparr>mg_gas := g, mg_refund := r\<rparr>)), False))"

definition SaturatingSub :: "MultiGas \<Rightarrow> MultiGas \<Rightarrow> MultiGas" where
  "SaturatingSub z x =
     (let g = fold (\<lambda>k g. g(k := fst (saturatingScalarSub (g k) (mg_gas x k)))) allResourceKinds (mg_gas z);
          r = fst (saturatingScalarSub (mg_refund z) (mg_refund x))
      in fst (recomputeTotal (z\<lparr>mg_gas := g, mg_refund := r\<rparr>)))"

definition SafeIncrement :: "MultiGas \<Rightarrow> ResourceKind \<Rightarrow> u64 \<Rightarrow> MultiGas \<times> bool" where
  "SafeIncrement z kind gas =
     (let (g, overflow) = saturatingScalarAdd (mg_gas z kind) gas
      in if overflow then (z, True) else
      let (t, overflow) = saturatingScalarAdd (mg_total z) gas
      in if overflow then (z, True)
         else (z\<lparr>mg_gas := (mg_gas z)(kind := g), mg_total := t\<rparr>, False))"

definition SaturatingIncrement :: "MultiGas \<Rightarrow> ResourceKind \<Rightarrow> u64 \<Rightarrow> MultiGas" where
  "SaturatingIncrement z kind gas =
     z\<lparr>mg_gas := (mg_gas z)(kind := fst (saturatingScalarAdd (mg_gas z kind) gas)),
       mg_total := fst (saturatingScalarAdd (mg_total z) gas)\<rparr>"

definition SaturatingDecrement :: "MultiGas \<Rightarrow> ResourceKind \<Rightarrow> u64 \<Rightarrow> MultiGas" where
  "SaturatingDecrement z kind gas =
     (let current = mg_gas z kind;
          (reduced, g) = (if current < gas then (current, 0) else (gas, current - gas));
          t = (if mg_total z < reduced then 0 else mg_total z - reduced)
      in z\<lparr>mg_gas := (mg_gas z)(kind := g), mg_total := t\<rparr>)"

definition SaturatingIncrementInto :: "MultiGas \<Rightarrow> ResourceKind \<Rightarrow> u64 \<Rightarrow> MultiGas" where
  "SaturatingIncrementInto z kind gas =
     (let z = z\<lparr>mg_gas := (mg_gas z)(kind := fst (saturatingScalarAdd (mg_gas z kind) gas))\<rparr>
      in z\<lparr>mg_total := fst (saturatingScalarAdd (mg_total z) gas)\<rparr>)"

definition SingleGas :: "MultiGas \<Rightarrow> u64" where
  "SingleGas z = mg_total z - mg_refund z"

definition mg_IsZero :: "MultiGas \<Rightarrow> bool" where
  "mg_IsZero z \<longleftrightarrow> mg_total z = 0 \<and> mg_refund z = 0 \<and> mg_gas z = (\<lambda>_. 0)"

subsection \<open>Scalar and loop lemmas\<close>

lemma saturatingScalarAdd_eq:
  "saturatingScalarAdd a b =
     (if 2 ^ 64 \<le> unat a + unat b then (MaxUint64, True) else (a + b, False))"
  by (simp add: saturatingScalarAdd_def bits_Add64_def)

lemma saturatingScalarSub_eq:
  "saturatingScalarSub a b = (if unat a < unat b then (0, True) else (a - b, False))"
  by (simp add: saturatingScalarSub_def bits_Sub64_def)

lemma snd_saturatingScalarAdd [simp]:
  "snd (saturatingScalarAdd a b) \<longleftrightarrow> 2 ^ 64 \<le> unat a + unat b"
  by (simp add: saturatingScalarAdd_eq)

lemma snd_saturatingScalarSub [simp]: "snd (saturatingScalarSub a b) \<longleftrightarrow> unat a < unat b"
  by (simp add: saturatingScalarSub_eq)

lemma unat_saturatingScalarAdd [go_arith]:
  "unat (fst (saturatingScalarAdd a b)) = min (2 ^ 64 - 1) (unat a + unat b)"
  by (auto simp: saturatingScalarAdd_eq unat_add_no_overflow)

lemma unat_saturatingScalarSub [go_arith]:
  "unat (fst (saturatingScalarSub a b)) = unat a - unat b"
  by (auto simp: saturatingScalarSub_eq unat_sub_no_underflow)

lemma saturatingScalarAdd_commute: "saturatingScalarAdd a b = saturatingScalarAdd b a"
  by (simp add: saturatingScalarAdd_eq add.commute)

lemma u64_eq_unat: "a = b \<longleftrightarrow> unat a = unat (b :: u64)"
  by (simp add: word_unat_eq_iff)

lemma saturatingScalarAdd_assoc:
  "fst (saturatingScalarAdd (fst (saturatingScalarAdd a b)) c) =
   fst (saturatingScalarAdd a (fst (saturatingScalarAdd b c)))"
  by (simp add: u64_eq_unat unat_saturatingScalarAdd)

lemma fold_fun_upd_distinct:
  "distinct ks \<Longrightarrow>
   fold (\<lambda>k g. g(k := h k (g k))) ks g = (\<lambda>k. if k \<in> set ks then h k (g k) else g k)"
  by (induction ks arbitrary: g) auto

lemma checked_loop_bad:
  "distinct ks \<Longrightarrow> snd (checked_loop f ks g x) \<longleftrightarrow> (\<exists>k\<in>set ks. snd (f (g k) (x k)))"
proof (induction ks arbitrary: g)
  case (Cons a ks)
  have "(\<exists>k\<in>set ks. snd (f ((g(a := v)) k) (x k))) \<longleftrightarrow> (\<exists>k\<in>set ks. snd (f (g k) (x k)))" for v
    using Cons.prems by (intro bex_cong) auto
  with Cons show ?case by (auto simp: split_beta Let_def)
qed simp

lemma checked_loop_good:
  "distinct ks \<Longrightarrow> \<not> snd (checked_loop f ks g x) \<Longrightarrow>
   fst (checked_loop f ks g x) = (\<lambda>k. if k \<in> set ks then fst (f (g k) (x k)) else g k)"
proof (induction ks arbitrary: g)
  case (Cons a ks)
  define g' where "g' = g(a := fst (f (g a) (x a)))"
  have step: "checked_loop f (a # ks) g x =
      (if snd (f (g a) (x a)) then (g', True) else checked_loop f ks g' x)"
    by (simp add: split_beta Let_def g'_def)
  with Cons.prems have ok: "\<not> snd (f (g a) (x a))" "\<not> snd (checked_loop f ks g' x)"
    by (auto split: if_splits)
  with Cons.IH [of g'] Cons.prems(1)
  have "fst (checked_loop f ks g' x) = (\<lambda>k. if k \<in> set ks then fst (f (g' k) (x k)) else g' k)"
    by simp
  also have "\<dots> = (\<lambda>k. if k \<in> set (a # ks) then fst (f (g k) (x k)) else g k)"
    using Cons.prems(1) by (auto simp: g'_def)
  finally show ?case using step ok by simp
qed simp

lemmas checked_loop_all =
  checked_loop_bad [OF distinct_allResourceKinds, simplified]
  checked_loop_good [OF distinct_allResourceKinds, simplified]

lemma fold_all_kinds:
  "fold (\<lambda>k g. g(k := fst (f (g k) (x k)))) allResourceKinds g = (\<lambda>k. fst (f (g k) (x k)))"
  using fold_fun_upd_distinct [of allResourceKinds "\<lambda>k v. fst (f v (x k))"] by simp

subsection \<open>The total is the sum of the dimensions\<close>

definition mg_sum :: "(ResourceKind \<Rightarrow> u64) \<Rightarrow> nat" where
  "mg_sum g = (\<Sum>k\<leftarrow>allResourceKinds. unat (g k))"

definition mg_consistent :: "MultiGas \<Rightarrow> bool" where
  "mg_consistent z \<longleftrightarrow> unat (mg_total z) = mg_sum (mg_gas z)"

lemma mg_sum_UNIV: "mg_sum g = (\<Sum>k\<in>UNIV. unat (g k))"
proof -
  have "set allResourceKinds = UNIV" by auto
  then show ?thesis
    by (simp add: mg_sum_def sum_list_distinct_conv_sum_set)
qed

lemma mg_sum_upd: "mg_sum (g(k := v)) + unat (g k) = mg_sum g + unat v"
proof -
  have "mg_sum (g(k := v)) = unat v + (\<Sum>j\<in>UNIV - {k}. unat ((g(k := v)) j))"
    unfolding mg_sum_UNIV by (subst sum.remove [of UNIV k]) simp_all
  also have "(\<Sum>j\<in>UNIV - {k}. unat ((g(k := v)) j)) = (\<Sum>j\<in>UNIV - {k}. unat (g j))"
    by (intro sum.cong) auto
  finally show ?thesis
    unfolding mg_sum_UNIV by (subst (2) sum.remove [of UNIV k]) simp_all
qed

lemma mg_sum_member: "unat (g k) \<le> mg_sum g"
  unfolding mg_sum_UNIV by (rule member_le_sum) auto

lemma mg_sum_mono: "(\<And>k. unat (g k) \<le> unat (h k)) \<Longrightarrow> mg_sum g \<le> mg_sum h"
  unfolding mg_sum_UNIV by (rule sum_mono)

lemma mg_sum_add:
  "(\<And>k. unat (f k) = unat (g k) + unat (h k)) \<Longrightarrow> mg_sum f = mg_sum g + mg_sum h"
  unfolding mg_sum_UNIV by (simp add: sum.distrib)

lemma recomputeTotal_loop_sum:
  "unat t + (\<Sum>k\<leftarrow>ks. unat (g k)) < 2 ^ 64 \<Longrightarrow>
   \<not> snd (recomputeTotal_loop ks g t) \<and>
   unat (fst (recomputeTotal_loop ks g t)) = unat t + (\<Sum>k\<leftarrow>ks. unat (g k))"
proof (induction ks arbitrary: t)
  case (Cons k ks)
  from Cons.prems have lt: "unat t + unat (g k) < 2 ^ 64" by simp
  then have "unat (t + g k) = unat t + unat (g k)" by (rule unat_add_no_overflow)
  with Cons.IH [of "t + g k"] Cons.prems lt show ?case
    by (simp add: saturatingScalarAdd_eq)
qed simp

lemma recomputeTotal_loop_overflow:
  "snd (recomputeTotal_loop ks g t) \<longleftrightarrow> 2 ^ 64 \<le> unat t + (\<Sum>k\<leftarrow>ks. unat (g k))"
proof (induction ks arbitrary: t)
  case Nil
  then show ?case using u64_bound [of t] by simp
next
  case (Cons k ks)
  show ?case
  proof (cases "2 ^ 64 \<le> unat t + unat (g k)")
    case True
    then show ?thesis by (simp add: saturatingScalarAdd_eq)
  next
    case False
    then have "unat (t + g k) = unat t + unat (g k)" by (intro unat_add_no_overflow) simp
    with False Cons.IH [of "t + g k"] show ?thesis
      by (simp add: saturatingScalarAdd_eq add.assoc)
  qed
qed

lemma recomputeTotal_consistent:
  assumes "mg_sum (mg_gas z) < 2 ^ 64"
  shows "mg_consistent (fst (recomputeTotal z))" and "\<not> snd (recomputeTotal z)"
    and "mg_gas (fst (recomputeTotal z)) = mg_gas z"
    and "mg_refund (fst (recomputeTotal z)) = mg_refund z"
  using recomputeTotal_loop_sum [of 0 "mg_gas z" allResourceKinds] assms
  by (simp_all add: recomputeTotal_def mg_consistent_def mg_sum_def split_beta)

lemma mg_consistent_bound: "mg_consistent z \<Longrightarrow> mg_sum (mg_gas z) < 2 ^ 64"
  using u64_bound [of "mg_total z"] by (simp add: mg_consistent_def)

lemma MultiGas_eqI:
  "(\<And>k. mg_gas z k = mg_gas x k) \<Longrightarrow> mg_total z = mg_total x \<Longrightarrow> mg_refund z = mg_refund x \<Longrightarrow>
   z = (x :: MultiGas)"
  by (cases z; cases x) (auto simp: fun_eq_iff)

subsection \<open>Behaviour of the checked operations\<close>

lemma SafeAdd_overflow_iff:
  "snd (SafeAdd z x) \<longleftrightarrow>
     (\<exists>k. 2 ^ 64 \<le> unat (mg_gas z k) + unat (mg_gas x k)) \<or>
     2 ^ 64 \<le> unat (mg_total z) + unat (mg_total x) \<or>
     2 ^ 64 \<le> unat (mg_refund z) + unat (mg_refund x)"
  by (auto simp: SafeAdd_def split_beta Let_def checked_loop_all)

lemma SafeAdd_fail: "snd (SafeAdd z x) \<Longrightarrow> fst (SafeAdd z x) = z"
  by (auto simp: SafeAdd_def split_beta Let_def split: if_splits)

lemma SafeAdd_result:
  assumes "\<not> snd (SafeAdd z x)"
  shows "fst (SafeAdd z x) =
    \<lparr>mg_gas = (\<lambda>k. mg_gas z k + mg_gas x k), mg_total = mg_total z + mg_total x,
     mg_refund = mg_refund z + mg_refund x\<rparr>"
proof -
  from assms have k: "\<not> 2 ^ 64 \<le> unat (mg_gas z k) + unat (mg_gas x k)" for k
    by (auto simp: SafeAdd_overflow_iff)
  with assms show ?thesis
    unfolding SafeAdd_overflow_iff
    by (intro MultiGas_eqI)
      (simp_all add: SafeAdd_def split_beta Let_def checked_loop_all saturatingScalarAdd_eq)
qed

lemma SafeAdd_unat:
  assumes "\<not> snd (SafeAdd z x)"
  shows "unat (mg_gas (fst (SafeAdd z x)) k) = unat (mg_gas z k) + unat (mg_gas x k)"
    and "unat (mg_total (fst (SafeAdd z x))) = unat (mg_total z) + unat (mg_total x)"
    and "unat (mg_refund (fst (SafeAdd z x))) = unat (mg_refund z) + unat (mg_refund x)"
proof -
  from assms have "\<not> 2 ^ 64 \<le> unat (mg_gas z k) + unat (mg_gas x k)"
    "\<not> 2 ^ 64 \<le> unat (mg_total z) + unat (mg_total x)"
    "\<not> 2 ^ 64 \<le> unat (mg_refund z) + unat (mg_refund x)"
    by (auto simp: SafeAdd_overflow_iff)
  then show "unat (mg_gas (fst (SafeAdd z x)) k) = unat (mg_gas z k) + unat (mg_gas x k)"
    and "unat (mg_total (fst (SafeAdd z x))) = unat (mg_total z) + unat (mg_total x)"
    and "unat (mg_refund (fst (SafeAdd z x))) = unat (mg_refund z) + unat (mg_refund x)"
    by (simp_all add: SafeAdd_result [OF assms] unat_add_no_overflow)
qed

lemma SafeSub_underflow_iff:
  "snd (SafeSub z x) \<longleftrightarrow>
     (\<exists>k. unat (mg_gas z k) < unat (mg_gas x k)) \<or> unat (mg_refund z) < unat (mg_refund x)"
  by (auto simp: SafeSub_def split_beta Let_def checked_loop_all)

lemma SafeSub_fail: "snd (SafeSub z x) \<Longrightarrow> fst (SafeSub z x) = z"
  by (auto simp: SafeSub_def split_beta Let_def split: if_splits)

lemma SafeSub_result:
  assumes "\<not> snd (SafeSub z x)"
  shows "fst (SafeSub z x) =
    fst (recomputeTotal (z\<lparr>mg_gas := \<lambda>k. mg_gas z k - mg_gas x k, mg_refund := mg_refund z - mg_refund x\<rparr>))"
proof -
  from assms have k: "\<not> unat (mg_gas z k) < unat (mg_gas x k)" for k
    by (auto simp: SafeSub_underflow_iff)
  with assms show ?thesis
    unfolding SafeSub_underflow_iff
    by (simp add: SafeSub_def split_beta Let_def checked_loop_all saturatingScalarSub_eq)
qed

lemma SafeSub_sum_bound:
  assumes "mg_consistent z" "\<not> snd (SafeSub z x)"
  shows "mg_sum (\<lambda>k. mg_gas z k - mg_gas x k) < 2 ^ 64"
proof -
  from assms(2) have "unat (mg_gas x k) \<le> unat (mg_gas z k)" for k
    by (auto simp: SafeSub_underflow_iff not_less)
  then have "unat (mg_gas z k - mg_gas x k) \<le> unat (mg_gas z k)" for k
    by (simp add: unat_sub_no_underflow)
  then have "mg_sum (\<lambda>k. mg_gas z k - mg_gas x k) \<le> mg_sum (mg_gas z)" by (rule mg_sum_mono)
  with mg_consistent_bound [OF assms(1)] show ?thesis by linarith
qed

lemma SafeSub_consistent:
  "mg_consistent z \<Longrightarrow> mg_consistent (fst (SafeSub z x))"
  using SafeSub_sum_bound [of z x]
  by (cases "snd (SafeSub z x)") (simp_all add: SafeSub_fail SafeSub_result recomputeTotal_consistent)

lemma SaturatingSub_sum_bound:
  "mg_consistent z \<Longrightarrow> mg_sum (\<lambda>k. fst (saturatingScalarSub (mg_gas z k) (mg_gas x k))) < 2 ^ 64"
  using mg_sum_mono [of "\<lambda>k. fst (saturatingScalarSub (mg_gas z k) (mg_gas x k))" "mg_gas z"]
    mg_consistent_bound [of z]
  by (simp add: unat_saturatingScalarSub)

lemma SaturatingSub_consistent: "mg_consistent z \<Longrightarrow> mg_consistent (SaturatingSub z x)"
  using SaturatingSub_sum_bound [of z x]
  by (simp add: SaturatingSub_def fold_all_kinds recomputeTotal_consistent)

lemma SafeAdd_consistent:
  assumes "mg_consistent z" "mg_consistent x"
  shows "mg_consistent (fst (SafeAdd z x))"
proof (cases "snd (SafeAdd z x)")
  case False
  have "mg_sum (mg_gas (fst (SafeAdd z x))) = mg_sum (mg_gas z) + mg_sum (mg_gas x)"
    by (intro mg_sum_add SafeAdd_unat(1) [OF False])
  with assms SafeAdd_unat(2) [OF False] show ?thesis by (simp add: mg_consistent_def)
qed (simp add: SafeAdd_fail assms)

lemma NewMultiGas_consistent [simp]: "mg_consistent (NewMultiGas k a)"
  using mg_sum_upd [of "\<lambda>_. 0" k a]
  by (simp add: mg_consistent_def NewMultiGas_def ZeroGas_def mg_sum_def)

lemma ZeroGas_consistent [simp]: "mg_consistent ZeroGas"
  by (simp add: mg_consistent_def ZeroGas_def mg_sum_def)

lemma mg_With_consistent:
  assumes "mg_consistent z"
  shows "mg_consistent (fst (mg_With z k a))"
proof -
  have le: "unat (mg_gas z k) \<le> unat (mg_total z)"
    using assms mg_sum_member [of "mg_gas z" k] by (simp add: mg_consistent_def)
  show ?thesis
  proof (cases "2 ^ 64 \<le> unat (mg_total z - mg_gas z k) + unat a")
    case False
    then have "unat (mg_total z - mg_gas z k + a) = unat (mg_total z) - unat (mg_gas z k) + unat a"
      using le by (simp add: unat_add_no_overflow unat_sub_no_underflow)
    with False le mg_sum_upd [of "mg_gas z" k a] assms show ?thesis
      by (simp add: mg_With_def saturatingScalarAdd_eq mg_consistent_def)
  qed (simp add: mg_With_def saturatingScalarAdd_eq assms)
qed

lemma SafeIncrement_consistent:
  assumes "mg_consistent z"
  shows "mg_consistent (fst (SafeIncrement z k a))"
proof (cases "2 ^ 64 \<le> unat (mg_gas z k) + unat a \<or> 2 ^ 64 \<le> unat (mg_total z) + unat a")
  case False
  with mg_sum_upd [of "mg_gas z" k "mg_gas z k + a"] assms show ?thesis
    by (simp add: SafeIncrement_def saturatingScalarAdd_eq mg_consistent_def unat_add_no_overflow)
qed (auto simp: SafeIncrement_def saturatingScalarAdd_eq assms)

lemma SaturatingDecrement_consistent:
  assumes "mg_consistent z"
  shows "mg_consistent (SaturatingDecrement z k a)"
proof -
  have le: "unat (mg_gas z k) \<le> unat (mg_total z)"
    using assms mg_sum_member [of "mg_gas z" k] by (simp add: mg_consistent_def)
  show ?thesis
    using assms le mg_sum_upd [of "mg_gas z" k 0] mg_sum_upd [of "mg_gas z" k "mg_gas z k - a"]
    by (auto simp: SaturatingDecrement_def Let_def mg_consistent_def word_less_nat_alt
        unat_sub_no_underflow)
qed

lemma MultiGasFromPairs_consistent:
  assumes "MultiGasFromPairs ps = Some z"
  shows "mg_consistent z"
proof -
  define m where "m = fold (\<lambda>p mg. mg\<lparr>mg_gas := (mg_gas mg)(fst p := snd p)\<rparr>) ps ZeroGas"
  from assms have "\<not> snd (recomputeTotal m)" "z = fst (recomputeTotal m)"
    by (auto simp: MultiGasFromPairs_def m_def split_beta Let_def split: if_splits)
  moreover from this(1) have "mg_sum (mg_gas m) < 2 ^ 64"
    by (simp add: recomputeTotal_def split_beta recomputeTotal_loop_overflow mg_sum_def not_le)
  ultimately show ?thesis by (simp add: recomputeTotal_consistent)
qed

subsection \<open>Saturating addition is a commutative monoid\<close>

lemma SaturatingAdd_fields [go_arith]:
  "unat (mg_gas (SaturatingAdd z x) k) = min (2 ^ 64 - 1) (unat (mg_gas z k) + unat (mg_gas x k))"
  "unat (mg_total (SaturatingAdd z x)) = min (2 ^ 64 - 1) (unat (mg_total z) + unat (mg_total x))"
  "unat (mg_refund (SaturatingAdd z x)) = min (2 ^ 64 - 1) (unat (mg_refund z) + unat (mg_refund x))"
  by (simp_all add: SaturatingAdd_def fold_all_kinds unat_saturatingScalarAdd)

lemma MultiGas_eq_unatI:
  "(\<And>k. unat (mg_gas z k) = unat (mg_gas x k)) \<Longrightarrow> unat (mg_total z) = unat (mg_total x) \<Longrightarrow>
   unat (mg_refund z) = unat (mg_refund x) \<Longrightarrow> z = (x :: MultiGas)"
  by (rule MultiGas_eqI) (simp_all add: u64_eq_unat)

interpretation mg_add: comm_monoid SaturatingAdd ZeroGas
proof
  fix a b c :: MultiGas
  show "SaturatingAdd (SaturatingAdd a b) c = SaturatingAdd a (SaturatingAdd b c)"
    by (rule MultiGas_eq_unatI) (simp_all add: SaturatingAdd_fields)
  show "SaturatingAdd a b = SaturatingAdd b a"
    by (rule MultiGas_eq_unatI) (simp_all add: SaturatingAdd_fields add.commute)
  have le: "unat (v :: u64) \<le> 18446744073709551615" for v using u64_bound [of v] by simp
  show "SaturatingAdd a ZeroGas = a"
    by (rule MultiGas_eq_unatI) (simp_all add: SaturatingAdd_fields ZeroGas_def min_absorb2 le)
qed

lemma SaturatingAddInto_eq: "SaturatingAddInto z x = SaturatingAdd z x"
  by (simp add: SaturatingAddInto_def SaturatingAdd_def)

lemma SaturatingIncrementInto_eq: "SaturatingIncrementInto z k a = SaturatingIncrement z k a"
  by (simp add: SaturatingIncrementInto_def SaturatingIncrement_def)

lemma SaturatingAdd_SafeAdd:
  "\<not> snd (SafeAdd z x) \<Longrightarrow> SaturatingAdd z x = fst (SafeAdd z x)"
proof (rule MultiGas_eq_unatI)
  assume ok: "\<not> snd (SafeAdd z x)"
  have le: "a = unat (v :: u64) \<Longrightarrow> min (2 ^ 64 - 1) a = a" for a v using u64_bound [of v] by simp
  show "unat (mg_gas (SaturatingAdd z x) k) = unat (mg_gas (fst (SafeAdd z x)) k)" for k
    unfolding SaturatingAdd_fields SafeAdd_unat(1) [OF ok, symmetric] by (rule le [OF refl])
  show "unat (mg_total (SaturatingAdd z x)) = unat (mg_total (fst (SafeAdd z x)))"
    unfolding SaturatingAdd_fields SafeAdd_unat(2) [OF ok, symmetric] by (rule le [OF refl])
  show "unat (mg_refund (SaturatingAdd z x)) = unat (mg_refund (fst (SafeAdd z x)))"
    unfolding SaturatingAdd_fields SafeAdd_unat(3) [OF ok, symmetric] by (rule le [OF refl])
qed

lemma mg_consistent_dim_le: "mg_consistent z \<Longrightarrow> unat (mg_gas z k) \<le> unat (mg_total z)"
  using mg_sum_member [of "mg_gas z" k] by (simp add: mg_consistent_def)

lemma SafeAdd_overflow_consistent:
  assumes "mg_consistent z" "mg_consistent x"
  shows "snd (SafeAdd z x) \<longleftrightarrow>
     2 ^ 64 \<le> unat (mg_total z) + unat (mg_total x) \<or> 2 ^ 64 \<le> unat (mg_refund z) + unat (mg_refund x)"
proof -
  have "unat (mg_gas z k) + unat (mg_gas x k) \<le> unat (mg_total z) + unat (mg_total x)" for k
    by (intro add_mono mg_consistent_dim_le assms)
  then show ?thesis unfolding SafeAdd_overflow_iff by (meson order_trans)
qed

lemma mg_consistent_total_eqI:
  "mg_consistent z \<Longrightarrow> mg_consistent x \<Longrightarrow> mg_gas z = mg_gas x \<Longrightarrow> mg_total z = mg_total x"
  by (simp add: mg_consistent_def u64_eq_unat)

lemma SafeSub_fields:
  assumes "mg_consistent z" "\<not> snd (SafeSub z x)"
  shows "mg_gas (fst (SafeSub z x)) k = mg_gas z k - mg_gas x k"
    and "mg_refund (fst (SafeSub z x)) = mg_refund z - mg_refund x"
  using SafeSub_sum_bound [OF assms] assms(2) by (simp_all add: SafeSub_result recomputeTotal_consistent)

lemma mg_WithRefund_consistent: "mg_consistent z \<Longrightarrow> mg_consistent (mg_WithRefund z a)"
  by (simp add: mg_WithRefund_def mg_consistent_def)

lemma NewMultiGas_simps [simp]:
  "mg_gas (NewMultiGas k a) = (\<lambda>_. 0)(k := a)" "mg_total (NewMultiGas k a) = a"
  "mg_refund (NewMultiGas k a) = 0"
  by (simp_all add: NewMultiGas_def ZeroGas_def)

subsection \<open>Properties\<close>

text \<open>
  C11: the cached \<^verbatim>\<open>total\<close> of a \<^verbatim>\<open>MultiGas\<close> is the exact sum of its dimensions. Every
  constructor establishes this, and every checked or subtracting operation keeps it on
  all branches, the overflow and underflow ones included.
\<close>

theorem mg_ops_consistent:
  assumes "mg_consistent z" "mg_consistent x"
  shows "mg_consistent ZeroGas \<and> mg_consistent (NewMultiGas k a) \<and>
    (\<forall>ps m. MultiGasFromPairs ps = Some m \<longrightarrow> mg_consistent m) \<and>
    mg_consistent (fst (mg_With z k a)) \<and> mg_consistent (mg_WithRefund z a) \<and>
    mg_consistent (fst (SafeAdd z x)) \<and> mg_consistent (fst (SafeSub z x)) \<and>
    mg_consistent (SaturatingSub z x) \<and> mg_consistent (fst (SafeIncrement z k a)) \<and>
    mg_consistent (SaturatingDecrement z k a)"
  using assms
  by (simp add: mg_With_consistent mg_WithRefund_consistent SafeAdd_consistent SafeSub_consistent
      SaturatingSub_consistent SafeIncrement_consistent SaturatingDecrement_consistent
      MultiGasFromPairs_consistent)

theorem mg_ops_consistent_witness:
  "mg_consistent (ComputationGas 7) \<and> mg_consistent (fst (SafeSub (ComputationGas 7) (ComputationGas 3)))"
  using mg_ops_consistent [of "ComputationGas 7" "ComputationGas 3"]
  by (simp add: ComputationGas_def)

text \<open>
  C12: \<^verbatim>\<open>SafeAdd\<close> on consistent values fails exactly when the totals or the refunds overflow
  64 bits and then returns its receiver unchanged; otherwise every dimension, the total
  and the refund are the exact natural-number sums, and \<^verbatim>\<open>SaturatingAdd\<close> and
  \<^verbatim>\<open>SaturatingAddInto\<close> return the same value.
\<close>

theorem SafeAdd_exact:
  assumes "mg_consistent z" "mg_consistent x"
  shows "if 2 ^ 64 \<le> unat (mg_total z) + unat (mg_total x) \<or> 2 ^ 64 \<le> unat (mg_refund z) + unat (mg_refund x)
    then SafeAdd z x = (z, True)
    else \<exists>r. SafeAdd z x = (r, False) \<and> SaturatingAdd z x = r \<and> SaturatingAddInto z x = r \<and>
      (\<forall>k. unat (mg_Get r k) = unat (mg_Get z k) + unat (mg_Get x k)) \<and>
      unat (mg_total r) = unat (mg_total z) + unat (mg_total x) \<and>
      unat (mg_GetRefund r) = unat (mg_GetRefund z) + unat (mg_GetRefund x)"
proof (cases "snd (SafeAdd z x)")
  case True
  then show ?thesis
    using SafeAdd_overflow_consistent [OF assms] SafeAdd_fail [OF True] by (simp add: prod_eq_iff)
next
  case False
  then show ?thesis
    using SafeAdd_overflow_consistent [OF assms] SafeAdd_unat [OF False] SaturatingAdd_SafeAdd [OF False]
    by (simp add: prod_eq_iff mg_Get_def mg_GetRefund_def SaturatingAddInto_eq)
qed

theorem SafeAdd_exact_witness:
  "SafeAdd (ComputationGas 18446744073709551615) (StorageGrowthGas 1) = (ComputationGas 18446744073709551615, True)"
  using SafeAdd_exact [of "ComputationGas 18446744073709551615" "StorageGrowthGas 1"]
  by (simp add: ComputationGas_def StorageGrowthGas_def)

text \<open>
  C13: \<^verbatim>\<open>SafeSub\<close> undoes \<^verbatim>\<open>SafeAdd\<close>: subtracting what a successful addition added never
  underflows and gives back the original value, total and refund included.
\<close>

theorem SafeSub_SafeAdd:
  assumes "mg_consistent z" "mg_consistent x" "SafeAdd z x = (r, False)"
  shows "SafeSub r x = (z, False)"
proof -
  from assms(3) have ok: "\<not> snd (SafeAdd z x)" and r: "r = fst (SafeAdd z x)" by simp_all
  have cons: "mg_consistent r" unfolding r by (rule SafeAdd_consistent [OF assms(1,2)])
  have nu: "\<not> snd (SafeSub r x)"
    unfolding SafeSub_underflow_iff r by (simp add: SafeAdd_unat [OF ok])
  have "fst (SafeSub r x) = z"
  proof (rule MultiGas_eqI)
    show g: "mg_gas (fst (SafeSub r x)) k = mg_gas z k" for k
      by (simp add: SafeSub_fields [OF cons nu]) (simp add: r SafeAdd_result [OF ok])
    show "mg_refund (fst (SafeSub r x)) = mg_refund z"
      by (simp add: SafeSub_fields [OF cons nu]) (simp add: r SafeAdd_result [OF ok])
    show "mg_total (fst (SafeSub r x)) = mg_total z"
      by (intro mg_consistent_total_eqI SafeSub_consistent cons assms(1) ext g)
  qed
  with nu show ?thesis by (simp add: prod_eq_iff)
qed

theorem SafeSub_SafeAdd_witness:
  "SafeSub (fst (SafeAdd (ComputationGas 5) (HistoryGrowthGas 8))) (HistoryGrowthGas 8) = (ComputationGas 5, False)"
proof (rule SafeSub_SafeAdd)
  show "SafeAdd (ComputationGas 5) (HistoryGrowthGas 8) =
      (fst (SafeAdd (ComputationGas 5) (HistoryGrowthGas 8)), False)"
    by (simp add: prod_eq_iff SafeAdd_overflow_iff ComputationGas_def HistoryGrowthGas_def
        NewMultiGas_def ZeroGas_def)
qed (simp_all add: ComputationGas_def HistoryGrowthGas_def)

end
