(* ===== verification/VMBase.thy ===== *)
theory VMBase
imports Geth_Prelude "HOL-Library.Monad_Syntax"
begin

text \<open>
  The data structures of one EVM call frame: the operand stack (\<^verbatim>\<open>core/vm/stack.go\<close> and
  \<^verbatim>\<open>stack_table.go\<close>), the byte-addressed memory (\<^verbatim>\<open>memory.go\<close>), the sz computations of
  \<^verbatim>\<open>common.go\<close> and \<^verbatim>\<open>memory_table.go\<close>. Values of the \<^verbatim>\<open>uint256\<close> package are words of 256 bits.
  \<open>None\<close> is a panic: an index out of range or the explicit panics of the memory.
\<close>

subsection \<open>The stack\<close>

text \<open>As in the slice \<^verbatim>\<open>data\<close>, the top of the stack is the last element.\<close>

record Stack =
  st_data :: "u256 list"

definition newstack :: Stack where
  "newstack = \<lparr>st_data = []\<rparr>"

definition st_push :: "u256 \<Rightarrow> Stack \<Rightarrow> Stack" where
  "st_push d st = st\<lparr>st_data := st_data st @ [d]\<rparr>"

definition st_pop :: "Stack \<Rightarrow> (u256 \<times> Stack) option" where
  "st_pop st =
     (if st_data st = [] then None
      else Some (st_data st ! (length (st_data st) - 1), st\<lparr>st_data := take (length (st_data st) - 1) (st_data st)\<rparr>))"

definition st_len :: "Stack \<Rightarrow> nat" where
  "st_len st = length (st_data st)"

text \<open>\<^verbatim>\<open>swap1\<close> to \<^verbatim>\<open>swap16\<close> differ in the position they exchange with the top.\<close>

definition st_swap :: "nat \<Rightarrow> Stack \<Rightarrow> Stack option" where
  "st_swap n st =
     (let xs = st_data st; l = st_len st
      in if l < n + 1 then None
         else Some (st\<lparr>st_data := (xs[l - (n + 1) := xs ! (l - 1)])[l - 1 := xs ! (l - (n + 1))]\<rparr>))"

definition st_dup :: "nat \<Rightarrow> Stack \<Rightarrow> Stack option" where
  "st_dup n st =
     (if n = 0 \<or> st_len st < n then None else Some (st_push (st_data st ! (st_len st - n)) st))"

definition st_peek :: "Stack \<Rightarrow> u256 option" where
  "st_peek st = (if st_len st = 0 then None else Some (st_data st ! (st_len st - 1)))"

definition st_Back :: "nat \<Rightarrow> Stack \<Rightarrow> u256 option" where
  "st_Back n st = (if st_len st \<le> n then None else Some (st_data st ! (st_len st - n - 1)))"

definition StackLimit :: int where
  "StackLimit = 1024"

definition maxStack :: "int \<Rightarrow> int \<Rightarrow> int" where
  "maxStack pop push = StackLimit + pop - push"

definition minStack :: "int \<Rightarrow> int \<Rightarrow> int" where
  "minStack pops push = pops"

definition minSwapStack :: "int \<Rightarrow> int" where
  "minSwapStack n = minStack n n"

definition maxSwapStack :: "int \<Rightarrow> int" where
  "maxSwapStack n = maxStack n n"

definition minDupStack :: "int \<Rightarrow> int" where
  "minDupStack n = minStack n (n + 1)"

definition maxDupStack :: "int \<Rightarrow> int" where
  "maxDupStack n = maxStack n (n + 1)"

subsection \<open>Sizes\<close>

text \<open>Values of the \<^verbatim>\<open>uint256\<close> package that fit in 64 bits.\<close>

definition IsUint64 :: "u256 \<Rightarrow> bool" where
  "IsUint64 x \<longleftrightarrow> x \<le> 0xFFFFFFFFFFFFFFFF"

definition Uint64WithOverflow :: "u256 \<Rightarrow> u64 \<times> bool" where
  "Uint64WithOverflow x = (ucast x, \<not> IsUint64 x)"

definition calcMemSize64WithUint :: "u256 \<Rightarrow> u64 \<Rightarrow> u64 \<times> bool" where
  "calcMemSize64WithUint off length64 =
     (if length64 = 0 then (0, False)
      else let (offset64, overflow) = Uint64WithOverflow off
           in if overflow then (0, True)
              else let val = offset64 + length64 in (val, val < offset64))"

definition calcMemSize64 :: "u256 \<Rightarrow> u256 \<Rightarrow> u64 \<times> bool" where
  "calcMemSize64 off l = (if \<not> IsUint64 l then (0, True) else calcMemSize64WithUint off (ucast l))"

text \<open>The slice \<^verbatim>\<open>data[start:end]\<close>.\<close>

definition slice :: "'a list \<Rightarrow> u64 \<Rightarrow> u64 \<Rightarrow> 'a list option" where
  "slice xs i j =
     (if i \<le> j \<and> uint j \<le> int (length xs) then Some (take (unat j - unat i) (drop (unat i) xs)) else None)"

text \<open>The padding length is converted with \<^verbatim>\<open>int(size)\<close>, negative from \<open>2 ^ 63\<close> on.\<close>

definition getDataAndAdjustedBounds :: "bytes \<Rightarrow> u64 \<Rightarrow> u64 \<Rightarrow> (bytes \<times> u64 \<times> u64) option" where
  "getDataAndAdjustedBounds data start sz =
     (let n = word_of_nat (length data);
          start = (if start > n then n else start);
          end = start + sz;
          end = (if end > n then n else end)
      in map_option (\<lambda>d. (RightPadBytes d (nat (sint sz)), start, end - start)) (slice data start end))"

definition getData :: "bytes \<Rightarrow> u64 \<Rightarrow> u64 \<Rightarrow> bytes option" where
  "getData data start sz =
     (let n = word_of_nat (length data);
          start = (if start > n then n else start);
          end = start + sz;
          end = (if end > n then n else end)
      in map_option (\<lambda>d. RightPadBytes d (nat (sint sz))) (slice data start end))"

definition toWordSize :: "u64 \<Rightarrow> u64" where
  "toWordSize sz = (if sz > MaxUint64 - 31 then MaxUint64 div 32 + 1 else (sz + 31) div 32)"

subsection \<open>Memory sizes of the operations\<close>

text \<open>Reading two operands of the stack for a size computation.\<close>

definition memory_two :: "nat \<Rightarrow> nat \<Rightarrow> Stack \<Rightarrow> (u64 \<times> bool) option" where
  "memory_two i j st = do { off \<leftarrow> st_Back i st; l \<leftarrow> st_Back j st; Some (calcMemSize64 off l) }"

abbreviation (input) memoryKeccak256 :: "Stack \<Rightarrow> (u64 \<times> bool) option" where
  "memoryKeccak256 \<equiv> memory_two 0 1"

abbreviation (input) memoryCallDataCopy :: "Stack \<Rightarrow> (u64 \<times> bool) option" where
  "memoryCallDataCopy \<equiv> memory_two 0 2"

abbreviation (input) memoryReturnDataCopy :: "Stack \<Rightarrow> (u64 \<times> bool) option" where
  "memoryReturnDataCopy \<equiv> memory_two 0 2"

abbreviation (input) memoryCodeCopy :: "Stack \<Rightarrow> (u64 \<times> bool) option" where
  "memoryCodeCopy \<equiv> memory_two 0 2"

abbreviation (input) memoryExtCodeCopy :: "Stack \<Rightarrow> (u64 \<times> bool) option" where
  "memoryExtCodeCopy \<equiv> memory_two 1 3"

definition memoryMLoad :: "Stack \<Rightarrow> (u64 \<times> bool) option" where
  "memoryMLoad st = do { off \<leftarrow> st_Back 0 st; Some (calcMemSize64WithUint off 32) }"

definition memoryMStore8 :: "Stack \<Rightarrow> (u64 \<times> bool) option" where
  "memoryMStore8 st = do { off \<leftarrow> st_Back 0 st; Some (calcMemSize64WithUint off 1) }"

definition memoryMStore :: "Stack \<Rightarrow> (u64 \<times> bool) option" where
  "memoryMStore st = do { off \<leftarrow> st_Back 0 st; Some (calcMemSize64WithUint off 32) }"

definition memoryMcopy :: "Stack \<Rightarrow> (u64 \<times> bool) option" where
  "memoryMcopy st = do {
     dest \<leftarrow> st_Back 0 st;
     src \<leftarrow> st_Back 1 st;
     l \<leftarrow> st_Back 2 st;
     Some (calcMemSize64 (if src > dest then src else dest) l)
   }"

abbreviation (input) memoryCreate :: "Stack \<Rightarrow> (u64 \<times> bool) option" where
  "memoryCreate \<equiv> memory_two 1 2"

abbreviation (input) memoryCreate2 :: "Stack \<Rightarrow> (u64 \<times> bool) option" where
  "memoryCreate2 \<equiv> memory_two 1 2"

text \<open>The larger of the regions for the arguments and for the results of a call.\<close>

definition memory_larger :: "(u64 \<times> bool) option \<Rightarrow> (u64 \<times> bool) option \<Rightarrow> (u64 \<times> bool) option" where
  "memory_larger mx my = do {
     (x, overflow) \<leftarrow> mx;
     if overflow then Some (0, True)
     else do {
       (y, overflow) \<leftarrow> my;
       if overflow then Some (0, True)
       else if x > y then Some (x, False)
       else Some (y, False)
     }
   }"

definition memoryCall :: "Stack \<Rightarrow> (u64 \<times> bool) option" where
  "memoryCall st = memory_larger (memory_two 5 6 st) (memory_two 3 4 st)"

definition memoryDelegateCall :: "Stack \<Rightarrow> (u64 \<times> bool) option" where
  "memoryDelegateCall st = memory_larger (memory_two 4 5 st) (memory_two 2 3 st)"

definition memoryStaticCall :: "Stack \<Rightarrow> (u64 \<times> bool) option" where
  "memoryStaticCall st = memory_larger (memory_two 4 5 st) (memory_two 2 3 st)"

abbreviation (input) memoryReturn :: "Stack \<Rightarrow> (u64 \<times> bool) option" where
  "memoryReturn \<equiv> memory_two 0 1"

abbreviation (input) memoryRevert :: "Stack \<Rightarrow> (u64 \<times> bool) option" where
  "memoryRevert \<equiv> memory_two 0 1"

abbreviation (input) memoryLog :: "Stack \<Rightarrow> (u64 \<times> bool) option" where
  "memoryLog \<equiv> memory_two 0 1"

subsection \<open>Memory\<close>

text \<open>
  Slicing beyond the length of the store would panic or, up to its capacity, give stale
  bytes; both are \<open>None\<close>.
\<close>

record Memory =
  mem_store :: bytes
  lastGasCost :: u64

definition NewMemory :: Memory where
  "NewMemory = \<lparr>mem_store = [], lastGasCost = 0\<rparr>"

definition mem_Len :: "Memory \<Rightarrow> nat" where
  "mem_Len m = length (mem_store m)"

text \<open>The built-in \<^verbatim>\<open>copy\<close> into the part of a store that starts at an offset.\<close>

definition write_at :: "nat \<Rightarrow> 'a list \<Rightarrow> 'a list \<Rightarrow> 'a list" where
  "write_at off vs xs = take off xs @ take (length xs - off) vs @ drop (off + length vs) xs"

definition mem_Set :: "u64 \<Rightarrow> u64 \<Rightarrow> bytes \<Rightarrow> Memory \<Rightarrow> Memory option" where
  "mem_Set offset sz v m =
     (if sz > 0 then
        if unat (offset + sz) > length (mem_store m) then None
        else if offset + sz < offset then None
        else Some (m\<lparr>mem_store := write_at (unat offset) (take (unat sz) v) (mem_store m)\<rparr>)
      else Some m)"

definition mem_Set32 :: "u64 \<Rightarrow> u256 \<Rightarrow> Memory \<Rightarrow> Memory option" where
  "mem_Set32 offset val m =
     (if unat (offset + 32) > length (mem_store m) then None
      else if unat offset + 32 > length (mem_store m) then None
      else Some (m\<lparr>mem_store := write_at (unat offset) (be_bytes 32 val) (mem_store m)\<rparr>))"

definition mem_Resize :: "u64 \<Rightarrow> Memory \<Rightarrow> Memory" where
  "mem_Resize sz m =
     (if mem_Len m < unat sz
      then m\<lparr>mem_store := mem_store m @ replicate (unat sz - mem_Len m) 0\<rparr> else m)"

definition mem_GetCopy :: "u64 \<Rightarrow> u64 \<Rightarrow> Memory \<Rightarrow> bytes option" where
  "mem_GetCopy offset sz m = (if sz = 0 then Some [] else slice (mem_store m) offset (offset + sz))"

definition mem_GetPtr :: "u64 \<Rightarrow> u64 \<Rightarrow> Memory \<Rightarrow> bytes option" where
  "mem_GetPtr offset sz m = (if sz = 0 then Some [] else slice (mem_store m) offset (offset + sz))"

definition mem_Copy :: "u64 \<Rightarrow> u64 \<Rightarrow> u64 \<Rightarrow> Memory \<Rightarrow> Memory option" where
  "mem_Copy dst src len m =
     (if len = 0 then Some m
      else if unat dst > length (mem_store m) then None
      else map_option (\<lambda>vs. m\<lparr>mem_store := write_at (unat dst) vs (mem_store m)\<rparr>)
             (slice (mem_store m) src (src + len)))"

lemma slice_eq:
  "slice xs i j =
     (if unat i \<le> unat j \<and> unat j \<le> length xs then Some (take (unat j - unat i) (drop (unat i) xs)) else None)"
proof -
  have "uint j \<le> int (length xs) \<longleftrightarrow> unat j \<le> length xs" by (simp only: uint_nat of_nat_le_iff)
  then show ?thesis by (simp add: slice_def word_le_nat_alt)
qed

subsection \<open>Exactness of the size computations\<close>

lemma IsUint64_unat: "IsUint64 x \<longleftrightarrow> unat x < 2 ^ 64"
  by (auto simp: IsUint64_def word_le_nat_alt)

lemma unat_ucast_u256: "IsUint64 x \<Longrightarrow> unat (ucast x :: u64) = unat x"
  by (simp add: IsUint64_unat unsigned_ucast_eq take_bit_nat_eq_self)

lemma toWordSize_exact: "unat (toWordSize n) = (unat n + 31) div 32"
proof (cases "n > MaxUint64 - 31")
  case True
  then have "unat n > 2 ^ 64 - 32" by (simp add: word_less_nat_alt)
  moreover have "unat n < 2 ^ 64" by (rule u64_bound)
  ultimately have "(unat n + 31) div 32 = 2 ^ 59" by simp
  with True show ?thesis by (simp add: toWordSize_def)
next
  case False
  then have "unat n \<le> 2 ^ 64 - 32" by (simp add: word_less_nat_alt)
  then have "unat (n + 31) = unat n + 31" by (simp add: unat_word_ariths)
  with False show ?thesis by (simp add: toWordSize_def unat_div)
qed

lemma calcMemSize64WithUint_exact:
  "calcMemSize64WithUint off l = (n, ov) \<Longrightarrow>
     (ov \<longleftrightarrow> l \<noteq> 0 \<and> 2 ^ 64 \<le> unat off + unat l) \<and>
     (\<not> ov \<longrightarrow> unat n = (if l = 0 then 0 else unat off + unat l))"
proof -
  assume a: "calcMemSize64WithUint off l = (n, ov)"
  show ?thesis
  proof (cases "l = 0 \<or> \<not> IsUint64 off")
    case True
    with a show ?thesis
      by (auto simp: calcMemSize64WithUint_def Uint64WithOverflow_def IsUint64_unat split: if_splits)
  next
    case False
    define o64 :: u64 where "o64 = ucast off"
    have o64: "unat o64 = unat off" using False by (simp add: o64_def unat_ucast_u256)
    have eq: "n = o64 + l" "ov \<longleftrightarrow> o64 + l < o64"
      using a False by (auto simp: calcMemSize64WithUint_def Uint64WithOverflow_def o64_def Let_def)
    have w: "unat (o64 + l) = (if unat o64 + unat l < 2 ^ 64 then unat o64 + unat l else unat o64 + unat l - 2 ^ 64)"
      using u64_bound [of o64] u64_bound [of l] by (auto simp: unat_word_ariths mod_if)
    have "o64 + l < o64 \<longleftrightarrow> 2 ^ 64 \<le> unat o64 + unat l"
      using u64_bound [of l] w by (auto simp: word_less_nat_alt)
    with eq w False o64 show ?thesis by auto
  qed
qed

lemma calcMemSize64_exact:
  assumes "calcMemSize64 off l = (n, ov)"
  shows "ov \<longleftrightarrow> l \<noteq> 0 \<and> 2 ^ 64 \<le> unat off + unat l"
    and "\<not> ov \<Longrightarrow> unat n = (if l = 0 then 0 else unat off + unat l)"
proof -
  have "(ov \<longleftrightarrow> l \<noteq> 0 \<and> 2 ^ 64 \<le> unat off + unat l) \<and>
      (\<not> ov \<longrightarrow> unat n = (if l = 0 then 0 else unat off + unat l))"
  proof (cases "IsUint64 l")
    case True
    have z: "(ucast l :: u64) = 0 \<longleftrightarrow> l = 0" using unat_ucast_u256 [OF True] by (simp add: word_unat_eq_iff)
    from calcMemSize64WithUint_exact [of off "ucast l" n ov] assms True z unat_ucast_u256 [OF True]
    show ?thesis by (simp add: calcMemSize64_def)
  next
    case False
    with assms show ?thesis by (auto simp: calcMemSize64_def IsUint64_unat)
  qed
  then show "ov \<longleftrightarrow> l \<noteq> 0 \<and> 2 ^ 64 \<le> unat off + unat l"
    "\<not> ov \<Longrightarrow> unat n = (if l = 0 then 0 else unat off + unat l)" by blast+
qed

text \<open>Memory grown to the rounded size covers the region it was computed from.\<close>

lemma resized_covers:
  assumes "calcMemSize64 off l = (n, False)" "math_SafeMul (toWordSize n) 32 = (ms, False)" "l \<noteq> 0"
  shows "unat (ucast off :: u64) + unat (ucast l :: u64) \<le> mem_Len (mem_Resize ms m)"
    and "unat (ucast off :: u64) + unat (ucast l :: u64) < 2 ^ 64" and "(ucast l :: u64) \<noteq> 0"
    and "unat (ucast off :: u64) = unat off" "unat (ucast l :: u64) = unat l"
proof -
  note ex = calcMemSize64_exact [OF assms(1)]
  from ex(1) assms(3) have lt: "unat off + unat l < 2 ^ 64" by simp
  then have u: "IsUint64 off" "IsUint64 l" by (simp_all add: IsUint64_unat)
  show un: "unat (ucast off :: u64) = unat off" "unat (ucast l :: u64) = unat l"
    by (rule unat_ucast_u256, rule u)+
  show "unat (ucast off :: u64) + unat (ucast l :: u64) < 2 ^ 64" using lt un by simp
  show "(ucast l :: u64) \<noteq> 0" using assms(3) un(2) by (auto simp: word_unat_eq_iff)
  have "unat ms = unat (toWordSize n) * 32"
    using assms(2) by (auto simp: math_SafeMul_eq unat_mult_no_overflow not_le)
  then have "unat n \<le> unat ms" by (simp add: toWordSize_exact)
  moreover have "unat ms \<le> mem_Len (mem_Resize ms m)" by (simp add: mem_Resize_def mem_Len_def)
  ultimately show "unat (ucast off :: u64) + unat (ucast l :: u64) \<le> mem_Len (mem_Resize ms m)"
    using ex(2) assms(3) un by simp
qed

subsection \<open>Reading and writing memory\<close>

lemma length_write_at [simp]: "off \<le> length xs \<Longrightarrow> length (write_at off vs xs) = length xs"
  by (simp add: write_at_def)

lemma write_at_nth:
  "off \<le> length xs \<Longrightarrow> i < length xs \<Longrightarrow>
   write_at off vs xs ! i = (if off \<le> i \<and> i < off + length vs then vs ! (i - off) else xs ! i)"
  by (auto simp: write_at_def nth_append min_def)

lemma slice_write_at:
  "unat (i + n) = unat i + unat n \<Longrightarrow> unat i + unat n \<le> length xs \<Longrightarrow> length vs = unat n \<Longrightarrow>
   slice (write_at (unat i) vs xs) i (i + n) = Some vs"
  by (simp add: slice_eq write_at_def)

lemma mem_Set_eq:
  assumes "sz \<noteq> 0" "unat offset + unat sz \<le> mem_Len m" "unat offset + unat sz < 2 ^ 64"
  shows "mem_Set offset sz v m = Some (m\<lparr>mem_store := write_at (unat offset) (take (unat sz) v) (mem_store m)\<rparr>)"
proof -
  have "unat (offset + sz) = unat offset + unat sz" using assms(3) by (rule unat_add_no_overflow)
  moreover have "0 < sz" using assms(1) by (simp add: word_gt_0)
  ultimately show ?thesis using assms(2) by (simp add: mem_Set_def mem_Len_def word_less_nat_alt)
qed

lemma mem_GetCopy_Some:
  assumes "unat offset + unat sz \<le> mem_Len m" "unat offset + unat sz < 2 ^ 64"
  shows "mem_GetCopy offset sz m = Some (take (unat sz) (drop (unat offset) (mem_store m)))"
  using assms unat_add_no_overflow [OF assms(2)] by (auto simp: mem_GetCopy_def slice_eq mem_Len_def)

lemma Resize_keeps:
  "mem_Len m \<le> mem_Len (mem_Resize n m)" "take (mem_Len m) (mem_store (mem_Resize n m)) = mem_store m"
  by (simp_all add: mem_Resize_def mem_Len_def)

lemma Resize_zero: "mem_Len m \<le> i \<Longrightarrow> i < mem_Len (mem_Resize n m) \<Longrightarrow> mem_store (mem_Resize n m) ! i = 0"
  by (auto simp: mem_Resize_def mem_Len_def nth_append split: if_splits)

subsection \<open>Properties\<close>

text \<open>
  C23: the size computation of the memory operations is exact. It reports an overflow exactly
  when a non-empty region ends beyond 64 bits, and otherwise gives the end of the region, or
  zero for an empty one, whatever the offset; rounding up to words loses nothing.
\<close>

theorem calcMemSize64_correct:
  "(snd (calcMemSize64 off l) \<longleftrightarrow> l \<noteq> 0 \<and> 2 ^ 64 \<le> unat off + unat l) \<and>
   (snd (calcMemSize64 off l) \<or> unat (fst (calcMemSize64 off l)) = (if l = 0 then 0 else unat off + unat l)) \<and>
   unat (toWordSize n) = (unat n + 31) div 32"
proof -
  obtain k ov where "calcMemSize64 off l = (k, ov)" by (cases "calcMemSize64 off l")
  from calcMemSize64_exact [OF this] this show ?thesis using toWordSize_exact [of n] by auto
qed

text \<open>
  C24: once the memory has been expanded to the size computed for a region, reading and
  writing that region cannot panic, a read returns what was written, bytes outside the region
  keep their values, and the expansion kept the old contents and added zeroes.
\<close>

theorem expanded_memory_safe:
  assumes "calcMemSize64 off l = (n, False)" "math_SafeMul (toWordSize n) 32 = (ms, False)" "length v = unat l"
  shows "let m1 = mem_Resize ms m in
    take (mem_Len m) (mem_store m1) = mem_store m \<and> (\<forall>i. mem_Len m \<le> i \<longrightarrow> i < mem_Len m1 \<longrightarrow> mem_store m1 ! i = 0) \<and>
    (\<exists>m2. mem_Set (ucast off) (ucast l) v m1 = Some m2 \<and> mem_GetCopy (ucast off) (ucast l) m2 = Some v \<and>
       mem_Len m2 = mem_Len m1 \<and>
       (\<forall>i. i < mem_Len m1 \<longrightarrow> i < unat off \<or> unat off + unat l \<le> i \<longrightarrow> mem_store m2 ! i = mem_store m1 ! i))"
proof -
  let ?m1 = "mem_Resize ms m"
  have "\<exists>m2. mem_Set (ucast off) (ucast l) v ?m1 = Some m2 \<and> mem_GetCopy (ucast off) (ucast l) m2 = Some v \<and>
       mem_Len m2 = mem_Len ?m1 \<and>
       (\<forall>i. i < mem_Len ?m1 \<longrightarrow> i < unat off \<or> unat off + unat l \<le> i \<longrightarrow> mem_store m2 ! i = mem_store ?m1 ! i)"
  proof (cases "l = 0")
    case True
    with assms(3) show ?thesis by (simp add: mem_Set_def mem_GetCopy_def)
  next
    case False
    note c = resized_covers [OF assms(1,2) False]
    let ?m2 = "?m1\<lparr>mem_store := write_at (unat off) v (mem_store ?m1)\<rparr>"
    have off: "unat off \<le> length (mem_store ?m1)" using c(1) [of m] c(4) by (simp add: mem_Len_def)
    have "mem_Set (ucast off) (ucast l) v ?m1 = Some ?m2"
      using mem_Set_eq [OF c(3) c(1) [of m] c(2), where v = v] c(4,5) assms(3) by simp
    moreover have "mem_GetCopy (ucast off) (ucast l) ?m2 = Some v"
      using slice_write_at [OF unat_add_no_overflow [OF c(2)], of "mem_store ?m1" v] c(1) [of m] c(3-5) assms(3)
      by (simp add: mem_GetCopy_def mem_Len_def)
    moreover have "mem_Len ?m2 = mem_Len ?m1" using off by (simp add: mem_Len_def)
    moreover have "mem_store ?m2 ! i = mem_store ?m1 ! i"
      if "i < mem_Len ?m1" "i < unat off \<or> unat off + unat l \<le> i" for i
      using that off assms(3) by (auto simp: mem_Len_def write_at_nth)
    ultimately show ?thesis by blast
  qed
  moreover have "\<forall>i. mem_Len m \<le> i \<longrightarrow> i < mem_Len ?m1 \<longrightarrow> mem_store ?m1 ! i = 0"
    using Resize_zero [of m _ ms] by blast
  ultimately show ?thesis using Resize_keeps(2) [of m ms] unfolding Let_def by (intro conjI)
qed

theorem expanded_memory_safe_witness:
  "\<exists>m2. mem_Set 3 2 [7, 8] (mem_Resize 32 NewMemory) = Some m2 \<and> mem_GetCopy 3 2 m2 = Some [7, 8]"
proof -
  have "calcMemSize64 3 2 = (5, False)" by code_simp
  moreover have "math_SafeMul (toWordSize 5) 32 = (32, False)" by (simp add: math_SafeMul_eq toWordSize_def)
  moreover have "length [7, 8] = unat (2 :: u256)" by simp
  ultimately show ?thesis using expanded_memory_safe [of 3 2 5 32 "[7, 8]" NewMemory] by (auto simp: Let_def)
qed

text \<open>
  C25: \<^verbatim>\<open>MSTORE\<close> then \<^verbatim>\<open>MLOAD\<close>: \<^verbatim>\<open>Set32\<close> panics exactly when its 32 bytes do not lie inside the memory.
  Otherwise both readers give back the word, big-endian, the size of the memory and its recorded
  gas cost stay the same, and no byte outside the 32 changes.
\<close>

theorem Set32_readback:
  assumes "mem_Len m < 2 ^ 64"
  shows "case mem_Set32 offset val m of
      None \<Rightarrow> mem_Len m < unat offset + 32
    | Some m' \<Rightarrow> unat offset + 32 \<le> mem_Len m \<and>
        map_option be_word (mem_GetPtr offset 32 m') = Some val \<and> map_option be_word (mem_GetCopy offset 32 m') = Some val \<and>
        mem_Len m' = mem_Len m \<and> lastGasCost m' = lastGasCost m \<and>
        (\<forall>i. i < mem_Len m \<longrightarrow> i < unat offset \<or> unat offset + 32 \<le> i \<longrightarrow> mem_store m' ! i = mem_store m ! i)"
proof (cases "unat offset + 32 \<le> mem_Len m")
  case True
  then have a: "unat (offset + 32) = unat offset + 32"
    using unat_add_no_overflow [of offset 32] assms by simp
  let ?m = "m\<lparr>mem_store := write_at (unat offset) (be_bytes 32 val) (mem_store m)\<rparr>"
  have "mem_Set32 offset val m = Some ?m" using a True by (simp add: mem_Set32_def mem_Len_def)
  moreover have "mem_GetPtr offset 32 ?m = Some (be_bytes 32 val)" "mem_GetCopy offset 32 ?m = Some (be_bytes 32 val)"
    using slice_write_at [of offset 32 "mem_store m" "be_bytes 32 val"] a True
    by (simp_all add: mem_GetPtr_def mem_GetCopy_def mem_Len_def)
  moreover have "be_word (be_bytes 32 val) = val" by (rule be_word_be_bytes) simp
  ultimately show ?thesis
    using True by (auto simp: mem_Len_def write_at_nth)
next
  case False
  then show ?thesis by (simp add: mem_Set32_def mem_Len_def)
qed

theorem Set32_readback_witness:
  "\<exists>m'. mem_Set32 4 99 (mem_Resize 64 NewMemory) = Some m' \<and> map_option be_word (mem_GetPtr 4 32 m') = Some (99 :: u256) \<and>
    mem_store m' ! 40 = 0"
proof -
  let ?m = "mem_Resize 64 NewMemory"
  have m: "mem_Len ?m = 64" "mem_store ?m ! 40 = 0" by code_simp+
  then obtain m' where "mem_Set32 4 99 ?m = Some m'" using Set32_readback [of ?m 4 99] by (cases "mem_Set32 4 99 ?m") auto
  with m Set32_readback [of ?m 4 99] show ?thesis by simp
qed

lemma sint_small: "unat (n :: u64) < 2 ^ 63 \<Longrightarrow> nat (sint n) = unat n"
proof -
  assume "unat n < 2 ^ 63"
  then have "uint n < 2 ^ 63" by (simp only: uint_nat flip: of_nat_less_iff [where 'a = int]) simp
  moreover have "- (2 ^ 63) \<le> uint n" by (rule order_trans [OF _ uint_ge_0]) simp
  ultimately have "sint n = uint n" by (simp add: sint_uint signed_take_bit_int_eq_self)
  then show ?thesis by simp
qed

text \<open>
  C26: \<^verbatim>\<open>getData\<close> returns exactly the requested number of bytes, those of the data and zeroes
  beyond its end, for every start position and every size below \<open>2 ^ 63\<close>.
\<close>

theorem getData_pads:
  assumes "length data < 2 ^ 63" "unat n < 2 ^ 63"
  shows "\<exists>r. getData data start n = Some r \<and> length r = unat n \<and>
    (\<forall>i. i < unat n \<longrightarrow> r ! i = (if unat start + i < length data then data ! (unat start + i) else 0))"
proof -
  let ?len = "word_of_nat (length data) :: u64"
  define st where "st = (if start > ?len then ?len else start)"
  define en where "en = (if st + n > ?len then ?len else st + n)"
  have len: "unat ?len = length data" using assms(1) by (simp add: unat_of_nat)
  have st: "unat st = min (unat start) (length data)" using len by (simp add: st_def word_less_nat_alt)
  have "unat (st + n) = unat st + unat n" using st assms by (intro unat_add_no_overflow) simp
  then have en: "unat en = min (unat st + unat n) (length data)" using len by (simp add: en_def word_less_nat_alt)
  let ?d = "take (unat en - unat st) (drop (unat st) data)"
  have "getData data start n = Some (RightPadBytes ?d (unat n))"
  proof -
    have "getData data start n = map_option (\<lambda>d. RightPadBytes d (nat (sint n))) (slice data st en)"
      by (simp only: getData_def Let_def st_def en_def)
    then show ?thesis using en st sint_small [OF assms(2)] by (simp add: slice_eq)
  qed
  moreover have "length ?d \<le> unat n" using en st by simp
  ultimately show ?thesis
    using en st by (auto simp: RightPadBytes_def nth_append min_def)
qed

theorem getData_pads_witness: "getData [1, 2, 3] 1 4 = Some [2, 3, 0, 0]"
proof -
  obtain r where r: "getData [1, 2, 3] 1 4 = Some r" "length r = 4"
    "\<forall>i < 4. r ! i = (if 1 + i < 3 then [1, 2, 3] ! (1 + i) else 0)"
    using getData_pads [of "[1, 2, 3]" 4 1] by auto
  then have "r = [2, 3, 0, 0]" by (auto simp: list_eq_iff_nth_eq less_Suc_eq numeral_eq_Suc)
  with r(1) show ?thesis by simp
qed

text \<open>
  The comment on \<^verbatim>\<open>getData\<close> calls it overflow safe. The sum of start and size wraps, though, and
  a size close to \<open>2 ^ 64\<close> then makes the slice expression panic.
\<close>

theorem getData_overflow_panics: "getData [1, 2] 1 MaxUint64 = None"
  by code_simp

definition swapped :: "nat \<Rightarrow> nat \<Rightarrow> 'a list \<Rightarrow> 'a list" where
  "swapped a b xs = xs[a := xs ! b, b := xs ! a]"

lemma length_swapped [simp]: "length (swapped a b xs) = length xs"
  by (simp add: swapped_def)

lemma swapped_nth:
  "a < length xs \<Longrightarrow> b < length xs \<Longrightarrow> i < length xs \<Longrightarrow>
   swapped a b xs ! i = xs ! (if i = b then a else if i = a then b else i)"
  by (simp add: swapped_def nth_list_update)

lemma swapped_swapped: "a < length xs \<Longrightarrow> b < length xs \<Longrightarrow> swapped a b (swapped a b xs) = xs"
  by (rule nth_equalityI) (simp_all add: swapped_nth)

lemma st_swap_eq:
  "st_swap n st =
     (if st_len st < n + 1 then None
      else Some (st\<lparr>st_data := swapped (st_len st - (n + 1)) (st_len st - 1) (st_data st)\<rparr>))"
  by (simp add: st_swap_def Let_def swapped_def)

lemma st_swap_spec:
  assumes "st_swap n st = Some st'"
  shows "st_len st' = st_len st" "st_Back i st' = st_Back (if i = 0 then n else if i = n then 0 else i) st"
    "st_swap n st' = Some st"
proof -
  define a b where "a = st_len st - (n + 1)" and "b = st_len st - 1"
  from assms have l: "n < st_len st" and st': "st' = st\<lparr>st_data := swapped a b (st_data st)\<rparr>"
    by (simp_all add: st_swap_eq a_def b_def split: if_splits)
  have ab: "a < length (st_data st)" "b < length (st_data st)"
    using l by (simp_all add: a_def b_def st_len_def)
  show len: "st_len st' = st_len st" by (simp add: st' st_len_def)
  show "st_swap n st' = Some st"
    using l len swapped_swapped [OF ab] by (simp add: st_swap_eq) (simp add: st' a_def b_def)
  show "st_Back i st' = st_Back (if i = 0 then n else if i = n then 0 else i) st"
  proof (cases "i < st_len st")
    case True
    then have "swapped a b (st_data st) ! (st_len st - i - 1) =
        st_data st ! (if st_len st - i - 1 = b then a else if st_len st - i - 1 = a then b else st_len st - i - 1)"
      by (intro swapped_nth ab) (simp add: st_len_def)
    moreover have "(if st_len st - i - 1 = b then a else if st_len st - i - 1 = a then b else st_len st - i - 1) =
        st_len st - (if i = 0 then n else if i = n then 0 else i) - 1"
      using True l by (auto simp: a_def b_def)
    ultimately show ?thesis using True l len by (auto simp: st_Back_def st')
  next
    case False
    then show ?thesis using l len by (auto simp: st_Back_def)
  qed
qed

lemma st_dup_spec:
  assumes "st_dup n st = Some st'"
  shows "st_Back 0 st' = st_Back (n - 1) st" "st_Back (Suc i) st' = st_Back i st"
  using assms by (auto simp: st_dup_def st_push_def st_Back_def st_len_def nth_append split: if_splits)

lemma st_Back_rev: "st_Back n st = (if n < st_len st then Some (rev (st_data st) ! n) else None)"
  by (simp add: st_Back_def st_len_def rev_nth)

lemma st_pop_spec:
  "case st_pop st of None \<Rightarrow> st_len st = 0 | Some (x, st') \<Rightarrow> st_len st = Suc (st_len st') \<and> st_push x st' = st"
  by (cases "st_data st" rule: rev_cases) (simp_all add: st_pop_def st_len_def st_push_def)

text \<open>
  C27: the stack operations do what their names say on a stack that holds the number of items
  the jump table requires, and panic exactly on a shorter one. A swap exchanges the top with the
  item it names, leaves the others alone and undoes itself; a duplication pushes the named item; a
  push puts a new top on the others; a pop takes the top off, so that pushing it again gives the
  stack back; \<^verbatim>\<open>Back\<close> reads the item with the given number of items above it, and \<^verbatim>\<open>peek\<close> the top.
\<close>

theorem stack_ops_correct:
  "(case st_swap n st of
      None \<Rightarrow> int (st_len st) < minSwapStack (int n + 1)
    | Some st' \<Rightarrow> int (st_len st) \<ge> minSwapStack (int n + 1) \<and> st_len st' = st_len st \<and>
        (\<forall>i. st_Back i st' = st_Back (if i = 0 then n else if i = n then 0 else i) st) \<and> st_swap n st' = Some st) \<and>
   (case st_dup (Suc n) st of
      None \<Rightarrow> int (st_len st) < minDupStack (int n + 1)
    | Some st' \<Rightarrow> int (st_len st) \<ge> minDupStack (int n + 1) \<and> st_len st' = Suc (st_len st) \<and>
        (\<forall>i. st_Back i st' = (case i of 0 \<Rightarrow> st_Back n st | Suc j \<Rightarrow> st_Back j st))) \<and>
   (case st_pop st of
      None \<Rightarrow> st_len st = 0
    | Some (x, st') \<Rightarrow> st_len st = Suc (st_len st') \<and> st_push x st' = st) \<and>
   st_pop (st_push d st) = Some (d, st) \<and> st_data (st_push d st) = st_data st @ [d] \<and>
   st_Back n st = (if n < st_len st then Some (rev (st_data st) ! n) else None) \<and>
   st_peek st = (if st_len st = 0 then None else Some (last (st_data st)))"
proof (intro conjI st_pop_spec st_Back_rev)
  show "case st_swap n st of
      None \<Rightarrow> int (st_len st) < minSwapStack (int n + 1)
    | Some st' \<Rightarrow> int (st_len st) \<ge> minSwapStack (int n + 1) \<and> st_len st' = st_len st \<and>
        (\<forall>i. st_Back i st' = st_Back (if i = 0 then n else if i = n then 0 else i) st) \<and> st_swap n st' = Some st"
  proof (cases "st_swap n st")
    case None
    then show ?thesis by (simp add: st_swap_eq minSwapStack_def minStack_def split: if_split_asm)
  next
    case (Some st')
    then have "n < st_len st" by (simp add: st_swap_eq split: if_split_asm)
    with Some st_swap_spec [OF Some] show ?thesis by (simp add: minSwapStack_def minStack_def)
  qed
  show "case st_dup (Suc n) st of
      None \<Rightarrow> int (st_len st) < minDupStack (int n + 1)
    | Some st' \<Rightarrow> int (st_len st) \<ge> minDupStack (int n + 1) \<and> st_len st' = Suc (st_len st) \<and>
        (\<forall>i. st_Back i st' = (case i of 0 \<Rightarrow> st_Back n st | Suc j \<Rightarrow> st_Back j st))"
  proof (cases "st_dup (Suc n) st")
    case None
    then show ?thesis by (simp add: st_dup_def minDupStack_def minStack_def split: if_split_asm)
  next
    case (Some st')
    then have "n < st_len st" by (simp add: st_dup_def split: if_split_asm)
    moreover have "st_len st' = Suc (st_len st)"
      using Some by (auto simp: st_dup_def st_push_def st_len_def split: if_split_asm)
    ultimately show ?thesis using Some st_dup_spec [OF Some] by (simp add: minDupStack_def minStack_def split: nat.split)
  qed
  show "st_pop (st_push d st) = Some (d, st)" by (simp add: st_pop_def st_push_def)
  show "st_data (st_push d st) = st_data st @ [d]" by (simp add: st_push_def)
  show "st_peek st = (if st_len st = 0 then None else Some (last (st_data st)))"
    by (simp add: st_peek_def st_len_def last_conv_nth)
qed

end
