(* ===== verification/VMAnalysis.thy ===== *)
theory VMAnalysis
imports VMBase
begin

text \<open>
  The jump destination analysis of \<^verbatim>\<open>core/vm/analysis_legacy.go\<close>: a bit vector over the code that
  marks the bytes that are data of a push instruction. It is computed eight and sixteen bits
  at a time; the reference it is compared with is the set of positions that are reached when
  the code is read instruction by instruction from its start.

  Positions are natural numbers: the length of a slice is below \<open>2 ^ 63\<close>, so the 64-bit program
  counter of the analysis, which exceeds it by at most 32, never wraps.
\<close>

type_synonym BitVec = "u8 list"

definition PUSH1 :: u8 where "PUSH1 = 0x60"
definition JUMPDEST :: u8 where "JUMPDEST = 0x5b"

definition set2BitsMask :: u16 where "set2BitsMask = 0b11"
definition set3BitsMask :: u16 where "set3BitsMask = 0b111"
definition set4BitsMask :: u16 where "set4BitsMask = 0b1111"
definition set5BitsMask :: u16 where "set5BitsMask = 0b11111"
definition set6BitsMask :: u16 where "set6BitsMask = 0b111111"
definition set7BitsMask :: u16 where "set7BitsMask = 0b1111111"

subsection \<open>Setting bits\<close>

text \<open>Indexing out of range panics.\<close>

definition bv_or :: "BitVec \<Rightarrow> nat \<Rightarrow> u8 \<Rightarrow> BitVec option" where
  "bv_or bits i a = (if i < length bits then Some (bits[i := bits ! i OR a]) else None)"

definition bv_put :: "BitVec \<Rightarrow> nat \<Rightarrow> u8 \<Rightarrow> BitVec option" where
  "bv_put bits i a = (if i < length bits then Some (bits[i := a]) else None)"

definition set1 :: "BitVec \<Rightarrow> nat \<Rightarrow> BitVec option" where
  "set1 bits pos = bv_or bits (pos div 8) (push_bit (pos mod 8) 1)"

definition setN :: "BitVec \<Rightarrow> u16 \<Rightarrow> nat \<Rightarrow> BitVec option" where
  "setN bits flag pos =
     (let a = push_bit (pos mod 8) flag; b = ucast (drop_bit 8 a)
      in do {
        bits \<leftarrow> bv_or bits (pos div 8) (ucast a);
        if b \<noteq> 0 then bv_put bits (pos div 8 + 1) b else Some bits
      })"

definition set8 :: "BitVec \<Rightarrow> nat \<Rightarrow> BitVec option" where
  "set8 bits pos =
     (let a = push_bit (pos mod 8) 0xFF
      in do {
        bits \<leftarrow> bv_or bits (pos div 8) a;
        bv_put bits (pos div 8 + 1) (NOT a)
      })"

definition set16 :: "BitVec \<Rightarrow> nat \<Rightarrow> BitVec option" where
  "set16 bits pos =
     (let a = push_bit (pos mod 8) 0xFF
      in do {
        bits \<leftarrow> bv_or bits (pos div 8) a;
        bits \<leftarrow> bv_put bits (pos div 8 + 1) 0xFF;
        bv_put bits (pos div 8 + 2) (NOT a)
      })"

definition codeSegment :: "BitVec \<Rightarrow> nat \<Rightarrow> bool option" where
  "codeSegment bits pos =
     (if pos div 8 < length bits then Some (drop_bit (pos mod 8) (bits ! (pos div 8)) AND 1 = 0) else None)"

subsection \<open>The analysis\<close>

function set16_loop :: "u8 \<Rightarrow> nat \<Rightarrow> BitVec \<Rightarrow> (u8 \<times> nat \<times> BitVec) option" where
  "set16_loop numbits pc bits =
     (if numbits \<ge> 16 then do { bits \<leftarrow> set16 bits pc; set16_loop (numbits - 16) (pc + 16) bits }
      else Some (numbits, pc, bits))"
  by pat_completeness auto
termination
  by (relation "measure (\<lambda>(numbits, _, _). unat numbits)") (auto simp: unat_sub word_le_nat_alt)

function set8_loop :: "u8 \<Rightarrow> nat \<Rightarrow> BitVec \<Rightarrow> (u8 \<times> nat \<times> BitVec) option" where
  "set8_loop numbits pc bits =
     (if numbits \<ge> 8 then do { bits \<leftarrow> set8 bits pc; set8_loop (numbits - 8) (pc + 8) bits }
      else Some (numbits, pc, bits))"
  by pat_completeness auto
termination
  by (relation "measure (\<lambda>(numbits, _, _). unat numbits)") (auto simp: unat_sub word_le_nat_alt)

declare set16_loop.simps [simp del] set8_loop.simps [simp del]

definition set_rest :: "u8 \<Rightarrow> nat \<Rightarrow> BitVec \<Rightarrow> (nat \<times> BitVec) option" where
  "set_rest numbits pc bits =
     (if numbits = 1 then map_option (\<lambda>b. (pc + 1, b)) (set1 bits pc)
      else if numbits = 2 then map_option (\<lambda>b. (pc + 2, b)) (setN bits set2BitsMask pc)
      else if numbits = 3 then map_option (\<lambda>b. (pc + 3, b)) (setN bits set3BitsMask pc)
      else if numbits = 4 then map_option (\<lambda>b. (pc + 4, b)) (setN bits set4BitsMask pc)
      else if numbits = 5 then map_option (\<lambda>b. (pc + 5, b)) (setN bits set5BitsMask pc)
      else if numbits = 6 then map_option (\<lambda>b. (pc + 6, b)) (setN bits set6BitsMask pc)
      else if numbits = 7 then map_option (\<lambda>b. (pc + 7, b)) (setN bits set7BitsMask pc)
      else Some (pc, bits))"

definition mark_push :: "u8 \<Rightarrow> nat \<Rightarrow> BitVec \<Rightarrow> (nat \<times> BitVec) option" where
  "mark_push numbits pc bits = do {
     (numbits, pc, bits) \<leftarrow>
       (if numbits \<ge> 8 then do {
          (numbits, pc, bits) \<leftarrow> set16_loop numbits pc bits;
          set8_loop numbits pc bits
        }
        else Some (numbits, pc, bits));
     set_rest numbits pc bits
   }"

lemma set16_loop_pc: "set16_loop n pc bits = Some (n', pc', bits') \<Longrightarrow> pc \<le> pc'"
proof (induction n pc bits rule: set16_loop.induct)
  case (1 n pc bits)
  from "1.prems" "1.IH" show ?case
    by (subst (asm) set16_loop.simps) (fastforce split: if_splits bind_splits)
qed

lemma set8_loop_pc: "set8_loop n pc bits = Some (n', pc', bits') \<Longrightarrow> pc \<le> pc'"
proof (induction n pc bits rule: set8_loop.induct)
  case (1 n pc bits)
  from "1.prems" "1.IH" show ?case
    by (subst (asm) set8_loop.simps) (fastforce split: if_splits bind_splits)
qed

lemma mark_push_pc: "mark_push n pc bits = Some (pc', bits') \<Longrightarrow> pc \<le> pc'"
  unfolding mark_push_def set_rest_def
  by (fastforce split: if_splits bind_splits dest: set16_loop_pc set8_loop_pc)

text \<open>\<^verbatim>\<open>int8(op) < int8(PUSH1)\<close> holds of every opcode that is not a push with data.\<close>

function codeBitmap_loop :: "bytes \<Rightarrow> nat \<Rightarrow> BitVec \<Rightarrow> BitVec option" where
  "codeBitmap_loop code pc bits =
     (if pc < length code then
        let op = code ! pc; pc = pc + 1
        in if sint op < sint PUSH1 then codeBitmap_loop code pc bits
           else case mark_push (op - PUSH1 + 1) pc bits of
             None \<Rightarrow> None
           | Some (pc', bits') \<Rightarrow> codeBitmap_loop code pc' bits'
      else Some bits)"
  by pat_completeness auto
termination
  by (relation "measure (\<lambda>(code, pc, _). length code - pc)") (auto dest!: mark_push_pc)

declare codeBitmap_loop.simps [simp del]

definition codeBitmapInternal :: "bytes \<Rightarrow> BitVec \<Rightarrow> BitVec option" where
  "codeBitmapInternal code bits = codeBitmap_loop code 0 bits"

definition codeBitmap :: "bytes \<Rightarrow> BitVec option" where
  "codeBitmap code = codeBitmapInternal code (replicate (length code div 8 + 1 + 4) 0)"

subsection \<open>Bits of the vector\<close>

text \<open>
  \<open>marked p n bits bits'\<close>: exactly the bits of the positions \<open>p\<close> to \<open>p + n - 1\<close> have been added;
  \<open>clean_from p bits\<close>: no position from \<open>p\<close> on is marked.
\<close>

definition marked :: "nat \<Rightarrow> nat \<Rightarrow> BitVec \<Rightarrow> BitVec \<Rightarrow> bool" where
  "marked p n bits bits' \<longleftrightarrow> length bits' = length bits \<and>
     (\<forall>q<length bits. \<forall>m<8. bit (bits' ! q) m \<longleftrightarrow> bit (bits ! q) m \<or> (p \<le> 8 * q + m \<and> 8 * q + m < p + n))"

definition clean_from :: "nat \<Rightarrow> BitVec \<Rightarrow> bool" where
  "clean_from p bits \<longleftrightarrow> (\<forall>q<length bits. \<forall>m<8. p \<le> 8 * q + m \<longrightarrow> \<not> bit (bits ! q) m)"

lemma marked_0 [simp]: "marked p 0 bits bits"
  by (auto simp: marked_def)

lemma marked_trans: "marked p n a b \<Longrightarrow> marked (p + n) m b c \<Longrightarrow> marked p (n + m) a c"
  unfolding marked_def by (auto simp: add.assoc)

lemma marked_clean: "marked p n a b \<Longrightarrow> clean_from p a \<Longrightarrow> clean_from (p + n) b"
  unfolding marked_def clean_from_def by auto

lemma marked_length: "marked p n a b \<Longrightarrow> length b = length a"
  by (simp add: marked_def)

lemma codeSegment_bit:
  "pos div 8 < length bits \<Longrightarrow> codeSegment bits pos = Some (\<not> bit (bits ! (pos div 8)) (pos mod 8))"
  by (simp add: codeSegment_def and_one_eq bit_iff_odd_drop_bit even_iff_mod_2_eq_zero)

lemma bv_or_Some [simp]: "i < length bits \<Longrightarrow> bv_or bits i a = Some (bits[i := bits ! i OR a])"
  by (simp add: bv_or_def)

lemma bv_put_Some [simp]: "i < length bits \<Longrightarrow> bv_put bits i a = Some (bits[i := a])"
  by (simp add: bv_put_def)

lemma bit_FF: "bit (push_bit r (0xFF :: u8)) m \<longleftrightarrow> r \<le> m \<and> m < 8"
proof -
  have *: "(0xFF :: u8) = mask 8" by (simp add: mask_eq_exp_minus_1)
  show ?thesis unfolding * by (auto simp: bit_push_bit_iff bit_mask_iff simp del: mask_numeral)
qed

text \<open>Up to sixteen bits from \<open>8 * p + r\<close> on lie in the three bytes from \<open>p\<close> on.\<close>

lemma markedI:
  assumes "length bits' = length bits" "pos = 8 * p + r" "r < 8" "n \<le> 16"
    and same: "\<And>q. q < length bits \<Longrightarrow> q \<noteq> p \<Longrightarrow> q \<noteq> p + 1 \<Longrightarrow> q \<noteq> p + 2 \<Longrightarrow> bits' ! q = bits ! q"
    and b0: "\<And>m. p < length bits \<Longrightarrow> m < 8 \<Longrightarrow> bit (bits' ! p) m \<longleftrightarrow> bit (bits ! p) m \<or> (r \<le> m \<and> m < r + n)"
    and b1: "\<And>m. p + 1 < length bits \<Longrightarrow> m < 8 \<Longrightarrow> bit (bits' ! (p + 1)) m \<longleftrightarrow> bit (bits ! (p + 1)) m \<or> m + 8 < r + n"
    and b2: "\<And>m. p + 2 < length bits \<Longrightarrow> m < 8 \<Longrightarrow> bit (bits' ! (p + 2)) m \<longleftrightarrow> bit (bits ! (p + 2)) m \<or> m + 16 < r + n"
  shows "marked pos n bits bits'"
  unfolding marked_def
proof (intro conjI allI impI)
  fix q m :: nat
  assume q: "q < length bits" and m: "m < 8"
  consider "q = p" | "q = p + 1" | "q = p + 2" | "q < p \<or> p + 2 < q" by linarith
  then show "bit (bits' ! q) m \<longleftrightarrow> bit (bits ! q) m \<or> (pos \<le> 8 * q + m \<and> 8 * q + m < pos + n)"
  proof cases
    case 1
    then show ?thesis using b0 q m assms(2) by auto
  next
    case 2
    then show ?thesis using b1 q m assms(2,3) by auto
  next
    case 3
    then show ?thesis using b2 q m assms(2,3) by auto
  next
    case 4
    then have "\<not> (pos \<le> 8 * q + m \<and> 8 * q + m < pos + n)" using assms(2-4) m by auto
    with 4 q same show ?thesis by auto
  qed
qed (rule assms(1))

lemma clean_fromD:
  "clean_from (8 * p + r) bits \<Longrightarrow> q < length bits \<Longrightarrow> m < 8 \<Longrightarrow> 8 * p + r \<le> 8 * q + m \<Longrightarrow> \<not> bit (bits ! q) m"
  by (simp add: clean_from_def)

lemma pos_split: obtains p r :: nat where "pos = 8 * p + r" "r < 8" "pos div 8 = p" "pos mod 8 = r"
  by (rule that [of "pos div 8" "pos mod 8"]) simp_all

lemma set1_marked:
  assumes "pos div 8 < length bits"
  shows "\<exists>bits'. set1 bits pos = Some bits' \<and> marked pos 1 bits bits'"
proof (rule pos_split [of pos])
  fix p r assume pos: "pos = 8 * p + r" "r < 8" "pos div 8 = p" "pos mod 8 = r"
  have "set1 bits pos = Some (bits[p := bits ! p OR push_bit r 1])"
    using assms pos(3,4) by (simp add: set1_def)
  moreover have "marked pos 1 bits (bits[p := bits ! p OR push_bit r 1])"
    by (rule markedI [OF _ pos(1,2)]) (use pos(2) in \<open>auto simp: bit_or_iff bit_exp_iff\<close>)
  ultimately show ?thesis by blast
qed

lemma set8_marked:
  assumes "clean_from pos bits" "(pos + 8) div 8 < length bits"
  shows "\<exists>bits'. set8 bits pos = Some bits' \<and> marked pos 8 bits bits'"
proof (rule pos_split [of pos])
  fix p r assume pos: "pos = 8 * p + r" "r < 8" "pos div 8 = p" "pos mod 8 = r"
  have len: "p + 1 < length bits" using assms(2) pos(3) by simp
  note clean = clean_fromD [OF assms(1) [unfolded pos(1)]]
  let ?b = "bits[p := bits ! p OR push_bit r 0xFF, p + 1 := NOT (push_bit r 0xFF)]"
  have "set8 bits pos = Some ?b" using len pos(3,4) by (simp add: set8_def Let_def)
  moreover have "marked pos 8 bits ?b"
  proof (rule markedI [OF _ pos(1,2)])
    fix m :: nat assume "p + 1 < length bits" "m < 8"
    then show "bit (?b ! (p + 1)) m \<longleftrightarrow> bit (bits ! (p + 1)) m \<or> m + 8 < r + 8"
      using clean [of "p + 1" m] pos(2) by (auto simp: bit_not_iff bit_FF)
  qed (use len pos(2) in \<open>auto simp: bit_or_iff bit_FF\<close>)
  ultimately show ?thesis by blast
qed

lemma set16_marked:
  assumes "clean_from pos bits" "(pos + 16) div 8 < length bits"
  shows "\<exists>bits'. set16 bits pos = Some bits' \<and> marked pos 16 bits bits'"
proof (rule pos_split [of pos])
  fix p r assume pos: "pos = 8 * p + r" "r < 8" "pos div 8 = p" "pos mod 8 = r"
  have len: "p + 2 < length bits" using assms(2) pos(3) by simp
  note clean = clean_fromD [OF assms(1) [unfolded pos(1)]]
  let ?b = "bits[p := bits ! p OR push_bit r 0xFF, p + 1 := 0xFF, p + 2 := NOT (push_bit r 0xFF)]"
  have "set16 bits pos = Some ?b" using len pos(3,4) by (simp add: set16_def Let_def)
  moreover have "marked pos 16 bits ?b"
  proof (rule markedI [OF _ pos(1,2)])
    fix m :: nat assume m: "m < 8"
    show "bit (?b ! (p + 1)) m \<longleftrightarrow> bit (bits ! (p + 1)) m \<or> m + 8 < r + 16"
      using m len bit_FF [of 0 m] by simp
    show "bit (?b ! (p + 2)) m \<longleftrightarrow> bit (bits ! (p + 2)) m \<or> m + 16 < r + 16" if "p + 2 < length bits"
      using clean [of "p + 2" m] pos(2) len m by (auto simp: bit_not_iff bit_FF)
  qed (use len pos(2) in \<open>auto simp: bit_or_iff bit_FF\<close>)
  ultimately show ?thesis by blast
qed

lemma setN_marked:
  assumes "clean_from pos bits" "(pos + n - 1) div 8 < length bits" "0 < n" "n \<le> 7"
  shows "\<exists>bits'. setN bits (mask n) pos = Some bits' \<and> marked pos n bits bits'"
proof (rule pos_split [of pos])
  fix p r assume pos: "pos = 8 * p + r" "r < 8" "pos div 8 = p" "pos mod 8 = r"
  note clean = clean_fromD [OF assms(1) [unfolded pos(1)]]
  define a :: u16 where "a = push_bit r (mask n)"
  have bit_a: "bit a j \<longleftrightarrow> r \<le> j \<and> j < r + n" for j
    using pos(2) assms(4) by (auto simp: a_def bit_push_bit_iff bit_mask_iff)
  define b :: u8 where "b = ucast (drop_bit 8 a)"
  have bit_b: "bit b j \<longleftrightarrow> j + 8 < r + n" if "j < 8" for j
    using that pos(2) by (auto simp: b_def bit_ucast_iff bit_drop_bit_eq bit_a add.commute)
  have b0: "b = 0 \<longleftrightarrow> r + n \<le> 8"
  proof
    assume "b = 0" with bit_b [of 0] show "r + n \<le> 8" by simp
  next
    assume "r + n \<le> 8"
    then have "\<not> bit b j" for j using bit_b [of j] bit_imp_le_length [of b j] by auto
    then show "b = 0" by (simp add: bit_eq_iff)
  qed
  have last: "(r + n - 1) div 8 + p = (pos + n - 1) div 8" using pos(1) assms(3) by (simp add: add.commute)
  have p: "p < length bits" using last assms(2) by linarith
  have p1: "p + 1 < length bits" if "b \<noteq> 0"
  proof -
    have "1 \<le> (r + n - 1) div 8" using that b0 by (simp add: le_div_geq)
    then show ?thesis using last assms(2) by linarith
  qed
  let ?b = "if b \<noteq> 0 then bits[p := bits ! p OR ucast a, p + 1 := b] else bits[p := bits ! p OR ucast a]"
  have "setN bits (mask n) pos = Some ?b"
    using p p1 pos(3,4) by (simp add: setN_def Let_def flip: a_def b_def) 
  moreover have "marked pos n bits ?b"
  proof (rule markedI [OF _ pos(1,2)])
    fix m :: nat assume m: "m < 8"
    show "bit (?b ! p) m \<longleftrightarrow> bit (bits ! p) m \<or> (r \<le> m \<and> m < r + n)"
      using m p by (simp add: bit_or_iff bit_ucast_iff bit_a)
    show "bit (?b ! (p + 1)) m \<longleftrightarrow> bit (bits ! (p + 1)) m \<or> m + 8 < r + n" if "p + 1 < length bits"
    proof (cases "b = 0")
      case True
      then show ?thesis using b0 by simp
    next
      case False
      then show ?thesis using clean [of "p + 1" m] pos(2) m that bit_b [OF m] by simp
    qed
    show "bit (?b ! (p + 2)) m \<longleftrightarrow> bit (bits ! (p + 2)) m \<or> m + 16 < r + n"
      using pos(2) assms(4) by simp
  qed (use assms(4) in auto)
  ultimately show ?thesis by blast
qed

lemma room: "pos + k \<le> L + 32 \<Longrightarrow> length bits = L div 8 + 5 \<Longrightarrow> (pos + k) div 8 < length bits"
proof -
  assume a: "pos + k \<le> L + 32" "length bits = L div 8 + 5"
  have "(pos + k) div 8 \<le> (L + 32) div 8" using a(1) by (rule div_le_mono)
  also have "\<dots> = L div 8 + 4" by simp
  finally show ?thesis using a(2) by simp
qed

lemma set16_loop_marked:
  "length bits = L div 8 + 5 \<Longrightarrow> clean_from pc bits \<Longrightarrow> pc + unat n \<le> L + 32 \<Longrightarrow>
   \<exists>n' bits'. set16_loop n pc bits = Some (n', pc + (unat n - unat n'), bits') \<and> n' < 16 \<and> unat n' \<le> unat n \<and>
     marked pc (unat n - unat n') bits bits'"
proof (induction n pc bits rule: set16_loop.induct)
  case (1 n pc bits)
  show ?case
  proof (cases "n \<ge> 16")
    case True
    then have n: "16 \<le> unat n" "unat (n - 16) = unat n - 16" by (simp_all add: word_le_nat_alt unat_sub)
    with "1.prems"(1,3) have "(pc + 16) div 8 < length bits" by (intro room [where L = L]) auto
    from set16_marked [OF "1.prems"(2) this] obtain b where b: "set16 bits pc = Some b" "marked pc 16 bits b" by blast
    have "length b = L div 8 + 5" "clean_from (pc + 16) b" "pc + 16 + unat (n - 16) \<le> L + 32"
      using marked_length [OF b(2)] marked_clean [OF b(2) "1.prems"(2)] "1.prems"(1,3) n by simp_all
    from "1.IH" [OF True b(1) this] obtain n' b' where b':
      "set16_loop (n - 16) (pc + 16) b = Some (n', pc + 16 + (unat (n - 16) - unat n'), b')"
      "n' < 16" "unat n' \<le> unat (n - 16)" "marked (pc + 16) (unat (n - 16) - unat n') b b'" by blast
    from marked_trans [OF b(2) b'(4)] b'(3) n have "marked pc (unat n - unat n') bits b'" by simp
    with True b b' n show ?thesis by (subst set16_loop.simps) auto
  next
    case False
    then show ?thesis by (subst set16_loop.simps) auto
  qed
qed

lemma set8_loop_marked:
  "length bits = L div 8 + 5 \<Longrightarrow> clean_from pc bits \<Longrightarrow> pc + unat n \<le> L + 32 \<Longrightarrow>
   \<exists>n' bits'. set8_loop n pc bits = Some (n', pc + (unat n - unat n'), bits') \<and> n' < 8 \<and> unat n' \<le> unat n \<and>
     marked pc (unat n - unat n') bits bits'"
proof (induction n pc bits rule: set8_loop.induct)
  case (1 n pc bits)
  show ?case
  proof (cases "n \<ge> 8")
    case True
    then have n: "8 \<le> unat n" "unat (n - 8) = unat n - 8" by (simp_all add: word_le_nat_alt unat_sub)
    with "1.prems"(1,3) have "(pc + 8) div 8 < length bits" by (intro room [where L = L]) auto
    from set8_marked [OF "1.prems"(2) this] obtain b where b: "set8 bits pc = Some b" "marked pc 8 bits b" by blast
    have "length b = L div 8 + 5" "clean_from (pc + 8) b" "pc + 8 + unat (n - 8) \<le> L + 32"
      using marked_length [OF b(2)] marked_clean [OF b(2) "1.prems"(2)] "1.prems"(1,3) n by simp_all
    from "1.IH" [OF True b(1) this] obtain n' b' where b':
      "set8_loop (n - 8) (pc + 8) b = Some (n', pc + 8 + (unat (n - 8) - unat n'), b')"
      "n' < 8" "unat n' \<le> unat (n - 8)" "marked (pc + 8) (unat (n - 8) - unat n') b b'" by blast
    from marked_trans [OF b(2) b'(4)] b'(3) n have "marked pc (unat n - unat n') bits b'" by simp
    with True b b' n show ?thesis by (subst set8_loop.simps) auto
  next
    case False
    then show ?thesis by (subst set8_loop.simps) auto
  qed
qed

lemmas set_masks = set2BitsMask_def set3BitsMask_def set4BitsMask_def set5BitsMask_def set6BitsMask_def set7BitsMask_def

lemma masks_eq:
  "set2BitsMask = mask 2" "set3BitsMask = mask 3" "set4BitsMask = mask 4" "set5BitsMask = mask 5"
  "set6BitsMask = mask 6" "set7BitsMask = mask 7"
  by (simp_all add: set_masks mask_eq_exp_minus_1)

lemma set_rest_marked:
  assumes "length bits = L div 8 + 5" "clean_from pc bits" "pc + unat n \<le> L + 32" "n < 8"
  shows "\<exists>bits'. set_rest n pc bits = Some (pc + unat n, bits') \<and> marked pc (unat n) bits bits'"
proof -
  have small: "unat n \<in> {0, 1, 2, 3, 4, 5, 6, 7}" using assms(4) by (auto simp: word_less_nat_alt)
  have r: "(pc + k - 1) div 8 < length bits" if "k \<le> unat n" for k
    using room [of pc "k - 1" L bits] assms(1,3) that by (cases k) simp_all
  have N: "\<exists>bits'. setN bits (mask (unat n)) pc = Some bits' \<and> marked pc (unat n) bits bits'" if "unat n \<noteq> 0"
    using setN_marked [OF assms(2) r, of "unat n"] that small by auto
  have n: "n = word_of_nat (unat n)" by simp
  show ?thesis
  proof (cases "unat n \<le> 1")
    case True
    then consider "n = 0" | "n = 1" by (metis One_nat_def le_Suc_eq le_zero_eq unat_1 unat_eq_zero word_unat_eq_iff)
    then show ?thesis
    proof cases
      case 2
      then show ?thesis using set1_marked [of pc bits] r [of 1] by (auto simp: set_rest_def)
    qed (auto simp: set_rest_def)
  next
    case False
    with small have "unat n \<in> {2, 3, 4, 5, 6, 7}" by auto
    then have "n \<in> {2, 3, 4, 5, 6, 7}" by (auto simp: word_unat_eq_iff)
    with N show ?thesis by (auto simp: set_rest_def masks_eq)
  qed
qed

lemma mark_push_marked:
  assumes "length bits = L div 8 + 5" "clean_from pc bits" "pc + unat n \<le> L + 32"
  shows "\<exists>bits'. mark_push n pc bits = Some (pc + unat n, bits') \<and> marked pc (unat n) bits bits'"
proof (cases "n \<ge> 8")
  case False
  with set_rest_marked [OF assms] show ?thesis by (auto simp: mark_push_def)
next
  case True
  from set16_loop_marked [OF assms] obtain n1 b1 where 1:
    "set16_loop n pc bits = Some (n1, pc + (unat n - unat n1), b1)" "unat n1 \<le> unat n"
    "marked pc (unat n - unat n1) bits b1" by blast
  have s1: "length b1 = L div 8 + 5" "clean_from (pc + (unat n - unat n1)) b1"
    "pc + (unat n - unat n1) + unat n1 \<le> L + 32"
    using marked_length [OF 1(3)] marked_clean [OF 1(3) assms(2)] assms(1,3) 1(2) by simp_all
  from set8_loop_marked [OF s1] 1(2) obtain n2 b2 where 2:
    "set8_loop n1 (pc + (unat n - unat n1)) b1 = Some (n2, pc + (unat n - unat n2), b2)" "n2 < 8" "unat n2 \<le> unat n1"
    "marked (pc + (unat n - unat n1)) (unat n1 - unat n2) b1 b2" by fastforce
  from marked_trans [OF 1(3) 2(4)] 1(2) 2(3) have m2: "marked pc (unat n - unat n2) bits b2" by simp
  have s2: "length b2 = L div 8 + 5" "clean_from (pc + (unat n - unat n2)) b2"
    "pc + (unat n - unat n2) + unat n2 \<le> L + 32"
    using marked_length [OF m2] marked_clean [OF m2 assms(2)] assms(1,3) 1(2) 2(3) by simp_all
  from set_rest_marked [OF s2 2(2)] obtain b3 where 3:
    "set_rest n2 (pc + (unat n - unat n2)) b2 = Some (pc + (unat n - unat n2) + unat n2, b3)"
    "marked (pc + (unat n - unat n2)) (unat n2) b2 b3" by blast
  from marked_trans [OF m2 3(2)] 1(2) 2(3) have "marked pc (unat n) bits b3" by simp
  then show ?thesis using True 1 2 3 by (auto simp: mark_push_def)
qed

subsection \<open>Reading the code instruction by instruction\<close>

definition push_size :: "u8 \<Rightarrow> nat" where
  "push_size op = (if 0x60 \<le> op \<and> op \<le> 0x7f then unat op - 0x5f else 0)"

inductive opcode_at :: "bytes \<Rightarrow> nat \<Rightarrow> bool" for code where
  start: "opcode_at code 0"
| next_op: "opcode_at code pc \<Longrightarrow> pc < length code \<Longrightarrow> opcode_at code (pc + 1 + push_size (code ! pc))"

lemma opcode_at_skips:
  "opcode_at code x \<Longrightarrow> opcode_at code y \<Longrightarrow> x < y \<Longrightarrow> x + 1 + push_size (code ! x) \<le> y"
proof (induction y arbitrary: x rule: less_induct)
  case (less y)
  from less.prems(2,3) obtain y0 where y0: "opcode_at code y0" "y = y0 + 1 + push_size (code ! y0)"
    by (cases rule: opcode_at.cases) auto
  consider "x < y0" | "x = y0" | "y0 < x" by linarith
  then show ?case
  proof cases
    case 1
    with less.IH [of y0 x] less.prems(1) y0 show ?thesis by simp
  next
    case 2
    with y0 show ?thesis by simp
  next
    case 3
    with less.IH [of x y0] less.prems(1,3) y0 show ?thesis by simp
  qed
qed

lemma opcode_at_data:
  assumes "opcode_at code pc" "pc < i" "i < pc + 1 + push_size (code ! pc)"
  shows "\<not> opcode_at code i"
  using opcode_at_skips [OF assms(1) _ assms(2)] assms(3) by auto

text \<open>The test on signed bytes selects the push instructions with data.\<close>

lemma sint_push_iff: "sint (op :: u8) < sint PUSH1 \<longleftrightarrow> push_size op = 0"
proof -
  have "sint op = (if uint op < 128 then uint op else uint op - 256)"
  proof -
    have s: "sint op = (uint op + 128) mod 256 - 128"
      by (simp add: sint_uint signed_take_bit_eq_take_bit_shift take_bit_eq_mod)
    show ?thesis
    proof (cases "uint op < 128")
      case True
      then have "(uint op + 128) mod 256 = uint op + 128" using uint_ge_0 [of op] by (intro mod_pos_pos_trivial) linarith+
      with True s show ?thesis by simp
    next
      case False
      have "uint op < 256" using uint_lt2p [of op] by simp
      then have "(uint op - 128) mod 256 = uint op - 128" using False by (intro mod_pos_pos_trivial) linarith+
      moreover have "(uint op + 128) mod 256 = (uint op - 128 + 256) mod 256" by (simp add: add.commute)
      ultimately have "(uint op + 128) mod 256 = uint op - 128" by (simp only: mod_add_self2)
      with False s show ?thesis by simp
    qed
  qed
  moreover have "sint PUSH1 = 96" by (simp add: PUSH1_def)
  moreover have "push_size op = 0 \<longleftrightarrow> \<not> (0x60 \<le> op \<and> op \<le> 0x7f)"
    by (auto simp: push_size_def word_le_nat_alt)
  then have "push_size op = 0 \<longleftrightarrow> uint op < 96 \<or> 128 \<le> uint op"
    by (auto simp: word_le_def)
  ultimately show ?thesis using uint_ge_0 [of op] uint_lt2p [of op] by auto
qed

lemma push_count: "push_size op \<noteq> 0 \<Longrightarrow> unat (op - PUSH1 + 1) = push_size op \<and> push_size op \<le> 32"
  by (auto simp: push_size_def PUSH1_def word_le_nat_alt unat_sub unat_word_ariths split: if_splits)

definition analysed :: "bytes \<Rightarrow> nat \<Rightarrow> BitVec \<Rightarrow> bool" where
  "analysed code pc bits \<longleftrightarrow> opcode_at code pc \<and> length bits = length code div 8 + 5 \<and> clean_from pc bits \<and>
     (\<forall>q<length bits. \<forall>m<8. 8 * q + m < pc \<longrightarrow> 8 * q + m < length code \<longrightarrow> (bit (bits ! q) m \<longleftrightarrow> \<not> opcode_at code (8 * q + m)))"

lemma analysed_step:
  assumes "analysed code pc bits" "pc < length code" "marked (pc + 1) (push_size (code ! pc)) bits bits'"
  shows "analysed code (pc + 1 + push_size (code ! pc)) bits'"
proof -
  from assms(1) have op: "opcode_at code pc" and len: "length bits = length code div 8 + 5" and clean: "clean_from pc bits"
    and old: "\<And>q m. q < length bits \<Longrightarrow> m < 8 \<Longrightarrow> 8 * q + m < pc \<Longrightarrow> 8 * q + m < length code \<Longrightarrow>
      (bit (bits ! q) m \<longleftrightarrow> \<not> opcode_at code (8 * q + m))" by (auto simp: analysed_def)
  have "clean_from (pc + 1) bits" using clean by (simp add: clean_from_def)
  from marked_clean [OF assms(3) this] have cl: "clean_from (pc + 1 + push_size (code ! pc)) bits'" .
  have "bit (bits' ! q) m \<longleftrightarrow> \<not> opcode_at code (8 * q + m)"
    if q: "q < length bits'" "m < 8" "8 * q + m < pc + 1 + push_size (code ! pc)" "8 * q + m < length code" for q m
  proof -
    have q': "q < length bits" using q(1) marked_length [OF assms(3)] by simp
    have b: "bit (bits' ! q) m \<longleftrightarrow> bit (bits ! q) m \<or> (pc + 1 \<le> 8 * q + m \<and> 8 * q + m < pc + 1 + push_size (code ! pc))"
      using assms(3) q' q(2) by (simp add: marked_def)
    consider "8 * q + m < pc" | "8 * q + m = pc" | "pc < 8 * q + m" by linarith
    then show ?thesis
    proof cases
      case 1 with b old [OF q' q(2)] q(4) show ?thesis by simp
    next
      case 2 with b op clean q' q(2) show ?thesis by (simp add: clean_from_def)
    next
      case 3 with b opcode_at_data [OF op 3 q(3)] q(3) show ?thesis by simp
    qed
  qed
  then show ?thesis
    using opcode_at.next_op [OF op assms(2)] len marked_length [OF assms(3)] cl by (auto simp: analysed_def)
qed

lemma codeBitmap_loop_analysed:
  "analysed code pc bits \<Longrightarrow> \<exists>pc' bits'. codeBitmap_loop code pc bits = Some bits' \<and> analysed code pc' bits' \<and> length code \<le> pc'"
proof (induction code pc bits rule: codeBitmap_loop.induct)
  case (1 code pc bits)
  show ?case
  proof (cases "pc < length code")
    case False
    with "1.prems" show ?thesis by (subst codeBitmap_loop.simps) auto
  next
    case True
    have b: "length bits = length code div 8 + 5" "clean_from (pc + 1) bits"
      using "1.prems" by (auto simp: analysed_def clean_from_def)
    show ?thesis
    proof (cases "push_size (code ! pc) = 0")
      case s: True
      with analysed_step [OF "1.prems" True, of bits] have "analysed code (pc + 1) bits" by simp
      from "1.IH" (1) [OF True refl refl _ this] s True show ?thesis
        by (subst codeBitmap_loop.simps) (simp add: sint_push_iff)
    next
      case s: False
      note n = push_count [OF s]
      have "pc + 1 + unat (code ! pc - PUSH1 + 1) \<le> length code + 32" using n True by simp
      from mark_push_marked [OF b this] n obtain bits' where m:
        "mark_push (code ! pc - PUSH1 + 1) (pc + 1) bits = Some (pc + 1 + push_size (code ! pc), bits')"
        "marked (pc + 1) (push_size (code ! pc)) bits bits'" by auto
      from analysed_step [OF "1.prems" True m(2)] have "analysed code (pc + 1 + push_size (code ! pc)) bits'" .
      from "1.IH"(2) [OF True refl refl _ m(1) refl this] s True m show ?thesis
        by (subst codeBitmap_loop.simps) (simp add: sint_push_iff)
    qed
  qed
qed

lemma codeBitmap_spec:
  "\<exists>bits. codeBitmap code = Some bits \<and> (\<forall>pos<length code. codeSegment bits pos = Some (opcode_at code pos))"
proof -
  have "analysed code 0 (replicate (length code div 8 + 1 + 4) 0)"
    by (auto simp: analysed_def clean_from_def intro: opcode_at.start)
  from codeBitmap_loop_analysed [OF this] obtain pc bits where
    bits: "codeBitmap code = Some bits" "analysed code pc bits" "length code \<le> pc"
    by (auto simp: codeBitmap_def codeBitmapInternal_def)
  have "codeSegment bits pos = Some (opcode_at code pos)" if "pos < length code" for pos
  proof -
    have "pos div 8 < length bits" using bits(2) that by (auto simp: analysed_def intro: le_less_trans [OF div_le_mono])
    moreover have "bit (bits ! (pos div 8)) (pos mod 8) \<longleftrightarrow> \<not> opcode_at code (8 * (pos div 8) + pos mod 8)"
      using bits(2,3) that calculation unfolding analysed_def by auto
    ultimately show ?thesis by (simp add: codeSegment_bit)
  qed
  with bits(1) show ?thesis by blast
qed

text \<open>
  C21: the analysis never indexes its vector out of range, whatever the code ends with, and
  marks as code exactly the positions of instructions: those that are reached when the code
  is read from its start, skipping the data of each push.
\<close>

theorem codeBitmap_correct:
  "\<exists>bits. codeBitmap code = Some bits \<and> (\<forall>pos<length code. codeSegment bits pos = Some (opcode_at code pos))"
  by (rule codeBitmap_spec)

theorem codeBitmap_correct_witness:
  "\<exists>bits. codeBitmap [0x60, 0x5b, 0x5b] = Some bits \<and> codeSegment bits 2 = Some True"
proof -
  have "opcode_at [0x60, 0x5b, 0x5b] 2"
    using opcode_at.next_op [OF opcode_at.start, of "[0x60, 0x5b, 0x5b]"] by (simp add: push_size_def flip: numeral_2_eq_2)
  then show ?thesis using codeBitmap_correct [of "[0x60, 0x5b, 0x5b]"] by force
qed

end
