(* ===== verification/VMContract.thy ===== *)
theory VMContract
imports MultiGas VMAnalysis
begin

text \<open>
  The contract object of a call frame (\<^verbatim>\<open>core/vm/contract.go\<close>, \<^verbatim>\<open>contract_arbitrum.go\<close>) with its gas
  counters and the two levels of caching of the jump destination analysis (\<^verbatim>\<open>jumpdests.go\<close>).
  The cache \<^verbatim>\<open>jumpDests\<close> is shared by all frames of an EVM, so the operations take it and return it.
\<close>

type_synonym JumpDestCache = "(hash, BitVec) fmap"

definition newMapJumpDests :: JumpDestCache where
  "newMapJumpDests = fmempty"

definition jd_Load :: "JumpDestCache \<Rightarrow> hash \<Rightarrow> BitVec option" where
  "jd_Load j codeHash = fmlookup j codeHash"

definition jd_Store :: "JumpDestCache \<Rightarrow> hash \<Rightarrow> BitVec \<Rightarrow> JumpDestCache" where
  "jd_Store j codeHash vec = fmupd codeHash vec j"

record Contract =
  ct_caller :: address
  ct_address :: address
  delegateOrCallcode :: bool
  ct_analysis :: "BitVec option"
  ct_Code :: bytes
  ct_CodeHash :: hash
  ct_Input :: bytes
  IsDeployment :: bool
  IsSystemCall :: bool
  ct_Gas :: u64
  ct_value :: u256
  UsedMultiGas :: MultiGas
  RetainedMultiGas :: MultiGas

definition NewContract :: "address \<Rightarrow> address \<Rightarrow> u256 \<Rightarrow> u64 \<Rightarrow> Contract" where
  "NewContract caller addr v gas =
     \<lparr>ct_caller = caller, ct_address = addr, delegateOrCallcode = False, ct_analysis = None,
      ct_Code = [], ct_CodeHash = 0, ct_Input = [], IsDeployment = False, IsSystemCall = False,
      ct_Gas = gas, ct_value = v, UsedMultiGas = ZeroGas, RetainedMultiGas = ZeroGas\<rparr>"

definition isCode :: "JumpDestCache \<Rightarrow> Contract \<Rightarrow> u64 \<Rightarrow> (bool \<times> JumpDestCache \<times> Contract) option" where
  "isCode jd c udest =
     (case ct_analysis c of
        Some analysis \<Rightarrow> map_option (\<lambda>b. (b, jd, c)) (codeSegment analysis (unat udest))
      | None \<Rightarrow>
          if ct_CodeHash c \<noteq> 0 then do {
            (analysis, jd) \<leftarrow>
              (case jd_Load jd (ct_CodeHash c) of
                 Some analysis \<Rightarrow> Some (analysis, jd)
               | None \<Rightarrow> map_option (\<lambda>analysis. (analysis, jd_Store jd (ct_CodeHash c) analysis)) (codeBitmap (ct_Code c)));
            b \<leftarrow> codeSegment analysis (unat udest);
            Some (b, jd, c\<lparr>ct_analysis := Some analysis\<rparr>)
          }
          else do {
            analysis \<leftarrow> codeBitmap (ct_Code c);
            b \<leftarrow> codeSegment analysis (unat udest);
            Some (b, jd, c\<lparr>ct_analysis := Some analysis\<rparr>)
          })"

definition validJumpdest :: "JumpDestCache \<Rightarrow> Contract \<Rightarrow> u256 \<Rightarrow> (bool \<times> JumpDestCache \<times> Contract) option" where
  "validJumpdest jd c dest =
     (let (udest, overflow) = Uint64WithOverflow dest
      in if overflow \<or> udest \<ge> word_of_nat (length (ct_Code c)) then Some (False, jd, c)
         else if ct_Code c ! unat udest \<noteq> JUMPDEST then Some (False, jd, c)
         else isCode jd c udest)"

definition STOP :: u8 where "STOP = 0"

definition GetOp :: "Contract \<Rightarrow> u64 \<Rightarrow> u8" where
  "GetOp c n = (if n < word_of_nat (length (ct_Code c)) then ct_Code c ! unat n else STOP)"

definition useGas :: "Contract \<Rightarrow> u64 \<Rightarrow> bool \<times> Contract" where
  "useGas c gas = (if ct_Gas c < gas then (False, c) else (True, c\<lparr>ct_Gas := ct_Gas c - gas\<rparr>))"

definition RefundGas :: "Contract \<Rightarrow> u64 \<Rightarrow> Contract" where
  "RefundGas c gas = (if gas = 0 then c else c\<lparr>ct_Gas := ct_Gas c + gas\<rparr>)"

definition SetCallCode :: "Contract \<Rightarrow> hash \<Rightarrow> bytes \<Rightarrow> Contract" where
  "SetCallCode c h code = c\<lparr>ct_Code := code, ct_CodeHash := h\<rparr>"

definition UseMultiGas :: "Contract \<Rightarrow> MultiGas \<Rightarrow> bool \<times> Contract" where
  "UseMultiGas c multiGas =
     (let (ok, c) = useGas c (SingleGas multiGas)
      in if \<not> ok then (False, c)
         else (True, c\<lparr>UsedMultiGas := SaturatingAddInto (UsedMultiGas c) multiGas\<rparr>))"

definition GetTotalUsedMultiGas :: "Contract \<Rightarrow> MultiGas" where
  "GetTotalUsedMultiGas c =
     (let (total, underflow) = SafeSub (UsedMultiGas c) (RetainedMultiGas c)
      in if underflow then SaturatingSub (UsedMultiGas c) (RetainedMultiGas c) else total)"

text \<open>The error of \<^verbatim>\<open>BurnGas\<close> is that it ran out of gas.\<close>

definition BurnGas :: "Contract \<Rightarrow> u64 \<Rightarrow> bool \<times> Contract" where
  "BurnGas c amount =
     (if ct_Gas c < amount then (False, c\<lparr>ct_Gas := 0\<rparr>) else (True, c\<lparr>ct_Gas := ct_Gas c - amount\<rparr>))"

subsection \<open>Jump destinations through the caches\<close>

text \<open>
  The caches are consistent for an assignment of code to code hashes: what is cached under a
  hash is the analysis of its code, and a contract that has a hash runs the code of it.
\<close>

definition cache_ok :: "(hash \<Rightarrow> bytes) \<Rightarrow> JumpDestCache \<Rightarrow> bool" where
  "cache_ok codes jd \<longleftrightarrow> (\<forall>h bits. fmlookup jd h = Some bits \<longrightarrow> codeBitmap (codes h) = Some bits)"

definition contract_ok :: "(hash \<Rightarrow> bytes) \<Rightarrow> Contract \<Rightarrow> bool" where
  "contract_ok codes c \<longleftrightarrow>
     (\<forall>bits. ct_analysis c = Some bits \<longrightarrow> codeBitmap (ct_Code c) = Some bits) \<and>
     (ct_CodeHash c \<noteq> 0 \<longrightarrow> ct_Code c = codes (ct_CodeHash c)) \<and> length (ct_Code c) < 2 ^ 63"

lemma codeBitmap_at:
  "codeBitmap code = Some bits \<Longrightarrow> pos < length code \<Longrightarrow> codeSegment bits pos = Some (opcode_at code pos)"
  using codeBitmap_spec [of code] by auto

lemma isCode_correct:
  assumes "cache_ok codes jd" "contract_ok codes c" "unat udest < length (ct_Code c)"
  shows "\<exists>jd' c'. isCode jd c udest = Some (opcode_at (ct_Code c) (unat udest), jd', c') \<and>
    cache_ok codes jd' \<and> contract_ok codes c' \<and> (\<exists>an. c' = c\<lparr>ct_analysis := an\<rparr>)"
proof -
  obtain bits where bits: "codeBitmap (ct_Code c) = Some bits" using codeBitmap_spec [of "ct_Code c"] by blast
  note seg = codeBitmap_at [OF bits assms(3)]
  have same: "\<exists>an. c = c\<lparr>ct_analysis := an\<rparr>" by (rule exI [of _ "ct_analysis c"]) simp
  have upd: "contract_ok codes (c\<lparr>ct_analysis := Some bits\<rparr>)" using assms(2) bits by (simp add: contract_ok_def)
  show ?thesis
  proof (cases "ct_analysis c")
    case (Some an)
    with assms(2) bits have "an = bits" by (simp add: contract_ok_def)
    with Some seg assms(1,2) same show ?thesis by (simp add: isCode_def)
  next
    case None
    show ?thesis
    proof (cases "ct_CodeHash c = 0")
      case True
      with None bits seg assms(1) upd show ?thesis by (auto simp: isCode_def)
    next
      case False
      then have code: "codes (ct_CodeHash c) = ct_Code c" using assms(2) by (simp add: contract_ok_def)
      show ?thesis
      proof (cases "jd_Load jd (ct_CodeHash c)")
        case (Some an)
        with assms(1) have "codeBitmap (codes (ct_CodeHash c)) = Some an" by (simp add: cache_ok_def jd_Load_def)
        with code bits have "an = bits" by simp
        with None False Some seg assms(1) upd show ?thesis by (auto simp: isCode_def)
      next
        case none: None
        have "cache_ok codes (jd_Store jd (ct_CodeHash c) bits)"
          using assms(1) code bits by (auto simp: cache_ok_def jd_Store_def)
        with None False none seg bits upd show ?thesis by (auto simp: isCode_def)
      qed
    qed
  qed
qed

text \<open>
  C22: a jump destination is accepted exactly when it is the position of a \<^verbatim>\<open>JUMPDEST\<close> instruction,
  however large the 256-bit destination is and whatever the two caches hold; the check never
  panics and keeps the caches consistent.
\<close>

theorem validJumpdest_correct:
  assumes "cache_ok codes jd" "contract_ok codes c"
  shows "\<exists>jd' c'. validJumpdest jd c dest =
      Some (unat dest < length (ct_Code c) \<and> ct_Code c ! unat dest = JUMPDEST \<and> opcode_at (ct_Code c) (unat dest), jd', c') \<and>
    cache_ok codes jd' \<and> contract_ok codes c' \<and> (\<exists>an. c' = c\<lparr>ct_analysis := an\<rparr>)"
proof -
  have len: "length (ct_Code c) < 2 ^ 63" using assms(2) by (simp add: contract_ok_def)
  have same: "\<exists>an. c = c\<lparr>ct_analysis := an\<rparr>" by (rule exI [of _ "ct_analysis c"]) simp
  have n: "unat (word_of_nat (length (ct_Code c)) :: u64) = length (ct_Code c)" using len by (simp add: unat_of_nat)
  show ?thesis
  proof (cases "IsUint64 dest")
    case False
    then have "\<not> unat dest < length (ct_Code c)" using len by (simp add: IsUint64_unat)
    with False assms same show ?thesis by (simp add: validJumpdest_def Uint64WithOverflow_def)
  next
    case True
    note u = unat_ucast_u256 [OF True]
    have lt: "word_of_nat (length (ct_Code c)) \<le> (ucast dest :: u64) \<longleftrightarrow> \<not> unat dest < length (ct_Code c)"
      using n u by (auto simp: word_le_nat_alt)
    show ?thesis
    proof (cases "unat dest < length (ct_Code c) \<and> ct_Code c ! unat dest = JUMPDEST")
      case False
      with True lt u assms same show ?thesis by (auto simp: validJumpdest_def Uint64WithOverflow_def)
    next
      case ok: True
      from isCode_correct [OF assms, of "ucast dest"] ok True lt u show ?thesis
        by (auto simp: validJumpdest_def Uint64WithOverflow_def)
    qed
  qed
qed

theorem validJumpdest_correct_witness:
  "\<exists>jd' c'. validJumpdest fmempty ((NewContract 1 2 0 100)\<lparr>ct_Code := [0x60, 0x5b, 0x5b]\<rparr>) 2 = Some (True, jd', c')"
proof -
  let ?c = "(NewContract 1 2 0 100)\<lparr>ct_Code := [0x60, 0x5b, 0x5b]\<rparr>"
  have "cache_ok (\<lambda>_. []) fmempty" "contract_ok (\<lambda>_. []) ?c" by (simp_all add: cache_ok_def contract_ok_def NewContract_def)
  from validJumpdest_correct [OF this, of 2] have "\<exists>jd' c'. validJumpdest fmempty ?c 2 =
      Some (opcode_at [0x60, 0x5b, 0x5b] 2, jd', c')" by (auto simp: NewContract_def JUMPDEST_def)
  moreover have "opcode_at [0x60, 0x5b, 0x5b] 2"
  proof -
    have "push_size 0x60 = 1" by (simp add: push_size_def)
    with opcode_at.next_op [OF opcode_at.start, of "[0x60, 0x5b, 0x5b]"] show ?thesis by (simp add: eval_nat_numeral)
  qed
  ultimately show ?thesis by simp
qed

end
