(* ===== verification/StateDB.thy ===== *)
theory StateDB
  imports StateTypes
begin

text \<open>
  The operations of \<^verbatim>\<open>core/state/statedb.go\<close>, \<^verbatim>\<open>state_object.go\<close>, \<^verbatim>\<open>journal.go\<close> and their
  Arbitrum companions, by explicit state passing. A method of a state object takes the
  database it points back to together with the object and returns both; the database method
  that fetched the object writes it back, which is what the shared pointer does in Go. Every
  method of an object goes through the map at the object's address, so no other alias of a
  live object exists. \<open>None\<close> is a panic (an explicit one, or a nil dereference).
\<close>

subsection \<open>Journal bookkeeping\<close>

text \<open>\<^verbatim>\<open>m[k]\<close> and \<^verbatim>\<open>m[k]++\<close> for a Go map with integer values.\<close>

definition fm_get :: "('k, int) fmap \<Rightarrow> 'k \<Rightarrow> int" where
  "fm_get m k = (case fmlookup m k of None \<Rightarrow> 0 | Some n \<Rightarrow> n)"

definition fm_incr :: "'k \<Rightarrow> ('k, int) fmap \<Rightarrow> ('k, int) fmap" where
  "fm_incr k m = fmupd k (fm_get m k + 1) m"

definition journal_append :: "journalEntry \<Rightarrow> journal \<Rightarrow> journal" where
  "journal_append entry j =
     (let j = j\<lparr>jr_entries := jr_entries j @ [entry]\<rparr>
      in case dirtied entry of
           None \<Rightarrow> j
         | Some addr \<Rightarrow>
             let j = j\<lparr>jr_dirties := fm_incr addr (jr_dirties j)\<rparr>
             in if isZombie entry then j\<lparr>jr_zombieEntries := fm_incr addr (jr_zombieEntries j)\<rparr> else j)"

definition journal_reset :: "journal \<Rightarrow> journal" where
  "journal_reset j = j\<lparr>jr_entries := [], jr_validRevisions := [], jr_dirties := fmempty, jr_nextRevisionId := 0\<rparr>"

definition journal_dirty :: "address \<Rightarrow> journal \<Rightarrow> journal" where
  "journal_dirty addr j = j\<lparr>jr_dirties := fm_incr addr (jr_dirties j)\<rparr>"

definition journal_length :: "journal \<Rightarrow> nat" where
  "journal_length j = length (jr_entries j)"

text \<open>\<^verbatim>\<open>if m[k]--; m[k] == 0 { delete(m, k) }\<close>, with the outcome of the test.\<close>

definition fm_decr :: "'k \<Rightarrow> ('k, int) fmap \<Rightarrow> ('k, int) fmap \<times> bool" where
  "fm_decr k m =
     (let n = fm_get m k - 1 in if n = 0 then (fmdrop k m, True) else (fmupd k n m, False))"

definition journal_undirty :: "journalEntry \<Rightarrow> journal \<Rightarrow> journal" where
  "journal_undirty entry j =
     (case dirtied entry of
        None \<Rightarrow> j
      | Some addr \<Rightarrow>
          let (d, gone) = fm_decr addr (jr_dirties j); j = j\<lparr>jr_dirties := d\<rparr>
          in if gone \<and> isZombie entry
             then j\<lparr>jr_zombieEntries := fst (fm_decr addr (jr_zombieEntries j))\<rparr> else j)"

definition journal_touchChange :: "address \<Rightarrow> journal \<Rightarrow> journal" where
  "journal_touchChange addr j =
     (let j = journal_append (touchChange addr) j
      in if addr = 3 then journal_dirty addr j else j)"

fun entry_copy :: "journalEntry \<Rightarrow> journalEntry" where
  "entry_copy (createObjectChange a) = createObjectChange a"
| "entry_copy (createZombieChange a) = createZombieChange a"
| "entry_copy (createContractChange a) = createContractChange a"
| "entry_copy (selfDestructChange a) = selfDestructChange a"
| "entry_copy (balanceChange a p) = balanceChange a p"
| "entry_copy (nonceChange a p) = nonceChange a p"
| "entry_copy (storageChange a k p v) = storageChange a k p v"
| "entry_copy (codeChange a c) = codeChange a c"
| "entry_copy (refundChange p) = refundChange p"
| "entry_copy (addLogChange h) = addLogChange h"
| "entry_copy (touchChange a) = touchChange a"
| "entry_copy (accessListAddAccountChange a) = accessListAddAccountChange a"
| "entry_copy (accessListAddSlotChange a k) = accessListAddSlotChange a k"
| "entry_copy (transientStorageChange a k p) = transientStorageChange a k p"
| "entry_copy (wasmActivation h) = wasmActivation h"
| "entry_copy (CacheWasm h v t d) = CacheWasm h v t d"
| "entry_copy (EvictWasm h v t d) = EvictWasm h v t d"

definition journal_copy :: "journal \<Rightarrow> journal" where
  "journal_copy j =
     \<lparr>jr_zombieEntries = jr_zombieEntries j, jr_entries = map entry_copy (jr_entries j),
      jr_dirties = jr_dirties j, jr_validRevisions = jr_validRevisions j,
      jr_nextRevisionId = jr_nextRevisionId j\<rparr>"

definition sdb_append :: "journalEntry \<Rightarrow> StateDB \<Rightarrow> StateDB" where
  "sdb_append entry s = s\<lparr>sdb_journal := journal_append entry (sdb_journal s)\<rparr>"

subsection \<open>Looking up state objects\<close>

definition setError :: "db_error \<Rightarrow> StateDB \<Rightarrow> StateDB" where
  "setError err s = (if dbErr s = None then s\<lparr>dbErr := Some err\<rparr> else s)"

definition setStateObject :: "stateObject \<Rightarrow> StateDB \<Rightarrow> StateDB" where
  "setStateObject obj s = s\<lparr>stateObjects := fmupd (so_address obj) obj (stateObjects s)\<rparr>"

definition getStateObject :: "Env \<Rightarrow> address \<Rightarrow> StateDB \<Rightarrow> StateDB \<times> stateObject option" where
  "getStateObject E addr s =
     (case fmlookup (stateObjects s) addr of
        Some obj \<Rightarrow> (s, Some obj)
      | None \<Rightarrow>
          if fmlookup (stateObjectsDestruct s) addr \<noteq> None then (s, None)
          else case env_Account E addr of
            Inl err \<Rightarrow> (setError (AccountError addr err) s, None)
          | Inr None \<Rightarrow> (s, None)
          | Inr (Some acct) \<Rightarrow> let obj = newObject E addr (Some acct) in (setStateObject obj s, Some obj))"

definition createObject :: "Env \<Rightarrow> address \<Rightarrow> StateDB \<Rightarrow> StateDB \<times> stateObject" where
  "createObject E addr s =
     (let obj = newObject E addr None; s = sdb_append (createObjectChange addr) s
      in (setStateObject obj s, obj))"

definition createZombie :: "Env \<Rightarrow> address \<Rightarrow> StateDB \<Rightarrow> StateDB \<times> stateObject" where
  "createZombie E addr s =
     (let obj = newObject E addr None; s = sdb_append (createZombieChange addr) s
      in (setStateObject obj s, obj))"

definition getOrNewStateObject :: "Env \<Rightarrow> address \<Rightarrow> StateDB \<Rightarrow> StateDB \<times> stateObject" where
  "getOrNewStateObject E addr s =
     (case getStateObject E addr s of
        (s, Some obj) \<Rightarrow> (s, obj)
      | (s, None) \<Rightarrow> createObject E addr s)"

subsection \<open>Methods of a state object\<close>

definition so_GetCommittedState :: "Env \<Rightarrow> hash \<Rightarrow> StateDB \<Rightarrow> stateObject \<Rightarrow> hash \<times> StateDB \<times> stateObject" where
  "so_GetCommittedState E key s obj =
     (case fmlookup (so_pendingStorage obj) key of
        Some v \<Rightarrow> (v, s, obj)
      | None \<Rightarrow>
     (case fmlookup (so_originStorage obj) key of
        Some v \<Rightarrow> (v, s, obj)
      | None \<Rightarrow>
          if fmlookup (stateObjectsDestruct s) (so_address obj) \<noteq> None
          then (0, s, obj\<lparr>so_originStorage := fmupd key 0 (so_originStorage obj)\<rparr>)
          else case env_Storage E (so_address obj) key of
            Inl err \<Rightarrow> (0, setError err s, obj)
          | Inr v \<Rightarrow> (v, s, obj\<lparr>so_originStorage := fmupd key v (so_originStorage obj)\<rparr>)))"

definition so_getState :: "Env \<Rightarrow> hash \<Rightarrow> StateDB \<Rightarrow> stateObject \<Rightarrow> (hash \<times> hash) \<times> StateDB \<times> stateObject" where
  "so_getState E key s obj =
     (let (origin, s, obj) = so_GetCommittedState E key s obj
      in case fmlookup (so_dirtyStorage obj) key of
           Some v \<Rightarrow> ((v, origin), s, obj)
         | None \<Rightarrow> ((origin, origin), s, obj))"

definition so_setState :: "hash \<Rightarrow> hash \<Rightarrow> hash \<Rightarrow> stateObject \<Rightarrow> stateObject" where
  "so_setState key v origin obj =
     (if v = origin then obj\<lparr>so_dirtyStorage := fmdrop key (so_dirtyStorage obj)\<rparr>
      else obj\<lparr>so_dirtyStorage := fmupd key v (so_dirtyStorage obj)\<rparr>)"

definition so_SetState :: "Env \<Rightarrow> hash \<Rightarrow> hash \<Rightarrow> StateDB \<Rightarrow> stateObject \<Rightarrow> hash \<times> StateDB \<times> stateObject" where
  "so_SetState E key v s obj =
     (let ((prev, origin), s, obj) = so_getState E key s obj
      in if prev = v then (prev, s, obj)
         else (prev, sdb_append (storageChange (so_address obj) key prev origin) s, so_setState key v origin obj))"

definition so_touch :: "StateDB \<Rightarrow> stateObject \<Rightarrow> StateDB" where
  "so_touch s obj = s\<lparr>sdb_journal := journal_touchChange (so_address obj) (sdb_journal s)\<rparr>"

definition so_setBalance :: "u256 \<Rightarrow> stateObject \<Rightarrow> stateObject" where
  "so_setBalance amount obj = obj\<lparr>so_data := (so_data obj)\<lparr>Balance := amount\<rparr>\<rparr>"

definition so_SetBalance :: "u256 \<Rightarrow> StateDB \<Rightarrow> stateObject \<Rightarrow> u256 \<times> StateDB \<times> stateObject" where
  "so_SetBalance amount s obj =
     (let prev = Balance (so_data obj)
      in (prev, sdb_append (balanceChange (so_address obj) prev) s, so_setBalance amount obj))"

definition so_AddBalance :: "Env \<Rightarrow> u256 \<Rightarrow> StateDB \<Rightarrow> stateObject \<Rightarrow> u256 \<times> StateDB \<times> stateObject" where
  "so_AddBalance E amount s obj =
     (if amount = 0 then
        (Balance (so_data obj), if so_empty E obj then so_touch s obj else s, obj)
      else so_SetBalance (Balance (so_data obj) + amount) s obj)"

definition so_setNonce :: "u64 \<Rightarrow> stateObject \<Rightarrow> stateObject" where
  "so_setNonce nonce obj = obj\<lparr>so_data := (so_data obj)\<lparr>Nonce := nonce\<rparr>\<rparr>"

definition so_SetNonce :: "u64 \<Rightarrow> StateDB \<Rightarrow> stateObject \<Rightarrow> StateDB \<times> stateObject" where
  "so_SetNonce nonce s obj =
     (sdb_append (nonceChange (so_address obj) (Nonce (so_data obj))) s, so_setNonce nonce obj)"

definition so_setCode :: "hash \<Rightarrow> bytes \<Rightarrow> stateObject \<Rightarrow> stateObject" where
  "so_setCode codeHash code obj =
     obj\<lparr>so_code := code, so_data := (so_data obj)\<lparr>CodeHash := codeHash\<rparr>, so_dirtyCode := True\<rparr>"

definition so_SetCode :: "hash \<Rightarrow> bytes \<Rightarrow> StateDB \<Rightarrow> stateObject \<Rightarrow> bytes \<times> StateDB \<times> stateObject" where
  "so_SetCode codeHash code s obj =
     (let prev = so_code obj
      in (prev, sdb_append (codeChange (so_address obj) prev) s, so_setCode codeHash code obj))"

definition so_Code :: "Env \<Rightarrow> StateDB \<Rightarrow> stateObject \<Rightarrow> bytes \<times> StateDB \<times> stateObject" where
  "so_Code E s obj =
     (if so_code obj \<noteq> [] then (so_code obj, s, obj)
      else if CodeHash (so_data obj) = EmptyCodeHash E then ([], s, obj)
      else
        let h = CodeHash (so_data obj);
            (code, err) = env_Code E (so_address obj) h;
            s = (case err of Some e \<Rightarrow> setError (CodeError h e) s | None \<Rightarrow> s);
            s = (if code = [] then setError (CodeNotFound h) s else s)
        in (code, s, obj\<lparr>so_code := code\<rparr>))"

definition so_CodeSize :: "Env \<Rightarrow> StateDB \<Rightarrow> stateObject \<Rightarrow> int \<times> StateDB" where
  "so_CodeSize E s obj =
     (if so_code obj \<noteq> [] then (int (length (so_code obj)), s)
      else if CodeHash (so_data obj) = EmptyCodeHash E then (0, s)
      else
        let h = CodeHash (so_data obj);
            (size, err) = env_CodeSize E (so_address obj) h;
            s = (case err of Some e \<Rightarrow> setError (CodeError h e) s | None \<Rightarrow> s);
            s = (if size = 0 then setError (CodeNotFound h) s else s)
        in (size, s))"

text \<open>The loop of \<^verbatim>\<open>finalise\<close> over the dirty slots, in the order the runtime ranges over them.\<close>

definition so_finalise_slot :: "Env \<Rightarrow> hash \<Rightarrow> StateDB \<times> stateObject \<Rightarrow> StateDB \<times> stateObject" where
  "so_finalise_slot E key = (\<lambda>(s, obj).
     case fmlookup (so_dirtyStorage obj) key of
       None \<Rightarrow> (s, obj)
     | Some v \<Rightarrow>
         let (s, obj) =
           (case fmlookup (so_uncommittedStorage obj) key of
              Some origin \<Rightarrow>
                if origin = v
                then (s, obj\<lparr>so_uncommittedStorage := fmdrop key (so_uncommittedStorage obj)\<rparr>)
                else (s, obj)
            | None \<Rightarrow>
                let (w, s, obj) = so_GetCommittedState E key s obj
                in (s, obj\<lparr>so_uncommittedStorage := fmupd key w (so_uncommittedStorage obj)\<rparr>))
         in (s, obj\<lparr>so_pendingStorage := fmupd key v (so_pendingStorage obj)\<rparr>))"

definition so_finalise :: "Env \<Rightarrow> StateDB \<Rightarrow> stateObject \<Rightarrow> StateDB \<times> stateObject" where
  "so_finalise E s obj =
     (let (s, obj) = fold (so_finalise_slot E) (env_range_key E (fmdom (so_dirtyStorage obj))) (s, obj);
          obj = obj\<lparr>so_dirtyStorage := fmempty\<rparr>
      in (s, obj\<lparr>so_newContract := False\<rparr>))"

definition so_deepCopy :: "stateObject \<Rightarrow> stateObject" where
  "so_deepCopy obj =
     \<lparr>so_address = so_address obj, so_origin = so_origin obj, so_data = so_data obj,
      so_code = so_code obj, so_originStorage = Storage_Copy (so_originStorage obj),
      so_dirtyStorage = Storage_Copy (so_dirtyStorage obj),
      so_pendingStorage = Storage_Copy (so_pendingStorage obj),
      so_uncommittedStorage = Storage_Copy (so_uncommittedStorage obj),
      so_dirtyCode = so_dirtyCode obj, so_selfDestructed = so_selfDestructed obj,
      so_newContract = so_newContract obj\<rparr>"

subsection \<open>Getters\<close>

definition Exist :: "Env \<Rightarrow> address \<Rightarrow> StateDB \<Rightarrow> bool \<times> StateDB" where
  "Exist E addr s = (let (s, obj) = getStateObject E addr s in (obj \<noteq> None, s))"

definition Empty :: "Env \<Rightarrow> address \<Rightarrow> StateDB \<Rightarrow> bool \<times> StateDB" where
  "Empty E addr s =
     (let (s, so) = getStateObject E addr s
      in (case so of None \<Rightarrow> True | Some obj \<Rightarrow> so_empty E obj, s))"

definition GetBalance :: "Env \<Rightarrow> address \<Rightarrow> StateDB \<Rightarrow> u256 \<times> StateDB" where
  "GetBalance E addr s =
     (let (s, so) = getStateObject E addr s
      in (case so of Some obj \<Rightarrow> Balance (so_data obj) | None \<Rightarrow> 0, s))"

definition GetNonce :: "Env \<Rightarrow> address \<Rightarrow> StateDB \<Rightarrow> u64 \<times> StateDB" where
  "GetNonce E addr s =
     (let (s, so) = getStateObject E addr s
      in (case so of Some obj \<Rightarrow> Nonce (so_data obj) | None \<Rightarrow> 0, s))"

definition GetStorageRoot :: "Env \<Rightarrow> address \<Rightarrow> StateDB \<Rightarrow> hash \<times> StateDB" where
  "GetStorageRoot E addr s =
     (let (s, so) = getStateObject E addr s
      in (case so of Some obj \<Rightarrow> Root (so_data obj) | None \<Rightarrow> 0, s))"

definition GetCode :: "Env \<Rightarrow> address \<Rightarrow> StateDB \<Rightarrow> bytes \<times> StateDB" where
  "GetCode E addr s =
     (case getStateObject E addr s of
        (s, Some obj) \<Rightarrow> let (c, s, obj) = so_Code E s obj in (c, setStateObject obj s)
      | (s, None) \<Rightarrow> ([], s))"

definition GetCodeSize :: "Env \<Rightarrow> address \<Rightarrow> StateDB \<Rightarrow> int \<times> StateDB" where
  "GetCodeSize E addr s =
     (case getStateObject E addr s of
        (s, Some obj) \<Rightarrow> so_CodeSize E s obj
      | (s, None) \<Rightarrow> (0, s))"

definition GetCodeHash :: "Env \<Rightarrow> address \<Rightarrow> StateDB \<Rightarrow> hash \<times> StateDB" where
  "GetCodeHash E addr s =
     (let (s, so) = getStateObject E addr s
      in (case so of Some obj \<Rightarrow> CodeHash (so_data obj) | None \<Rightarrow> 0, s))"

definition GetStateAndCommittedState :: "Env \<Rightarrow> address \<Rightarrow> hash \<Rightarrow> StateDB \<Rightarrow> (hash \<times> hash) \<times> StateDB" where
  "GetStateAndCommittedState E addr key s =
     (case getStateObject E addr s of
        (s, Some obj) \<Rightarrow> let (vs, s, obj) = so_getState E key s obj in (vs, setStateObject obj s)
      | (s, None) \<Rightarrow> ((0, 0), s))"

definition GetState :: "Env \<Rightarrow> address \<Rightarrow> hash \<Rightarrow> StateDB \<Rightarrow> hash \<times> StateDB" where
  "GetState E addr key s =
     (case getStateObject E addr s of
        (s, Some obj) \<Rightarrow>
          let ((v, _), s, obj) = so_getState E key s obj in (v, setStateObject obj s)
      | (s, None) \<Rightarrow> (0, s))"

definition GetCommittedState :: "Env \<Rightarrow> address \<Rightarrow> hash \<Rightarrow> StateDB \<Rightarrow> hash \<times> StateDB" where
  "GetCommittedState E addr key s =
     (case getStateObject E addr s of
        (s, Some obj) \<Rightarrow> let (v, s, obj) = so_GetCommittedState E key s obj in (v, setStateObject obj s)
      | (s, None) \<Rightarrow> (0, s))"

definition HasSelfDestructed :: "Env \<Rightarrow> address \<Rightarrow> StateDB \<Rightarrow> bool \<times> StateDB" where
  "HasSelfDestructed E addr s =
     (let (s, so) = getStateObject E addr s
      in (case so of Some obj \<Rightarrow> so_selfDestructed obj | None \<Rightarrow> False, s))"

definition GetTransientState :: "address \<Rightarrow> hash \<Rightarrow> StateDB \<Rightarrow> hash" where
  "GetTransientState addr key s = ts_Get (sdb_transientStorage s) addr key"

definition GetRefund :: "StateDB \<Rightarrow> u64" where
  "GetRefund s = sdb_refund s"

definition AddressInAccessList :: "address \<Rightarrow> StateDB \<Rightarrow> bool" where
  "AddressInAccessList addr s = ContainsAddress (sdb_accessList s) addr"

definition SlotInAccessList :: "address \<Rightarrow> hash \<Rightarrow> StateDB \<Rightarrow> (bool \<times> bool) option" where
  "SlotInAccessList addr slot s = al_Contains (sdb_accessList s) addr slot"

text \<open>\<^verbatim>\<open>GetLogs\<close> annotates the shared log objects in place.\<close>

definition GetLogs :: "hash \<Rightarrow> u64 \<Rightarrow> hash \<Rightarrow> u64 \<Rightarrow> StateDB \<Rightarrow> Log list \<times> StateDB" where
  "GetLogs h blockNumber blockHash blockTime s =
     (case fmlookup (sdb_logs s) h of
        None \<Rightarrow> ([], s)
      | Some logs \<Rightarrow>
          let logs = map (\<lambda>l. l\<lparr>log_BlockNumber := blockNumber, log_BlockHash := blockHash,
                log_BlockTimestamp := blockTime\<rparr>) logs
          in (logs, s\<lparr>sdb_logs := fmupd h logs (sdb_logs s)\<rparr>))"

definition GetCurrentTxLogs :: "StateDB \<Rightarrow> Log list" where
  "GetCurrentTxLogs s = (case fmlookup (sdb_logs s) (sdb_thash s) of None \<Rightarrow> [] | Some ls \<Rightarrow> ls)"

definition GetUnexpectedBalanceDelta :: "StateDB \<Rightarrow> int" where
  "GetUnexpectedBalanceDelta s = arb_unexpectedBalanceDelta (arbExtraData s)"

subsection \<open>Setters\<close>

definition add_delta :: "int \<Rightarrow> StateDB \<Rightarrow> StateDB" where
  "add_delta d s =
     s\<lparr>arbExtraData := (arbExtraData s)
        \<lparr>arb_unexpectedBalanceDelta := arb_unexpectedBalanceDelta (arbExtraData s) + d\<rparr>\<rparr>"

definition AddBalance :: "Env \<Rightarrow> address \<Rightarrow> u256 \<Rightarrow> StateDB \<Rightarrow> u256 \<times> StateDB" where
  "AddBalance E addr amount s =
     (let (s, obj) = getOrNewStateObject E addr s;
          s = add_delta (uint amount) s;
          (prev, s, obj) = so_AddBalance E amount s obj
      in (prev, setStateObject obj s))"

definition SubBalance :: "Env \<Rightarrow> address \<Rightarrow> u256 \<Rightarrow> StateDB \<Rightarrow> u256 \<times> StateDB" where
  "SubBalance E addr amount s =
     (let (s, obj) = getOrNewStateObject E addr s
      in if amount = 0 then (Balance (so_data obj), s)
         else
           let s = add_delta (- uint amount) s;
               (prev, s, obj) = so_SetBalance (Balance (so_data obj) - amount) s obj
           in (prev, setStateObject obj s))"

text \<open>A nil amount is zero.\<close>

definition SetBalance :: "Env \<Rightarrow> address \<Rightarrow> u256 option \<Rightarrow> StateDB \<Rightarrow> StateDB" where
  "SetBalance E addr amount s =
     (let (s, obj) = getOrNewStateObject E addr s;
          amount = (case amount of None \<Rightarrow> 0 | Some a \<Rightarrow> a);
          prevBalance = Balance (so_data obj);
          s = add_delta (uint amount) s;
          s = add_delta (- uint prevBalance) s;
          (_, s, obj) = so_SetBalance amount s obj
      in setStateObject obj s)"

definition ExpectBalanceBurn :: "int \<Rightarrow> StateDB \<Rightarrow> StateDB option" where
  "ExpectBalanceBurn amount s = (if amount < 0 then None else Some (add_delta amount s))"

definition ExpectBalanceMint :: "int \<Rightarrow> StateDB \<Rightarrow> StateDB option" where
  "ExpectBalanceMint amount s = (if amount < 0 then None else Some (add_delta (- amount) s))"

definition SetNonce :: "Env \<Rightarrow> address \<Rightarrow> u64 \<Rightarrow> StateDB \<Rightarrow> StateDB" where
  "SetNonce E addr nonce s =
     (let (s, obj) = getOrNewStateObject E addr s; (s, obj) = so_SetNonce nonce s obj
      in setStateObject obj s)"

definition SetCode :: "Env \<Rightarrow> address \<Rightarrow> bytes \<Rightarrow> StateDB \<Rightarrow> bytes \<times> StateDB" where
  "SetCode E addr code s =
     (let (s, obj) = getOrNewStateObject E addr s;
          (prev, s, obj) = so_SetCode (env_keccak E code) code s obj
      in (prev, setStateObject obj s))"

definition SetState :: "Env \<Rightarrow> address \<Rightarrow> hash \<Rightarrow> hash \<Rightarrow> StateDB \<Rightarrow> hash \<times> StateDB" where
  "SetState E addr key v s =
     (let (s, obj) = getOrNewStateObject E addr s; (prev, s, obj) = so_SetState E key v s obj
      in (prev, setStateObject obj s))"

definition SetStorage :: "Env \<Rightarrow> address \<Rightarrow> Storage \<Rightarrow> StateDB \<Rightarrow> StateDB" where
  "SetStorage E addr storage s =
     (let (s, obj) = getStateObject E addr s;
          s = (case obj of
                 None \<Rightarrow> s
               | Some o' \<Rightarrow>
                   if fmlookup (stateObjectsDestruct s) addr = None
                   then s\<lparr>stateObjectsDestruct := fmupd addr o' (stateObjectsDestruct s)\<rparr> else s);
          (s, newObj) = createObject E addr s;
          (s, newObj) =
            fold (\<lambda>k (s, o'). let (_, s, o') = so_SetState E k (Storage_get storage k) s o' in (s, o'))
              (env_range_key E (fmdom storage)) (s, newObj);
          (s, newObj) =
            (case obj of
               None \<Rightarrow> (s, newObj)
             | Some o' \<Rightarrow>
                 let (_, s, newObj) = so_SetCode (CodeHash (so_data o')) (so_code o') s newObj;
                     (s, newObj) = so_SetNonce (Nonce (so_data o')) s newObj;
                     (_, s, newObj) = so_SetBalance (Balance (so_data o')) s newObj
                 in (s, newObj))
      in setStateObject newObj s)"

definition SelfDestruct :: "Env \<Rightarrow> address \<Rightarrow> StateDB \<Rightarrow> u256 \<times> StateDB" where
  "SelfDestruct E addr s =
     (case getStateObject E addr s of
        (s, None) \<Rightarrow> (0, s)
      | (s, Some obj) \<Rightarrow>
          let prevBalance = Balance (so_data obj);
              (s, obj) =
                (if prevBalance \<noteq> 0 then
                   let s = add_delta (- uint prevBalance) s; (_, s, obj) = so_SetBalance 0 s obj in (s, obj)
                 else (s, obj));
              (s, obj) =
                (if \<not> so_selfDestructed obj
                 then (sdb_append (selfDestructChange addr) s, obj\<lparr>so_selfDestructed := True\<rparr>)
                 else (s, obj))
          in (prevBalance, setStateObject obj s))"

definition SelfDestruct6780 :: "Env \<Rightarrow> address \<Rightarrow> StateDB \<Rightarrow> (u256 \<times> bool) \<times> StateDB" where
  "SelfDestruct6780 E addr s =
     (case getStateObject E addr s of
        (s, None) \<Rightarrow> ((0, False), s)
      | (s, Some obj) \<Rightarrow>
          if so_newContract obj then let (b, s) = SelfDestruct E addr s in ((b, True), s)
          else ((Balance (so_data obj), False), s))"

definition setTransientState :: "address \<Rightarrow> hash \<Rightarrow> hash \<Rightarrow> StateDB \<Rightarrow> StateDB" where
  "setTransientState addr key v s = s\<lparr>sdb_transientStorage := ts_Set (sdb_transientStorage s) addr key v\<rparr>"

definition SetTransientState :: "address \<Rightarrow> hash \<Rightarrow> hash \<Rightarrow> StateDB \<Rightarrow> StateDB" where
  "SetTransientState addr key v s =
     (let prev = GetTransientState addr key s
      in if prev = v then s
         else setTransientState addr key v (sdb_append (transientStorageChange addr key prev) s))"

definition AddLog :: "Log \<Rightarrow> StateDB \<Rightarrow> StateDB" where
  "AddLog log s =
     (let s = sdb_append (addLogChange (sdb_thash s)) s;
          log = log\<lparr>log_TxHash := sdb_thash s, log_TxIndex := word_of_int (sdb_txIndex s), log_Index := sdb_logSize s\<rparr>;
          logs = (case fmlookup (sdb_logs s) (sdb_thash s) of None \<Rightarrow> [] | Some ls \<Rightarrow> ls)
      in s\<lparr>sdb_logs := fmupd (sdb_thash s) (logs @ [log]) (sdb_logs s), sdb_logSize := sdb_logSize s + 1\<rparr>)"

definition AddPreimage :: "hash \<Rightarrow> bytes \<Rightarrow> StateDB \<Rightarrow> StateDB" where
  "AddPreimage h preimage s =
     (if fmlookup (sdb_preimages s) h = None then s\<lparr>sdb_preimages := fmupd h preimage (sdb_preimages s)\<rparr> else s)"

definition AddRefund :: "u64 \<Rightarrow> StateDB \<Rightarrow> StateDB" where
  "AddRefund gas s =
     (let s = sdb_append (refundChange (sdb_refund s)) s in s\<lparr>sdb_refund := sdb_refund s + gas\<rparr>)"

definition SubRefund :: "u64 \<Rightarrow> StateDB \<Rightarrow> StateDB option" where
  "SubRefund gas s =
     (let s = sdb_append (refundChange (sdb_refund s)) s
      in if gas > sdb_refund s then None else Some (s\<lparr>sdb_refund := sdb_refund s - gas\<rparr>))"

definition CreateAccount :: "Env \<Rightarrow> address \<Rightarrow> StateDB \<Rightarrow> StateDB" where
  "CreateAccount E addr s = fst (createObject E addr s)"

definition CreateContract :: "Env \<Rightarrow> address \<Rightarrow> StateDB \<Rightarrow> StateDB option" where
  "CreateContract E addr s =
     (case getStateObject E addr s of
        (s, None) \<Rightarrow> None
      | (s, Some obj) \<Rightarrow>
          if \<not> so_newContract obj
          then Some (sdb_append (createContractChange addr) (setStateObject (obj\<lparr>so_newContract := True\<rparr>) s))
          else Some s)"

definition CreateZombieIfDeleted :: "Env \<Rightarrow> address \<Rightarrow> StateDB \<Rightarrow> StateDB" where
  "CreateZombieIfDeleted E addr s =
     (case getStateObject E addr s of
        (s, Some obj) \<Rightarrow> s
      | (s, None) \<Rightarrow>
          if fmlookup (stateObjectsDestruct s) addr \<noteq> None then fst (createZombie E addr s) else s)"

definition AddAddressToAccessList :: "address \<Rightarrow> StateDB \<Rightarrow> StateDB" where
  "AddAddressToAccessList addr s =
     (let (al, added) = AddAddress (sdb_accessList s) addr; s = s\<lparr>sdb_accessList := al\<rparr>
      in if added then sdb_append (accessListAddAccountChange addr) s else s)"

definition AddSlotToAccessList :: "address \<Rightarrow> hash \<Rightarrow> StateDB \<Rightarrow> StateDB option" where
  "AddSlotToAccessList addr slot s =
     (case AddSlot (sdb_accessList s) addr slot of
        None \<Rightarrow> None
      | Some (al, addrMod, slotMod) \<Rightarrow>
          let s = s\<lparr>sdb_accessList := al\<rparr>;
              s = (if addrMod then sdb_append (accessListAddAccountChange addr) s else s);
              s = (if slotMod then sdb_append (accessListAddSlotChange addr slot) s else s)
          in Some s)"

record Rules =
  IsArbitrum :: bool
  IsStylus :: bool
  IsGreaterEqual41 :: bool
  IsDia :: bool
  IsGreaterEqual60 :: bool
  ChainID :: int
  ArbOSVersion :: u64
  IsHomestead :: bool
  IsEIP150 :: bool
  IsEIP155 :: bool
  IsEIP158 :: bool
  IsEIP2929 :: bool
  IsEIP4762 :: bool
  IsByzantium :: bool
  IsConstantinople :: bool
  IsPetersburg :: bool
  IsIstanbul :: bool
  IsBerlin :: bool
  IsLondon :: bool
  IsMerge :: bool
  IsShanghai :: bool
  IsCancun :: bool
  IsPrague :: bool
  IsOsaka :: bool
  IsAmsterdam :: bool
  IsVerkle :: bool

fun add_slots :: "address \<Rightarrow> hash list \<Rightarrow> accessList \<Rightarrow> accessList option" where
  "add_slots addr [] al = Some al"
| "add_slots addr (key # ks) al =
     do { (al, _) \<leftarrow> AddSlot al addr key; add_slots addr ks al }"

fun add_tuples :: "AccessTuple list \<Rightarrow> accessList \<Rightarrow> accessList option" where
  "add_tuples [] al = Some al"
| "add_tuples ((addr, keys) # els) al =
     do { al \<leftarrow> add_slots addr keys (fst (AddAddress al addr)); add_tuples els al }"

definition Prepare ::
  "Rules \<Rightarrow> address \<Rightarrow> address \<Rightarrow> address option \<Rightarrow> address list \<Rightarrow> AccessTuple list \<Rightarrow> StateDB \<Rightarrow> StateDB option" where
  "Prepare rules sender coinbase dst precompiles list s =
     (if IsEIP2929 rules \<and> IsEIP4762 rules then None
      else do {
        s \<leftarrow> (if IsEIP2929 rules then
               let al = newAccessList;
                   al = fst (AddAddress al sender);
                   al = (case dst of Some d \<Rightarrow> fst (AddAddress al d) | None \<Rightarrow> al);
                   al = fold (\<lambda>addr al. fst (AddAddress al addr)) precompiles al
               in do {
                 al \<leftarrow> add_tuples list al;
                 Some (s\<lparr>sdb_accessList := if IsShanghai rules then fst (AddAddress al coinbase) else al\<rparr>)
               }
             else Some s);
        Some (s\<lparr>sdb_transientStorage := newTransientStorage\<rparr>)
      })"

definition SetTxContext :: "hash \<Rightarrow> int \<Rightarrow> StateDB \<Rightarrow> StateDB" where
  "SetTxContext thash ti s =
     s\<lparr>sdb_thash := thash, sdb_txIndex := ti,
       arbExtraData := (arbExtraData s)\<lparr>arb_openWasmPages := 0, arb_everWasmPages := 0\<rparr>\<rparr>"

subsection \<open>Stylus programs\<close>

definition TargetWasm :: WasmTarget where "TargetWasm = ''wasm''"
definition TargetArm64 :: WasmTarget where "TargetArm64 = ''arm64''"
definition TargetAmd64 :: WasmTarget where "TargetAmd64 = ''amd64''"
definition TargetHost :: WasmTarget where "TargetHost = ''host''"
definition TargetArm64Cranelift :: WasmTarget where "TargetArm64Cranelift = ''arm64-cranelift''"
definition TargetAmd64Cranelift :: WasmTarget where "TargetAmd64Cranelift = ''amd64-cranelift''"
definition TargetHostCranelift :: WasmTarget where "TargetHostCranelift = ''host-cranelift''"

definition CraneliftTarget :: "WasmTarget \<Rightarrow> WasmTarget option" where
  "CraneliftTarget target =
     (if target = TargetArm64 then Some TargetArm64Cranelift
      else if target = TargetAmd64 then Some TargetAmd64Cranelift
      else if target = TargetHost then Some TargetHostCranelift
      else None)"

definition BaseTarget :: "WasmTarget \<Rightarrow> WasmTarget option" where
  "BaseTarget target =
     (if target = TargetArm64Cranelift then Some TargetArm64
      else if target = TargetAmd64Cranelift then Some TargetAmd64
      else if target = TargetHostCranelift then Some TargetHost
      else None)"

definition hasAsmForTarget :: "ActivatedWasm \<Rightarrow> WasmTarget \<Rightarrow> bool" where
  "hasAsmForTarget asmMap target =
     (if fmlookup asmMap target \<noteq> None then True
      else if (case CraneliftTarget target of Some t \<Rightarrow> fmlookup asmMap t \<noteq> None | None \<Rightarrow> False) then True
      else (case BaseTarget target of Some t \<Rightarrow> fmlookup asmMap t \<noteq> None | None \<Rightarrow> False))"

definition inconsistent_targets :: "ActivatedWasm \<Rightarrow> ActivatedWasm \<Rightarrow> bool" where
  "inconsistent_targets asmMap previouslyActivated \<longleftrightarrow>
     fcard (fmdom asmMap) \<noteq> fcard (fmdom previouslyActivated) \<or>
     fBex (fmdom previouslyActivated) (\<lambda>target. \<not> hasAsmForTarget asmMap target)"

text \<open>
  The consistency check looks at the first activated module the range yields. \<open>Inl\<close> is the
  error, with the state as it was.
\<close>

definition ActivateWasm :: "Env \<Rightarrow> hash \<Rightarrow> ActivatedWasm \<Rightarrow> StateDB \<Rightarrow> string + StateDB" where
  "ActivateWasm E moduleHash asmMap s =
     (let activated = arb_activatedWasms (arbExtraData s);
          inconsistent =
            (case env_range_wasm E (fmdom activated) of
               [] \<Rightarrow> False
             | h # _ \<Rightarrow> (case fmlookup activated h of
                          Some prev \<Rightarrow> inconsistent_targets asmMap prev | None \<Rightarrow> False))
      in if inconsistent then Inl ''inconsistent stylus compile targets''
         else if fmlookup activated moduleHash \<noteq> None then Inr s
         else Inr (sdb_append (wasmActivation moduleHash)
                (s\<lparr>arbExtraData := (arbExtraData s)\<lparr>arb_activatedWasms := fmupd moduleHash asmMap activated\<rparr>\<rparr>)))"

definition ActivatedAsm :: "Env \<Rightarrow> WasmTarget \<Rightarrow> hash \<Rightarrow> StateDB \<Rightarrow> bytes" where
  "ActivatedAsm E target moduleHash s =
     (case fmlookup (arb_activatedWasms (arbExtraData s)) moduleHash of
        Some asmMap \<Rightarrow>
          (case fmlookup asmMap target of Some asm \<Rightarrow> asm | None \<Rightarrow> env_ActivatedAsm E target moduleHash)
      | None \<Rightarrow> env_ActivatedAsm E target moduleHash)"

text \<open>\<open>Inl\<close> carries the missing targets with the error; \<open>Inr\<close> the map found and the missing targets.\<close>

definition ActivatedAsmMap ::
  "Env \<Rightarrow> WasmTarget list \<Rightarrow> hash \<Rightarrow> StateDB \<Rightarrow> WasmTarget list + ActivatedWasm \<times> WasmTarget list" where
  "ActivatedAsmMap E targets moduleHash s =
     (case fmlookup (arb_activatedWasms (arbExtraData s)) moduleHash of
        Some asmMap \<Rightarrow>
          if list_ex (\<lambda>target. \<not> hasAsmForTarget asmMap target) targets then Inl targets
          else Inr (asmMap, [])
      | None \<Rightarrow>
          Inr (fold (\<lambda>target (asmMap, missing).
                 let asm = env_ActivatedAsm E target moduleHash
                 in if length asm > 0 then (fmupd target asm asmMap, missing)
                    else (asmMap, missing @ [target])) targets (fmempty, [])))"

definition StartRecording :: "StateDB \<Rightarrow> StateDB" where
  "StartRecording s = s\<lparr>arbExtraData := (arbExtraData s)\<lparr>arb_userWasms := Some fmempty\<rparr>\<rparr>"

definition RecordProgram :: "Env \<Rightarrow> WasmTarget list \<Rightarrow> hash \<Rightarrow> StateDB \<Rightarrow> WasmTarget list + StateDB" where
  "RecordProgram E targets moduleHash s =
     (if targets = [] then Inr s
      else case ActivatedAsmMap E targets moduleHash s of
        Inl missing \<Rightarrow> Inl missing
      | Inr (asmMap, missing) \<Rightarrow>
          if missing \<noteq> [] then Inl missing
          else case arb_userWasms (arbExtraData s) of
            None \<Rightarrow> Inr s
          | Some user \<Rightarrow>
              Inr (s\<lparr>arbExtraData := (arbExtraData s)\<lparr>arb_userWasms := Some (fmupd moduleHash asmMap user)\<rparr>\<rparr>))"

text \<open>These two append to the slice of entries directly.\<close>

definition RecordCacheWasm :: "hash \<Rightarrow> u16 \<Rightarrow> u32 \<Rightarrow> bool \<Rightarrow> StateDB \<Rightarrow> StateDB" where
  "RecordCacheWasm moduleHash version tag debug s =
     s\<lparr>sdb_journal := (sdb_journal s)
        \<lparr>jr_entries := jr_entries (sdb_journal s) @ [CacheWasm moduleHash version tag debug]\<rparr>\<rparr>"

definition RecordEvictWasm :: "hash \<Rightarrow> u16 \<Rightarrow> u32 \<Rightarrow> bool \<Rightarrow> StateDB \<Rightarrow> StateDB" where
  "RecordEvictWasm moduleHash version tag debug s =
     s\<lparr>sdb_journal := (sdb_journal s)
        \<lparr>jr_entries := jr_entries (sdb_journal s) @ [EvictWasm moduleHash version tag debug]\<rparr>\<rparr>"

definition GetStylusPages :: "StateDB \<Rightarrow> u16 \<times> u16" where
  "GetStylusPages s = (arb_openWasmPages (arbExtraData s), arb_everWasmPages (arbExtraData s))"

definition SetStylusPages :: "u16 \<Rightarrow> u16 \<Rightarrow> StateDB \<Rightarrow> StateDB" where
  "SetStylusPages open ever s =
     s\<lparr>arbExtraData := (arbExtraData s)\<lparr>arb_openWasmPages := open, arb_everWasmPages := ever\<rparr>\<rparr>"

definition SetStylusPagesOpen :: "u16 \<Rightarrow> StateDB \<Rightarrow> StateDB" where
  "SetStylusPagesOpen open s = s\<lparr>arbExtraData := (arbExtraData s)\<lparr>arb_openWasmPages := open\<rparr>\<rparr>"

definition AddStylusPages :: "u16 \<Rightarrow> StateDB \<Rightarrow> (u16 \<times> u16) \<times> StateDB" where
  "AddStylusPages new s =
     (let (open, ever) = GetStylusPages s;
          open' = SaturatingUAdd open new
      in ((open, ever),
          s\<lparr>arbExtraData := (arbExtraData s)
             \<lparr>arb_openWasmPages := open', arb_everWasmPages := MaxInt ever open'\<rparr>\<rparr>))"

definition AddStylusPagesEver :: "u16 \<Rightarrow> StateDB \<Rightarrow> StateDB" where
  "AddStylusPagesEver new s =
     s\<lparr>arbExtraData := (arbExtraData s)
        \<lparr>arb_everWasmPages := SaturatingUAdd (arb_everWasmPages (arbExtraData s)) new\<rparr>\<rparr>"

definition FilterTx :: "StateDB \<Rightarrow> StateDB" where
  "FilterTx s = s\<lparr>arbExtraData := (arbExtraData s)\<lparr>arb_arbTxFilter := True\<rparr>\<rparr>"

definition ClearTxFilter :: "StateDB \<Rightarrow> StateDB" where
  "ClearTxFilter s = s\<lparr>arbExtraData := (arbExtraData s)\<lparr>arb_arbTxFilter := False\<rparr>\<rparr>"

definition IsTxFiltered :: "StateDB \<Rightarrow> bool" where
  "IsTxFiltered s = arb_arbTxFilter (arbExtraData s)"

subsection \<open>Snapshots and reverting\<close>

text \<open>\<^verbatim>\<open>s.getStateObject(a).m(...)\<close>: a nil object panics.\<close>

definition on_object :: "Env \<Rightarrow> address \<Rightarrow> (stateObject \<Rightarrow> stateObject) \<Rightarrow> StateDB \<Rightarrow> StateDB option" where
  "on_object E addr f s =
     (case getStateObject E addr s of
        (s, None) \<Rightarrow> None
      | (s, Some obj) \<Rightarrow> Some (setStateObject (f obj) s))"

fun revert_entry :: "Env \<Rightarrow> journalEntry \<Rightarrow> StateDB \<Rightarrow> StateDB option" where
  "revert_entry E (createObjectChange a) s = Some (s\<lparr>stateObjects := fmdrop a (stateObjects s)\<rparr>)"
| "revert_entry E (createZombieChange a) s = Some (s\<lparr>stateObjects := fmdrop a (stateObjects s)\<rparr>)"
| "revert_entry E (createContractChange a) s = on_object E a (\<lambda>obj. obj\<lparr>so_newContract := False\<rparr>) s"
| "revert_entry E (selfDestructChange a) s =
     (case getStateObject E a s of
        (s, None) \<Rightarrow> Some s
      | (s, Some obj) \<Rightarrow> Some (setStateObject (obj\<lparr>so_selfDestructed := False\<rparr>) s))"
| "revert_entry E (balanceChange a prev) s = on_object E a (so_setBalance prev) s"
| "revert_entry E (nonceChange a prev) s = on_object E a (so_setNonce prev) s"
| "revert_entry E (storageChange a key prev orig) s = on_object E a (so_setState key prev orig) s"
| "revert_entry E (codeChange a prev) s = on_object E a (so_setCode (env_keccak E prev) prev) s"
| "revert_entry E (refundChange prev) s = Some (s\<lparr>sdb_refund := prev\<rparr>)"
| "revert_entry E (addLogChange h) s =
     (let logs = (case fmlookup (sdb_logs s) h of None \<Rightarrow> [] | Some ls \<Rightarrow> ls)
      in if length logs = 1
         then Some (s\<lparr>sdb_logs := fmdrop h (sdb_logs s), sdb_logSize := sdb_logSize s - 1\<rparr>)
         else if length logs = 0 then None
         else Some (s\<lparr>sdb_logs := fmupd h (butlast logs) (sdb_logs s), sdb_logSize := sdb_logSize s - 1\<rparr>))"
| "revert_entry E (touchChange a) s = Some s"
| "revert_entry E (accessListAddAccountChange a) s =
     Some (s\<lparr>sdb_accessList := DeleteAddress (sdb_accessList s) a\<rparr>)"
| "revert_entry E (accessListAddSlotChange a slot) s =
     map_option (\<lambda>al. s\<lparr>sdb_accessList := al\<rparr>) (DeleteSlot (sdb_accessList s) a slot)"
| "revert_entry E (transientStorageChange a key prev) s = Some (setTransientState a key prev s)"
| "revert_entry E (wasmActivation h) s =
     Some (s\<lparr>arbExtraData := (arbExtraData s)
       \<lparr>arb_activatedWasms := fmdrop h (arb_activatedWasms (arbExtraData s))\<rparr>\<rparr>)"
| "revert_entry E (CacheWasm h version tag debug) s =
     Some (s\<lparr>sdb_rust := sdb_rust s @ [EvictWasmRust h version tag debug]\<rparr>)"
| "revert_entry E (EvictWasm h version tag debug) s =
     (let asm = ActivatedAsm E (env_LocalTarget E) h s
      in Some (if length asm \<noteq> 0 then s\<lparr>sdb_rust := sdb_rust s @ [CacheWasmRust asm h version tag debug]\<rparr> else s))"

fun revert_loop :: "Env \<Rightarrow> journalEntry list \<Rightarrow> StateDB \<Rightarrow> StateDB option" where
  "revert_loop E [] s = Some s"
| "revert_loop E (e # es) s =
     (case revert_entry E e s of
        None \<Rightarrow> None
      | Some s \<Rightarrow> revert_loop E es (s\<lparr>sdb_journal := journal_undirty e (sdb_journal s)\<rparr>))"

definition journal_revert :: "Env \<Rightarrow> nat \<Rightarrow> StateDB \<Rightarrow> StateDB option" where
  "journal_revert E snapshot s =
     map_option
       (\<lambda>s. s\<lparr>sdb_journal := (sdb_journal s)\<lparr>jr_entries := take snapshot (jr_entries (sdb_journal s))\<rparr>\<rparr>)
       (revert_loop E (rev (drop snapshot (jr_entries (sdb_journal s)))) s)"

definition Snapshot :: "StateDB \<Rightarrow> int \<times> StateDB" where
  "Snapshot s =
     (let j = sdb_journal s; id = jr_nextRevisionId j;
          r = \<lparr>rev_id = id, rev_journalIndex = journal_length j,
               rev_unexpectedBalanceDelta = arb_unexpectedBalanceDelta (arbExtraData s)\<rparr>
      in (id, s\<lparr>sdb_journal := j\<lparr>jr_nextRevisionId := id + 1, jr_validRevisions := jr_validRevisions j @ [r]\<rparr>\<rparr>))"

definition RevertToSnapshot :: "Env \<Rightarrow> int \<Rightarrow> StateDB \<Rightarrow> StateDB option" where
  "RevertToSnapshot E revid s =
     (let revs = jr_validRevisions (sdb_journal s);
          idx = sort_Search (length revs) (\<lambda>i. rev_id (revs ! i) \<ge> revid)
      in if idx = length revs \<or> rev_id (revs ! idx) \<noteq> revid then None
         else
           let r = revs ! idx;
               s = s\<lparr>arbExtraData := (arbExtraData s)\<lparr>arb_unexpectedBalanceDelta := rev_unexpectedBalanceDelta r\<rparr>\<rparr>
           in map_option
                (\<lambda>s. s\<lparr>sdb_journal := (sdb_journal s)\<lparr>jr_validRevisions := take idx (jr_validRevisions (sdb_journal s))\<rparr>\<rparr>)
                (journal_revert E (rev_journalIndex r) s))"

subsection \<open>The end of a transaction\<close>

definition markDelete :: "address \<Rightarrow> StateDB \<Rightarrow> StateDB" where
  "markDelete addr s = s\<lparr>mutations := fmupd addr \<lparr>mut_typ = deletion, mut_applied = False\<rparr> (mutations s)\<rparr>"

definition markUpdate :: "address \<Rightarrow> StateDB \<Rightarrow> StateDB" where
  "markUpdate addr s = s\<lparr>mutations := fmupd addr \<lparr>mut_typ = update, mut_applied = False\<rparr> (mutations s)\<rparr>"

definition clearJournalAndRefund :: "StateDB \<Rightarrow> StateDB" where
  "clearJournalAndRefund s = s\<lparr>sdb_journal := journal_reset (sdb_journal s), sdb_refund := 0\<rparr>"

definition finalise_addr :: "Env \<Rightarrow> bool \<Rightarrow> address \<Rightarrow> StateDB \<Rightarrow> StateDB" where
  "finalise_addr E deleteEmptyObjects addr s =
     (let dirtyCount = fm_get (jr_dirties (sdb_journal s)) addr;
          is_zombie = (fm_get (jr_zombieEntries (sdb_journal s)) addr = dirtyCount)
      in case fmlookup (stateObjects s) addr of
           None \<Rightarrow> s
         | Some obj \<Rightarrow>
             if so_selfDestructed obj \<or> (deleteEmptyObjects \<and> so_empty E obj \<and> \<not> is_zombie) then
               let s = s\<lparr>stateObjects := fmdrop (so_address obj) (stateObjects s)\<rparr>;
                   s = markDelete addr s
               in if fmlookup (stateObjectsDestruct s) (so_address obj) = None
                  then s\<lparr>stateObjectsDestruct := fmupd (so_address obj) obj (stateObjectsDestruct s)\<rparr>
                  else s
             else
               let (s, obj) = so_finalise E s obj in markUpdate addr (setStateObject obj s))"

definition Finalise :: "Env \<Rightarrow> bool \<Rightarrow> StateDB \<Rightarrow> StateDB" where
  "Finalise E deleteEmptyObjects s =
     clearJournalAndRefund
       (fold (finalise_addr E deleteEmptyObjects) (env_range_addr E (fmdom (jr_dirties (sdb_journal s)))) s)"

text \<open>The addresses are listed in the order of the range.\<close>

definition GetSelfDestructs :: "Env \<Rightarrow> StateDB \<Rightarrow> address list" where
  "GetSelfDestructs E s =
     filter (\<lambda>addr. case fmlookup (stateObjects s) addr of None \<Rightarrow> False | Some obj \<Rightarrow> so_selfDestructed obj)
       (env_range_addr E (fmdom (jr_dirties (sdb_journal s))))"

definition mutation_copy :: "mutation \<Rightarrow> mutation" where
  "mutation_copy m = \<lparr>mut_typ = mut_typ m, mut_applied = mut_applied m\<rparr>"

text \<open>
  The literal of the new state does not name the flags of a deterministic and of a recording
  state and the commit hook, which are therefore zero in the copy.
\<close>

definition StateDB_Copy :: "StateDB \<Rightarrow> StateDB option" where
  "StateDB_Copy s = do {
     recent \<leftarrow> RecentWasms_Copy (arb_recentWasms (arbExtraData s));
     Some \<lparr>
       arbExtraData = \<lparr>
         arb_unexpectedBalanceDelta = arb_unexpectedBalanceDelta (arbExtraData s),
         arb_userWasms = arb_userWasms (arbExtraData s),
         arb_openWasmPages = arb_openWasmPages (arbExtraData s),
         arb_everWasmPages = arb_everWasmPages (arbExtraData s),
         arb_activatedWasms = arb_activatedWasms (arbExtraData s),
         arb_recentWasms = recent,
         arb_arbTxFilter = arb_arbTxFilter (arbExtraData s),
         arb_addressCheckerState = None\<rparr>,
       stateObjects = fmmap so_deepCopy (stateObjects s),
       stateObjectsDestruct = fmmap so_deepCopy (stateObjectsDestruct s),
       mutations = fmmap mutation_copy (mutations s),
       dbErr = dbErr s, sdb_refund = sdb_refund s, sdb_thash = sdb_thash s, sdb_txIndex = sdb_txIndex s,
       sdb_logs = sdb_logs s, sdb_logSize = sdb_logSize s, sdb_preimages = sdb_preimages s,
       sdb_accessList = al_Copy (sdb_accessList s),
       sdb_transientStorage = ts_Copy (sdb_transientStorage s),
       sdb_journal = journal_copy (sdb_journal s), sdb_rust = sdb_rust s,
       sdb_deterministic = False, sdb_recording = False, sdb_OnCommit = None\<rparr>
   }"

end
