(* ===== verification/VMState.thy ===== *)
theory VMState
imports StateDB VMContract
begin

text \<open>
  The state one call frame of the EVM works on and the way its code is written down: errors
  are values (\<^verbatim>\<open>core/vm/errors.go\<close>), a panic is \<open>None\<close>, and a computation takes the frame and gives
  back an error or a result together with the frame as it left it, also in the error case.
\<close>

subsection \<open>Errors\<close>

text \<open>\<^verbatim>\<open>ErrOther\<close> stands for the errors that are made in place with \<^verbatim>\<open>errors.New\<close>.\<close>

datatype vmerror =
    ErrOutOfGas
  | ErrCodeStoreOutOfGas
  | ErrDepth
  | ErrInsufficientBalance
  | ErrContractAddressCollision
  | ErrExecutionReverted
  | ErrMaxCodeSizeExceeded
  | ErrMaxInitCodeSizeExceeded
  | ErrInvalidJump
  | ErrWriteProtection
  | ErrReturnDataOutOfBounds
  | ErrGasUintOverflow
  | ErrInvalidCode
  | ErrNonceUintOverflow
  | errStopToken
  | ErrStackUnderflow int int
  | ErrStackOverflow int int
  | ErrInvalidOpCode u8
  | ErrOther string

text \<open>The codes count from one; the last is \<^verbatim>\<open>math.MaxInt - 1\<close>.\<close>

definition VMErrorCodeUnknown :: int where
  "VMErrorCodeUnknown = 2 ^ 63 - 2"

fun vmErrorCodeFromErr :: "vmerror \<Rightarrow> int" where
  "vmErrorCodeFromErr ErrOutOfGas = 1"
| "vmErrorCodeFromErr ErrCodeStoreOutOfGas = 2"
| "vmErrorCodeFromErr ErrDepth = 3"
| "vmErrorCodeFromErr ErrInsufficientBalance = 4"
| "vmErrorCodeFromErr ErrContractAddressCollision = 5"
| "vmErrorCodeFromErr ErrExecutionReverted = 6"
| "vmErrorCodeFromErr ErrMaxCodeSizeExceeded = 7"
| "vmErrorCodeFromErr ErrInvalidJump = 8"
| "vmErrorCodeFromErr ErrWriteProtection = 9"
| "vmErrorCodeFromErr ErrReturnDataOutOfBounds = 10"
| "vmErrorCodeFromErr ErrGasUintOverflow = 11"
| "vmErrorCodeFromErr ErrInvalidCode = 12"
| "vmErrorCodeFromErr ErrNonceUintOverflow = 13"
| "vmErrorCodeFromErr (ErrStackUnderflow l r) = 14"
| "vmErrorCodeFromErr (ErrStackOverflow l r) = 15"
| "vmErrorCodeFromErr (ErrInvalidOpCode op) = 16"
| "vmErrorCodeFromErr _ = VMErrorCodeUnknown"

subsection \<open>Chain configuration\<close>

text \<open>
  What the EVM reads of the configuration: the chain identifier, and of \<^verbatim>\<open>ArbitrumChainParams\<close> the
  switch for ArbOS and the two size limits, where zero means the default.
\<close>

record ChainConfig =
  cc_ChainID :: int
  ap_EnableArbOS :: bool
  ap_MaxCodeSize :: u64
  ap_MaxInitCodeSize :: u64

definition DefaultMaxCodeSize :: u64 where "DefaultMaxCodeSize = 24576"
definition DefaultMaxInitCodeSize :: u64 where "DefaultMaxInitCodeSize = 2 * DefaultMaxCodeSize"

definition MaxCodeSize :: "ChainConfig \<Rightarrow> u64" where
  "MaxCodeSize c = (if ap_MaxCodeSize c = 0 then DefaultMaxCodeSize else ap_MaxCodeSize c)"

definition MaxInitCodeSize :: "ChainConfig \<Rightarrow> u64" where
  "MaxInitCodeSize c = (if ap_MaxInitCodeSize c = 0 then MaxCodeSize c * 2 else ap_MaxInitCodeSize c)"

subsection \<open>The EVM and its frames\<close>

text \<open>\<^verbatim>\<open>evm.abort\<close> is set from outside; execution only reads it.\<close>

record EVM =
  evm_StateDB :: StateDB
  evm_callGasTemp :: u64
  evm_depth :: int
  evm_readOnly :: bool
  evm_returnData :: bytes
  evm_jumpDests :: JumpDestCache
  evm_abort :: bool

record Frame =
  fr_evm :: EVM
  fr_contract :: Contract
  fr_stack :: Stack
  fr_mem :: Memory
  fr_pc :: u64

text \<open>
  The operations of the third-party package \<^verbatim>\<open>uint256\<close> that are more than one machine operation on
  words. They are parameters of the model.
\<close>

record Uint256 =
  u256_Div :: "u256 \<Rightarrow> u256 \<Rightarrow> u256"
  u256_SDiv :: "u256 \<Rightarrow> u256 \<Rightarrow> u256"
  u256_Mod :: "u256 \<Rightarrow> u256 \<Rightarrow> u256"
  u256_SMod :: "u256 \<Rightarrow> u256 \<Rightarrow> u256"
  u256_Exp :: "u256 \<Rightarrow> u256 \<Rightarrow> u256"
  u256_ExtendSign :: "u256 \<Rightarrow> u256 \<Rightarrow> u256"
  u256_Byte :: "u256 \<Rightarrow> u256 \<Rightarrow> u256"
  u256_AddMod :: "u256 \<Rightarrow> u256 \<Rightarrow> u256 \<Rightarrow> u256"
  u256_MulMod :: "u256 \<Rightarrow> u256 \<Rightarrow> u256 \<Rightarrow> u256"
  u256_SRsh :: "u256 \<Rightarrow> u64 \<Rightarrow> u256"

text \<open>
  What stays fixed while a transaction runs: the chain, the block and transaction contexts
  (\<open>None\<close> where a pointer is nil) and the code behind interfaces: the processing hook, which on
  Arbitrum is implemented outside of the repository, and the precompiled contracts. A
  precompiled contract gets the information of the call and may change the EVM.
\<close>

record PrecompileCall =
  pi_PrecompileAddress :: address
  pi_ActingAsAddress :: address
  pi_Caller :: address
  pi_Value :: u256
  pi_ReadOnly :: bool

type_synonym call_result = "bytes \<times> u64 \<times> MultiGas \<times> vmerror option"

text \<open>
  A precompiled contract that only computes has a price and a result, for a version of ArbOS; an
  advanced one runs with access to the EVM.
\<close>

datatype PrecompiledContract =
    PlainPrecompile "u64 \<Rightarrow> bytes \<Rightarrow> u64" "u64 \<Rightarrow> bytes \<Rightarrow> bytes \<times> vmerror option"
  | AdvancedPrecompile "bytes \<Rightarrow> u64 \<Rightarrow> PrecompileCall \<Rightarrow> EVM \<Rightarrow> (call_result \<times> EVM) option"

record EvmCfg =
  chainRules :: Rules
  chainConfig :: ChainConfig
  uint256 :: Uint256
  ctx_Coinbase :: address
  ctx_GasLimit :: u64
  ctx_BlockNumber :: int
  ctx_Time :: u64
  ctx_Difficulty :: "int option"
  ctx_BaseFee :: "int option"
  ctx_BlobBaseFee :: "int option"
  ctx_Random :: "hash option"
  ctx_ArbOSVersion :: u64
  tx_Origin :: address
  tx_BlobHashes :: "hash list"
  EnablePreimageRecording :: bool
  hook_GasPriceOp :: "EVM \<Rightarrow> int"
  hook_L1BlockNumber :: "vmerror + u64"
  hook_L1BlockHash :: "u64 \<Rightarrow> vmerror + hash"
  hook_ExecuteWASM :: "bytes \<Rightarrow> Frame \<Rightarrow> ((bytes \<times> vmerror option) \<times> Frame) option"
  precompile :: "address \<Rightarrow> PrecompiledContract option"

type_synonym 'a vm = "Frame \<Rightarrow> ((vmerror + 'a) \<times> Frame) option"

definition vret :: "'a \<Rightarrow> 'a vm" where
  "vret x f = Some (Inr x, f)"

definition vfail :: "vmerror \<Rightarrow> 'a vm" where
  "vfail e f = Some (Inl e, f)"

definition vbind :: "'a vm \<Rightarrow> ('a \<Rightarrow> 'b vm) \<Rightarrow> 'b vm" where
  "vbind m k f =
     (case m f of
        None \<Rightarrow> None
      | Some (Inl e, f) \<Rightarrow> Some (Inl e, f)
      | Some (Inr x, f) \<Rightarrow> k x f)"

definition vthen :: "unit vm \<Rightarrow> 'b vm \<Rightarrow> 'b vm" where
  "vthen m k = vbind m (\<lambda>_. k)"

definition vget :: "(Frame \<Rightarrow> 'a) \<Rightarrow> 'a vm" where
  "vget g f = Some (Inr (g f), f)"

definition vopt :: "(Frame \<Rightarrow> 'a option) \<Rightarrow> 'a vm" where
  "vopt g f = (case g f of None \<Rightarrow> None | Some x \<Rightarrow> Some (Inr x, f))"

text \<open>An overflow flag that makes the computation fail.\<close>

definition vcheck :: "'a \<times> bool \<Rightarrow> 'a vm" where
  "vcheck r = (if snd r then vfail ErrGasUintOverflow else vret (fst r))"

definition set_db :: "StateDB \<Rightarrow> Frame \<Rightarrow> Frame" where
  "set_db s f = f\<lparr>fr_evm := (fr_evm f)\<lparr>evm_StateDB := s\<rparr>\<rparr>"

definition fr_db :: "Frame \<Rightarrow> StateDB" where
  "fr_db f = evm_StateDB (fr_evm f)"

definition vdb :: "(StateDB \<Rightarrow> 'a \<times> StateDB) \<Rightarrow> 'a vm" where
  "vdb op f = (case op (fr_db f) of (x, s) \<Rightarrow> Some (Inr x, set_db s f))"

definition vdb_upd :: "(StateDB \<Rightarrow> StateDB) \<Rightarrow> unit vm" where
  "vdb_upd op f = Some (Inr (), set_db (op (fr_db f)) f)"

definition vdb_opt :: "(StateDB \<Rightarrow> StateDB option) \<Rightarrow> unit vm" where
  "vdb_opt op f = (case op (fr_db f) of None \<Rightarrow> None | Some s \<Rightarrow> Some (Inr (), set_db s f))"

definition vback :: "nat \<Rightarrow> u256 vm" where
  "vback n = vopt (\<lambda>f. st_Back n (fr_stack f))"

text \<open>\<^verbatim>\<open>stack.Back(n).Uint64WithOverflow()\<close> where an overflow makes the computation fail.\<close>

definition vback_u64 :: "nat \<Rightarrow> u64 vm" where
  "vback_u64 n = vbind (vback n) (\<lambda>x. vcheck (Uint64WithOverflow x))"

definition self :: "address vm" where
  "self = vget (\<lambda>f. ct_address (fr_contract f))"

definition to_address :: "u256 \<Rightarrow> address" where
  "to_address x = ucast x"

definition set_contract :: "Contract \<Rightarrow> Frame \<Rightarrow> Frame" where
  "set_contract c f = f\<lparr>fr_contract := c\<rparr>"

definition vcontract :: "(Contract \<Rightarrow> 'a \<times> Contract) \<Rightarrow> 'a vm" where
  "vcontract op f = (case op (fr_contract f) of (x, c) \<Rightarrow> Some (Inr x, set_contract c f))"

definition vwhen :: "bool \<Rightarrow> unit vm \<Rightarrow> unit vm" where
  "vwhen b m = (if b then m else vret ())"

named_theorems vm_simps \<open>how the frame computations run\<close>

lemma vm_run [vm_simps]:
  "vret x f = Some (Inr x, f)" "vfail e f = Some (Inl e, f)" "vget g f = Some (Inr (g f), f)"
  by (simp_all add: vret_def vfail_def vget_def)

lemma vbind_run [vm_simps]:
  "vbind (vret x) k f = k x f" "vbind (vfail e) k f = Some (Inl e, f)" "vbind (vget g) k f = k (g f) f"
  "vbind (vbind m k) l f = vbind m (\<lambda>x. vbind (k x) l) f"
  by (auto simp: vbind_def vm_run split: option.splits sum.splits)

lemma vbind_case [vm_simps]: "m f = Some (Inr x, f') \<Longrightarrow> vbind m k f = k x f'"
  by (simp add: vbind_def)

lemma vbind_fail: "m f = Some (Inl e, f') \<Longrightarrow> vbind m k f = Some (Inl e, f')"
  by (simp add: vbind_def)

lemma vbind_SomeE:
  assumes "vbind m k f = Some (r, f')"
  obtains (err) e where "m f = Some (Inl e, f')" "r = Inl e"
  | (ok) x f1 where "m f = Some (Inr x, f1)" "k x f1 = Some (r, f')"
  using assms by (auto simp: vbind_def split: option.splits sum.splits prod.splits)

lemma set_db_simps [simp]:
  "fr_db (set_db s f) = s" "fr_contract (set_db s f) = fr_contract f" "fr_stack (set_db s f) = fr_stack f"
  "fr_mem (set_db s f) = fr_mem f" "set_db s (set_db t f) = set_db s f" "set_db (fr_db f) f = f"
  "evm_callGasTemp (fr_evm (set_db s f)) = evm_callGasTemp (fr_evm f)"
  by (simp_all add: set_db_def fr_db_def)

lemma set_contract_simps [simp]:
  "fr_contract (set_contract c f) = c" "fr_db (set_contract c f) = fr_db f"
  "fr_stack (set_contract c f) = fr_stack f" "fr_mem (set_contract c f) = fr_mem f"
  "fr_evm (set_contract c f) = fr_evm f" "set_contract (fr_contract f) f = f"
  by (simp_all add: set_contract_def fr_db_def)

text \<open>
  The comment on \<^verbatim>\<open>MaxInitCodeSize\<close> in the chain parameters says that zero implies the default
  limit; the function doubles the configured code size instead.
\<close>

theorem MaxInitCodeSize_zero:
  "MaxInitCodeSize \<lparr>cc_ChainID = 1, ap_EnableArbOS = True, ap_MaxCodeSize = 40000, ap_MaxInitCodeSize = 0\<rparr> = 80000 \<and> DefaultMaxInitCodeSize = 49152"
  by (simp add: MaxInitCodeSize_def MaxCodeSize_def DefaultMaxInitCodeSize_def DefaultMaxCodeSize_def)

end
