(* ===== verification/VMGas.thy ===== *)
theory VMGas
imports VMState
begin

text \<open>
  The dynamic gas of the EVM operations: \<^verbatim>\<open>core/vm/gas.go\<close>, \<^verbatim>\<open>gas_table.go\<close>, \<^verbatim>\<open>operations_acl.go\<close> and,
  for Stylus programs, \<^verbatim>\<open>operations_acl_arbitrum.go\<close>. A gas function takes the memory size the
  operation needs and computes a multi-dimensional cost on the frame; several of them also
  change the state: refunds, access list, the fee of the memory, the gas forwarded to a call.
\<close>

subsection \<open>Protocol parameters\<close>

abbreviation (input) CallValueTransferGas :: u64 where "CallValueTransferGas \<equiv> 9000"
abbreviation (input) CallNewAccountGas :: u64 where "CallNewAccountGas \<equiv> 25000"
abbreviation (input) QuadCoeffDiv :: u64 where "QuadCoeffDiv \<equiv> 512"
abbreviation (input) LogDataGas :: u64 where "LogDataGas \<equiv> 8"
abbreviation (input) Keccak256WordGas :: u64 where "Keccak256WordGas \<equiv> 6"
abbreviation (input) InitCodeWordGas :: u64 where "InitCodeWordGas \<equiv> 2"
abbreviation (input) SstoreSetGas :: u64 where "SstoreSetGas \<equiv> 20000"
abbreviation (input) SstoreResetGas :: u64 where "SstoreResetGas \<equiv> 5000"
abbreviation (input) SstoreClearGas :: u64 where "SstoreClearGas \<equiv> 5000"
abbreviation (input) SstoreRefundGas :: u64 where "SstoreRefundGas \<equiv> 15000"
abbreviation (input) NetSstoreNoopGas :: u64 where "NetSstoreNoopGas \<equiv> 200"
abbreviation (input) NetSstoreInitGas :: u64 where "NetSstoreInitGas \<equiv> 20000"
abbreviation (input) NetSstoreCleanGas :: u64 where "NetSstoreCleanGas \<equiv> 5000"
abbreviation (input) NetSstoreDirtyGas :: u64 where "NetSstoreDirtyGas \<equiv> 200"
abbreviation (input) NetSstoreClearRefund :: u64 where "NetSstoreClearRefund \<equiv> 15000"
abbreviation (input) NetSstoreResetRefund :: u64 where "NetSstoreResetRefund \<equiv> 4800"
abbreviation (input) NetSstoreResetClearRefund :: u64 where "NetSstoreResetClearRefund \<equiv> 19800"
abbreviation (input) SstoreSentryGasEIP2200 :: u64 where "SstoreSentryGasEIP2200 \<equiv> 2300"
definition SstoreSetGasEIP2200 :: u64 where "SstoreSetGasEIP2200 = 20000"
definition SstoreResetGasEIP2200 :: u64 where "SstoreResetGasEIP2200 = 5000"
abbreviation (input) SstoreClearsScheduleRefundEIP2200 :: u64 where "SstoreClearsScheduleRefundEIP2200 \<equiv> 15000"
abbreviation (input) ColdAccountAccessCostEIP2929 :: u64 where "ColdAccountAccessCostEIP2929 \<equiv> 2600"
definition ColdSloadCostEIP2929 :: u64 where "ColdSloadCostEIP2929 = 2100"
definition WarmStorageReadCostEIP2929 :: u64 where "WarmStorageReadCostEIP2929 = 100"
definition TxAccessListStorageKeyGas :: u64 where "TxAccessListStorageKeyGas = 1900"
definition SstoreClearsScheduleRefundEIP3529 :: u64 where "SstoreClearsScheduleRefundEIP3529 = SstoreResetGasEIP2200 - ColdSloadCostEIP2929 + TxAccessListStorageKeyGas"
abbreviation (input) ExpGas :: u64 where "ExpGas \<equiv> 10"
abbreviation (input) LogGas :: u64 where "LogGas \<equiv> 375"
abbreviation (input) CopyGas :: u64 where "CopyGas \<equiv> 3"
abbreviation (input) LogTopicGas :: u64 where "LogTopicGas \<equiv> 375"
abbreviation (input) LogTopicBytes :: u64 where "LogTopicBytes \<equiv> 32"
abbreviation (input) LogTopicHistoryGas :: u64 where "LogTopicHistoryGas \<equiv> LogDataGas * LogTopicBytes"
abbreviation (input) LogTopicComputationGas :: u64 where "LogTopicComputationGas \<equiv> LogTopicGas - LogTopicHistoryGas"
abbreviation (input) SelfdestructRefundGas :: u64 where "SelfdestructRefundGas \<equiv> 24000"
abbreviation (input) MemoryGas :: u64 where "MemoryGas \<equiv> 3"
abbreviation (input) SloadGasEIP2200 :: u64 where "SloadGasEIP2200 \<equiv> 800"
abbreviation (input) SelfdestructGasEIP150 :: u64 where "SelfdestructGasEIP150 \<equiv> 5000"
abbreviation (input) ExtcodeSizeGasEIP150 :: u64 where "ExtcodeSizeGasEIP150 \<equiv> 700"
abbreviation (input) ExpByteFrontier :: u64 where "ExpByteFrontier \<equiv> 10"
abbreviation (input) ExpByteEIP158 :: u64 where "ExpByteEIP158 \<equiv> 50"
abbreviation (input) CreateBySelfdestructGas :: u64 where "CreateBySelfdestructGas \<equiv> 25000"

subsection \<open>\<^verbatim>\<open>gas.go\<close>\<close>

definition SELFDESTRUCT :: u8 where "SELFDESTRUCT = 0xff"

definition callGas :: "bool \<Rightarrow> u64 \<Rightarrow> u64 \<Rightarrow> u256 \<Rightarrow> vmerror + u64" where
  "callGas isEip150 availableGas base callCost =
     (let rest = (if \<not> IsUint64 callCost then Inl ErrGasUintOverflow else Inr (ucast callCost))
      in if isEip150 then
           let availableGas = availableGas - base;
               gas = availableGas - availableGas div 64
           in if \<not> IsUint64 callCost \<or> gas < ucast callCost then Inr gas else rest
         else rest)"

definition addConstantMultiGas :: "MultiGas \<Rightarrow> u64 \<Rightarrow> u8 \<Rightarrow> MultiGas" where
  "addConstantMultiGas usedMultiGas cost op =
     (if op = SELFDESTRUCT \<and> cost = SelfdestructGasEIP150 then
        SaturatingIncrementInto
          (SaturatingIncrementInto usedMultiGas ResourceKindComputation WarmStorageReadCostEIP2929)
          ResourceKindStorageAccessWrite (cost - WarmStorageReadCostEIP2929)
      else SaturatingIncrementInto usedMultiGas ResourceKindComputation cost)"

subsection \<open>\<^verbatim>\<open>gas_table.go\<close>\<close>

type_synonym gasFunc = "Env \<Rightarrow> EvmCfg \<Rightarrow> u64 \<Rightarrow> MultiGas vm"

definition memoryGasCost :: "u64 \<Rightarrow> MultiGas vm" where
  "memoryGasCost newMemSize f =
     (if newMemSize = 0 then Some (Inr ZeroGas, f)
      else if newMemSize > 0x1FFFFFFFE0 then Some (Inl ErrGasUintOverflow, f)
      else
        let newMemSizeWords = toWordSize newMemSize;
            newMemSize = newMemSizeWords * 32
        in if newMemSize > word_of_nat (mem_Len (fr_mem f)) then
             let square = newMemSizeWords * newMemSizeWords;
                 linCoef = newMemSizeWords * MemoryGas;
                 quadCoef = square div QuadCoeffDiv;
                 newTotalFee = linCoef + quadCoef;
                 fee = newTotalFee - lastGasCost (fr_mem f)
             in Some (Inr (ComputationGas fee), f\<lparr>fr_mem := (fr_mem f)\<lparr>lastGasCost := newTotalFee\<rparr>\<rparr>)
           else Some (Inr ZeroGas, f))"

definition memoryCopierGas :: "nat \<Rightarrow> gasFunc" where
  "memoryCopierGas stackpos E cfg memorySize =
     vbind (memoryGasCost memorySize) (\<lambda>multiGas.
     vbind (vback_u64 stackpos) (\<lambda>words.
     vbind (vcheck (math_SafeMul (toWordSize words) CopyGas)) (\<lambda>wordCopyGas.
       vcheck (SafeIncrement multiGas
         (if stackpos = 3 then ResourceKindStorageAccessRead else ResourceKindComputation) wordCopyGas))))"

abbreviation (input) gasCallDataCopy :: gasFunc where "gasCallDataCopy \<equiv> memoryCopierGas 2"
abbreviation (input) gasCodeCopy :: gasFunc where "gasCodeCopy \<equiv> memoryCopierGas 2"
abbreviation (input) gasMcopy :: gasFunc where "gasMcopy \<equiv> memoryCopierGas 2"
abbreviation (input) gasExtCodeCopy :: gasFunc where "gasExtCodeCopy \<equiv> memoryCopierGas 3"
abbreviation (input) gasReturnDataCopy :: gasFunc where "gasReturnDataCopy \<equiv> memoryCopierGas 2"

definition gasSStore :: gasFunc where
  "gasSStore E cfg memorySize =
     vbind (vback 1) (\<lambda>y. vbind (vback 0) (\<lambda>x. vbind self (\<lambda>a.
     vbind (vdb (GetStateAndCommittedState E a x)) (\<lambda>(current, original).
       if IsPetersburg (chainRules cfg) \<or> \<not> IsConstantinople (chainRules cfg) then
         if current = 0 \<and> y \<noteq> 0 then vret (StorageGrowthGas SstoreSetGas)
         else if current \<noteq> 0 \<and> y = 0 then
           vthen (vdb_upd (AddRefund SstoreRefundGas)) (vret (StorageAccessWriteGas SstoreClearGas))
         else vret (StorageAccessWriteGas SstoreResetGas)
       else
         let v = y in
         if current = v then vret (StorageAccessReadGas NetSstoreNoopGas)
         else if original = current then
           if original = 0 then vret (StorageGrowthGas NetSstoreInitGas)
           else vthen (vwhen (v = 0) (vdb_upd (AddRefund NetSstoreClearRefund)))
                  (vret (StorageAccessWriteGas NetSstoreCleanGas))
         else
           vthen (if original \<noteq> 0 then
                    if current = 0 then vdb_opt (SubRefund NetSstoreClearRefund)
                    else vwhen (v = 0) (vdb_upd (AddRefund NetSstoreClearRefund))
                  else vret ())
          (vthen (if original = v then
                    if original = 0 then vdb_upd (AddRefund NetSstoreResetClearRefund)
                    else vdb_upd (AddRefund NetSstoreResetRefund)
                  else vret ())
             (vret (StorageAccessWriteGas NetSstoreDirtyGas)))))))"

definition sentry_error :: vmerror where
  "sentry_error = ErrOther ''not enough gas for reentrancy sentry''"

definition gasSStoreEIP2200 :: gasFunc where
  "gasSStoreEIP2200 E cfg memorySize =
     vbind (vget (\<lambda>f. ct_Gas (fr_contract f))) (\<lambda>gas.
     if gas \<le> SstoreSentryGasEIP2200 then vfail sentry_error
     else
     vbind (vback 1) (\<lambda>y. vbind (vback 0) (\<lambda>x. vbind self (\<lambda>a.
     vbind (vdb (GetStateAndCommittedState E a x)) (\<lambda>(current, original).
       let v = y in
       if current = v then vret (StorageAccessReadGas SloadGasEIP2200)
       else if original = current then
         if original = 0 then vret (StorageGrowthGas SstoreSetGasEIP2200)
         else vthen (vwhen (v = 0) (vdb_upd (AddRefund SstoreClearsScheduleRefundEIP2200)))
                (vret (StorageAccessWriteGas SstoreResetGasEIP2200))
       else
         vthen (if original \<noteq> 0 then
                  if current = 0 then vdb_opt (SubRefund SstoreClearsScheduleRefundEIP2200)
                  else vwhen (v = 0) (vdb_upd (AddRefund SstoreClearsScheduleRefundEIP2200))
                else vret ())
        (vthen (if original = v then
                  if original = 0 then vdb_upd (AddRefund (SstoreSetGasEIP2200 - SloadGasEIP2200))
                  else vdb_upd (AddRefund (SstoreResetGasEIP2200 - SloadGasEIP2200))
                else vret ())
           (vret (StorageAccessWriteGas SloadGasEIP2200))))))))"

definition makeGasLog :: "u64 \<Rightarrow> gasFunc" where
  "makeGasLog n E cfg memorySize =
     vbind (vback_u64 1) (\<lambda>requestedSize.
     vbind (memoryGasCost memorySize) (\<lambda>multiGas.
     vbind (vcheck (SafeIncrement multiGas ResourceKindComputation LogGas)) (\<lambda>multiGas.
     vbind (vcheck (math_SafeMul n LogTopicHistoryGas)) (\<lambda>topicHistTotal.
     vbind (vcheck (math_SafeMul n LogTopicComputationGas)) (\<lambda>topicCompTotal.
     vbind (vcheck (SafeIncrement multiGas ResourceKindHistoryGrowth topicHistTotal)) (\<lambda>multiGas.
     vbind (vcheck (SafeIncrement multiGas ResourceKindComputation topicCompTotal)) (\<lambda>multiGas.
     vbind (vcheck (math_SafeMul requestedSize LogDataGas)) (\<lambda>dataHist.
       vcheck (SafeIncrement multiGas ResourceKindHistoryGrowth dataHist)))))))))"

definition gasKeccak256 :: gasFunc where
  "gasKeccak256 E cfg memorySize =
     vbind (memoryGasCost memorySize) (\<lambda>multiGas.
     vbind (vback_u64 1) (\<lambda>wordGas.
     vbind (vcheck (math_SafeMul (toWordSize wordGas) Keccak256WordGas)) (\<lambda>wordGas.
       vcheck (SafeIncrement multiGas ResourceKindComputation wordGas))))"

definition pureMemoryGascost :: gasFunc where
  "pureMemoryGascost E cfg memorySize = memoryGasCost memorySize"

abbreviation (input) gasReturn :: gasFunc where "gasReturn \<equiv> pureMemoryGascost"
abbreviation (input) gasRevert :: gasFunc where "gasRevert \<equiv> pureMemoryGascost"
abbreviation (input) gasMLoad :: gasFunc where "gasMLoad \<equiv> pureMemoryGascost"
abbreviation (input) gasMStore8 :: gasFunc where "gasMStore8 \<equiv> pureMemoryGascost"
abbreviation (input) gasMStore :: gasFunc where "gasMStore \<equiv> pureMemoryGascost"
abbreviation (input) gasCreate :: gasFunc where "gasCreate \<equiv> pureMemoryGascost"

definition gasCreate2 :: gasFunc where
  "gasCreate2 E cfg memorySize =
     vbind (memoryGasCost memorySize) (\<lambda>multiGas.
     vbind (vback_u64 2) (\<lambda>wordGas.
     vbind (vcheck (math_SafeMul (toWordSize wordGas) Keccak256WordGas)) (\<lambda>wordGas.
       vcheck (SafeIncrement multiGas ResourceKindComputation wordGas))))"

definition gasCreateEip3860 :: gasFunc where
  "gasCreateEip3860 E cfg memorySize =
     vbind (memoryGasCost memorySize) (\<lambda>multiGas.
     vbind (vback_u64 2) (\<lambda>sz.
       if sz > MaxInitCodeSize (chainConfig cfg) then vfail ErrMaxInitCodeSizeExceeded
       else let moreGas = InitCodeWordGas * ((sz + 31) div 32)
            in vcheck (SafeIncrement multiGas ResourceKindComputation moreGas)))"

definition gasCreate2Eip3860 :: gasFunc where
  "gasCreate2Eip3860 E cfg memorySize =
     vbind (memoryGasCost memorySize) (\<lambda>multiGas.
     vbind (vback_u64 2) (\<lambda>sz.
       if sz > MaxInitCodeSize (chainConfig cfg) then vfail ErrMaxInitCodeSizeExceeded
       else let moreGas = (InitCodeWordGas + Keccak256WordGas) * ((sz + 31) div 32)
            in vcheck (SafeIncrement multiGas ResourceKindComputation moreGas)))"

text \<open>\<^verbatim>\<open>uint256.Int.BitLen\<close>: the number of bits without leading zeroes.\<close>

definition BitLen :: "u256 \<Rightarrow> nat" where
  "BitLen x = bitlen (uint x)"

definition gasExp :: "u64 \<Rightarrow> MultiGas vm" where
  "gasExp perByte =
     vbind (vback 1) (\<lambda>e.
       let expByteLen = word_of_nat ((BitLen e + 7) div 8)
       in vbind (vcheck (math_SafeAdd (expByteLen * perByte) ExpGas)) (\<lambda>gas. vret (ComputationGas gas)))"

definition gasExpFrontier :: gasFunc where
  "gasExpFrontier E cfg memorySize = gasExp ExpByteFrontier"

definition gasExpEIP158 :: gasFunc where
  "gasExpEIP158 E cfg memorySize = gasExp ExpByteEIP158"

text \<open>Setting \<^verbatim>\<open>evm.callGasTemp\<close> to the gas of the call and charging it, the end of the call costs.\<close>

definition forward_gas :: "EvmCfg \<Rightarrow> MultiGas \<Rightarrow> MultiGas vm" where
  "forward_gas cfg multiGas =
     vbind (vback 0) (\<lambda>requested.
     vbind (vget (\<lambda>f. ct_Gas (fr_contract f))) (\<lambda>gas f.
       case callGas (IsEIP150 (chainRules cfg)) gas (SingleGas multiGas) requested of
         Inl e \<Rightarrow> Some (Inl e, f\<lparr>fr_evm := (fr_evm f)\<lparr>evm_callGasTemp := 0\<rparr>\<rparr>)
       | Inr g \<Rightarrow> vcheck (SafeIncrement multiGas ResourceKindComputation g)
                   (f\<lparr>fr_evm := (fr_evm f)\<lparr>evm_callGasTemp := g\<rparr>\<rparr>)))"

definition gasCall :: gasFunc where
  "gasCall E cfg memorySize =
     vbind (vback 2) (\<lambda>v. vbind (vback 1) (\<lambda>to.
       let transfersValue = v \<noteq> 0; addr = to_address to; rules = chainRules cfg in
       vbind
         (if IsEIP158 rules then
            if transfersValue then
              vbind (vdb (Empty E addr)) (\<lambda>empty.
                vret (if empty then SaturatingIncrement ZeroGas ResourceKindStorageGrowth CallNewAccountGas else ZeroGas))
            else vret ZeroGas
          else vbind (vdb (Exist E addr)) (\<lambda>exist.
                vret (if \<not> exist then SaturatingIncrement ZeroGas ResourceKindStorageGrowth CallNewAccountGas else ZeroGas)))
         (\<lambda>multiGas.
       let multiGas = (if transfersValue \<and> \<not> IsEIP4762 rules
                       then SaturatingIncrement multiGas ResourceKindComputation CallValueTransferGas else multiGas) in
       vbind (memoryGasCost memorySize) (\<lambda>memoryMultiGas.
       vbind (vcheck (SafeAdd multiGas memoryMultiGas)) (\<lambda>multiGas. forward_gas cfg multiGas)))))"

definition gasCallCode :: gasFunc where
  "gasCallCode E cfg memorySize =
     vbind (memoryGasCost memorySize) (\<lambda>memoryMultiGas.
     vbind (vback 2) (\<lambda>v.
       let multiGas = (if v \<noteq> 0 \<and> \<not> IsEIP4762 (chainRules cfg)
                       then SaturatingIncrement ZeroGas ResourceKindComputation CallValueTransferGas else ZeroGas) in
       vbind (vcheck (SafeAdd multiGas memoryMultiGas)) (\<lambda>multiGas. forward_gas cfg multiGas)))"

definition gasDelegateCall :: gasFunc where
  "gasDelegateCall E cfg memorySize =
     vbind (memoryGasCost memorySize) (\<lambda>multiGas. forward_gas cfg multiGas)"

definition gasStaticCall :: gasFunc where
  "gasStaticCall E cfg memorySize =
     vbind (memoryGasCost memorySize) (\<lambda>multiGas. forward_gas cfg multiGas)"

definition gasSelfdestruct :: gasFunc where
  "gasSelfdestruct E cfg memorySize =
     vbind self (\<lambda>a.
     let rules = chainRules cfg in
     vbind
       (if IsEIP150 rules then
          let multiGas = SaturatingIncrement ZeroGas ResourceKindStorageAccessWrite SelfdestructGasEIP150 in
          vbind (vback 0) (\<lambda>to.
            if IsEIP158 rules then
              vbind (vdb (Empty E (to_address to))) (\<lambda>empty.
                if empty then
                  vbind (vdb (GetBalance E a)) (\<lambda>bal.
                    vret (if bal \<noteq> 0 then SaturatingIncrement multiGas ResourceKindStorageGrowth CreateBySelfdestructGas
                          else multiGas))
                else vret multiGas)
            else
              vbind (vdb (Exist E (to_address to))) (\<lambda>exist.
                vret (if \<not> exist then SaturatingIncrement multiGas ResourceKindStorageGrowth CreateBySelfdestructGas
                      else multiGas)))
        else vret ZeroGas)
       (\<lambda>multiGas.
     vbind (vdb (HasSelfDestructed E a)) (\<lambda>gone.
     vthen (vwhen (\<not> gone) (vdb_upd (AddRefund SelfdestructRefundGas))) (vret multiGas))))"

subsection \<open>\<^verbatim>\<open>operations_acl.go\<close>: access lists\<close>

text \<open>Cold slots are charged and added to the access list; the result tells whether it was cold.\<close>

definition access_slot :: "address \<Rightarrow> hash \<Rightarrow> bool vm" where
  "access_slot a slot =
     vbind (vopt (\<lambda>f. SlotInAccessList a slot (fr_db f))) (\<lambda>(_, slotPresent).
       if \<not> slotPresent then vthen (vdb_opt (AddSlotToAccessList a slot)) (vret True) else vret False)"

definition access_address :: "address \<Rightarrow> bool vm" where
  "access_address a =
     vbind (vget (\<lambda>f. AddressInAccessList a (fr_db f))) (\<lambda>present.
       if \<not> present then vthen (vdb_upd (AddAddressToAccessList a)) (vret True) else vret False)"

definition makeGasSStoreFunc :: "u64 \<Rightarrow> gasFunc" where
  "makeGasSStoreFunc clearingRefund E cfg memorySize =
     vbind (vget (\<lambda>f. ct_Gas (fr_contract f))) (\<lambda>gas.
     if gas \<le> SstoreSentryGasEIP2200 then vfail sentry_error
     else
     vbind (vback 1) (\<lambda>y. vbind (vback 0) (\<lambda>slot. vbind self (\<lambda>a.
     vbind (vdb (GetStateAndCommittedState E a slot)) (\<lambda>(current, original).
     vbind (access_slot a slot) (\<lambda>cold.
       let multiGas = (if cold then SaturatingIncrement ZeroGas ResourceKindStorageAccessRead ColdSloadCostEIP2929
                       else ZeroGas);
           v = y in
       if current = v then
         vret (SaturatingIncrement multiGas ResourceKindComputation WarmStorageReadCostEIP2929)
       else if original = current then
         if original = 0 then vret (SaturatingIncrement multiGas ResourceKindStorageGrowth SstoreSetGasEIP2200)
         else vthen (vwhen (v = 0) (vdb_upd (AddRefund clearingRefund)))
                (vret (SaturatingIncrement multiGas ResourceKindStorageAccessWrite
                   (SstoreResetGasEIP2200 - ColdSloadCostEIP2929)))
       else
         vthen (if original \<noteq> 0 then
                  if current = 0 then vdb_opt (SubRefund clearingRefund)
                  else vwhen (v = 0) (vdb_upd (AddRefund clearingRefund))
                else vret ())
        (vthen (if original = v then
                  if original = 0 then vdb_upd (AddRefund (SstoreSetGasEIP2200 - WarmStorageReadCostEIP2929))
                  else vdb_upd (AddRefund ((SstoreResetGasEIP2200 - ColdSloadCostEIP2929) - WarmStorageReadCostEIP2929))
                else vret ())
           (vret (SaturatingIncrement multiGas ResourceKindComputation WarmStorageReadCostEIP2929)))))))))"

definition gasSLoadEIP2929 :: gasFunc where
  "gasSLoadEIP2929 E cfg memorySize =
     vbind (vback 0) (\<lambda>slot. vbind self (\<lambda>a.
     vbind (access_slot a slot) (\<lambda>cold.
       if cold then
         vopt (\<lambda>_. MultiGasFromPairs
           [(ResourceKindStorageAccessRead, ColdSloadCostEIP2929 - WarmStorageReadCostEIP2929),
            (ResourceKindComputation, WarmStorageReadCostEIP2929)])
       else vret (ComputationGas WarmStorageReadCostEIP2929))))"

definition gasExtCodeCopyEIP2929 :: gasFunc where
  "gasExtCodeCopyEIP2929 E cfg memorySize =
     vbind (gasExtCodeCopy E cfg memorySize) (\<lambda>multiGas.
     vbind (vback 0) (\<lambda>x.
     vbind (access_address (to_address x)) (\<lambda>cold.
       if cold then
         vcheck (SafeIncrement multiGas ResourceKindStorageAccessRead
           (ColdAccountAccessCostEIP2929 - WarmStorageReadCostEIP2929))
       else vret multiGas)))"

definition gasEip2929AccountCheck :: gasFunc where
  "gasEip2929AccountCheck E cfg memorySize =
     vbind (vback 0) (\<lambda>x.
     vbind (access_address (to_address x)) (\<lambda>cold.
       vret (if cold then StorageAccessReadGas (ColdAccountAccessCostEIP2929 - WarmStorageReadCostEIP2929)
             else ZeroGas)))"

text \<open>\<^verbatim>\<open>if !contract.UseMultiGas(...) { return ErrOutOfGas }\<close>\<close>

definition charge :: "MultiGas \<Rightarrow> unit vm" where
  "charge multiGas =
     vbind (vcontract (\<lambda>c. UseMultiGas c multiGas)) (\<lambda>ok. if ok then vret () else vfail ErrOutOfGas)"

text \<open>Gas charged early is given back; it is charged again as part of the returned cost.\<close>

definition give_back :: "u64 \<Rightarrow> (MultiGas \<Rightarrow> MultiGas) \<Rightarrow> unit vm" where
  "give_back gas retain =
     vcontract (\<lambda>c. ((), c\<lparr>ct_Gas := ct_Gas c + gas, RetainedMultiGas := retain (RetainedMultiGas c)\<rparr>))"

definition makeCallVariantGasCallEIP2929 :: "gasFunc \<Rightarrow> nat \<Rightarrow> gasFunc" where
  "makeCallVariantGasCallEIP2929 oldCalculator addressPosition E cfg memorySize =
     vbind (vback addressPosition) (\<lambda>x.
     vbind (vget (\<lambda>f. AddressInAccessList (to_address x) (fr_db f))) (\<lambda>warmAccess.
     let coldCost = ColdAccountAccessCostEIP2929 - WarmStorageReadCostEIP2929 in
     vthen (vwhen (\<not> warmAccess)
       (vthen (vdb_upd (AddAddressToAccessList (to_address x))) (charge (StorageAccessReadGas coldCost))))
    (vbind (oldCalculator E cfg memorySize) (\<lambda>multiGas.
     if warmAccess then vret multiGas
     else vthen (give_back coldCost (\<lambda>r. SaturatingIncrementInto r ResourceKindStorageAccessRead coldCost))
            (vcheck (SafeIncrement multiGas ResourceKindStorageAccessRead coldCost))))))"

abbreviation (input) gasCallEIP2929 :: gasFunc where
  "gasCallEIP2929 \<equiv> makeCallVariantGasCallEIP2929 gasCall 1"
abbreviation (input) gasDelegateCallEIP2929 :: gasFunc where
  "gasDelegateCallEIP2929 \<equiv> makeCallVariantGasCallEIP2929 gasDelegateCall 1"
abbreviation (input) gasStaticCallEIP2929 :: gasFunc where
  "gasStaticCallEIP2929 \<equiv> makeCallVariantGasCallEIP2929 gasStaticCall 1"
abbreviation (input) gasCallCodeEIP2929 :: gasFunc where
  "gasCallCodeEIP2929 \<equiv> makeCallVariantGasCallEIP2929 gasCallCode 1"

definition makeSelfdestructGasFn :: "bool \<Rightarrow> gasFunc" where
  "makeSelfdestructGasFn refundsEnabled E cfg memorySize =
     vbind (vback 0) (\<lambda>x. vbind self (\<lambda>a.
     vbind (access_address (to_address x)) (\<lambda>cold.
     let multiGas = (if cold then SaturatingIncrement ZeroGas ResourceKindStorageAccessRead ColdAccountAccessCostEIP2929
                     else ZeroGas) in
     vbind (vdb (Empty E (to_address x))) (\<lambda>empty.
     vbind (if empty then vbind (vdb (GetBalance E a)) (\<lambda>bal. vret (bal \<noteq> 0)) else vret False) (\<lambda>creates.
     let multiGas = (if creates then SaturatingIncrement multiGas ResourceKindStorageGrowth CreateBySelfdestructGas
                     else multiGas) in
     vthen (if refundsEnabled then
              vbind (vdb (HasSelfDestructed E a)) (\<lambda>gone. vwhen (\<not> gone) (vdb_upd (AddRefund SelfdestructRefundGas)))
            else vret ())
       (vret multiGas))))))"

abbreviation (input) gasSelfdestructEIP2929 :: gasFunc where
  "gasSelfdestructEIP2929 \<equiv> makeSelfdestructGasFn True"
abbreviation (input) gasSelfdestructEIP3529 :: gasFunc where
  "gasSelfdestructEIP3529 \<equiv> makeSelfdestructGasFn False"
abbreviation (input) gasSStoreEIP2929 :: gasFunc where
  "gasSStoreEIP2929 \<equiv> makeGasSStoreFunc SstoreClearsScheduleRefundEIP2200"
abbreviation (input) gasSStoreEIP3529 :: gasFunc where
  "gasSStoreEIP3529 \<equiv> makeGasSStoreFunc SstoreClearsScheduleRefundEIP3529"

text \<open>Delegation designators of \<^verbatim>\<open>core/types/tx_setcode.go\<close>.\<close>

definition DelegationPrefix :: bytes where
  "DelegationPrefix = [0xef, 0x01, 0x00]"

definition ParseDelegation :: "bytes \<Rightarrow> address option" where
  "ParseDelegation b =
     (if length b \<noteq> 23 \<or> \<not> bytes_HasPrefix b DelegationPrefix then None
      else Some (be_word (drop (length DelegationPrefix) b)))"

definition AddressToDelegation :: "address \<Rightarrow> bytes" where
  "AddressToDelegation addr = DelegationPrefix @ be_bytes 20 addr"

definition makeCallVariantGasCallEIP7702 :: "gasFunc \<Rightarrow> gasFunc" where
  "makeCallVariantGasCallEIP7702 oldCalculator E cfg memorySize =
     vbind (vback 1) (\<lambda>x.
     vbind (access_address (to_address x)) (\<lambda>cold.
     let coldCost = ColdAccountAccessCostEIP2929 - WarmStorageReadCostEIP2929;
         multiGas = (if cold then SaturatingIncrement ZeroGas ResourceKindStorageAccessRead coldCost else ZeroGas) in
     vthen (vwhen cold (charge (StorageAccessReadGas coldCost)))
    (vbind (vdb (GetCode E (to_address x))) (\<lambda>code.
     vbind (case ParseDelegation code of
              None \<Rightarrow> vret multiGas
            | Some target \<Rightarrow>
                vbind (access_address target) (\<lambda>cold.
                let cost = (if cold then ColdAccountAccessCostEIP2929 else WarmStorageReadCostEIP2929) in
                vthen (charge (StorageAccessReadGas cost))
                  (vret (SaturatingIncrement multiGas ResourceKindStorageAccessRead cost))))
       (\<lambda>multiGas.
     vbind (oldCalculator E cfg memorySize) (\<lambda>multiOld.
     vthen (give_back (SingleGas multiGas) (\<lambda>r. SaturatingAddInto r multiGas))
       (vcheck (SafeAdd multiGas multiOld))))))))"

abbreviation (input) gasCallEIP7702 :: gasFunc where
  "gasCallEIP7702 \<equiv> makeCallVariantGasCallEIP7702 gasCall"
abbreviation (input) gasDelegateCallEIP7702 :: gasFunc where
  "gasDelegateCallEIP7702 \<equiv> makeCallVariantGasCallEIP7702 gasDelegateCall"
abbreviation (input) gasStaticCallEIP7702 :: gasFunc where
  "gasStaticCallEIP7702 \<equiv> makeCallVariantGasCallEIP7702 gasStaticCall"
abbreviation (input) gasCallCodeEIP7702 :: gasFunc where
  "gasCallCodeEIP7702 \<equiv> makeCallVariantGasCallEIP7702 gasCallCode"

end
