(* ===== verification/StateView.thy ===== *)
theory StateView
  imports StateDB
begin

text \<open>
  The abstract world state behind a \<^verbatim>\<open>StateDB\<close>. Reading an account or a slot fills caches
  (\<^verbatim>\<open>stateObjects\<close>, \<^verbatim>\<open>originStorage\<close>, \<^verbatim>\<open>code\<close>) that no caller can see; the abstraction \<open>world\<close> forgets
  them and keeps, per address, what the getters return, together with the per-transaction
  data. The lemmas show that the getters return what the abstract state says and leave it
  unchanged, and that each setter acts on it as its name says.
\<close>

subsection \<open>The abstract state\<close>

record acct_view =
  v_nonce :: u64
  v_balance :: u256
  v_root :: hash
  v_codehash :: hash
  v_code :: bytes
  v_committed :: "hash \<Rightarrow> hash"
  v_current :: "hash \<Rightarrow> hash"
  v_selfDestructed :: bool
  v_newContract :: bool

record AState =
  as_acct :: "address \<Rightarrow> acct_view option"
  as_destruct :: "(address, stateObject) fmap"
  as_mutations :: "(address, mutation) fmap"
  as_refund :: u64
  as_thash :: hash
  as_txIndex :: int
  as_logs :: "(hash, Log list) fmap"
  as_logSize :: u64
  as_accessList :: accessList
  as_transient :: transientStorage
  as_activated :: "(hash, ActivatedWasm) fmap"

type_synonym destructs = "(address, stateObject) fmap"

definition db_storage :: "Env \<Rightarrow> destructs \<Rightarrow> address \<Rightarrow> hash \<Rightarrow> hash" where
  "db_storage E D a key =
     (if fmlookup D a \<noteq> None then 0 else case env_Storage E a key of Inl _ \<Rightarrow> 0 | Inr v \<Rightarrow> v)"

definition or_else :: "('k, 'v) fmap \<Rightarrow> ('k \<Rightarrow> 'v) \<Rightarrow> 'k \<Rightarrow> 'v" where
  "or_else m f k = (case fmlookup m k of Some v \<Rightarrow> v | None \<Rightarrow> f k)"

definition obj_committed :: "Env \<Rightarrow> destructs \<Rightarrow> stateObject \<Rightarrow> hash \<Rightarrow> hash" where
  "obj_committed E D obj =
     or_else (so_pendingStorage obj) (or_else (so_originStorage obj) (db_storage E D (so_address obj)))"

definition obj_current :: "Env \<Rightarrow> destructs \<Rightarrow> stateObject \<Rightarrow> hash \<Rightarrow> hash" where
  "obj_current E D obj = or_else (so_dirtyStorage obj) (obj_committed E D obj)"

definition code_at :: "Env \<Rightarrow> address \<Rightarrow> hash \<Rightarrow> bytes \<Rightarrow> bytes" where
  "code_at E a h cached =
     (if cached \<noteq> [] then cached else if h = EmptyCodeHash E then [] else fst (env_Code E a h))"

definition obj_code :: "Env \<Rightarrow> stateObject \<Rightarrow> bytes" where
  "obj_code E obj = code_at E (so_address obj) (CodeHash (so_data obj)) (so_code obj)"

definition obj_view :: "Env \<Rightarrow> destructs \<Rightarrow> stateObject \<Rightarrow> acct_view" where
  "obj_view E D obj =
     \<lparr>v_nonce = Nonce (so_data obj), v_balance = Balance (so_data obj), v_root = Root (so_data obj),
      v_codehash = CodeHash (so_data obj), v_code = obj_code E obj,
      v_committed = obj_committed E D obj, v_current = obj_current E D obj,
      v_selfDestructed = so_selfDestructed obj, v_newContract = so_newContract obj\<rparr>"

text \<open>\<^verbatim>\<open>setState\<close> of an object: writing the committed value removes the dirty entry.\<close>

definition view_setState :: "hash \<Rightarrow> hash \<Rightarrow> hash \<Rightarrow> acct_view \<Rightarrow> acct_view" where
  "view_setState k v w x = x\<lparr>v_current := (v_current x)(k := if v = w then v_committed x k else v)\<rparr>"

definition db_object :: "Env \<Rightarrow> destructs \<Rightarrow> address \<Rightarrow> stateObject option" where
  "db_object E D a =
     (if fmlookup D a \<noteq> None then None
      else case env_Account E a of
        Inr (Some acct) \<Rightarrow> Some (newObject E a (Some acct))
      | _ \<Rightarrow> None)"

definition obj_at :: "Env \<Rightarrow> destructs \<Rightarrow> destructs \<Rightarrow> address \<Rightarrow> stateObject option" where
  "obj_at E objs D a = (case fmlookup objs a of Some obj \<Rightarrow> Some obj | None \<Rightarrow> db_object E D a)"

definition live_object :: "Env \<Rightarrow> StateDB \<Rightarrow> address \<Rightarrow> stateObject option" where
  "live_object E s = obj_at E (stateObjects s) (stateObjectsDestruct s)"

definition view :: "Env \<Rightarrow> StateDB \<Rightarrow> address \<Rightarrow> acct_view option" where
  "view E s = map_option (obj_view E (stateObjectsDestruct s)) \<circ> live_object E s"

definition db_view :: "Env \<Rightarrow> destructs \<Rightarrow> address \<Rightarrow> acct_view option" where
  "db_view E D a = map_option (obj_view E D) (db_object E D a)"

definition new_view :: "Env \<Rightarrow> destructs \<Rightarrow> address \<Rightarrow> acct_view" where
  "new_view E D a = obj_view E D (newObject E a None)"

definition world :: "Env \<Rightarrow> StateDB \<Rightarrow> AState" where
  "world E s =
     \<lparr>as_acct = view E s, as_destruct = stateObjectsDestruct s, as_mutations = mutations s,
      as_refund = sdb_refund s, as_thash = sdb_thash s, as_txIndex = sdb_txIndex s,
      as_logs = sdb_logs s, as_logSize = sdb_logSize s, as_accessList = sdb_accessList s,
      as_transient = sdb_transientStorage s, as_activated = arb_activatedWasms (arbExtraData s)\<rparr>"

text \<open>A live object sits at its own address and its cached code has the recorded hash.\<close>

definition obj_ok :: "Env \<Rightarrow> address \<Rightarrow> stateObject \<Rightarrow> bool" where
  "obj_ok E a obj \<longleftrightarrow>
     so_address obj = a \<and> (so_code obj \<noteq> [] \<longrightarrow> env_keccak E (so_code obj) = CodeHash (so_data obj))"

definition objs_ok :: "Env \<Rightarrow> StateDB \<Rightarrow> bool" where
  "objs_ok E s \<longleftrightarrow> (\<forall>a obj. fmlookup (stateObjects s) a = Some obj \<longrightarrow> obj_ok E a obj)"

text \<open>
  What the code reader documents: code is stored under its hash, so code that is found has
  the hash it was requested by.
\<close>

definition code_reader_ok :: "Env \<Rightarrow> bool" where
  "code_reader_ok E \<longleftrightarrow>
     (\<forall>a h. fst (env_Code E a h) \<noteq> [] \<longrightarrow> env_keccak E (fst (env_Code E a h)) = h)"

named_theorems sdb_simps \<open>effects of the state operations on the abstract state\<close>

subsection \<open>Loading objects\<close>

lemma newObject_simps [simp]:
  "so_address (newObject E a x) = a" "so_code (newObject E a x) = []"
  "so_origin (newObject E a x) = x" "so_selfDestructed (newObject E a x) = False"
  "so_newContract (newObject E a x) = False" "so_dirtyStorage (newObject E a x) = fmempty"
  "so_pendingStorage (newObject E a x) = fmempty" "so_originStorage (newObject E a x) = fmempty"
  "so_uncommittedStorage (newObject E a x) = fmempty"
  by (simp_all add: newObject_def Let_def)

lemma db_object_address: "db_object E D a = Some obj \<Longrightarrow> so_address obj = a \<and> so_code obj = []"
  by (auto simp: db_object_def split: if_splits sum.splits option.splits)

lemma live_object_ok: "objs_ok E s \<Longrightarrow> live_object E s a = Some obj \<Longrightarrow> obj_ok E a obj"
  by (auto simp: live_object_def obj_at_def objs_ok_def obj_ok_def dest: db_object_address split: option.splits)

lemma setError_simps [simp]:
  "stateObjects (setError e s) = stateObjects s" "stateObjectsDestruct (setError e s) = stateObjectsDestruct s"
  "sdb_journal (setError e s) = sdb_journal s" "world E (setError e s) = world E s"
  "arbExtraData (setError e s) = arbExtraData s"
  by (simp_all add: setError_def world_def view_def live_object_def)

lemma live_setError [simp]: "live_object E (setError e s) = live_object E s"
  by (simp add: live_object_def)

lemma objs_ok_setError [simp]: "objs_ok E (setError e s) = objs_ok E s"
  by (simp add: objs_ok_def)

lemma setStateObject_simps [simp]:
  "stateObjects (setStateObject obj s) = fmupd (so_address obj) obj (stateObjects s)"
  "stateObjectsDestruct (setStateObject obj s) = stateObjectsDestruct s"
  "sdb_journal (setStateObject obj s) = sdb_journal s"
  "arbExtraData (setStateObject obj s) = arbExtraData s"
  by (simp_all add: setStateObject_def)

lemma live_setStateObject:
  "live_object E (setStateObject obj s) = (live_object E s)(so_address obj := Some obj)"
  by (rule ext) (simp add: live_object_def obj_at_def)

lemma abs_setStateObject:
  "world E (setStateObject obj s) =
     (world E s)\<lparr>as_acct := (as_acct (world E s))(so_address obj := Some (obj_view E (stateObjectsDestruct s) obj))\<rparr>"
  by (auto simp: world_def view_def live_setStateObject fun_eq_iff) (simp_all add: setStateObject_def)

lemma objs_ok_setStateObject:
  "objs_ok E s \<Longrightarrow> obj_ok E (so_address obj) obj \<Longrightarrow> objs_ok E (setStateObject obj s)"
  by (auto simp: objs_ok_def)

text \<open>Storing an object that looks like the live one changes nothing.\<close>

lemma abs_setStateObject_same:
  "live_object E s (so_address obj) = Some obj' \<Longrightarrow>
   obj_view E (stateObjectsDestruct s) obj = obj_view E (stateObjectsDestruct s) obj' \<Longrightarrow>
   world E (setStateObject obj s) = world E s"
  by (simp add: abs_setStateObject) (simp add: world_def view_def fun_upd_idem_iff)

lemma getStateObject_live: "snd (getStateObject E a s) = live_object E s a"
  by (auto simp: getStateObject_def live_object_def obj_at_def db_object_def Let_def split: option.splits sum.splits)

lemma getStateObject_state:
  assumes "objs_ok E s" "getStateObject E a s = (s', x)"
  shows "x = live_object E s a" "world E s' = world E s" "sdb_journal s' = sdb_journal s"
    "objs_ok E s'" "live_object E s' = live_object E s" "stateObjectsDestruct s' = stateObjectsDestruct s"
    "arbExtraData s' = arbExtraData s"
proof -
  show "x = live_object E s a" using getStateObject_live [of E a s] assms(2) by simp
  have "s' = s \<or> (\<exists>e. s' = setError e s) \<or>
      (\<exists>obj. live_object E s a = Some obj \<and> so_address obj = a \<and> s' = setStateObject obj s \<and> so_code obj = [])"
    using assms(2)
    by (auto simp: getStateObject_def live_object_def obj_at_def db_object_def Let_def split: option.splits sum.splits if_splits)
  then show "world E s' = world E s" "sdb_journal s' = sdb_journal s" "objs_ok E s'"
    "live_object E s' = live_object E s" "stateObjectsDestruct s' = stateObjectsDestruct s"
    "arbExtraData s' = arbExtraData s"
    using assms(1)
    by (auto simp: abs_setStateObject_same live_setStateObject objs_ok_setStateObject obj_ok_def fun_upd_idem)
qed

subsection \<open>Methods of objects\<close>

lemma or_else_upd: "or_else (fmupd k v m) f = (or_else m f)(k := v)"
  by (rule ext) (simp add: or_else_def)

lemma or_else_drop: "or_else (fmdrop k m) f = (or_else m f)(k := f k)"
  by (rule ext) (simp add: or_else_def)

lemma or_else_empty [simp]: "or_else fmempty f = f"
  by (rule ext) (simp add: or_else_def)

lemma or_else_upd_default: "fmlookup m k = None \<Longrightarrow> or_else (fmupd k (f k) m) f = or_else m f"
  by (rule ext) (auto simp: or_else_def)

lemma obj_view_origin:
  "fmlookup (so_originStorage obj) k = None \<Longrightarrow> v = db_storage E D (so_address obj) k \<Longrightarrow>
   obj_view E D (obj\<lparr>so_originStorage := fmupd k v (so_originStorage obj)\<rparr>) = obj_view E D obj"
  by (simp add: obj_view_def obj_code_def obj_committed_def obj_current_def or_else_upd_default)

text \<open>The state after a read inside an object differs from the one before in \<^verbatim>\<open>dbErr\<close> only.\<close>

definition only_err :: "StateDB \<Rightarrow> StateDB \<Rightarrow> bool" where
  "only_err s s' \<longleftrightarrow> (\<exists>e. s' = s\<lparr>dbErr := e\<rparr>)"

lemma only_err_refl [simp]: "only_err s s"
  unfolding only_err_def by (rule exI [of _ "dbErr s"]) simp

lemma only_err_setError [simp]: "only_err s t \<Longrightarrow> only_err s (setError e t)"
  by (auto simp: only_err_def setError_def)

lemma only_errD:
  assumes "only_err s s'"
  shows "world E s' = world E s" "sdb_journal s' = sdb_journal s" "live_object E s' = live_object E s"
    "stateObjects s' = stateObjects s" "stateObjectsDestruct s' = stateObjectsDestruct s"
    "arbExtraData s' = arbExtraData s" "objs_ok E s' = objs_ok E s"
  using assms by (auto simp: only_err_def world_def view_def live_object_def objs_ok_def)

lemma so_GetCommittedState_spec:
  assumes "so_GetCommittedState E k s obj = (v, s', obj')"
  shows "v = obj_committed E (stateObjectsDestruct s) obj k" "only_err s s'"
    "obj_view E (stateObjectsDestruct s) obj' = obj_view E (stateObjectsDestruct s) obj"
    "\<exists>os. obj' = obj\<lparr>so_originStorage := os\<rparr>"
    "obj_committed E (stateObjectsDestruct s) obj' = obj_committed E (stateObjectsDestruct s) obj"
proof -
  show v: "obj_view E (stateObjectsDestruct s) obj' = obj_view E (stateObjectsDestruct s) obj"
    using assms
    by (auto simp: so_GetCommittedState_def db_storage_def split: option.splits sum.splits if_splits
        intro!: obj_view_origin)
  show "v = obj_committed E (stateObjectsDestruct s) obj k" "only_err s s'"
    using assms
    by (auto simp: so_GetCommittedState_def obj_committed_def or_else_def db_storage_def split: option.splits sum.splits if_splits)
  have "\<exists>os. obj = obj\<lparr>so_originStorage := os\<rparr>" by (rule exI [of _ "so_originStorage obj"]) simp
  then show "\<exists>os. obj' = obj\<lparr>so_originStorage := os\<rparr>"
    using assms by (auto simp: so_GetCommittedState_def split: option.splits sum.splits if_splits)
  show "obj_committed E (stateObjectsDestruct s) obj' = obj_committed E (stateObjectsDestruct s) obj"
    using arg_cong [OF v, of v_committed] by (simp add: obj_view_def)
qed

lemma so_getState_spec:
  assumes "so_getState E k s obj = ((v, c), s', obj')"
  shows "v = obj_current E (stateObjectsDestruct s) obj k" "c = obj_committed E (stateObjectsDestruct s) obj k"
    "only_err s s'" "obj_view E (stateObjectsDestruct s) obj' = obj_view E (stateObjectsDestruct s) obj"
    "\<exists>os. obj' = obj\<lparr>so_originStorage := os\<rparr>"
proof -
  obtain w t o1 where g: "so_GetCommittedState E k s obj = (w, t, o1)"
    by (cases "so_GetCommittedState E k s obj") auto
  note spec = so_GetCommittedState_spec [OF g]
  from spec(4) have d: "so_dirtyStorage o1 = so_dirtyStorage obj" by auto
  from assms g have *: "s' = t" "obj' = o1" "c = w"
    "v = (case fmlookup (so_dirtyStorage o1) k of Some x \<Rightarrow> x | None \<Rightarrow> w)"
    by (auto simp: so_getState_def split: option.splits)
  show "v = obj_current E (stateObjectsDestruct s) obj k" using * spec(1) d by (auto simp: obj_current_def or_else_def split: option.splits)
  show "c = obj_committed E (stateObjectsDestruct s) obj k" "only_err s s'"
    "obj_view E (stateObjectsDestruct s) obj' = obj_view E (stateObjectsDestruct s) obj"
    "\<exists>os. obj' = obj\<lparr>so_originStorage := os\<rparr>"
    using * spec by simp_all
qed

lemma code_reader_okD: "code_reader_ok E \<Longrightarrow> env_Code E a h = (c, e) \<Longrightarrow> c \<noteq> [] \<Longrightarrow> env_keccak E c = h"
  unfolding code_reader_ok_def by (metis fst_conv)

lemma so_Code_spec:
  assumes "so_Code E s obj = (c, s', obj')"
  shows "c = obj_code E obj" "only_err s s'"
    "obj_view E D obj' = obj_view E D obj" "so_address obj' = so_address obj"
    "code_reader_ok E \<Longrightarrow> obj_ok E a obj \<Longrightarrow> obj_ok E a obj'"
  using assms
  by (auto simp: so_Code_def obj_code_def code_at_def obj_view_def obj_committed_def obj_current_def
      obj_ok_def Let_def split: if_splits prod.splits option.splits dest: code_reader_okD)

lemma obj_view_data_simps [sdb_simps]:
  "obj_view E D (so_setBalance b obj) = (obj_view E D obj)\<lparr>v_balance := b\<rparr>"
  "obj_view E D (so_setNonce n obj) = (obj_view E D obj)\<lparr>v_nonce := n\<rparr>"
  "obj_view E D (obj\<lparr>so_newContract := f\<rparr>) = (obj_view E D obj)\<lparr>v_newContract := f\<rparr>"
  "obj_view E D (obj\<lparr>so_selfDestructed := f\<rparr>) = (obj_view E D obj)\<lparr>v_selfDestructed := f\<rparr>"
  by (simp_all add: obj_view_def obj_code_def obj_committed_def obj_current_def so_setBalance_def
      so_setNonce_def)

lemma obj_view_setCode [sdb_simps]:
  "obj_view E D (so_setCode (env_keccak E c) c obj) =
     (obj_view E D obj)\<lparr>v_codehash := env_keccak E c, v_code := c\<rparr>"
  by (simp add: obj_view_def obj_code_def code_at_def obj_committed_def obj_current_def so_setCode_def
      EmptyCodeHash_def)

lemma obj_view_setState [sdb_simps]:
  "obj_view E D (so_setState k v w obj) = view_setState k v w (obj_view E D obj)"
  by (simp add: view_setState_def obj_view_def obj_code_def obj_committed_def obj_current_def
      so_setState_def or_else_upd or_else_drop)

lemma view_setState_undo:
  "prev = v_current w k \<Longrightarrow> orig = v_committed w k \<Longrightarrow>
   view_setState k prev orig (view_setState k v orig w) = w"
  by (cases w) (auto simp: view_setState_def fun_upd_idem)

lemma view_setState_eq:
  "orig = v_committed w k \<Longrightarrow> view_setState k v orig w = w\<lparr>v_current := (v_current w)(k := v)\<rparr>"
  by (simp add: view_setState_def)

lemma obj_ok_simps [sdb_simps]:
  "obj_ok E a (so_setBalance b obj) = obj_ok E a obj" "obj_ok E a (so_setNonce n obj) = obj_ok E a obj"
  "obj_ok E a (obj\<lparr>so_newContract := f\<rparr>) = obj_ok E a obj"
  "obj_ok E a (obj\<lparr>so_selfDestructed := f\<rparr>) = obj_ok E a obj"
  "obj_ok E a (obj\<lparr>so_originStorage := x\<rparr>) = obj_ok E a obj"
  "obj_ok E a (so_setState k v w obj) = obj_ok E a obj"
  "obj_ok E a (so_setCode (env_keccak E c) c obj) \<longleftrightarrow> so_address obj = a"
  by (auto simp: obj_ok_def so_setBalance_def so_setNonce_def so_setState_def so_setCode_def)

lemma so_address_simps [simp]:
  "so_address (so_setBalance b obj) = so_address obj" "so_address (so_setNonce n obj) = so_address obj"
  "so_address (so_setState k v w obj) = so_address obj" "so_address (so_setCode h c obj) = so_address obj"
  by (simp_all add: so_setBalance_def so_setNonce_def so_setState_def so_setCode_def)

end
