(* ===== verification/StateRefine.thy ===== *)
theory StateRefine
  imports StateView
begin

text \<open>
  Refinement of the state database against the abstract world state of \<open>StateView\<close>: what
  every getter returns, what every setter and every journal entry's \<^verbatim>\<open>revert\<close> does to it, and
  that a setter's journal entries undo it.
\<close>

subsection \<open>Getters\<close>

text \<open>Nothing observable changes: a read may only fill caches and record a database error.\<close>

definition quiet :: "Env \<Rightarrow> StateDB \<Rightarrow> StateDB \<Rightarrow> bool" where
  "quiet E s s' \<longleftrightarrow>
     world E s' = world E s \<and> sdb_journal s' = sdb_journal s \<and> objs_ok E s' \<and> arbExtraData s' = arbExtraData s"

lemma quiet_refl: "objs_ok E s \<Longrightarrow> quiet E s s"
  by (simp add: quiet_def)

lemma quiet_trans: "quiet E s t \<Longrightarrow> quiet E t u \<Longrightarrow> quiet E s u"
  by (simp add: quiet_def)

lemma quiet_only_err: "objs_ok E s \<Longrightarrow> only_err s t \<Longrightarrow> quiet E s t"
  by (simp add: quiet_def only_errD [of s t])

lemma abs_sel [simp]:
  "as_acct (world E s) = view E s" "as_destruct (world E s) = stateObjectsDestruct s"
  "as_refund (world E s) = sdb_refund s" "as_accessList (world E s) = sdb_accessList s"
  "as_transient (world E s) = sdb_transientStorage s" "as_logs (world E s) = sdb_logs s"
  "as_logSize (world E s) = sdb_logSize s" "as_thash (world E s) = sdb_thash s"
  "as_txIndex (world E s) = sdb_txIndex s" "as_mutations (world E s) = mutations s"
  "as_activated (world E s) = arb_activatedWasms (arbExtraData s)"
  by (simp_all add: world_def)

lemma view_live: "view E s a = map_option (obj_view E (stateObjectsDestruct s)) (live_object E s a)"
  by (simp add: view_def)

lemma load_cases:
  assumes "objs_ok E s"
  obtains s1 where "getStateObject E a s = (s1, live_object E s a)" "quiet E s s1"
    "live_object E s1 = live_object E s" "stateObjectsDestruct s1 = stateObjectsDestruct s"
proof -
  obtain s1 x where g: "getStateObject E a s = (s1, x)" by (cases "getStateObject E a s")
  from getStateObject_state [OF assms g] g that [of s1] show thesis by (simp add: quiet_def)
qed

lemma store_quiet:
  assumes "objs_ok E s" "live_object E s a = Some obj" "only_err s s'"
    "obj_view E (stateObjectsDestruct s) obj' = obj_view E (stateObjectsDestruct s) obj" "obj_ok E a obj'"
  shows "quiet E s (setStateObject obj' s')"
proof -
  from assms(5) have a: "so_address obj' = a" by (simp add: obj_ok_def)
  have "world E (setStateObject obj' s') = world E s'"
    using assms a by (intro abs_setStateObject_same [where obj' = obj]) (simp_all add: only_errD [OF assms(3)])
  with assms a show ?thesis
    by (simp add: quiet_def only_errD [OF assms(3)] objs_ok_setStateObject)
qed

text \<open>Reading one field of the account.\<close>

definition acct_get :: "AState \<Rightarrow> address \<Rightarrow> 'a \<Rightarrow> (acct_view \<Rightarrow> 'a) \<Rightarrow> 'a" where
  "acct_get A a d f = (case as_acct A a of None \<Rightarrow> d | Some v \<Rightarrow> f v)"

lemma field_getters:
  assumes "objs_ok E s"
  shows "fst (GetBalance E a s) = acct_get (world E s) a 0 v_balance \<and> quiet E s (snd (GetBalance E a s))"
    and "fst (GetNonce E a s) = acct_get (world E s) a 0 v_nonce \<and> quiet E s (snd (GetNonce E a s))"
    and "fst (GetStorageRoot E a s) = acct_get (world E s) a 0 v_root \<and> quiet E s (snd (GetStorageRoot E a s))"
    and "fst (GetCodeHash E a s) = acct_get (world E s) a 0 v_codehash \<and> quiet E s (snd (GetCodeHash E a s))"
    and "fst (HasSelfDestructed E a s) = acct_get (world E s) a False v_selfDestructed \<and>
      quiet E s (snd (HasSelfDestructed E a s))"
    and "fst (Exist E a s) = acct_get (world E s) a False (\<lambda>_. True) \<and> quiet E s (snd (Exist E a s))"
    and "fst (Empty E a s) = acct_get (world E s) a True
        (\<lambda>v. v_nonce v = 0 \<and> v_balance v = 0 \<and> v_codehash v = EmptyCodeHash E) \<and> quiet E s (snd (Empty E a s))"
proof -
  obtain s1 where "getStateObject E a s = (s1, live_object E s a)" "quiet E s s1"
    by (rule load_cases [OF assms])
  then show "fst (GetBalance E a s) = acct_get (world E s) a 0 v_balance \<and> quiet E s (snd (GetBalance E a s))"
    "fst (GetNonce E a s) = acct_get (world E s) a 0 v_nonce \<and> quiet E s (snd (GetNonce E a s))"
    "fst (GetStorageRoot E a s) = acct_get (world E s) a 0 v_root \<and> quiet E s (snd (GetStorageRoot E a s))"
    "fst (GetCodeHash E a s) = acct_get (world E s) a 0 v_codehash \<and> quiet E s (snd (GetCodeHash E a s))"
    "fst (HasSelfDestructed E a s) = acct_get (world E s) a False v_selfDestructed \<and>
      quiet E s (snd (HasSelfDestructed E a s))"
    "fst (Exist E a s) = acct_get (world E s) a False (\<lambda>_. True) \<and> quiet E s (snd (Exist E a s))"
    "fst (Empty E a s) = acct_get (world E s) a True
        (\<lambda>v. v_nonce v = 0 \<and> v_balance v = 0 \<and> v_codehash v = EmptyCodeHash E) \<and> quiet E s (snd (Empty E a s))"
    by (auto simp: GetBalance_def GetNonce_def GetStorageRoot_def GetCodeHash_def HasSelfDestructed_def
        Exist_def Empty_def acct_get_def view_live obj_view_def so_empty_def split: option.splits)
qed

lemma GetCode_refines:
  assumes "objs_ok E s" "code_reader_ok E"
  shows "fst (GetCode E a s) = acct_get (world E s) a [] v_code \<and> quiet E s (snd (GetCode E a s))"
proof -
  obtain s1 where g: "getStateObject E a s = (s1, live_object E s a)" "quiet E s s1"
    "live_object E s1 = live_object E s" "stateObjectsDestruct s1 = stateObjectsDestruct s"
    by (rule load_cases [OF assms(1)])
  show ?thesis
  proof (cases "live_object E s a")
    case None
    with g show ?thesis by (simp add: GetCode_def acct_get_def view_live)
  next
    case (Some obj)
    obtain c s2 obj2 where c: "so_Code E s1 obj = (c, s2, obj2)" by (cases "so_Code E s1 obj") auto
    note spec = so_Code_spec [OF c]
    have "quiet E s1 (setStateObject obj2 s2)"
      using g Some spec assms live_object_ok [OF assms(1) Some]
      by (intro store_quiet) (auto simp: quiet_def)
    with g(1,2) Some c spec(1) show ?thesis
      by (auto simp: GetCode_def acct_get_def view_live obj_view_def intro: quiet_trans)
  qed
qed

lemma so_CodeSize_only_err: "only_err s (snd (so_CodeSize E s obj))"
  by (auto simp: so_CodeSize_def Let_def split: prod.splits option.splits)

lemma GetCodeSize_quiet:
  assumes "objs_ok E s"
  shows "quiet E s (snd (GetCodeSize E a s))"
proof -
  obtain s1 where g: "getStateObject E a s = (s1, live_object E s a)" "quiet E s s1"
    by (rule load_cases [OF assms(1)])
  have "quiet E s1 (snd (so_CodeSize E s1 obj))" for obj
    using g(2) by (intro quiet_only_err so_CodeSize_only_err) (simp add: quiet_def)
  with g show ?thesis by (auto simp: GetCodeSize_def intro: quiet_trans split: option.splits)
qed

lemma GetStateAndCommittedState_refines:
  assumes "objs_ok E s"
  shows "fst (GetStateAndCommittedState E a k s) =
      (acct_get (world E s) a 0 (\<lambda>v. v_current v k), acct_get (world E s) a 0 (\<lambda>v. v_committed v k)) \<and>
    quiet E s (snd (GetStateAndCommittedState E a k s))"
proof -
  obtain s1 where g: "getStateObject E a s = (s1, live_object E s a)" "quiet E s s1"
    "live_object E s1 = live_object E s" "stateObjectsDestruct s1 = stateObjectsDestruct s"
    by (rule load_cases [OF assms(1)])
  show ?thesis
  proof (cases "live_object E s a")
    case None
    with g show ?thesis by (simp add: GetStateAndCommittedState_def acct_get_def view_live)
  next
    case (Some obj)
    obtain v c s2 obj2 where c: "so_getState E k s1 obj = ((v, c), s2, obj2)"
      by (cases "so_getState E k s1 obj") auto
    note spec = so_getState_spec [OF c]
    from spec(5) live_object_ok [OF assms Some] have "obj_ok E a obj2" by (auto simp: sdb_simps)
    then have "quiet E s1 (setStateObject obj2 s2)"
      using g Some spec assms by (intro store_quiet [where obj = obj]) (auto simp: quiet_def)
    with g Some c spec(1,2) show ?thesis
      by (auto simp: GetStateAndCommittedState_def acct_get_def view_live obj_view_def intro: quiet_trans)
  qed
qed

lemma GetState_eq:
  "GetState E a k s = (fst (fst (GetStateAndCommittedState E a k s)), snd (GetStateAndCommittedState E a k s))"
  by (simp add: GetState_def GetStateAndCommittedState_def split: prod.splits option.splits)

lemma GetCommittedState_refines:
  assumes "objs_ok E s"
  shows "fst (GetCommittedState E a k s) = acct_get (world E s) a 0 (\<lambda>v. v_committed v k) \<and>
    quiet E s (snd (GetCommittedState E a k s))"
proof -
  obtain s1 where g: "getStateObject E a s = (s1, live_object E s a)" "quiet E s s1"
    "live_object E s1 = live_object E s" "stateObjectsDestruct s1 = stateObjectsDestruct s"
    by (rule load_cases [OF assms(1)])
  show ?thesis
  proof (cases "live_object E s a")
    case None
    with g show ?thesis by (simp add: GetCommittedState_def acct_get_def view_live)
  next
    case (Some obj)
    obtain c s2 obj2 where c: "so_GetCommittedState E k s1 obj = (c, s2, obj2)"
      by (cases "so_GetCommittedState E k s1 obj") auto
    note spec = so_GetCommittedState_spec [OF c]
    from spec(4) live_object_ok [OF assms Some] have "obj_ok E a obj2" by (auto simp: sdb_simps)
    then have "quiet E s1 (setStateObject obj2 s2)"
      using g Some spec assms by (intro store_quiet [where obj = obj]) (auto simp: quiet_def)
    with g Some c spec(1) show ?thesis
      by (auto simp: GetCommittedState_def acct_get_def view_live obj_view_def intro: quiet_trans)
  qed
qed

subsection \<open>Reverting on the abstract state\<close>

definition on_acct :: "address \<Rightarrow> (acct_view \<Rightarrow> acct_view) \<Rightarrow> AState \<Rightarrow> AState option" where
  "on_acct a f A =
     (case as_acct A a of None \<Rightarrow> None | Some v \<Rightarrow> Some (A\<lparr>as_acct := (as_acct A)(a := Some (f v))\<rparr>))"

fun abs_revert :: "Env \<Rightarrow> journalEntry \<Rightarrow> AState \<Rightarrow> AState option" where
  "abs_revert E (createObjectChange a) A = Some (A\<lparr>as_acct := (as_acct A)(a := db_view E (as_destruct A) a)\<rparr>)"
| "abs_revert E (createZombieChange a) A = Some (A\<lparr>as_acct := (as_acct A)(a := db_view E (as_destruct A) a)\<rparr>)"
| "abs_revert E (createContractChange a) A = on_acct a (\<lambda>v. v\<lparr>v_newContract := False\<rparr>) A"
| "abs_revert E (selfDestructChange a) A =
     (case as_acct A a of None \<Rightarrow> Some A | Some _ \<Rightarrow> on_acct a (\<lambda>v. v\<lparr>v_selfDestructed := False\<rparr>) A)"
| "abs_revert E (balanceChange a prev) A = on_acct a (\<lambda>v. v\<lparr>v_balance := prev\<rparr>) A"
| "abs_revert E (nonceChange a prev) A = on_acct a (\<lambda>v. v\<lparr>v_nonce := prev\<rparr>) A"
| "abs_revert E (storageChange a k prev orig) A = on_acct a (view_setState k prev orig) A"
| "abs_revert E (codeChange a prev) A =
     on_acct a (\<lambda>v. v\<lparr>v_codehash := env_keccak E prev, v_code := prev\<rparr>) A"
| "abs_revert E (refundChange prev) A = Some (A\<lparr>as_refund := prev\<rparr>)"
| "abs_revert E (addLogChange h) A =
     (let logs = (case fmlookup (as_logs A) h of None \<Rightarrow> [] | Some ls \<Rightarrow> ls)
      in if length logs = 1 then Some (A\<lparr>as_logs := fmdrop h (as_logs A), as_logSize := as_logSize A - 1\<rparr>)
         else if length logs = 0 then None
         else Some (A\<lparr>as_logs := fmupd h (butlast logs) (as_logs A), as_logSize := as_logSize A - 1\<rparr>))"
| "abs_revert E (touchChange a) A = Some A"
| "abs_revert E (accessListAddAccountChange a) A = Some (A\<lparr>as_accessList := DeleteAddress (as_accessList A) a\<rparr>)"
| "abs_revert E (accessListAddSlotChange a k) A =
     map_option (\<lambda>al. A\<lparr>as_accessList := al\<rparr>) (DeleteSlot (as_accessList A) a k)"
| "abs_revert E (transientStorageChange a k prev) A = Some (A\<lparr>as_transient := ts_Set (as_transient A) a k prev\<rparr>)"
| "abs_revert E (wasmActivation h) A = Some (A\<lparr>as_activated := fmdrop h (as_activated A)\<rparr>)"
| "abs_revert E (CacheWasm _ _ _ _) A = Some A"
| "abs_revert E (EvictWasm _ _ _ _) A = Some A"

fun abs_reverts :: "Env \<Rightarrow> journalEntry list \<Rightarrow> AState \<Rightarrow> AState option" where
  "abs_reverts E [] A = Some A"
| "abs_reverts E (e # es) A = (case abs_revert E e A of None \<Rightarrow> None | Some A' \<Rightarrow> abs_reverts E es A')"

lemma abs_reverts_append:
  "abs_reverts E (xs @ ys) A = (case abs_reverts E xs A of None \<Rightarrow> None | Some A' \<Rightarrow> abs_reverts E ys A')"
  by (induction xs arbitrary: A) (auto split: option.splits)

text \<open>Writing to a live object.\<close>

lemma on_object_refines:
  assumes "objs_ok E s"
    and f: "\<And>obj. obj_ok E a obj \<Longrightarrow> obj_view E (stateObjectsDestruct s) (f obj) = g (obj_view E (stateObjectsDestruct s) obj)"
    and ok: "\<And>obj. obj_ok E a obj \<Longrightarrow> obj_ok E a (f obj)"
  shows "map_option (world E) (on_object E a f s) = on_acct a g (world E s)"
    and "on_object E a f s = Some s' \<Longrightarrow>
      objs_ok E s' \<and> sdb_journal s' = sdb_journal s \<and> arbExtraData s' = arbExtraData s"
proof -
  obtain s1 where l: "getStateObject E a s = (s1, live_object E s a)" "quiet E s s1"
    "live_object E s1 = live_object E s" "stateObjectsDestruct s1 = stateObjectsDestruct s"
    by (rule load_cases [OF assms(1)])
  have okf: "obj_ok E a (f obj) \<and> so_address (f obj) = a \<and>
      obj_view E (stateObjectsDestruct s) (f obj) = g (obj_view E (stateObjectsDestruct s) obj)"
    if "live_object E s a = Some obj" for obj
    using live_object_ok [OF assms(1) that] ok f by (auto simp: obj_ok_def)
  show "map_option (world E) (on_object E a f s) = on_acct a g (world E s)"
    using l okf by (auto simp: on_object_def on_acct_def view_live quiet_def abs_setStateObject split: option.splits)
  show "objs_ok E s' \<and> sdb_journal s' = sdb_journal s \<and> arbExtraData s' = arbExtraData s"
    if "on_object E a f s = Some s'"
    using that l okf by (auto simp: on_object_def quiet_def objs_ok_setStateObject split: option.splits)
qed

lemma abs_upd_simps [sdb_simps]:
  "world E (s\<lparr>sdb_refund := x\<rparr>) = (world E s)\<lparr>as_refund := x\<rparr>"
  "world E (s\<lparr>sdb_accessList := al\<rparr>) = (world E s)\<lparr>as_accessList := al\<rparr>"
  "world E (s\<lparr>sdb_transientStorage := ts\<rparr>) = (world E s)\<lparr>as_transient := ts\<rparr>"
  "world E (s\<lparr>sdb_logs := l, sdb_logSize := n\<rparr>) = (world E s)\<lparr>as_logs := l, as_logSize := n\<rparr>"
  "world E (s\<lparr>sdb_journal := j\<rparr>) = world E s"
  "world E (s\<lparr>sdb_rust := r\<rparr>) = world E s"
  "world E (s\<lparr>sdb_preimages := pm\<rparr>) = world E s"
  "world E (s\<lparr>arbExtraData := x'\<rparr>) = (world E s)\<lparr>as_activated := arb_activatedWasms x'\<rparr>"
  by (simp_all add: world_def view_def live_object_def)

lemma objs_ok_upd_simps [sdb_simps]:
  "objs_ok E (s\<lparr>sdb_refund := x\<rparr>) = objs_ok E s"
  "objs_ok E (s\<lparr>sdb_accessList := al\<rparr>) = objs_ok E s"
  "objs_ok E (s\<lparr>sdb_transientStorage := ts\<rparr>) = objs_ok E s"
  "objs_ok E (s\<lparr>sdb_logs := l, sdb_logSize := n\<rparr>) = objs_ok E s"
  "objs_ok E (s\<lparr>sdb_journal := j\<rparr>) = objs_ok E s"
  "objs_ok E (s\<lparr>sdb_rust := r\<rparr>) = objs_ok E s"
  "objs_ok E (s\<lparr>sdb_preimages := pm\<rparr>) = objs_ok E s"
  "objs_ok E (s\<lparr>arbExtraData := x'\<rparr>) = objs_ok E s"
  by (simp_all add: objs_ok_def)

lemma view_drop_object:
  "view E (s\<lparr>stateObjects := fmdrop a (stateObjects s)\<rparr>) =
     (view E s)(a := db_view E (stateObjectsDestruct s) a)"
  by (rule ext) (auto simp: view_def live_object_def obj_at_def db_view_def)

lemma drop_object_refines:
  "world E (s\<lparr>stateObjects := fmdrop a (stateObjects s)\<rparr>) =
     (world E s)\<lparr>as_acct := (view E s)(a := db_view E (stateObjectsDestruct s) a)\<rparr>"
  "objs_ok E s \<Longrightarrow> objs_ok E (s\<lparr>stateObjects := fmdrop a (stateObjects s)\<rparr>)"
  by (simp_all add: world_def view_drop_object objs_ok_def)

lemma revert_selfDestruct_eq:
  "revert_entry E (selfDestructChange a) s =
     (case live_object E s a of
        None \<Rightarrow> Some (fst (getStateObject E a s))
      | Some _ \<Rightarrow> on_object E a (\<lambda>obj. obj\<lparr>so_selfDestructed := False\<rparr>) s)"
  using getStateObject_live [of E a s]
  by (cases "getStateObject E a s") (auto simp: on_object_def split: option.splits)

definition reverted_ok :: "Env \<Rightarrow> StateDB \<Rightarrow> StateDB \<Rightarrow> bool" where
  "reverted_ok E s s' \<longleftrightarrow>
     objs_ok E s' \<and> sdb_journal s' = sdb_journal s \<and>
     arb_unexpectedBalanceDelta (arbExtraData s') = arb_unexpectedBalanceDelta (arbExtraData s)"

lemma revert_entry_refines:
  assumes "objs_ok E s"
  shows "map_option (world E) (revert_entry E e s) = abs_revert E e (world E s)"
    and "revert_entry E e s = Some s' \<Longrightarrow> reverted_ok E s s'"
proof -
  note obj = on_object_refines [OF assms]
  have ok: "obj_ok E a obj \<Longrightarrow> so_address obj = a" for a obj
    by (simp add: obj_ok_def)
  show "map_option (world E) (revert_entry E e s) = abs_revert E e (world E s)"
  proof (cases e)
    case (selfDestructChange a)
    obtain s1 where "getStateObject E a s = (s1, live_object E s a)" "quiet E s s1"
      by (rule load_cases [OF assms])
    with selfDestructChange show ?thesis
      using obj(1) [of a "\<lambda>obj. obj\<lparr>so_selfDestructed := False\<rparr>" "\<lambda>v. v\<lparr>v_selfDestructed := False\<rparr>"]
      by (auto simp: revert_selfDestruct_eq view_live quiet_def sdb_simps simp del: revert_entry.simps
          split: option.splits)
  qed (auto simp: sdb_simps drop_object_refines setTransientState_def Let_def option.map_comp comp_def
      ok intro!: obj(1))
  show "reverted_ok E s s'" if "revert_entry E e s = Some s'"
  proof (cases e)
    case (selfDestructChange a)
    obtain s1 where "getStateObject E a s = (s1, live_object E s a)" "quiet E s s1"
      by (rule load_cases [OF assms])
    with selfDestructChange that show ?thesis
      using obj(2) [of a "\<lambda>obj. obj\<lparr>so_selfDestructed := False\<rparr>" "\<lambda>v. v\<lparr>v_selfDestructed := False\<rparr>" s']
      by (auto simp: revert_selfDestruct_eq quiet_def reverted_ok_def sdb_simps simp del: revert_entry.simps
          split: option.splits)
  qed (use that assms in \<open>auto simp: reverted_ok_def sdb_simps drop_object_refines setTransientState_def
      Let_def ok split: if_splits option.splits dest!: obj(2) [rotated -1]\<close>)
qed

subsection \<open>The dirty counters follow the journal\<close>

definition dirty_count :: "journalEntry list \<Rightarrow> address \<Rightarrow> nat" where
  "dirty_count es a = length (filter (\<lambda>e. dirtied e = Some a) es)"

text \<open>RIPEMD-160 (address 3) is exempt: a touch of it stays dirty across reverts on purpose.\<close>

definition dirties_for :: "journalEntry list \<Rightarrow> journal \<Rightarrow> bool" where
  "dirties_for es j \<longleftrightarrow>
     (\<forall>a. a \<noteq> 3 \<longrightarrow> fmlookup (jr_dirties j) a =
        (if dirty_count es a = 0 then None else Some (int (dirty_count es a))))"

lemma dirty_count_simps [simp]:
  "dirty_count [] a = 0" "dirty_count (xs @ ys) a = dirty_count xs a + dirty_count ys a"
  "dirty_count (e # es) a = (if dirtied e = Some a then 1 else 0) + dirty_count es a"
  by (simp_all add: dirty_count_def)

lemma journal_append_simps [simp]:
  "jr_entries (journal_append e j) = jr_entries j @ [e]"
  "jr_validRevisions (journal_append e j) = jr_validRevisions j"
  "jr_nextRevisionId (journal_append e j) = jr_nextRevisionId j"
  by (simp_all add: journal_append_def Let_def split: option.splits)

lemma journal_undirty_simps [simp]:
  "jr_entries (journal_undirty e j) = jr_entries j"
  "jr_validRevisions (journal_undirty e j) = jr_validRevisions j"
  "jr_nextRevisionId (journal_undirty e j) = jr_nextRevisionId j"
  by (simp_all add: journal_undirty_def Let_def split: option.splits prod.splits)

lemma fm_get_dirties_for:
  "dirties_for es j \<Longrightarrow> a \<noteq> 3 \<Longrightarrow> fm_get (jr_dirties j) a = int (dirty_count es a)"
  by (simp add: dirties_for_def fm_get_def)

lemma dirties_for_append: "dirties_for es j \<Longrightarrow> dirties_for (es @ [e]) (journal_append e j)"
  by (auto simp: dirties_for_def journal_append_def Let_def fm_incr_def fm_get_def split: option.splits)

lemma dirties_for_dirty3: "dirties_for es j \<Longrightarrow> dirties_for es (journal_dirty 3 j)"
  by (simp add: dirties_for_def journal_dirty_def fm_incr_def)

lemma dirties_for_undirty: "dirties_for (es @ [e]) j \<Longrightarrow> dirties_for es (journal_undirty e j)"
  by (auto simp: dirties_for_def journal_undirty_def Let_def fm_decr_def fm_get_def split: option.splits)

lemma dirties_for_fold:
  "dirties_for (xs @ ys) j \<Longrightarrow> dirties_for xs (fold journal_undirty (rev ys) j)"
proof (induction ys arbitrary: j rule: rev_induct)
  case (snoc y ys)
  then have "dirties_for (xs @ ys) (journal_undirty y j)" by (intro dirties_for_undirty) simp
  with snoc.IH show ?case by simp
qed simp

lemma fold_undirty_simps [simp]:
  "jr_entries (fold journal_undirty es j) = jr_entries j"
  "jr_validRevisions (fold journal_undirty es j) = jr_validRevisions j"
  "jr_nextRevisionId (fold journal_undirty es j) = jr_nextRevisionId j"
  by (induction es arbitrary: j) simp_all

lemma revert_loop_refines:
  assumes "objs_ok E s"
  shows "map_option (world E) (revert_loop E es s) = abs_reverts E es (world E s)"
    and "revert_loop E es s = Some s' \<Longrightarrow>
      objs_ok E s' \<and> sdb_journal s' = fold journal_undirty es (sdb_journal s) \<and>
      arb_unexpectedBalanceDelta (arbExtraData s') = arb_unexpectedBalanceDelta (arbExtraData s)"
  using assms
proof (induction es arbitrary: s)
  case (Cons e es)
  {
    case 1
    note r = revert_entry_refines [OF 1, of e]
    show ?case
    proof (cases "revert_entry E e s")
      case None
      with r(1) show ?thesis by auto
    next
      case (Some t)
      with r(2) 1 have "objs_ok E (t\<lparr>sdb_journal := journal_undirty e (sdb_journal t)\<rparr>)"
        by (simp add: sdb_simps reverted_ok_def)
      moreover from r(1) Some have "abs_revert E e (world E s) = Some (world E t)" by simp
      ultimately show ?thesis using Cons.IH(1) Some by (simp add: sdb_simps)
    qed
  next
    case 2
    then obtain t where t: "revert_entry E e s = Some t"
      "revert_loop E es (t\<lparr>sdb_journal := journal_undirty e (sdb_journal t)\<rparr>) = Some s'"
      by (auto split: option.splits)
    with revert_entry_refines(2) [OF 2(2) t(1)] Cons.IH(2) [OF t(2)] show ?case
      by (simp add: sdb_simps reverted_ok_def)
  }
qed simp_all

subsection \<open>Setters and their journal entries\<close>

text \<open>
  The operation appended \<open>es\<close> to the journal, kept the counters and the revisions right, and
  undoing \<open>es\<close> in reverse order gives back the abstract state before it.
\<close>

definition logged :: "Env \<Rightarrow> journalEntry list \<Rightarrow> StateDB \<Rightarrow> StateDB \<Rightarrow> bool" where
  "logged E es s s' \<longleftrightarrow>
     objs_ok E s' \<and>
     jr_entries (sdb_journal s') = jr_entries (sdb_journal s) @ es \<and>
     jr_validRevisions (sdb_journal s') = jr_validRevisions (sdb_journal s) \<and>
     jr_nextRevisionId (sdb_journal s') = jr_nextRevisionId (sdb_journal s) \<and>
     (dirties_for (jr_entries (sdb_journal s)) (sdb_journal s) \<longrightarrow>
      dirties_for (jr_entries (sdb_journal s')) (sdb_journal s')) \<and>
     abs_reverts E (rev es) (world E s') = Some (world E s)"

lemma logged_quiet: "quiet E s s' \<Longrightarrow> logged E [] s s'"
  by (simp add: quiet_def logged_def)

lemma logged_trans: "logged E es s t \<Longrightarrow> logged E fs t u \<Longrightarrow> logged E (es @ fs) s u"
  by (auto simp: logged_def abs_reverts_append)

lemma logged_one:
  assumes "objs_ok E s'" "sdb_journal s' = journal_append e (sdb_journal s)"
    "abs_revert E e (world E s') = Some (world E s)"
  shows "logged E [e] s s'"
  using assms dirties_for_append by (simp add: logged_def)

definition acct_put :: "AState \<Rightarrow> address \<Rightarrow> acct_view \<Rightarrow> AState" where
  "acct_put A a v = A\<lparr>as_acct := (as_acct A)(a := Some v)\<rparr>"

definition acct_or_new :: "Env \<Rightarrow> AState \<Rightarrow> address \<Rightarrow> acct_view" where
  "acct_or_new E A a = (case as_acct A a of Some v \<Rightarrow> v | None \<Rightarrow> new_view E (as_destruct A) a)"

lemma acct_put_simps [simp]:
  "as_acct (acct_put A a v) = (as_acct A)(a := Some v)"
  "as_destruct (acct_put A a v) = as_destruct A"
  "acct_put (acct_put A a v) a w = acct_put A a w"
  "on_acct a f (acct_put A a v) = Some (acct_put A a (f v))"
  by (simp_all add: acct_put_def on_acct_def)

lemma acct_put_same: "as_acct A a = Some v \<Longrightarrow> acct_put A a v = A"
  by (simp add: acct_put_def fun_upd_idem)

lemma sdb_append_simps [simp]:
  "world E (sdb_append e s) = world E s" "objs_ok E (sdb_append e s) = objs_ok E s"
  "stateObjects (sdb_append e s) = stateObjects s"
  "stateObjectsDestruct (sdb_append e s) = stateObjectsDestruct s"
  "arbExtraData (sdb_append e s) = arbExtraData s"
  "sdb_journal (sdb_append e s) = journal_append e (sdb_journal s)"
  "live_object E (sdb_append e s) = live_object E s"
  by (simp_all add: sdb_append_def sdb_simps live_object_def)

lemma abs_store: "world E (setStateObject obj s) = acct_put (world E s) (so_address obj) (obj_view E (stateObjectsDestruct s) obj)"
  by (simp add: abs_setStateObject acct_put_def)

lemma view_of_live:
  "live_object E s a = Some obj \<Longrightarrow> as_acct (world E s) a = Some (obj_view E (stateObjectsDestruct s) obj)"
  by (simp add: view_live)

lemma put_live_same:
  "live_object E s a = Some obj \<Longrightarrow> acct_put (world E s) a (obj_view E (stateObjectsDestruct s) obj) = world E s"
  by (intro acct_put_same view_of_live)

text \<open>Journalling one change of a live object and storing the object.\<close>

lemma store_logged:
  assumes "objs_ok E s" "live_object E s a = Some obj" "obj_ok E a obj'"
    "abs_revert E e (acct_put (world E s) a (obj_view E (stateObjectsDestruct s) obj')) = Some (world E s)"
  shows "logged E [e] s (setStateObject obj' (sdb_append e s))"
    and "logged E [e] s (sdb_append e (setStateObject obj' s))"
proof -
  from assms(3) have "so_address obj' = a" by (simp add: obj_ok_def)
  with assms show "logged E [e] s (setStateObject obj' (sdb_append e s))"
    "logged E [e] s (sdb_append e (setStateObject obj' s))"
    by (auto intro!: logged_one objs_ok_setStateObject simp: abs_store)
qed

lemma createObject_logged:
  assumes "objs_ok E s" "view E s a = None" "e = createObjectChange a \<or> e = createZombieChange a"
  shows "logged E [e] s (setStateObject (newObject E a None) (sdb_append e s))"
proof -
  have "db_view E (stateObjectsDestruct s) a = None"
    using assms(2) by (auto simp: view_live live_object_def obj_at_def db_view_def split: option.splits)
  moreover have "(view E s)(a := None) = view E s" using assms(2) by (simp add: fun_upd_idem)
  ultimately show ?thesis
    using assms(1,3)
    by (intro logged_one) (auto simp: objs_ok_setStateObject obj_ok_def abs_store acct_put_def)
qed

lemma getOrNew_logged:
  assumes "objs_ok E s" "getOrNewStateObject E a s = (s1, obj)"
  shows "\<exists>es. logged E es s s1" "obj_ok E a obj" "live_object E s1 a = Some obj"
    "stateObjectsDestruct s1 = stateObjectsDestruct s" "arbExtraData s1 = arbExtraData s"
    "obj_view E (stateObjectsDestruct s) obj = acct_or_new E (world E s) a"
    "world E s1 = acct_put (world E s) a (acct_or_new E (world E s) a)"
proof -
  obtain t where g: "getStateObject E a s = (t, live_object E s a)" "quiet E s t"
    "live_object E t = live_object E s" "stateObjectsDestruct t = stateObjectsDestruct s"
    by (rule load_cases [OF assms(1)])
  have "(\<exists>es. logged E es s s1) \<and> obj_ok E a obj \<and> live_object E s1 a = Some obj \<and>
    stateObjectsDestruct s1 = stateObjectsDestruct s \<and> arbExtraData s1 = arbExtraData s \<and>
    obj_view E (stateObjectsDestruct s) obj = acct_or_new E (world E s) a \<and>
    world E s1 = acct_put (world E s) a (acct_or_new E (world E s) a)"
  proof (cases "live_object E s a")
    case None
    from None have v: "view E t a = None" using g(2) by (simp add: view_live g)
    from None assms(2) g have s1: "s1 = setStateObject (newObject E a None) (sdb_append (createObjectChange a) t)"
      "obj = newObject E a None"
      by (auto simp: getOrNewStateObject_def createObject_def Let_def)
    have "logged E ([] @ [createObjectChange a]) s s1"
      unfolding s1(1) using g(2) v
      by (intro logged_trans [OF logged_quiet [OF g(2)]] createObject_logged) (auto simp: quiet_def)
    moreover have "acct_or_new E (world E s) a = new_view E (stateObjectsDestruct s) a"
      using None by (simp add: acct_or_new_def view_live)
    ultimately show ?thesis
      using g s1 by (auto simp: obj_ok_def live_setStateObject new_view_def abs_store quiet_def)
  next
    case (Some o1)
    with assms g have "s1 = t" "obj = o1" by (auto simp: getOrNewStateObject_def)
    moreover have "acct_or_new E (world E s) a = obj_view E (stateObjectsDestruct s) o1"
      using Some by (simp add: acct_or_new_def view_live)
    ultimately show ?thesis
      using g Some live_object_ok [OF assms(1) Some] view_of_live [OF Some]
      by (auto simp: quiet_def acct_put_same logged_quiet intro!: exI [of _ "[]"])
  qed
  then show "\<exists>es. logged E es s s1" "obj_ok E a obj" "live_object E s1 a = Some obj"
    "stateObjectsDestruct s1 = stateObjectsDestruct s" "arbExtraData s1 = arbExtraData s"
    "obj_view E (stateObjectsDestruct s) obj = acct_or_new E (world E s) a"
    "world E s1 = acct_put (world E s) a (acct_or_new E (world E s) a)" by blast+
qed

lemma add_delta_simps [simp]:
  "world E (add_delta d s) = world E s" "objs_ok E (add_delta d s) = objs_ok E s"
  "sdb_journal (add_delta d s) = sdb_journal s" "stateObjects (add_delta d s) = stateObjects s"
  "stateObjectsDestruct (add_delta d s) = stateObjectsDestruct s"
  "live_object E (add_delta d s) = live_object E s"
  "arb_unexpectedBalanceDelta (arbExtraData (add_delta d s)) = arb_unexpectedBalanceDelta (arbExtraData s) + d"
  by (simp_all add: add_delta_def sdb_simps live_object_def)

lemma add_delta_logged: "objs_ok E s \<Longrightarrow> logged E [] s (add_delta d s)"
  by (simp add: logged_def)

lemma journal_touchChange_entries [simp]:
  "jr_entries (journal_touchChange a j) = jr_entries j @ [touchChange a]"
  "jr_validRevisions (journal_touchChange a j) = jr_validRevisions j"
  "jr_nextRevisionId (journal_touchChange a j) = jr_nextRevisionId j"
  by (simp_all add: journal_touchChange_def Let_def journal_dirty_def)

lemma touch_logged: "objs_ok E s \<Longrightarrow> logged E [touchChange (so_address obj)] s (so_touch s obj)"
  using dirties_for_append [of "jr_entries (sdb_journal s)" "sdb_journal s" "touchChange (so_address obj)"]
  by (auto simp: logged_def so_touch_def sdb_simps journal_touchChange_def Let_def journal_dirty_def
      intro: dirties_for_dirty3 [unfolded journal_dirty_def])

lemma touch_simps [simp]:
  "world E (so_touch s obj) = world E s" "live_object E (so_touch s obj) = live_object E s"
  "stateObjectsDestruct (so_touch s obj) = stateObjectsDestruct s" "arbExtraData (so_touch s obj) = arbExtraData s"
  by (simp_all add: so_touch_def sdb_simps live_object_def)

text \<open>Storing back the object that is live already.\<close>

lemma store_same_logged:
  assumes "objs_ok E s" "live_object E s a = Some obj"
  shows "logged E [] s (setStateObject obj s)" and "world E (setStateObject obj s) = world E s"
  using store_quiet [OF assms only_err_refl refl live_object_ok [OF assms]]
  by (auto simp: quiet_def logged_def)

lemma so_SetBalance_logged:
  assumes "objs_ok E s" "live_object E s a = Some obj"
  shows "logged E [balanceChange a (Balance (so_data obj))] s
      (setStateObject (so_setBalance b obj) (sdb_append (balanceChange a (Balance (so_data obj))) s))"
    and "world E (setStateObject (so_setBalance b obj) (sdb_append e s)) =
      acct_put (world E s) a ((obj_view E (stateObjectsDestruct s) obj)\<lparr>v_balance := b\<rparr>)"
proof -
  have ok: "obj_ok E a obj" by (rule live_object_ok [OF assms])
  then have a: "so_address obj = a" by (simp add: obj_ok_def)
  have "(obj_view E D obj)\<lparr>v_balance := b, v_balance := Balance (so_data obj)\<rparr> = obj_view E D obj" for D
    by (simp add: obj_view_def)
  with ok show "logged E [balanceChange a (Balance (so_data obj))] s
      (setStateObject (so_setBalance b obj) (sdb_append (balanceChange a (Balance (so_data obj))) s))"
    by (intro store_logged [OF assms]) (simp_all add: sdb_simps put_live_same [OF assms(2)])
  show "world E (setStateObject (so_setBalance b obj) (sdb_append e s)) =
      acct_put (world E s) a ((obj_view E (stateObjectsDestruct s) obj)\<lparr>v_balance := b\<rparr>)"
    using a by (simp add: abs_store sdb_simps)
qed

lemma AddBalance_logged:
  assumes "objs_ok E s"
  shows "\<exists>es. logged E es s (snd (AddBalance E a amount s))"
    and "world E (snd (AddBalance E a amount s)) =
      acct_put (world E s) a ((acct_or_new E (world E s) a)\<lparr>v_balance := v_balance (acct_or_new E (world E s) a) + amount\<rparr>)"
    and "arb_unexpectedBalanceDelta (arbExtraData (snd (AddBalance E a amount s))) =
      arb_unexpectedBalanceDelta (arbExtraData s) + uint amount"
proof -
  obtain s1 obj where g: "getOrNewStateObject E a s = (s1, obj)" by (cases "getOrNewStateObject E a s")
  note n = getOrNew_logged [OF assms g]
  from n(1) obtain es where es: "logged E es s s1" ..
  then have ok1: "objs_ok E s1" by (simp add: logged_def)
  let ?s2 = "add_delta (uint amount) s1"
  have l2: "logged E es s ?s2" using logged_trans [OF es add_delta_logged [OF ok1]] by simp
  have ok2: "objs_ok E ?s2" "live_object E ?s2 a = Some obj" using ok1 n(3) by simp_all
  have a: "so_address obj = a" using n(2) by (simp add: obj_ok_def)
  have bal: "Balance (so_data obj) = v_balance (acct_or_new E (world E s) a)"
    using n(6) by (simp add: obj_view_def flip: n(6))
  have "(\<exists>es. logged E es s (snd (AddBalance E a amount s))) \<and>
    world E (snd (AddBalance E a amount s)) =
      acct_put (world E s) a ((acct_or_new E (world E s) a)\<lparr>v_balance := v_balance (acct_or_new E (world E s) a) + amount\<rparr>) \<and>
    arb_unexpectedBalanceDelta (arbExtraData (snd (AddBalance E a amount s))) =
      arb_unexpectedBalanceDelta (arbExtraData s) + uint amount"
  proof (cases "amount = 0")
    case True
    let ?s3 = "if so_empty E obj then so_touch ?s2 obj else ?s2"
    have "\<exists>fs. logged E fs ?s2 ?s3"
      using touch_logged [OF ok2(1), of obj] quiet_refl [OF ok2(1)] logged_quiet by (cases "so_empty E obj") auto
    then obtain fs where fs: "logged E fs ?s2 ?s3" ..
    have s3: "live_object E ?s3 a = Some obj" "world E ?s3 = world E s1" "arbExtraData ?s3 = arbExtraData ?s2"
      using n(3) by auto
    from fs have "objs_ok E ?s3" by (simp add: logged_def)
    note st = store_same_logged [OF this s3(1)]
    have "snd (AddBalance E a amount s) = setStateObject obj ?s3"
      using True g by (simp add: AddBalance_def so_AddBalance_def)
    with logged_trans [OF logged_trans [OF l2 fs] st(1)] st(2) s3 n(5,7) True show ?thesis by auto
  next
    case False
    with g a have "snd (AddBalance E a amount s) =
        setStateObject (so_setBalance (Balance (so_data obj) + amount) obj)
          (sdb_append (balanceChange a (Balance (so_data obj))) ?s2)"
      by (simp add: AddBalance_def so_AddBalance_def so_SetBalance_def Let_def)
    with logged_trans [OF l2 so_SetBalance_logged(1) [OF ok2, of "Balance (so_data obj) + amount"]]
      so_SetBalance_logged(2) [OF ok2] n bal show ?thesis by auto
  qed
  then show "\<exists>es. logged E es s (snd (AddBalance E a amount s))"
    "world E (snd (AddBalance E a amount s)) =
      acct_put (world E s) a ((acct_or_new E (world E s) a)\<lparr>v_balance := v_balance (acct_or_new E (world E s) a) + amount\<rparr>)"
    "arb_unexpectedBalanceDelta (arbExtraData (snd (AddBalance E a amount s))) =
      arb_unexpectedBalanceDelta (arbExtraData s) + uint amount" by blast+
qed

lemma SubBalance_logged:
  assumes "objs_ok E s"
  shows "\<exists>es. logged E es s (snd (SubBalance E a amount s))"
    and "world E (snd (SubBalance E a amount s)) =
      acct_put (world E s) a ((acct_or_new E (world E s) a)\<lparr>v_balance := v_balance (acct_or_new E (world E s) a) - amount\<rparr>)"
    and "arb_unexpectedBalanceDelta (arbExtraData (snd (SubBalance E a amount s))) =
      arb_unexpectedBalanceDelta (arbExtraData s) - uint amount"
proof -
  obtain s1 obj where g: "getOrNewStateObject E a s = (s1, obj)" by (cases "getOrNewStateObject E a s")
  note n = getOrNew_logged [OF assms g]
  from n(1) obtain es where es: "logged E es s s1" ..
  then have ok1: "objs_ok E s1" by (simp add: logged_def)
  let ?s2 = "add_delta (- uint amount) s1"
  have l2: "logged E es s ?s2" using logged_trans [OF es add_delta_logged [OF ok1]] by simp
  have ok2: "objs_ok E ?s2" "live_object E ?s2 a = Some obj" using ok1 n(3) by simp_all
  have a: "so_address obj = a" using n(2) by (simp add: obj_ok_def)
  have bal: "Balance (so_data obj) = v_balance (acct_or_new E (world E s) a)"
    by (simp add: obj_view_def flip: n(6))
  have "(\<exists>es. logged E es s (snd (SubBalance E a amount s))) \<and>
    world E (snd (SubBalance E a amount s)) =
      acct_put (world E s) a ((acct_or_new E (world E s) a)\<lparr>v_balance := v_balance (acct_or_new E (world E s) a) - amount\<rparr>) \<and>
    arb_unexpectedBalanceDelta (arbExtraData (snd (SubBalance E a amount s))) =
      arb_unexpectedBalanceDelta (arbExtraData s) - uint amount"
  proof (cases "amount = 0")
    case True
    with g have "snd (SubBalance E a amount s) = s1" by (simp add: SubBalance_def)
    with es n(5,7) True show ?thesis by auto
  next
    case False
    with g a have "snd (SubBalance E a amount s) =
        setStateObject (so_setBalance (Balance (so_data obj) - amount) obj)
          (sdb_append (balanceChange a (Balance (so_data obj))) ?s2)"
      by (simp add: SubBalance_def so_SetBalance_def Let_def)
    with logged_trans [OF l2 so_SetBalance_logged(1) [OF ok2, of "Balance (so_data obj) - amount"]]
      so_SetBalance_logged(2) [OF ok2] n bal show ?thesis by auto
  qed
  then show "\<exists>es. logged E es s (snd (SubBalance E a amount s))"
    "world E (snd (SubBalance E a amount s)) =
      acct_put (world E s) a ((acct_or_new E (world E s) a)\<lparr>v_balance := v_balance (acct_or_new E (world E s) a) - amount\<rparr>)"
    "arb_unexpectedBalanceDelta (arbExtraData (snd (SubBalance E a amount s))) =
      arb_unexpectedBalanceDelta (arbExtraData s) - uint amount" by blast+
qed

lemma SetBalance_logged:
  fixes amount :: "u256 option"
  assumes "objs_ok E s"
  defines "b \<equiv> (case amount of None \<Rightarrow> 0 | Some x \<Rightarrow> x)"
  shows "\<exists>es. logged E es s (SetBalance E a amount s)"
    and "world E (SetBalance E a amount s) = acct_put (world E s) a ((acct_or_new E (world E s) a)\<lparr>v_balance := b\<rparr>)"
    and "arb_unexpectedBalanceDelta (arbExtraData (SetBalance E a amount s)) =
      arb_unexpectedBalanceDelta (arbExtraData s) + uint b - uint (v_balance (acct_or_new E (world E s) a))"
proof -
  obtain s1 obj where g: "getOrNewStateObject E a s = (s1, obj)" by (cases "getOrNewStateObject E a s")
  note n = getOrNew_logged [OF assms(1) g]
  from n(1) obtain es where es: "logged E es s s1" ..
  then have ok1: "objs_ok E s1" by (simp add: logged_def)
  let ?s2 = "add_delta (- uint (Balance (so_data obj))) (add_delta (uint b) s1)"
  have ok2: "objs_ok E ?s2" "live_object E ?s2 a = Some obj" using ok1 n(3) by simp_all
  have l2: "logged E es s ?s2" using es by (auto simp: logged_def)
  have a: "so_address obj = a" using n(2) by (simp add: obj_ok_def)
  have bal: "Balance (so_data obj) = v_balance (acct_or_new E (world E s) a)"
    by (simp add: obj_view_def flip: n(6))
  have eq: "SetBalance E a amount s =
      setStateObject (so_setBalance b obj) (sdb_append (balanceChange a (Balance (so_data obj))) ?s2)"
    using g a by (simp add: SetBalance_def so_SetBalance_def Let_def b_def)
  show "\<exists>es. logged E es s (SetBalance E a amount s)"
    using logged_trans [OF l2 so_SetBalance_logged(1) [OF ok2, of b]] eq by auto
  show "world E (SetBalance E a amount s) = acct_put (world E s) a ((acct_or_new E (world E s) a)\<lparr>v_balance := b\<rparr>)"
    using eq so_SetBalance_logged(2) [OF ok2] n by simp
  show "arb_unexpectedBalanceDelta (arbExtraData (SetBalance E a amount s)) =
      arb_unexpectedBalanceDelta (arbExtraData s) + uint b - uint (v_balance (acct_or_new E (world E s) a))"
    using eq n bal by simp
qed

lemma SetNonce_logged:
  assumes "objs_ok E s"
  shows "\<exists>es. logged E es s (SetNonce E a nonce s)"
    and "world E (SetNonce E a nonce s) = acct_put (world E s) a ((acct_or_new E (world E s) a)\<lparr>v_nonce := nonce\<rparr>)"
    and "arbExtraData (SetNonce E a nonce s) = arbExtraData s"
proof -
  obtain s1 obj where g: "getOrNewStateObject E a s = (s1, obj)" by (cases "getOrNewStateObject E a s")
  note n = getOrNew_logged [OF assms(1) g]
  from n(1) obtain es where es: "logged E es s s1" ..
  then have ok1: "objs_ok E s1" by (simp add: logged_def)
  have a: "so_address obj = a" using n(2) by (simp add: obj_ok_def)
  let ?e = "nonceChange a (Nonce (so_data obj))"
  have eq: "SetNonce E a nonce s = setStateObject (so_setNonce nonce obj) (sdb_append ?e s1)"
    using g a by (simp add: SetNonce_def so_SetNonce_def)
  have "(obj_view E D obj)\<lparr>v_nonce := nonce, v_nonce := Nonce (so_data obj)\<rparr> = obj_view E D obj" for D
    by (simp add: obj_view_def)
  then have "logged E [?e] s1 (setStateObject (so_setNonce nonce obj) (sdb_append ?e s1))"
    using n(2) by (intro store_logged [OF ok1 n(3)]) (simp_all add: sdb_simps put_live_same [OF n(3)])
  from logged_trans [OF es this] eq show "\<exists>es. logged E es s (SetNonce E a nonce s)" by auto
  show "world E (SetNonce E a nonce s) = acct_put (world E s) a ((acct_or_new E (world E s) a)\<lparr>v_nonce := nonce\<rparr>)"
    using eq n a by (simp add: abs_store sdb_simps)
  show "arbExtraData (SetNonce E a nonce s) = arbExtraData s" using eq n(5) by simp
qed

lemma SetState_logged:
  assumes "objs_ok E s"
  shows "\<exists>es. logged E es s (snd (SetState E a k v s))"
    and "fst (SetState E a k v s) = v_current (acct_or_new E (world E s) a) k"
    and "world E (snd (SetState E a k v s)) =
      acct_put (world E s) a ((acct_or_new E (world E s) a)\<lparr>v_current := (v_current (acct_or_new E (world E s) a))(k := v)\<rparr>)"
    and "arbExtraData (snd (SetState E a k v s)) = arbExtraData s"
proof -
  obtain s1 obj where g: "getOrNewStateObject E a s = (s1, obj)" by (cases "getOrNewStateObject E a s")
  note n = getOrNew_logged [OF assms(1) g]
  from n(1) obtain es where es: "logged E es s s1" ..
  then have ok1: "objs_ok E s1" by (simp add: logged_def)
  let ?D = "stateObjectsDestruct s1" and ?w = "acct_or_new E (world E s) a"
  obtain prev orig s2 obj2 where c: "so_getState E k s1 obj = ((prev, orig), s2, obj2)"
    by (cases "so_getState E k s1 obj") auto
  note spec = so_getState_spec [OF c]
  have ok2: "obj_ok E a obj2" using spec(5) n(2) by (auto simp: sdb_simps)
  then have a: "so_address obj2 = a" by (simp add: obj_ok_def)
  have w: "obj_view E ?D obj2 = ?w" using spec(4) n(4,6) by simp
  have po: "prev = v_current ?w k" "orig = v_committed ?w k"
    using spec(1,2) n(4,6) by (simp_all add: obj_view_def flip: n(6))
  have q: "quiet E s1 (setStateObject obj2 s2)"
    by (rule store_quiet [OF ok1 n(3) spec(3,4) ok2])
  have res: "SetState E a k v s =
      (if prev = v then (prev, setStateObject obj2 s2)
       else (prev, setStateObject (so_setState k v orig obj2) (sdb_append (storageChange a k prev orig) s2)))"
    using g c a by (simp add: SetState_def so_SetState_def)
  have "fst (SetState E a k v s) = v_current ?w k \<and> (\<exists>es. logged E es s (snd (SetState E a k v s))) \<and>
    world E (snd (SetState E a k v s)) = acct_put (world E s) a (?w\<lparr>v_current := (v_current ?w)(k := v)\<rparr>) \<and>
    arbExtraData (snd (SetState E a k v s)) = arbExtraData s"
  proof (cases "prev = v")
    case True
    then have "?w\<lparr>v_current := (v_current ?w)(k := v)\<rparr> = ?w" using po by (simp add: fun_upd_idem)
    with True res q n(5,7) po logged_trans [OF es logged_quiet [OF q]] show ?thesis
      by (auto simp: quiet_def)
  next
    case False
    let ?s3 = "setStateObject obj2 s2" and ?e = "storageChange a k prev orig"
    have live3: "live_object E ?s3 a = Some obj2" "stateObjectsDestruct ?s3 = ?D"
      using a only_errD [OF spec(3)] by (simp_all add: live_setStateObject)
    have ok3: "objs_ok E ?s3" using q by (simp add: quiet_def)
    have undo: "view_setState k prev orig (view_setState k v orig ?w) = ?w"
      by (rule view_setState_undo [OF po])
    have "abs_revert E ?e (acct_put (world E ?s3) a (obj_view E (stateObjectsDestruct ?s3) (so_setState k v orig obj2))) =
        Some (world E ?s3)"
      using undo put_live_same [OF live3(1)] w live3(2) by (simp add: sdb_simps)
    then have "logged E [?e] ?s3 (setStateObject (so_setState k v orig obj2) (sdb_append ?e ?s3))"
      using ok2 by (intro store_logged [OF ok3 live3(1)]) (simp_all add: sdb_simps)
    moreover have st: "setStateObject (so_setState k v orig obj2) (sdb_append ?e ?s3) =
        setStateObject (so_setState k v orig obj2) (sdb_append ?e s2)"
      using a by (simp add: setStateObject_def sdb_append_def fm_simps)
    ultimately have "logged E ((es @ []) @ [?e]) s (snd (SetState E a k v s))"
      using False res logged_trans [OF logged_trans [OF es logged_quiet [OF q]]] by simp
    moreover have "obj_view E ?D (so_setState k v orig obj2) = ?w\<lparr>v_current := (v_current ?w)(k := v)\<rparr>"
      using w po by (simp add: sdb_simps view_setState_eq)
    ultimately show ?thesis
      using False res a n po only_errD [OF spec(3)] by (auto simp: abs_store)
  qed
  then show "\<exists>es. logged E es s (snd (SetState E a k v s))"
    "fst (SetState E a k v s) = v_current ?w k"
    "world E (snd (SetState E a k v s)) = acct_put (world E s) a (?w\<lparr>v_current := (v_current ?w)(k := v)\<rparr>)"
    "arbExtraData (snd (SetState E a k v s)) = arbExtraData s" by blast+
qed

end
