(* ===== verification/StateSetters.thy ===== *)
theory StateSetters
  imports StateRefine
begin

text \<open>
  The remaining setters: code, self-destruction, account and contract creation, logs,
  refunds, transient storage, access lists and Stylus activations, each with its effect on
  the abstract state and the proof that its journal entries undo it.
\<close>

subsection \<open>Well-formed transaction data\<close>

definition world_ok :: "AState \<Rightarrow> bool" where
  "world_ok A \<longleftrightarrow>
     al_wf (as_accessList A) \<and> ts_wf (as_transient A) \<and> (\<forall>h. fmlookup (as_logs A) h \<noteq> Some [])"

lemma world_ok_simps [simp]:
  "world_ok (acct_put A a v) = world_ok A"
  "world_ok (A\<lparr>as_refund := r\<rparr>) = world_ok A"
  "world_ok (A\<lparr>as_acct := f\<rparr>) = world_ok A"
  "world_ok (A\<lparr>as_activated := x\<rparr>) = world_ok A"
  by (simp_all add: world_ok_def acct_put_def)

lemma world_idem [simp]:
  "(world E s)\<lparr>as_refund := sdb_refund s\<rparr> = world E s"
  "(world E s)\<lparr>as_accessList := sdb_accessList s\<rparr> = world E s"
  "(world E s)\<lparr>as_transient := sdb_transientStorage s\<rparr> = world E s"
  "(world E s)\<lparr>as_logs := sdb_logs s, as_logSize := sdb_logSize s\<rparr> = world E s"
  "(world E s)\<lparr>as_activated := arb_activatedWasms (arbExtraData s)\<rparr> = world E s"
  by (simp_all add: world_def)

subsection \<open>Code\<close>

text \<open>
  \<^verbatim>\<open>SetCode\<close> journals the cached code, so it can be undone when the code is loaded or the
  account has none.
\<close>

definition code_loaded :: "Env \<Rightarrow> address \<Rightarrow> StateDB \<Rightarrow> bool" where
  "code_loaded E a s =
     (case live_object E s a of
        None \<Rightarrow> True
      | Some obj \<Rightarrow> so_code obj \<noteq> [] \<or> CodeHash (so_data obj) = EmptyCodeHash E)"

lemma SetCode_refines:
  assumes "objs_ok E s"
  shows "world E (snd (SetCode E a c s)) =
      acct_put (world E s) a ((acct_or_new E (world E s) a)\<lparr>v_codehash := env_keccak E c, v_code := c\<rparr>)"
    and "arbExtraData (snd (SetCode E a c s)) = arbExtraData s"
    and "code_loaded E a s \<Longrightarrow> \<exists>es. logged E es s (snd (SetCode E a c s))"
proof -
  obtain s1 obj where g: "getOrNewStateObject E a s = (s1, obj)" by (cases "getOrNewStateObject E a s")
  note n = getOrNew_logged [OF assms(1) g]
  from n(1) obtain es where es: "logged E es s s1" ..
  then have ok1: "objs_ok E s1" by (simp add: logged_def)
  have a: "so_address obj = a" using n(2) by (simp add: obj_ok_def)
  let ?e = "codeChange a (so_code obj)" and ?obj = "so_setCode (env_keccak E c) c obj"
  have eq: "snd (SetCode E a c s) = setStateObject ?obj (sdb_append ?e s1)"
    using g a by (simp add: SetCode_def so_SetCode_def Let_def)
  show "world E (snd (SetCode E a c s)) =
      acct_put (world E s) a ((acct_or_new E (world E s) a)\<lparr>v_codehash := env_keccak E c, v_code := c\<rparr>)"
    using eq n a by (simp add: abs_store sdb_simps)
  show "arbExtraData (snd (SetCode E a c s)) = arbExtraData s" using eq n(5) by simp
  assume "code_loaded E a s"
  then have "so_code obj \<noteq> [] \<or> CodeHash (so_data obj) = EmptyCodeHash E"
    using g getStateObject_live [of E a s]
    by (auto simp: code_loaded_def getOrNewStateObject_def createObject_def newObject_def
        NewEmptyStateAccount_def Let_def split: option.splits prod.splits)
  then have "(obj_view E D obj)\<lparr>v_codehash := env_keccak E c, v_code := c,
      v_codehash := env_keccak E (so_code obj), v_code := so_code obj\<rparr> = obj_view E D obj" for D
    using n(2) by (auto simp: obj_view_def obj_code_def code_at_def obj_ok_def EmptyCodeHash_def)
  then have "logged E [?e] s1 (setStateObject ?obj (sdb_append ?e s1))"
    using a by (intro store_logged [OF ok1 n(3)]) (simp_all add: sdb_simps put_live_same [OF n(3)])
  from logged_trans [OF es this] eq show "\<exists>es. logged E es s (snd (SetCode E a c s))" by auto
qed

subsection \<open>Creation and destruction\<close>

lemma CreateAccount_refines:
  assumes "objs_ok E s" "view E s a = None"
  shows "logged E [createObjectChange a] s (CreateAccount E a s)"
    and "world E (CreateAccount E a s) = acct_put (world E s) a (new_view E (stateObjectsDestruct s) a)"
    and "arbExtraData (CreateAccount E a s) = arbExtraData s"
  using createObject_logged [OF assms, of "createObjectChange a"]
  by (simp_all add: CreateAccount_def createObject_def Let_def abs_store new_view_def)

lemma CreateZombieIfDeleted_refines:
  assumes "objs_ok E s"
  shows "\<exists>es. logged E es s (CreateZombieIfDeleted E a s)"
    and "world E (CreateZombieIfDeleted E a s) =
      (if view E s a = None \<and> fmlookup (stateObjectsDestruct s) a \<noteq> None
       then acct_put (world E s) a (new_view E (stateObjectsDestruct s) a) else world E s)"
    and "arbExtraData (CreateZombieIfDeleted E a s) = arbExtraData s"
proof -
  obtain s1 where g: "getStateObject E a s = (s1, live_object E s a)" "quiet E s s1"
    "live_object E s1 = live_object E s" "stateObjectsDestruct s1 = stateObjectsDestruct s"
    by (rule load_cases [OF assms(1)])
  have ok1: "objs_ok E s1" using g(2) by (simp add: quiet_def)
  let ?s2 = "setStateObject (newObject E a None) (sdb_append (createZombieChange a) s1)"
  have "(\<exists>es. logged E es s (CreateZombieIfDeleted E a s)) \<and>
    world E (CreateZombieIfDeleted E a s) =
      (if view E s a = None \<and> fmlookup (stateObjectsDestruct s) a \<noteq> None
       then acct_put (world E s) a (new_view E (stateObjectsDestruct s) a) else world E s) \<and>
    arbExtraData (CreateZombieIfDeleted E a s) = arbExtraData s"
  proof (cases "live_object E s a = None \<and> fmlookup (stateObjectsDestruct s) a \<noteq> None")
    case True
    with g have "CreateZombieIfDeleted E a s = ?s2" "view E s1 a = None" "view E s a = None"
      by (auto simp: CreateZombieIfDeleted_def createZombie_def Let_def view_live)
    moreover have "logged E ([] @ [createZombieChange a]) s ?s2"
      using ok1 \<open>view E s1 a = None\<close>
      by (intro logged_trans [OF logged_quiet [OF g(2)]] createObject_logged) auto
    ultimately show ?thesis
      using g True by (auto simp: abs_store new_view_def quiet_def)
  next
    case False
    with g have "CreateZombieIfDeleted E a s = s1"
      by (auto simp: CreateZombieIfDeleted_def split: option.splits)
    with False logged_quiet [OF g(2)] g(2) show ?thesis by (auto simp: quiet_def view_live)
  qed
  then show "\<exists>es. logged E es s (CreateZombieIfDeleted E a s)"
    "world E (CreateZombieIfDeleted E a s) =
      (if view E s a = None \<and> fmlookup (stateObjectsDestruct s) a \<noteq> None
       then acct_put (world E s) a (new_view E (stateObjectsDestruct s) a) else world E s)"
    "arbExtraData (CreateZombieIfDeleted E a s) = arbExtraData s" by blast+
qed

lemma CreateContract_refines:
  assumes "objs_ok E s" "CreateContract E a s = Some s'"
  shows "\<exists>es. logged E es s s'"
    and "\<exists>v. view E s a = Some v \<and> world E s' = acct_put (world E s) a (v\<lparr>v_newContract := True\<rparr>)"
    and "arbExtraData s' = arbExtraData s"
proof -
  obtain s1 where g: "getStateObject E a s = (s1, live_object E s a)" "quiet E s s1"
    "live_object E s1 = live_object E s" "stateObjectsDestruct s1 = stateObjectsDestruct s"
    by (rule load_cases [OF assms(1)])
  from assms(2) g obtain obj where obj: "live_object E s a = Some obj"
    by (auto simp: CreateContract_def split: option.splits)
  have ok1: "objs_ok E s1" "live_object E s1 a = Some obj" using g obj by (simp_all add: quiet_def)
  have ok: "obj_ok E a obj" by (rule live_object_ok [OF assms(1) obj])
  let ?e = "createContractChange a" and ?obj = "obj\<lparr>so_newContract := True\<rparr>"
  have "(\<exists>es. logged E es s s') \<and>
    world E s' = acct_put (world E s) a ((obj_view E (stateObjectsDestruct s) obj)\<lparr>v_newContract := True\<rparr>) \<and>
    arbExtraData s' = arbExtraData s"
  proof (cases "so_newContract obj")
    case True
    with assms(2) g obj have "s' = s1" by (simp add: CreateContract_def)
    moreover have "(obj_view E (stateObjectsDestruct s) obj)\<lparr>v_newContract := True\<rparr> = obj_view E (stateObjectsDestruct s) obj"
      using True by (simp add: obj_view_def)
    ultimately show ?thesis
      using g(2) logged_quiet [OF g(2)] put_live_same [OF obj] by (auto simp: quiet_def)
  next
    case False
    then have s': "s' = sdb_append ?e (setStateObject ?obj s1)"
      using assms(2) g obj by (simp add: CreateContract_def)
    have "(obj_view E D obj)\<lparr>v_newContract := True, v_newContract := False\<rparr> = obj_view E D obj" for D
      using False by (simp add: obj_view_def)
    then have "logged E [?e] s1 s'"
      unfolding s' using ok by (intro store_logged [OF ok1]) (simp_all add: sdb_simps put_live_same [OF ok1(2)])
    from logged_trans [OF logged_quiet [OF g(2)] this] s' g ok show ?thesis
      by (auto simp: abs_store sdb_simps quiet_def obj_ok_def)
  qed
  then show "\<exists>es. logged E es s s'" "arbExtraData s' = arbExtraData s"
    "\<exists>v. view E s a = Some v \<and> world E s' = acct_put (world E s) a (v\<lparr>v_newContract := True\<rparr>)"
    using obj by (auto simp: view_live)
qed

text \<open>The two steps of \<^verbatim>\<open>SelfDestruct\<close> on a live object.\<close>

lemma destruct_mark_logged:
  assumes "objs_ok E s" "live_object E s a = Some obj" "\<not> so_selfDestructed obj"
  shows "logged E [selfDestructChange a] s
      (setStateObject (obj\<lparr>so_selfDestructed := True\<rparr>) (sdb_append (selfDestructChange a) s))"
proof -
  have ok: "obj_ok E a obj" by (rule live_object_ok [OF assms(1,2)])
  have "(obj_view E D obj)\<lparr>v_selfDestructed := True, v_selfDestructed := False\<rparr> = obj_view E D obj" for D
    using assms(3) by (simp add: obj_view_def)
  with ok show ?thesis
    by (intro store_logged [OF assms(1,2)]) (simp_all add: sdb_simps put_live_same [OF assms(2)])
qed

lemma SelfDestruct_refines:
  assumes "objs_ok E s"
  shows "\<exists>es. logged E es s (snd (SelfDestruct E a s))"
    and "fst (SelfDestruct E a s) = acct_get (world E s) a 0 v_balance"
    and "world E (snd (SelfDestruct E a s)) =
      (case view E s a of
         None \<Rightarrow> world E s
       | Some v \<Rightarrow> acct_put (world E s) a (v\<lparr>v_balance := 0, v_selfDestructed := True\<rparr>))"
    and "arb_unexpectedBalanceDelta (arbExtraData (snd (SelfDestruct E a s))) =
      arb_unexpectedBalanceDelta (arbExtraData s) - uint (acct_get (world E s) a 0 v_balance)"
proof -
  obtain s1 where g: "getStateObject E a s = (s1, live_object E s a)" "quiet E s s1"
    "live_object E s1 = live_object E s" "stateObjectsDestruct s1 = stateObjectsDestruct s"
    by (rule load_cases [OF assms(1)])
  have "(\<exists>es. logged E es s (snd (SelfDestruct E a s))) \<and>
    fst (SelfDestruct E a s) = acct_get (world E s) a 0 v_balance \<and>
    world E (snd (SelfDestruct E a s)) =
      (case view E s a of None \<Rightarrow> world E s
       | Some v \<Rightarrow> acct_put (world E s) a (v\<lparr>v_balance := 0, v_selfDestructed := True\<rparr>)) \<and>
    arb_unexpectedBalanceDelta (arbExtraData (snd (SelfDestruct E a s))) =
      arb_unexpectedBalanceDelta (arbExtraData s) - uint (acct_get (world E s) a 0 v_balance)"
  proof (cases "live_object E s a")
    case None
    with g show ?thesis
      by (auto simp: SelfDestruct_def acct_get_def view_live quiet_def intro: logged_quiet [OF g(2)])
  next
    case (Some obj)
    have ok1: "objs_ok E s1" "live_object E s1 a = Some obj" using g Some by (simp_all add: quiet_def)
    have a: "so_address obj = a" using live_object_ok [OF assms Some] by (simp add: obj_ok_def)
    let ?b = "Balance (so_data obj)"
    define s2 where "s2 = (if ?b \<noteq> 0 then sdb_append (balanceChange a ?b) (add_delta (- uint ?b) s1) else s1)"
    define o2 where "o2 = (if ?b \<noteq> 0 then so_setBalance 0 obj else obj)"
    define s3 where "s3 = setStateObject o2 s2"
    have o2: "so_address o2 = a" "so_selfDestructed o2 = so_selfDestructed obj"
      using a by (auto simp: o2_def so_setBalance_def)
    have "\<exists>es. logged E es s1 s3"
    proof (cases "?b = 0")
      case True
      then show ?thesis using store_same_logged(1) [OF ok1] by (auto simp: s3_def s2_def o2_def)
    next
      case False
      have "objs_ok E (add_delta (- uint ?b) s1)" "live_object E (add_delta (- uint ?b) s1) a = Some obj"
        using ok1 by simp_all
      from logged_trans [OF add_delta_logged [OF ok1(1)] so_SetBalance_logged(1) [OF this, of 0]] False
      show ?thesis by (auto simp: s3_def s2_def o2_def)
    qed
    then obtain es where es: "logged E es s1 s3" ..
    have D: "stateObjectsDestruct s2 = stateObjectsDestruct s" "world E s2 = world E s"
      using g by (auto simp: s2_def quiet_def)
    have v2: "obj_view E D o2 = (obj_view E D obj)\<lparr>v_balance := 0\<rparr>" for D
      by (auto simp: o2_def sdb_simps) (simp add: obj_view_def)
    have delta: "arb_unexpectedBalanceDelta (arbExtraData s2) = arb_unexpectedBalanceDelta (arbExtraData s) - uint ?b"
      using g by (auto simp: s2_def quiet_def)
    have ok3: "objs_ok E s3" "live_object E s3 a = Some o2"
      using es o2 by (auto simp: logged_def s3_def live_setStateObject)
    define s4 where "s4 = (if so_selfDestructed obj then s3
      else setStateObject (o2\<lparr>so_selfDestructed := True\<rparr>) (sdb_append (selfDestructChange a) s3))"
    have "\<exists>fs. logged E fs s3 s4"
      using destruct_mark_logged [OF ok3] quiet_refl [OF ok3(1)] o2 logged_quiet by (auto simp: s4_def)
    with es g(2) have "\<exists>es. logged E es s s4" by (metis logged_quiet logged_trans)
    moreover have res: "SelfDestruct E a s = (?b, s4)"
      using Some g a o2(1)
      by (auto simp: SelfDestruct_def so_SetBalance_def Let_def s4_def s3_def s2_def o2_def
          so_setBalance_def setStateObject_def sdb_append_def fm_simps)
    moreover have "world E s4 = acct_put (world E s) a
        ((obj_view E (stateObjectsDestruct s) obj)\<lparr>v_balance := 0, v_selfDestructed := True\<rparr>)"
    proof (cases "so_selfDestructed obj")
      case True
      then have "(obj_view E D obj)\<lparr>v_balance := 0, v_selfDestructed := True\<rparr> = (obj_view E D obj)\<lparr>v_balance := 0\<rparr>" for D
        by (simp add: obj_view_def)
      with True o2 D v2 show ?thesis by (simp add: s4_def s3_def abs_store)
    next
      case False
      with o2 D v2 show ?thesis by (simp add: s4_def s3_def abs_store sdb_simps)
    qed
    ultimately show ?thesis
      using Some delta by (auto simp: acct_get_def view_live obj_view_def s4_def s3_def)
  qed
  then show "\<exists>es. logged E es s (snd (SelfDestruct E a s))"
    "fst (SelfDestruct E a s) = acct_get (world E s) a 0 v_balance"
    "world E (snd (SelfDestruct E a s)) =
      (case view E s a of None \<Rightarrow> world E s
       | Some v \<Rightarrow> acct_put (world E s) a (v\<lparr>v_balance := 0, v_selfDestructed := True\<rparr>))"
    "arb_unexpectedBalanceDelta (arbExtraData (snd (SelfDestruct E a s))) =
      arb_unexpectedBalanceDelta (arbExtraData s) - uint (acct_get (world E s) a 0 v_balance)" by blast+
qed

lemma SelfDestruct6780_cases:
  assumes "objs_ok E s"
  obtains s1 where "quiet E s s1"
    "snd (SelfDestruct6780 E a s) =
       (if acct_get (world E s) a False v_newContract then snd (SelfDestruct E a s1) else s1)"
proof -
  obtain s1 where g: "getStateObject E a s = (s1, live_object E s a)" "quiet E s s1"
    by (rule load_cases [OF assms(1)])
  have "snd (SelfDestruct6780 E a s) =
       (if acct_get (world E s) a False v_newContract then snd (SelfDestruct E a s1) else s1)"
    using g(1)
    by (auto simp: SelfDestruct6780_def acct_get_def view_live obj_view_def split: option.splits prod.splits)
  with g(2) that show thesis by blast
qed

subsection \<open>Logs, refunds, transient storage and access lists\<close>

lemma SetTransientState_refines:
  assumes "objs_ok E s" "world_ok (world E s)"
  shows "\<exists>es. logged E es s (SetTransientState a k v s)"
    and "world E (SetTransientState a k v s) = (world E s)\<lparr>as_transient := ts_Set (sdb_transientStorage s) a k v\<rparr> \<or>
      SetTransientState a k v s = s"
    and "world_ok (world E (SetTransientState a k v s))"
    and "arbExtraData (SetTransientState a k v s) = arbExtraData s"
proof -
  have ts: "ts_wf (sdb_transientStorage s)" using assms(2) by (simp add: world_ok_def)
  let ?e = "transientStorageChange a k (ts_Get (sdb_transientStorage s) a k)"
  let ?s1 = "setTransientState a k v (sdb_append ?e s)"
  have w: "world E ?s1 = (world E s)\<lparr>as_transient := ts_Set (sdb_transientStorage s) a k v\<rparr>"
    by (simp add: setTransientState_def sdb_append_def sdb_simps)
  have "logged E [?e] s ?s1"
    using assms(1) ts_Set_undo [OF ts, of a k v]
    by (intro logged_one)
      (simp_all add: w, simp_all add: setTransientState_def sdb_simps)
  moreover have "world_ok (world E ?s1)"
    using assms(2) ts_wf_Set [OF ts] by (simp add: w world_ok_def)
  ultimately show "\<exists>es. logged E es s (SetTransientState a k v s)"
    "world E (SetTransientState a k v s) = (world E s)\<lparr>as_transient := ts_Set (sdb_transientStorage s) a k v\<rparr> \<or>
      SetTransientState a k v s = s"
    "world_ok (world E (SetTransientState a k v s))"
    "arbExtraData (SetTransientState a k v s) = arbExtraData s"
    using assms w quiet_refl [OF assms(1)] logged_quiet
    by (auto simp: SetTransientState_def GetTransientState_def Let_def setTransientState_def sdb_append_def)
qed

lemma AddLog_refines:
  assumes "objs_ok E s" "world_ok (world E s)"
  shows "logged E [addLogChange (sdb_thash s)] s (AddLog log s)"
    and "world_ok (world E (AddLog log s))" and "arbExtraData (AddLog log s) = arbExtraData s"
proof -
  define h where "h = sdb_thash s"
  define logs where "logs = (case fmlookup (sdb_logs s) h of None \<Rightarrow> [] | Some ls \<Rightarrow> ls)"
  define l where "l = log\<lparr>log_TxHash := h, log_TxIndex := word_of_int (sdb_txIndex s), log_Index := sdb_logSize s\<rparr>"
  have eq: "AddLog log s = (sdb_append (addLogChange h) s)
      \<lparr>sdb_logs := fmupd h (logs @ [l]) (sdb_logs s), sdb_logSize := sdb_logSize s + 1\<rparr>"
    by (simp add: AddLog_def Let_def h_def logs_def l_def sdb_append_def)
  have w: "world E (AddLog log s) = (world E s)\<lparr>as_logs := fmupd h (logs @ [l]) (sdb_logs s), as_logSize := sdb_logSize s + 1\<rparr>"
    unfolding eq by (simp add: sdb_simps)
  have ne: "fmlookup (sdb_logs s) h \<noteq> Some []" using assms(2) by (simp add: world_ok_def)
  have "abs_revert E (addLogChange h) (world E (AddLog log s)) = Some (world E s)"
  proof (cases "fmlookup (sdb_logs s) h")
    case None
    then have "logs = []" by (simp add: logs_def)
    with None show ?thesis by (simp add: w fm_simps)
  next
    case (Some ls)
    then have "logs = ls" "ls \<noteq> []" using ne by (auto simp: logs_def)
    with Some show ?thesis by (simp add: w fm_simps)
  qed
  then show "logged E [addLogChange (sdb_thash s)] s (AddLog log s)"
    unfolding h_def [symmetric] using assms(1)
    by (intro logged_one) (simp_all add: eq sdb_simps)
  show "world_ok (world E (AddLog log s))" using assms(2) by (simp add: w world_ok_def)
  show "arbExtraData (AddLog log s) = arbExtraData s" by (simp add: eq)
qed

lemma refund_refines:
  assumes "objs_ok E s"
  shows "logged E [refundChange (sdb_refund s)] s (AddRefund gas s)"
    and "world E (AddRefund gas s) = (world E s)\<lparr>as_refund := sdb_refund s + gas\<rparr>"
    and "arbExtraData (AddRefund gas s) = arbExtraData s"
    and "SubRefund gas s = Some s' \<Longrightarrow> logged E [refundChange (sdb_refund s)] s s' \<and>
      world E s' = (world E s)\<lparr>as_refund := sdb_refund s - gas\<rparr> \<and> gas \<le> sdb_refund s \<and>
      arbExtraData s' = arbExtraData s"
proof -
  have w: "world E ((sdb_append e s)\<lparr>sdb_refund := r\<rparr>) = (world E s)\<lparr>as_refund := r\<rparr>" for e r
    by (simp add: sdb_simps)
  have l: "logged E [refundChange (sdb_refund s)] s ((sdb_append (refundChange (sdb_refund s)) s)\<lparr>sdb_refund := r\<rparr>)" for r
    using assms by (intro logged_one) (simp_all add: sdb_simps)
  show "logged E [refundChange (sdb_refund s)] s (AddRefund gas s)"
    "world E (AddRefund gas s) = (world E s)\<lparr>as_refund := sdb_refund s + gas\<rparr>"
    "arbExtraData (AddRefund gas s) = arbExtraData s"
    using l w by (simp_all add: AddRefund_def Let_def sdb_append_def)
  show "logged E [refundChange (sdb_refund s)] s s' \<and> world E s' = (world E s)\<lparr>as_refund := sdb_refund s - gas\<rparr> \<and>
      gas \<le> sdb_refund s \<and> arbExtraData s' = arbExtraData s" if "SubRefund gas s = Some s'"
    using that l w by (auto simp: SubRefund_def Let_def sdb_append_def split: if_splits)
qed

lemma AddAddressToAccessList_refines:
  assumes "objs_ok E s" "world_ok (world E s)"
  shows "\<exists>es. logged E es s (AddAddressToAccessList a s)"
    and "world E (AddAddressToAccessList a s) = (world E s)\<lparr>as_accessList := fst (AddAddress (sdb_accessList s) a)\<rparr>"
    and "world_ok (world E (AddAddressToAccessList a s))"
    and "arbExtraData (AddAddressToAccessList a s) = arbExtraData s"
proof -
  obtain al added where add: "AddAddress (sdb_accessList s) a = (al, added)"
    by (cases "AddAddress (sdb_accessList s) a")
  have w: "world E (AddAddressToAccessList a s) = (world E s)\<lparr>as_accessList := al\<rparr>"
    using add by (simp add: AddAddressToAccessList_def Let_def sdb_simps)
  then show "world E (AddAddressToAccessList a s) = (world E s)\<lparr>as_accessList := fst (AddAddress (sdb_accessList s) a)\<rparr>"
    using add by simp
  show "world_ok (world E (AddAddressToAccessList a s))"
    using assms(2) AddAddress_wf [of "sdb_accessList s" a] add by (simp add: w world_ok_def)
  show "arbExtraData (AddAddressToAccessList a s) = arbExtraData s"
    using add by (simp add: AddAddressToAccessList_def Let_def)
  show "\<exists>es. logged E es s (AddAddressToAccessList a s)"
  proof (cases added)
    case True
    then have "logged E [accessListAddAccountChange a] s (AddAddressToAccessList a s)"
      using assms(1) AddAddress_undo [of "sdb_accessList s" a al] add w
      by (intro logged_one) (simp_all add: AddAddressToAccessList_def Let_def sdb_simps)
    then show ?thesis ..
  next
    case False
    then have "AddAddressToAccessList a s = s"
      using add AddAddress_no_change [of "sdb_accessList s" a al] by (simp add: AddAddressToAccessList_def Let_def)
    with logged_quiet [OF quiet_refl [OF assms(1)]] show ?thesis by auto
  qed
qed

lemma dirties_for_append2:
  "dirties_for es j \<Longrightarrow> dirties_for (es @ [e, f]) (journal_append f (journal_append e j))"
  using dirties_for_append [OF dirties_for_append] by fastforce

lemma AddSlotToAccessList_refines:
  assumes "objs_ok E s" "world_ok (world E s)"
  shows "\<exists>s' al ac sc es. AddSlotToAccessList a k s = Some s' \<and> logged E es s s' \<and>
    AddSlot (sdb_accessList s) a k = Some (al, ac, sc) \<and> world E s' = (world E s)\<lparr>as_accessList := al\<rparr> \<and>
    world_ok (world E s') \<and> arbExtraData s' = arbExtraData s"
proof -
  have wf: "al_wf (sdb_accessList s)" using assms(2) by (simp add: world_ok_def)
  from AddSlot_wf [OF wf, of a k] obtain al ac sc
    where add: "AddSlot (sdb_accessList s) a k = Some (al, ac, sc)" "al_wf al" by blast
  define s1 where "s1 = s\<lparr>sdb_accessList := al\<rparr>"
  define s2 where "s2 = (if ac then sdb_append (accessListAddAccountChange a) s1 else s1)"
  define s3 where "s3 = (if sc then sdb_append (accessListAddSlotChange a k) s2 else s2)"
  have res: "AddSlotToAccessList a k s = Some s3"
    using add(1) by (simp add: AddSlotToAccessList_def Let_def s1_def s2_def s3_def)
  have w: "world E s3 = (world E s)\<lparr>as_accessList := al\<rparr>" by (simp add: s3_def s2_def s1_def sdb_simps)
  have ok: "objs_ok E s3" using assms(1) by (simp add: s3_def s2_def s1_def sdb_simps)
  have "\<exists>es. logged E es s s3"
  proof (cases sc)
    case True
    from AddSlot_undo [OF wf, of a k al ac] add True obtain al1
      where del: "DeleteSlot al a k = Some al1" "(if ac then DeleteAddress al1 a else al1) = sdb_accessList s" by auto
    let ?es = "(if ac then [accessListAddAccountChange a] else []) @ [accessListAddSlotChange a k]"
    have "abs_reverts E (rev ?es) (world E s3) = Some (world E s)"
      using del by (auto simp: w)
    moreover have "dirties_for (jr_entries (sdb_journal s)) (sdb_journal s) \<longrightarrow>
        dirties_for (jr_entries (sdb_journal s3)) (sdb_journal s3)"
      using True dirties_for_append dirties_for_append2
      by (cases ac) (simp_all add: s3_def s2_def s1_def)
    ultimately have "logged E ?es s s3" using True ok by (simp add: logged_def s3_def s2_def s1_def)
    then show ?thesis ..
  next
    case False
    then have "al = sdb_accessList s" "\<not> ac" using AddSlot_no_change [of "sdb_accessList s" a k al ac] add(1) by auto
    then have "s3 = s" using False by (simp add: s3_def s2_def s1_def)
    with logged_quiet [OF quiet_refl [OF assms(1)]] show ?thesis by auto
  qed
  moreover have "world_ok (world E s3)" using assms(2) add(2) by (simp add: w world_ok_def)
  ultimately show ?thesis using res w add(1) by (auto simp: s3_def s2_def s1_def)
qed

subsection \<open>Stylus activations and unjournalled operations\<close>

lemma ActivateWasm_refines:
  assumes "objs_ok E s" "ActivateWasm E h asm s = Inr s'"
  shows "\<exists>es. logged E es s s'"
    and "world E s' = (world E s)\<lparr>as_activated :=
      (case fmlookup (as_activated (world E s)) h of
         None \<Rightarrow> fmupd h asm (as_activated (world E s)) | Some _ \<Rightarrow> as_activated (world E s))\<rparr>"
    and "arb_unexpectedBalanceDelta (arbExtraData s') = arb_unexpectedBalanceDelta (arbExtraData s)"
proof -
  let ?m = "arb_activatedWasms (arbExtraData s)"
  let ?s = "sdb_append (wasmActivation h)
    (s\<lparr>arbExtraData := (arbExtraData s)\<lparr>arb_activatedWasms := fmupd h asm ?m\<rparr>\<rparr>)"
  have l: "logged E [wasmActivation h] s ?s" if "fmlookup ?m h = None"
    using assms(1) that by (intro logged_one) (simp_all add: sdb_simps fm_simps)
  from assms(2) have "s' = (if fmlookup ?m h = None then ?s else s)"
    by (auto simp: ActivateWasm_def Let_def split: if_splits)
  then show "\<exists>es. logged E es s s'"
    "world E s' = (world E s)\<lparr>as_activated :=
      (case fmlookup (as_activated (world E s)) h of
         None \<Rightarrow> fmupd h asm (as_activated (world E s)) | Some _ \<Rightarrow> as_activated (world E s))\<rparr>"
    "arb_unexpectedBalanceDelta (arbExtraData s') = arb_unexpectedBalanceDelta (arbExtraData s)"
    using l logged_quiet [OF quiet_refl [OF assms(1)]]
    by (auto simp: sdb_simps split: option.splits)
qed

lemma unjournalled_logged:
  assumes "objs_ok E s"
  shows "logged E [] s (AddPreimage h pre s)" "world E (AddPreimage h pre s) = world E s"
    and "logged E [] s (SetStylusPages x y s)" "world E (SetStylusPages x y s) = world E s"
    and "logged E [] s (snd (AddStylusPages x s))" "world E (snd (AddStylusPages x s)) = world E s"
    and "logged E [CacheWasm h v t d] s (RecordCacheWasm h v t d s)"
      "world E (RecordCacheWasm h v t d s) = world E s"
    and "logged E [EvictWasm h v t d] s (RecordEvictWasm h v t d s)"
      "world E (RecordEvictWasm h v t d s) = world E s"
  using assms
  by (auto simp: logged_def AddPreimage_def SetStylusPages_def AddStylusPages_def RecordCacheWasm_def
      RecordEvictWasm_def GetStylusPages_def Let_def sdb_simps dirties_for_def)

lemma unjournalled_delta:
  "arbExtraData (AddPreimage h pre s) = arbExtraData s"
  "arb_unexpectedBalanceDelta (arbExtraData (SetStylusPages x y s)) = arb_unexpectedBalanceDelta (arbExtraData s)"
  "arb_unexpectedBalanceDelta (arbExtraData (snd (AddStylusPages x s))) = arb_unexpectedBalanceDelta (arbExtraData s)"
  "arbExtraData (RecordCacheWasm h v t d s) = arbExtraData s"
  "arbExtraData (RecordEvictWasm h v t d s) = arbExtraData s"
  by (simp_all add: AddPreimage_def SetStylusPages_def AddStylusPages_def RecordCacheWasm_def
      RecordEvictWasm_def GetStylusPages_def Let_def)

end
