(* ===== verification/StateRevert.thy ===== *)
theory StateRevert
  imports StateSetters
begin

text \<open>
  Snapshots. The operations of a transaction are the constructors of \<open>db_op\<close>; \<open>exec\<close> runs one
  and \<open>run\<close> a sequence, nested snapshots and reverts included. The invariant \<open>sdb_wf\<close> holds
  along every run, and reverting to a snapshot gives back the abstract state, the journal and
  the balance delta the snapshot was taken at.
\<close>

subsection \<open>Operations of a transaction\<close>

datatype db_op =
    OpAddBalance address u256
  | OpSubBalance address u256
  | OpSetBalance address "u256 option"
  | OpExpectBurn int
  | OpExpectMint int
  | OpSetNonce address u64
  | OpSetCode address bytes
  | OpSetState address hash hash
  | OpSelfDestruct address
  | OpSelfDestruct6780 address
  | OpSetTransientState address hash hash
  | OpAddLog Log
  | OpAddPreimage hash bytes
  | OpAddRefund u64
  | OpSubRefund u64
  | OpCreateAccount address
  | OpCreateContract address
  | OpCreateZombieIfDeleted address
  | OpAddAddressToAccessList address
  | OpAddSlotToAccessList address hash
  | OpActivateWasm hash ActivatedWasm
  | OpRecordCacheWasm hash u16 u32 bool
  | OpRecordEvictWasm hash u16 u32 bool
  | OpAddStylusPages u16
  | OpGetBalance address
  | OpGetCode address
  | OpGetCodeSize address
  | OpGetState address hash
  | OpGetCommittedState address hash
  | OpSnapshot
  | OpRevertToSnapshot int

fun exec :: "Env \<Rightarrow> db_op \<Rightarrow> StateDB \<Rightarrow> StateDB option" where
  "exec E (OpAddBalance a v) s = Some (snd (AddBalance E a v s))"
| "exec E (OpSubBalance a v) s = Some (snd (SubBalance E a v s))"
| "exec E (OpSetBalance a v) s = Some (SetBalance E a v s)"
| "exec E (OpExpectBurn n) s = ExpectBalanceBurn n s"
| "exec E (OpExpectMint n) s = ExpectBalanceMint n s"
| "exec E (OpSetNonce a n) s = Some (SetNonce E a n s)"
| "exec E (OpSetCode a c) s = Some (snd (SetCode E a c s))"
| "exec E (OpSetState a k v) s = Some (snd (SetState E a k v s))"
| "exec E (OpSelfDestruct a) s = Some (snd (SelfDestruct E a s))"
| "exec E (OpSelfDestruct6780 a) s = Some (snd (SelfDestruct6780 E a s))"
| "exec E (OpSetTransientState a k v) s = Some (SetTransientState a k v s)"
| "exec E (OpAddLog l) s = Some (AddLog l s)"
| "exec E (OpAddPreimage h p) s = Some (AddPreimage h p s)"
| "exec E (OpAddRefund g) s = Some (AddRefund g s)"
| "exec E (OpSubRefund g) s = SubRefund g s"
| "exec E (OpCreateAccount a) s = Some (CreateAccount E a s)"
| "exec E (OpCreateContract a) s = CreateContract E a s"
| "exec E (OpCreateZombieIfDeleted a) s = Some (CreateZombieIfDeleted E a s)"
| "exec E (OpAddAddressToAccessList a) s = Some (AddAddressToAccessList a s)"
| "exec E (OpAddSlotToAccessList a k) s = AddSlotToAccessList a k s"
| "exec E (OpActivateWasm h m) s = (case ActivateWasm E h m s of Inl _ \<Rightarrow> Some s | Inr s' \<Rightarrow> Some s')"
| "exec E (OpRecordCacheWasm h v t d) s = Some (RecordCacheWasm h v t d s)"
| "exec E (OpRecordEvictWasm h v t d) s = Some (RecordEvictWasm h v t d s)"
| "exec E (OpAddStylusPages n) s = Some (snd (AddStylusPages n s))"
| "exec E (OpGetBalance a) s = Some (snd (GetBalance E a s))"
| "exec E (OpGetCode a) s = Some (snd (GetCode E a s))"
| "exec E (OpGetCodeSize a) s = Some (snd (GetCodeSize E a s))"
| "exec E (OpGetState a k) s = Some (snd (GetState E a k s))"
| "exec E (OpGetCommittedState a k) s = Some (snd (GetCommittedState E a k s))"
| "exec E OpSnapshot s = Some (snd (Snapshot s))"
| "exec E (OpRevertToSnapshot i) s = RevertToSnapshot E i s"

text \<open>
  What the callers of the state database guarantee: an account is created only when there is
  none (the comment of \<^verbatim>\<open>CreateAccount\<close>), and code is set on an account without code or whose
  code has been read.
\<close>

fun op_ok :: "Env \<Rightarrow> db_op \<Rightarrow> StateDB \<Rightarrow> bool" where
  "op_ok E (OpCreateAccount a) s \<longleftrightarrow> live_object E s a = None"
| "op_ok E (OpSetCode a c) s \<longleftrightarrow> code_loaded E a s"
| "op_ok E _ s \<longleftrightarrow> True"

text \<open>\<open>None\<close>: an operation panicked or was called outside its contract.\<close>

fun run :: "Env \<Rightarrow> db_op list \<Rightarrow> StateDB \<Rightarrow> StateDB option" where
  "run E [] s = Some s"
| "run E (op # ops) s =
     (if op_ok E op s then (case exec E op s of None \<Rightarrow> None | Some s' \<Rightarrow> run E ops s') else None)"

subsection \<open>The invariant\<close>

text \<open>The abstract state to which undoing the journal down to length \<open>n\<close> leads.\<close>

definition rev_world :: "Env \<Rightarrow> StateDB \<Rightarrow> nat \<Rightarrow> AState option" where
  "rev_world E s n = abs_reverts E (rev (drop n (jr_entries (sdb_journal s)))) (world E s)"

definition revs_ok :: "Env \<Rightarrow> StateDB \<Rightarrow> bool" where
  "revs_ok E s \<longleftrightarrow>
     (let j = sdb_journal s; rs = jr_validRevisions j in
        sorted_wrt (<) (map rev_id rs) \<and> (\<forall>r\<in>set rs. rev_id r < jr_nextRevisionId j) \<and>
        sorted (map rev_journalIndex rs) \<and>
        (\<forall>r\<in>set rs. rev_journalIndex r \<le> length (jr_entries j) \<and>
           (\<exists>A. rev_world E s (rev_journalIndex r) = Some A \<and> world_ok A)))"

definition sdb_wf :: "Env \<Rightarrow> StateDB \<Rightarrow> bool" where
  "sdb_wf E s \<longleftrightarrow>
     objs_ok E s \<and> world_ok (world E s) \<and>
     dirties_for (jr_entries (sdb_journal s)) (sdb_journal s) \<and> revs_ok E s"

lemma logged_rev_world:
  "logged E es s s' \<Longrightarrow> n \<le> length (jr_entries (sdb_journal s)) \<Longrightarrow> rev_world E s' n = rev_world E s n"
  by (simp add: logged_def rev_world_def abs_reverts_append)

lemma logged_wf:
  assumes "logged E es s s'" "sdb_wf E s" "world_ok (world E s')"
  shows "sdb_wf E s'"
proof -
  have "revs_ok E s'"
    using assms(1,2) logged_rev_world [OF assms(1)]
    unfolding sdb_wf_def revs_ok_def Let_def by (fastforce simp: logged_def)
  with assms show ?thesis by (auto simp: sdb_wf_def logged_def)
qed

text \<open>Every operation other than \<^verbatim>\<open>Snapshot\<close> and \<^verbatim>\<open>RevertToSnapshot\<close> logs entries that undo it.\<close>

definition journaled :: "db_op \<Rightarrow> bool" where
  "journaled op \<longleftrightarrow> op \<noteq> OpSnapshot \<and> (\<forall>i. op \<noteq> OpRevertToSnapshot i)"

lemma quiet_ok: "quiet E s s' \<Longrightarrow> world_ok (world E s) \<Longrightarrow> (\<exists>es. logged E es s s') \<and> world_ok (world E s')"
  using logged_quiet by (auto simp: quiet_def)

lemma SelfDestruct6780_logged:
  assumes "objs_ok E s" "world_ok (world E s)"
  shows "(\<exists>es. logged E es s (snd (SelfDestruct6780 E a s))) \<and> world_ok (world E (snd (SelfDestruct6780 E a s)))"
proof -
  obtain s1 where q: "quiet E s s1" and eq: "snd (SelfDestruct6780 E a s) =
       (if acct_get (world E s) a False v_newContract then snd (SelfDestruct E a s1) else s1)"
    by (rule SelfDestruct6780_cases [OF assms(1)])
  have ok1: "objs_ok E s1" "world_ok (world E s1)" using q assms by (simp_all add: quiet_def)
  have "world_ok (world E (snd (SelfDestruct E a s1)))"
    using SelfDestruct_refines(3) [OF ok1(1), of a] ok1(2) by (simp split: option.splits)
  with SelfDestruct_refines(1) [OF ok1(1), of a] logged_quiet [OF q] ok1(2) eq show ?thesis
    by (auto dest: logged_trans)
qed

lemma exec_logged:
  assumes "objs_ok E s" "world_ok (world E s)" "code_reader_ok E" "journaled op" "op_ok E op s"
    "exec E op s = Some s'"
  shows "(\<exists>es. logged E es s s') \<and> world_ok (world E s')"
proof (cases op)
  case (OpAddBalance a v)
  with assms AddBalance_logged(1,2) [OF assms(1), of a v] show ?thesis by auto
next
  case (OpSubBalance a v)
  with assms SubBalance_logged(1,2) [OF assms(1), of a v] show ?thesis by auto
next
  case (OpSetBalance a v)
  with assms SetBalance_logged(1,2) [OF assms(1), of a v] show ?thesis by auto
next
  case (OpSetNonce a v)
  with assms SetNonce_logged(1,2) [OF assms(1), of a v] show ?thesis by auto
next
  case (OpSetCode a c)
  with assms SetCode_refines(1,3) [OF assms(1), of a c] show ?thesis by auto
next
  case (OpSetState a k v)
  with assms SetState_logged(1,3) [OF assms(1), of a k v] show ?thesis by auto
next
  case (OpSelfDestruct a)
  with assms SelfDestruct_refines(1,3) [OF assms(1), of a] show ?thesis by (auto split: option.splits)
next
  case (OpSelfDestruct6780 a)
  with assms SelfDestruct6780_logged [OF assms(1,2), of a] show ?thesis by auto
next
  case (OpSetTransientState a k v)
  with assms SetTransientState_refines(1,3) [OF assms(1,2), of a k v] show ?thesis by auto
next
  case (OpAddLog l)
  with assms AddLog_refines(1,2) [OF assms(1,2), of l] show ?thesis by auto
next
  case (OpAddRefund g)
  with assms refund_refines(1,2) [OF assms(1), of g] show ?thesis by auto
next
  case (OpSubRefund g)
  with assms refund_refines(4) [OF assms(1), of g s'] show ?thesis by auto
next
  case (OpCreateAccount a)
  with assms have "view E s a = None" by (simp add: view_live)
  from CreateAccount_refines(1,2) [OF assms(1) this] OpCreateAccount assms show ?thesis by auto
next
  case (OpCreateContract a)
  with assms CreateContract_refines(1,2) [OF assms(1), of a s'] show ?thesis by auto
next
  case (OpCreateZombieIfDeleted a)
  with assms CreateZombieIfDeleted_refines(1,2) [OF assms(1), of a] show ?thesis by (auto split: if_splits)
next
  case (OpAddAddressToAccessList a)
  with assms AddAddressToAccessList_refines(1,3) [OF assms(1,2), of a] show ?thesis by auto
next
  case (OpAddSlotToAccessList a k)
  with assms AddSlotToAccessList_refines [OF assms(1,2), of a k] show ?thesis by auto
next
  case (OpActivateWasm h m)
  with assms ActivateWasm_refines(1,2) [OF assms(1), of h m s'] quiet_ok [OF quiet_refl [OF assms(1)]]
  show ?thesis by (auto split: sum.splits)
next
  case (OpGetBalance a)
  with assms field_getters(1) [OF assms(1), of a] quiet_ok show ?thesis by auto
next
  case (OpGetCode a)
  with assms GetCode_refines [OF assms(1,3), of a] quiet_ok show ?thesis by auto
next
  case (OpGetCodeSize a)
  with assms GetCodeSize_quiet [OF assms(1), of a] quiet_ok show ?thesis by auto
next
  case (OpGetState a k)
  with assms GetStateAndCommittedState_refines [OF assms(1), of a k] quiet_ok show ?thesis
    by (auto simp: GetState_eq)
next
  case (OpGetCommittedState a k)
  with assms GetCommittedState_refines [OF assms(1), of a k] quiet_ok show ?thesis by auto
qed (use assms in \<open>auto simp: journaled_def ExpectBalanceBurn_def ExpectBalanceMint_def
    unjournalled_logged [OF assms(1)] split: if_splits
    intro: unjournalled_logged [OF assms(1)] add_delta_logged [OF assms(1)]\<close>)

lemma Snapshot_simps:
  "fst (Snapshot s) = jr_nextRevisionId (sdb_journal s)"
  "world E (snd (Snapshot s)) = world E s" "objs_ok E (snd (Snapshot s)) = objs_ok E s"
  "jr_entries (sdb_journal (snd (Snapshot s))) = jr_entries (sdb_journal s)"
  "jr_dirties (sdb_journal (snd (Snapshot s))) = jr_dirties (sdb_journal s)"
  "jr_nextRevisionId (sdb_journal (snd (Snapshot s))) = jr_nextRevisionId (sdb_journal s) + 1"
  "jr_validRevisions (sdb_journal (snd (Snapshot s))) = jr_validRevisions (sdb_journal s) @
     [\<lparr>rev_id = jr_nextRevisionId (sdb_journal s), rev_journalIndex = length (jr_entries (sdb_journal s)),
       rev_unexpectedBalanceDelta = arb_unexpectedBalanceDelta (arbExtraData s)\<rparr>]"
  by (simp_all add: Snapshot_def Let_def journal_length_def sdb_simps)

lemma rev_world_Snapshot: "rev_world E (snd (Snapshot s)) n = rev_world E s n"
  by (simp add: rev_world_def Snapshot_simps)

lemma Snapshot_wf:
  assumes "sdb_wf E s"
  shows "sdb_wf E (snd (Snapshot s))"
proof -
  from assms have "revs_ok E (snd (Snapshot s))"
    unfolding sdb_wf_def revs_ok_def Let_def Snapshot_simps rev_world_Snapshot
    by (auto simp: sorted_wrt_append sorted_append rev_world_def [of E s "length (jr_entries (sdb_journal s))"])
  with assms show ?thesis by (simp add: sdb_wf_def Snapshot_simps dirties_for_def)
qed

subsection \<open>Reverting\<close>

lemma rev_world_split:
  assumes "m \<le> n" "rev_world E s n = Some A"
  shows "rev_world E s m = abs_reverts E (rev (drop m (take n (jr_entries (sdb_journal s))))) A"
proof -
  let ?es = "jr_entries (sdb_journal s)"
  have "drop m ?es = drop m (take n ?es) @ drop n ?es"
  proof -
    have "drop m (take n ?es @ drop n ?es) = drop m (take n ?es) @ drop n ?es"
      using assms(1) by (cases "n \<le> length ?es") (simp_all only: drop_append, simp_all)
    then show ?thesis by simp
  qed
  with assms(2) show ?thesis by (simp add: rev_world_def abs_reverts_append)
qed

lemma journal_revert_refines:
  assumes "objs_ok E s" "rev_world E s n = Some A"
    "dirties_for (jr_entries (sdb_journal s)) (sdb_journal s)"
  shows "\<exists>s'. journal_revert E n s = Some s' \<and> world E s' = A \<and> objs_ok E s' \<and>
    jr_entries (sdb_journal s') = take n (jr_entries (sdb_journal s)) \<and>
    jr_validRevisions (sdb_journal s') = jr_validRevisions (sdb_journal s) \<and>
    jr_nextRevisionId (sdb_journal s') = jr_nextRevisionId (sdb_journal s) \<and>
    dirties_for (jr_entries (sdb_journal s')) (sdb_journal s') \<and>
    arb_unexpectedBalanceDelta (arbExtraData s') = arb_unexpectedBalanceDelta (arbExtraData s)"
proof -
  let ?es = "jr_entries (sdb_journal s)" and ?l = "rev (drop n (jr_entries (sdb_journal s)))"
  from revert_loop_refines(1) [OF assms(1), of ?l] assms(2)
  obtain t where t: "revert_loop E ?l s = Some t" "world E t = A" by (auto simp: rev_world_def)
  note r = revert_loop_refines(2) [OF assms(1) t(1)]
  let ?s = "t\<lparr>sdb_journal := (sdb_journal t)\<lparr>jr_entries := take n (jr_entries (sdb_journal t))\<rparr>\<rparr>"
  have "dirties_for (take n ?es) (fold journal_undirty ?l (sdb_journal s))"
    using assms(3) by (intro dirties_for_fold) simp
  then have "dirties_for (take n ?es) (sdb_journal ?s)" using r by (simp add: dirties_for_def)
  moreover have "journal_revert E n s = Some ?s" using t(1) by (simp add: journal_revert_def)
  ultimately show ?thesis using t(2) r by (auto simp: sdb_simps)
qed

lemma RevertToSnapshot_refines:
  assumes wf: "sdb_wf E s" and k: "k < length (jr_validRevisions (sdb_journal s))"
    and r: "r = jr_validRevisions (sdb_journal s) ! k"
  shows "\<exists>s' A. RevertToSnapshot E (rev_id r) s = Some s' \<and>
    rev_world E s (rev_journalIndex r) = Some A \<and> world E s' = A \<and> sdb_wf E s' \<and>
    jr_entries (sdb_journal s') = take (rev_journalIndex r) (jr_entries (sdb_journal s)) \<and>
    jr_validRevisions (sdb_journal s') = take k (jr_validRevisions (sdb_journal s)) \<and>
    arb_unexpectedBalanceDelta (arbExtraData s') = rev_unexpectedBalanceDelta r \<and>
    (\<forall>m \<le> rev_journalIndex r. rev_world E s' m = rev_world E s m)"
proof -
  let ?rs = "jr_validRevisions (sdb_journal s)" and ?n = "rev_journalIndex r"
  have mem: "r \<in> set ?rs" using k r by simp
  from wf have ids: "sorted_wrt (<) (map rev_id ?rs)" and nxt: "\<forall>r\<in>set ?rs. rev_id r < jr_nextRevisionId (sdb_journal s)"
    and idxs: "sorted (map rev_journalIndex ?rs)"
    and lens: "\<forall>r\<in>set ?rs. rev_journalIndex r \<le> length (jr_entries (sdb_journal s)) \<and>
      (\<exists>A. rev_world E s (rev_journalIndex r) = Some A \<and> world_ok A)"
    by (auto simp: sdb_wf_def revs_ok_def Let_def)
  from lens mem obtain A where A: "rev_world E s ?n = Some A" "world_ok A" by blast
  let ?s1 = "s\<lparr>arbExtraData := (arbExtraData s)\<lparr>arb_unexpectedBalanceDelta := rev_unexpectedBalanceDelta r\<rparr>\<rparr>"
  have w1: "world E ?s1 = world E s" by (simp add: sdb_simps)
  have "rev_world E ?s1 m = rev_world E s m" for m by (simp add: rev_world_def w1)
  with A wf journal_revert_refines [of E ?s1 ?n A] obtain t
    where t: "journal_revert E ?n ?s1 = Some t" "world E t = A" "objs_ok E t"
      "jr_entries (sdb_journal t) = take ?n (jr_entries (sdb_journal s))"
      "jr_validRevisions (sdb_journal t) = ?rs"
      "jr_nextRevisionId (sdb_journal t) = jr_nextRevisionId (sdb_journal s)"
      "dirties_for (jr_entries (sdb_journal t)) (sdb_journal t)"
      "arb_unexpectedBalanceDelta (arbExtraData t) = rev_unexpectedBalanceDelta r"
    by (auto simp: sdb_wf_def sdb_simps)
  let ?s' = "t\<lparr>sdb_journal := (sdb_journal t)\<lparr>jr_validRevisions := take k (jr_validRevisions (sdb_journal t))\<rparr>\<rparr>"
  have srch: "sort_Search (length ?rs) (\<lambda>i. rev_id (?rs ! i) \<ge> rev_id r) = k"
    unfolding r by (rule sort_Search_sorted [OF ids k])
  have res: "RevertToSnapshot E (rev_id r) s = Some ?s'"
    using k t(1) by (simp add: RevertToSnapshot_def srch Let_def flip: r)
  have rw: "rev_world E ?s' m = rev_world E s m" if "m \<le> ?n" for m
    using rev_world_split [OF that A(1)] t by (simp add: rev_world_def sdb_simps)
  have "revs_ok E ?s'"
  proof -
    have sub: "r' \<in> set ?rs \<and> rev_journalIndex r' \<le> ?n" if "r' \<in> set (take k ?rs)" for r'
    proof -
      from that k obtain i where i: "i < k" "r' = ?rs ! i" by (auto simp: in_set_conv_nth)
      with idxs k r have "rev_journalIndex r' \<le> ?n" by (simp add: sorted_iff_nth_mono)
      with i k show ?thesis by simp
    qed
    have "sorted_wrt (<) (map rev_id (take k ?rs))" "sorted (map rev_journalIndex (take k ?rs))"
      using ids idxs by (simp_all add: take_map [symmetric] sorted_wrt_take)
    with sub nxt lens rw t show ?thesis by (fastforce simp: revs_ok_def Let_def)
  qed
  then have "sdb_wf E ?s'" using t A(2) by (simp add: sdb_wf_def sdb_simps dirties_for_def)
  with res A t rw show ?thesis by (auto simp: sdb_simps)
qed

lemma RevertToSnapshot_unknown:
  assumes "sdb_wf E s" "\<forall>r\<in>set (jr_validRevisions (sdb_journal s)). rev_id r \<noteq> i"
  shows "RevertToSnapshot E i s = None"
proof -
  let ?rs = "jr_validRevisions (sdb_journal s)"
  let ?k = "sort_Search (length ?rs) (\<lambda>j. rev_id (?rs ! j) \<ge> i)"
  have "?k = length ?rs \<or> rev_id (?rs ! ?k) \<noteq> i"
    using assms(2) sort_Search_le [of "length ?rs" "\<lambda>j. rev_id (?rs ! j) \<ge> i"] by (metis nth_mem le_neq_implies_less)
  then show ?thesis by (auto simp: RevertToSnapshot_def Let_def)
qed

subsection \<open>Runs\<close>

text \<open>
  While a run does not revert below the snapshot \<open>r\<close> taken in \<open>s0\<close>, the snapshot stays on the
  stack and undoing the journal down to it leads back to \<open>s0\<close>.
\<close>

definition anchored :: "Env \<Rightarrow> StateDB \<Rightarrow> revision \<Rightarrow> StateDB \<Rightarrow> bool" where
  "anchored E s0 r s \<longleftrightarrow>
     sdb_wf E s \<and>
     (\<exists>rs. jr_validRevisions (sdb_journal s) = jr_validRevisions (sdb_journal s0) @ r # rs) \<and>
     take (rev_journalIndex r) (jr_entries (sdb_journal s)) = jr_entries (sdb_journal s0) \<and>
     rev_world E s (rev_journalIndex r) = Some (world E s0)"

lemma anchored_logged:
  assumes "anchored E s0 r s" "logged E es s s'" "world_ok (world E s')"
  shows "anchored E s0 r s'"
proof -
  from assms(1) have "rev_journalIndex r \<le> length (jr_entries (sdb_journal s))"
    by (auto simp: anchored_def sdb_wf_def revs_ok_def Let_def)
  with assms logged_wf [OF assms(2)] logged_rev_world [OF assms(2)] show ?thesis
    by (auto simp: anchored_def logged_def)
qed

lemma anchored_Snapshot: "anchored E s0 r s \<Longrightarrow> anchored E s0 r (snd (Snapshot s))"
  by (auto simp: anchored_def Snapshot_wf rev_world_Snapshot) (auto simp: Snapshot_simps)

lemma anchored_Revert:
  assumes "anchored E s0 r s" "i > rev_id r" "RevertToSnapshot E i s = Some s'"
  shows "anchored E s0 r s'"
proof -
  from assms(1) obtain rs where wf: "sdb_wf E s"
    and rs: "jr_validRevisions (sdb_journal s) = jr_validRevisions (sdb_journal s0) @ r # rs" (is "?all = ?pre @ _")
    by (auto simp: anchored_def)
  from RevertToSnapshot_unknown [OF wf] assms(3) obtain k
    where k: "k < length ?all" "rev_id (?all ! k) = i" by (metis in_set_conv_nth option.distinct(1))
  from wf have ids: "sorted_wrt (<) (map rev_id ?all)" and idxs: "sorted (map rev_journalIndex ?all)"
    by (auto simp: sdb_wf_def revs_ok_def Let_def)
  have gt: "length ?pre < k"
  proof (rule ccontr)
    assume "\<not> length ?pre < k"
    then consider "k < length ?pre" | "k = length ?pre" by linarith
    then have "rev_id (?all ! k) \<le> rev_id r"
    proof cases
      case 1
      moreover have "length ?pre < length (map rev_id ?all)" using rs by simp
      ultimately have "map rev_id ?all ! k < map rev_id ?all ! length ?pre"
        using ids sorted_wrt_iff_nth_less by blast
      then show ?thesis using rs k(1) 1 by (simp add: nth_append)
    qed (use rs in simp)
    with k(2) assms(2) show False by simp
  qed
  have "rev_journalIndex (?all ! length ?pre) \<le> rev_journalIndex (?all ! k)"
    using sorted_nth_mono [OF idxs, of "length ?pre" k] gt k(1) by simp
  then have le: "rev_journalIndex r \<le> rev_journalIndex (?all ! k)" using rs by simp
  from RevertToSnapshot_refines [OF wf k(1) refl] k(2) assms(3)
  have s': "sdb_wf E s'" "jr_validRevisions (sdb_journal s') = take k ?all"
    "jr_entries (sdb_journal s') = take (rev_journalIndex (?all ! k)) (jr_entries (sdb_journal s))"
    "\<forall>m \<le> rev_journalIndex (?all ! k). rev_world E s' m = rev_world E s m" by auto
  have "take k ?all = ?pre @ r # take (k - Suc (length ?pre)) rs"
    using gt rs by (simp add: take_Cons' Suc_diff_Suc)
  with assms(1) s' le show ?thesis by (auto simp: anchored_def min_absorb2 min.commute)
qed

lemma anchored_run:
  "anchored E s0 r s \<Longrightarrow> code_reader_ok E \<Longrightarrow> run E ops s = Some s' \<Longrightarrow>
   (\<And>i. OpRevertToSnapshot i \<in> set ops \<Longrightarrow> i > rev_id r) \<Longrightarrow> anchored E s0 r s'"
proof (induction ops arbitrary: s)
  case (Cons op ops)
  from Cons.prems(3) obtain s1 where s1: "op_ok E op s" "exec E op s = Some s1" "run E ops s1 = Some s'"
    by (auto split: if_splits option.splits)
  have ok: "objs_ok E s" "world_ok (world E s)"
    using Cons.prems(1) by (simp_all add: anchored_def sdb_wf_def)
  have "anchored E s0 r s1"
  proof (cases "journaled op")
    case True
    from exec_logged [OF ok Cons.prems(2) True s1(1,2)] Cons.prems(1) anchored_logged show ?thesis by blast
  next
    case False
    then consider "op = OpSnapshot" | i where "op = OpRevertToSnapshot i" by (auto simp: journaled_def)
    then show ?thesis
    proof cases
      case 1
      with s1(2) anchored_Snapshot [OF Cons.prems(1)] show ?thesis by simp
    next
      case 2
      with s1(2) Cons.prems(4) [of i] anchored_Revert [OF Cons.prems(1), of i s1] show ?thesis by simp
    qed
  qed
  with Cons.IH [OF _ Cons.prems(2) s1(3)] Cons.prems(4) show ?case by simp
qed simp

lemma wf_NewWithReader: "sdb_wf E NewWithReader"
  by (simp add: sdb_wf_def objs_ok_def world_ok_def NewWithReader_def world_def newJournal_def revs_ok_def
      dirties_for_def)

lemma run_wf:
  "sdb_wf E s \<Longrightarrow> code_reader_ok E \<Longrightarrow> run E ops s = Some s' \<Longrightarrow> sdb_wf E s'"
proof (induction ops arbitrary: s)
  case (Cons op ops)
  from Cons.prems(3) obtain s1 where s1: "op_ok E op s" "exec E op s = Some s1" "run E ops s1 = Some s'"
    by (auto split: if_splits option.splits)
  have ok: "objs_ok E s" "world_ok (world E s)" using Cons.prems(1) by (simp_all add: sdb_wf_def)
  have "sdb_wf E s1"
  proof (cases "journaled op")
    case True
    from exec_logged [OF ok Cons.prems(2) True s1(1,2)] Cons.prems(1) logged_wf show ?thesis by blast
  next
    case False
    then consider "op = OpSnapshot" | i where "op = OpRevertToSnapshot i" by (auto simp: journaled_def)
    then show ?thesis
    proof cases
      case 1
      with s1(2) Snapshot_wf [OF Cons.prems(1)] show ?thesis by simp
    next
      case 2
      with s1(2) have rv: "RevertToSnapshot E i s = Some s1" by simp
      with RevertToSnapshot_unknown [OF Cons.prems(1)] obtain k
        where "k < length (jr_validRevisions (sdb_journal s))" "rev_id (jr_validRevisions (sdb_journal s) ! k) = i"
        by (metis in_set_conv_nth option.distinct(1))
      with RevertToSnapshot_refines [OF Cons.prems(1) this(1) refl] rv show ?thesis by auto
    qed
  qed
  with Cons.IH [OF _ Cons.prems(2) s1(3)] show ?case .
qed simp

lemma dirties_for_unique:
  "dirties_for es j \<Longrightarrow> dirties_for es j' \<Longrightarrow> a \<noteq> 3 \<Longrightarrow> fmlookup (jr_dirties j) a = fmlookup (jr_dirties j') a"
  by (simp add: dirties_for_def)

lemma anchored_start:
  assumes "sdb_wf E s"
  defines "r \<equiv> \<lparr>rev_id = jr_nextRevisionId (sdb_journal s), rev_journalIndex = length (jr_entries (sdb_journal s)),
       rev_unexpectedBalanceDelta = arb_unexpectedBalanceDelta (arbExtraData s)\<rparr>"
  shows "anchored E s r (snd (Snapshot s))"
  using Snapshot_wf [OF assms(1)]
  by (simp add: anchored_def r_def Snapshot_simps rev_world_Snapshot rev_world_def)

lemma anchored_finish:
  assumes "anchored E s0 r s"
  shows "\<exists>s'. RevertToSnapshot E (rev_id r) s = Some s' \<and> world E s' = world E s0 \<and> sdb_wf E s' \<and>
    jr_entries (sdb_journal s') = jr_entries (sdb_journal s0) \<and>
    jr_validRevisions (sdb_journal s') = jr_validRevisions (sdb_journal s0) \<and>
    arb_unexpectedBalanceDelta (arbExtraData s') = rev_unexpectedBalanceDelta r"
proof -
  from assms obtain rs where wf: "sdb_wf E s"
    and rs: "jr_validRevisions (sdb_journal s) = jr_validRevisions (sdb_journal s0) @ r # rs" (is "?all = ?pre @ _")
    and e: "take (rev_journalIndex r) (jr_entries (sdb_journal s)) = jr_entries (sdb_journal s0)"
      "rev_world E s (rev_journalIndex r) = Some (world E s0)"
    by (auto simp: anchored_def)
  have "length ?pre < length ?all" "r = ?all ! length ?pre" "take (length ?pre) ?all = ?pre"
    using rs by simp_all
  from RevertToSnapshot_refines [OF wf this(1,2)] this(3) e show ?thesis by auto
qed

subsection \<open>Properties\<close>

text \<open>A database without accounts, for concrete instances.\<close>

definition env_empty :: Env where
  "env_empty = \<lparr>env_Account = (\<lambda>_. Inr None), env_Storage = (\<lambda>_ _. Inr 0), env_Code = (\<lambda>_ _. ([], None)),
     env_CodeSize = (\<lambda>_ _. (0, None)), env_keccak = (\<lambda>bs. word_of_nat (length bs)),
     env_ActivatedAsm = (\<lambda>_ _. []), env_LocalTarget = ''amd64'',
     env_range_addr = sorted_list_of_fset, env_range_key = sorted_list_of_fset,
     env_range_wasm = sorted_list_of_fset\<rparr>"

lemma env_empty_ok: "code_reader_ok env_empty"
  by (simp add: code_reader_ok_def env_empty_def)

text \<open>
  C1: taking a snapshot, running any sequence of operations (nested snapshots and reverts to
  them included, but no revert to an older snapshot) and reverting to the snapshot never
  panics and gives back everything the getters can see: accounts, balances, nonces, code,
  committed and current storage, self-destruct and creation flags, logs, refund counter,
  access list, transient storage, Stylus activations and the unexpected balance delta. The
  journal, the stack of valid snapshots and the set of dirty addresses (RIPEMD-160 excepted)
  are restored as well.
\<close>

theorem revert_restores_snapshot:
  assumes "sdb_wf E s" "code_reader_ok E"
    and "run E ops (snd (Snapshot s)) = Some s'"
    and "\<forall>i. OpRevertToSnapshot i \<in> set ops \<longrightarrow> fst (Snapshot s) < i"
  shows "\<exists>t. RevertToSnapshot E (fst (Snapshot s)) s' = Some t \<and> world E t = world E s \<and>
    GetUnexpectedBalanceDelta t = GetUnexpectedBalanceDelta s \<and>
    jr_entries (sdb_journal t) = jr_entries (sdb_journal s) \<and>
    jr_validRevisions (sdb_journal t) = jr_validRevisions (sdb_journal s) \<and>
    (\<forall>a. a \<noteq> 3 \<longrightarrow> fmlookup (jr_dirties (sdb_journal t)) a = fmlookup (jr_dirties (sdb_journal s)) a) \<and>
    sdb_wf E t"
proof -
  from anchored_run [OF anchored_start [OF assms(1)] assms(2,3)] assms(4)
  have "anchored E s \<lparr>rev_id = jr_nextRevisionId (sdb_journal s), rev_journalIndex = length (jr_entries (sdb_journal s)),
       rev_unexpectedBalanceDelta = arb_unexpectedBalanceDelta (arbExtraData s)\<rparr> s'"
    by (simp add: Snapshot_simps)
  from anchored_finish [OF this] obtain t where
    "RevertToSnapshot E (fst (Snapshot s)) s' = Some t" "world E t = world E s" "sdb_wf E t"
    "jr_entries (sdb_journal t) = jr_entries (sdb_journal s)"
    "jr_validRevisions (sdb_journal t) = jr_validRevisions (sdb_journal s)"
    "arb_unexpectedBalanceDelta (arbExtraData t) = arb_unexpectedBalanceDelta (arbExtraData s)"
    by (auto simp: Snapshot_simps)
  moreover from this assms(1) have
    "\<forall>a. a \<noteq> 3 \<longrightarrow> fmlookup (jr_dirties (sdb_journal t)) a = fmlookup (jr_dirties (sdb_journal s)) a"
    using dirties_for_unique [of "jr_entries (sdb_journal s)" "sdb_journal t" "sdb_journal s"]
    by (simp add: sdb_wf_def)
  ultimately show ?thesis by (simp add: GetUnexpectedBalanceDelta_def)
qed

theorem revert_restores_snapshot_witness:
  "\<exists>s' t. run env_empty [OpAddBalance 7 5, OpSnapshot, OpSetState 7 1 2, OpRevertToSnapshot 1, OpSetNonce 7 9]
      (snd (Snapshot NewWithReader)) = Some s' \<and>
    RevertToSnapshot env_empty 0 s' = Some t \<and> world env_empty t = world env_empty NewWithReader"
proof -
  let ?ops = "[OpAddBalance 7 5, OpSnapshot, OpSetState 7 1 2, OpRevertToSnapshot 1, OpSetNonce 7 9]"
  have "\<not> Option.is_none (run env_empty ?ops (snd (Snapshot NewWithReader)))" by code_simp
  then obtain s' where s': "run env_empty ?ops (snd (Snapshot NewWithReader)) = Some s'"
    by (auto simp: Option.is_none_def)
  with revert_restores_snapshot [OF wf_NewWithReader env_empty_ok s'] show ?thesis
    by (auto simp: Snapshot_def NewWithReader_def newJournal_def)
qed

end
