(* ===== verification/StateContract.thy ===== *)
theory StateContract
imports StateRevert
begin

text \<open>
  The contract of the \<^verbatim>\<open>StateDB\<close> API (\<^verbatim>\<open>core/state/statedb.go\<close>) as its callers see it: what each
  getter returns and what each setter does, over the abstract world state.
\<close>

lemma AddBalance_objs_ok: "objs_ok E s \<Longrightarrow> objs_ok E (snd (AddBalance E a x s))"
  using AddBalance_logged(1) [of E s a x] by (auto simp: logged_def)

lemma objs_ok_New: "objs_ok E NewWithReader"
  using wf_NewWithReader [of E] by (simp add: sdb_wf_def)

text \<open>
  C14: every getter returns the value of the abstract world state (the default for an account
  that does not exist) and changes neither it nor the journal: caches, lazily loaded objects
  and memoised database errors are invisible.
\<close>

theorem getters_observe_world:
  assumes "objs_ok E s" "code_reader_ok E"
  shows "fst (GetBalance E a s) = acct_get (world E s) a 0 v_balance \<and> quiet E s (snd (GetBalance E a s)) \<and>
    fst (GetNonce E a s) = acct_get (world E s) a 0 v_nonce \<and> quiet E s (snd (GetNonce E a s)) \<and>
    fst (GetCodeHash E a s) = acct_get (world E s) a 0 v_codehash \<and> quiet E s (snd (GetCodeHash E a s)) \<and>
    fst (GetCode E a s) = acct_get (world E s) a [] v_code \<and> quiet E s (snd (GetCode E a s)) \<and>
    fst (GetState E a k s) = acct_get (world E s) a 0 (\<lambda>v. v_current v k) \<and> quiet E s (snd (GetState E a k s)) \<and>
    fst (GetCommittedState E a k s) = acct_get (world E s) a 0 (\<lambda>v. v_committed v k) \<and>
      quiet E s (snd (GetCommittedState E a k s)) \<and>
    fst (HasSelfDestructed E a s) = acct_get (world E s) a False v_selfDestructed \<and>
      quiet E s (snd (HasSelfDestructed E a s)) \<and>
    fst (Exist E a s) = acct_get (world E s) a False (\<lambda>_. True) \<and> quiet E s (snd (Exist E a s)) \<and>
    fst (Empty E a s) = acct_get (world E s) a True
      (\<lambda>v. v_nonce v = 0 \<and> v_balance v = 0 \<and> v_codehash v = EmptyCodeHash E) \<and> quiet E s (snd (Empty E a s))"
  using field_getters [OF assms(1), of a] GetCode_refines [OF assms, of a]
    GetStateAndCommittedState_refines [OF assms(1), of a k] GetCommittedState_refines [OF assms(1), of a k]
  by (simp add: GetState_eq)

theorem getters_observe_world_witness:
  "acct_get (world env_empty (snd (AddBalance env_empty 7 5 NewWithReader))) 7 0 v_balance = 5"
proof -
  have "objs_ok env_empty (snd (AddBalance env_empty 7 5 NewWithReader))"
    by (rule AddBalance_objs_ok) (simp add: objs_ok_New)
  from getters_observe_world [OF this env_empty_ok, of 7 0]
  have "acct_get (world env_empty (snd (AddBalance env_empty 7 5 NewWithReader))) 7 0 v_balance =
    fst (GetBalance env_empty 7 (snd (AddBalance env_empty 7 5 NewWithReader)))" by simp
  also have "\<dots> = 5" by code_simp
  finally show ?thesis .
qed

text \<open>
  C15: every account setter acts on the abstract world state as the update its name says, on
  an account that exists or on the fresh account it creates: balances wrap at 256 bits, the
  current value of a slot changes and its committed value does not, self-destruction clears
  the balance and sets the flag.
\<close>

theorem setters_act_on_world:
  assumes "objs_ok E s"
  shows "let W = world E s; v = acct_or_new E W a in
    world E (snd (AddBalance E a x s)) = acct_put W a (v\<lparr>v_balance := v_balance v + x\<rparr>) \<and>
    world E (snd (SubBalance E a x s)) = acct_put W a (v\<lparr>v_balance := v_balance v - x\<rparr>) \<and>
    world E (SetBalance E a (Some x) s) = acct_put W a (v\<lparr>v_balance := x\<rparr>) \<and>
    world E (SetNonce E a n s) = acct_put W a (v\<lparr>v_nonce := n\<rparr>) \<and>
    world E (snd (SetCode E a c s)) = acct_put W a (v\<lparr>v_codehash := env_keccak E c, v_code := c\<rparr>) \<and>
    fst (SetState E a k y s) = v_current v k \<and>
    world E (snd (SetState E a k y s)) = acct_put W a (v\<lparr>v_current := (v_current v)(k := y)\<rparr>) \<and>
    world E (snd (SelfDestruct E a s)) =
      (case as_acct W a of None \<Rightarrow> W | Some v \<Rightarrow> acct_put W a (v\<lparr>v_balance := 0, v_selfDestructed := True\<rparr>))"
  using AddBalance_logged(2) [OF assms, of a x] SubBalance_logged(2) [OF assms, of a x]
    SetBalance_logged(2) [OF assms, of a "Some x"] SetNonce_logged(2) [OF assms, of a n]
    SetCode_refines(1) [OF assms, of a c] SetState_logged(2,3) [OF assms, of a k y]
    SelfDestruct_refines(3) [OF assms, of a]
  by (simp add: Let_def)

theorem setters_act_on_world_witness:
  "fst (SetState env_empty 1 2 3 (snd (AddBalance env_empty 1 5 NewWithReader))) = 0 \<and>
   v_current (acct_or_new env_empty (world env_empty (snd (AddBalance env_empty 1 5 NewWithReader))) 1) 2 = 0"
proof -
  have ok: "objs_ok env_empty (snd (AddBalance env_empty 1 5 NewWithReader))"
    by (rule AddBalance_objs_ok) (simp add: objs_ok_New)
  have "fst (SetState env_empty 1 2 3 (snd (AddBalance env_empty 1 5 NewWithReader))) = 0" by code_simp
  with setters_act_on_world [OF ok, of 1 0 0 "[]" 2 3] show ?thesis by (simp add: Let_def)
qed

subsection \<open>Preparing a transaction\<close>

lemma add_slots_sets:
  "al_wf al \<Longrightarrow> \<exists>al'. add_slots a ks al = Some al' \<and> al_wf al' \<and>
     (ks \<noteq> [] \<longrightarrow> al_addrs al' = insert a (al_addrs al)) \<and> (ks = [] \<longrightarrow> al_addrs al' = al_addrs al) \<and>
     al_pairs al' = al_pairs al \<union> Pair a ` set ks"
proof (induction ks arbitrary: al)
  case (Cons k ks)
  obtain al1 ac sc where 1: "AddSlot al a k = Some (al1, ac, sc)" "al_wf al1" using AddSlot_wf [OF Cons.prems] by blast
  from Cons.IH [OF 1(2)] 1 AddSlot_sets [OF Cons.prems 1(1)] show ?case by (cases ks) auto
qed simp

lemma add_tuples_sets:
  "al_wf al \<Longrightarrow> \<exists>al'. add_tuples els al = Some al' \<and> al_wf al' \<and>
     al_addrs al' = al_addrs al \<union> fst ` set els \<and> al_pairs al' = al_pairs al \<union> {(a, k). \<exists>ks. (a, ks) \<in> set els \<and> k \<in> set ks}"
proof (induction els arbitrary: al)
  case (Cons e els)
  obtain a ks where e: "e = (a, ks)" by (cases e)
  have wf: "al_wf (fst (AddAddress al a))" by (rule AddAddress_wf [OF Cons.prems])
  from add_slots_sets [OF wf, of a ks] obtain al1 where 1: "add_slots a ks (fst (AddAddress al a)) = Some al1" "al_wf al1"
    "al_addrs al1 = insert a (al_addrs al)" "al_pairs al1 = al_pairs al \<union> Pair a ` set ks"
    by (cases "ks = []") (auto simp: AddAddress_sets)
  from Cons.IH [OF 1(2)] 1 e show ?case by auto
qed simp

lemma add_addresses_sets:
  "al_wf al \<Longrightarrow> al_wf (fold (\<lambda>addr al. fst (AddAddress al addr)) as al) \<and>
     al_addrs (fold (\<lambda>addr al. fst (AddAddress al addr)) as al) = al_addrs al \<union> set as \<and>
     al_pairs (fold (\<lambda>addr al. fst (AddAddress al addr)) as al) = al_pairs al"
  by (induction as arbitrary: al) (auto simp: AddAddress_wf AddAddress_sets)

definition warm_addresses :: "Rules \<Rightarrow> address \<Rightarrow> address \<Rightarrow> address option \<Rightarrow> address list \<Rightarrow> AccessTuple list \<Rightarrow> address set" where
  "warm_addresses rules sender coinbase dst precompiles list =
     insert sender (set_option dst \<union> set precompiles \<union> fst ` set list \<union> (if IsShanghai rules then {coinbase} else {}))"

text \<open>
  C17: after \<^verbatim>\<open>Prepare\<close> under the EIP-2929 rules the warm addresses are exactly the sender, the
  destination, the precompiles, the addresses of the transaction's access list and, from
  Shanghai on, the coinbase; the warm slots are exactly those of the access list; nothing of
  an earlier transaction's access list or transient storage survives, and the accounts are
  untouched.
\<close>

theorem Prepare_warms:
  assumes "IsEIP2929 rules" "\<not> IsEIP4762 rules"
  shows "\<exists>t. Prepare rules sender coinbase dst precompiles list s = Some t \<and>
    (\<forall>a. AddressInAccessList a t \<longleftrightarrow> a \<in> warm_addresses rules sender coinbase dst precompiles list) \<and>
    (\<forall>a k. map_option snd (SlotInAccessList a k t) = Some (\<exists>ks. (a, ks) \<in> set list \<and> k \<in> set ks)) \<and>
    (\<forall>a k. GetTransientState a k t = 0) \<and> view E t = view E s"
proof -
  let ?add = "\<lambda>addr al. fst (AddAddress al addr)"
  define al where "al = fold ?add ((sender # (case dst of Some d \<Rightarrow> [d] | None \<Rightarrow> [])) @ precompiles) newAccessList"
  have al: "al_wf al" "al_addrs al = insert sender (set_option dst \<union> set precompiles)" "al_pairs al = {}"
    unfolding al_def
    using add_addresses_sets [OF newAccessList_wf, of "(sender # (case dst of Some d \<Rightarrow> [d] | None \<Rightarrow> [])) @ precompiles"]
    by (auto simp: al_addrs_def al_pairs_def newAccessList_def ContainsAddress_def split: option.splits)
  from add_tuples_sets [OF al(1), of list] obtain al1 where 1: "add_tuples list al = Some al1" "al_wf al1"
    "al_addrs al1 = al_addrs al \<union> fst ` set list" "al_pairs al1 = {(a, k). \<exists>ks. (a, ks) \<in> set list \<and> k \<in> set ks}"
    using al(3) by auto
  define al2 where "al2 = (if IsShanghai rules then fst (AddAddress al1 coinbase) else al1)"
  have 2: "al_wf al2" "al_addrs al2 = warm_addresses rules sender coinbase dst precompiles list" "al_pairs al2 = al_pairs al1"
    using 1 al by (auto simp: al2_def AddAddress_wf AddAddress_sets warm_addresses_def)
  let ?t = "s\<lparr>sdb_accessList := al2, sdb_transientStorage := newTransientStorage\<rparr>"
  have "Prepare rules sender coinbase dst precompiles list s = Some ?t"
    using assms 1(1) by (cases dst) (simp_all add: Prepare_def Let_def al2_def al_def)
  moreover have "AddressInAccessList a ?t \<longleftrightarrow> a \<in> al_addrs al2" for a
    by (simp add: AddressInAccessList_def al_addrs_def)
  moreover have "map_option snd (SlotInAccessList a k ?t) = Some ((a, k) \<in> al_pairs al2)" for a k
    using al_Contains_wf [OF 2(1), of a k] by (simp add: SlotInAccessList_def)
  moreover have "GetTransientState a k ?t = 0" for a k
    by (simp add: GetTransientState_def ts_Get_def newTransientStorage_def)
  moreover have "view E ?t = view E s" by (simp add: view_def live_object_def)
  ultimately show ?thesis using 1(4) 2 by auto
qed

definition rules_cancun :: Rules where
  "rules_cancun = \<lparr>IsArbitrum = False, IsStylus = False, IsGreaterEqual41 = False, IsDia = False,
     IsGreaterEqual60 = False, ChainID = 1, ArbOSVersion = 0, IsHomestead = True, IsEIP150 = True,
     IsEIP155 = True, IsEIP158 = True, IsEIP2929 = True, IsEIP4762 = False, IsByzantium = True,
     IsConstantinople = True, IsPetersburg = True, IsIstanbul = True, IsBerlin = True, IsLondon = True,
     IsMerge = True, IsShanghai = True, IsCancun = True, IsPrague = False, IsOsaka = False,
     IsAmsterdam = False, IsVerkle = False\<rparr>"

theorem Prepare_warms_witness:
  "\<exists>t. Prepare rules_cancun 1 2 (Some 3) [4, 5] [(6, [7])] NewWithReader = Some t \<and>
     AddressInAccessList 2 t \<and> \<not> AddressInAccessList 9 t"
  using Prepare_warms [of rules_cancun 1 2 "Some 3" "[4, 5]" "[(6, [7])]" NewWithReader env_empty]
  by (auto simp: rules_cancun_def warm_addresses_def)

subsection \<open>Copying a state\<close>

lemma entry_copy_same: "entry_copy e = e"
  by (cases e) simp_all

lemma copies_same:
  "so_deepCopy obj = obj" "mutation_copy m = m" "journal_copy j = j" "al_Copy al = al" "ts_Copy t = t"
  by (simp_all add: so_deepCopy_def Storage_Copy_def mutation_copy_def journal_copy_def al_Copy_def ts_Copy_def
      entry_copy_same fmmap_same map_idI)

text \<open>What \<^verbatim>\<open>Copy\<close> resets, with \<open>w\<close> for the rebuilt cache of recent programs.\<close>

definition as_copy :: "RecentWasms \<Rightarrow> StateDB \<Rightarrow> StateDB" where
  "as_copy w s = s\<lparr>arbExtraData := (arbExtraData s)\<lparr>arb_recentWasms := w, arb_addressCheckerState := None\<rparr>,
     sdb_deterministic := False, sdb_recording := False, sdb_OnCommit := None\<rparr>"

lemma world_as_copy: "world E (as_copy w s) = world E s"
  by (simp add: world_def as_copy_def view_def live_object_def comp_def)

lemma as_copy_get: "getStateObject E a (as_copy w s) = map_prod (as_copy w) id (getStateObject E a s)"
  by (auto simp: getStateObject_def as_copy_def setError_def setStateObject_def Let_def split: option.splits sum.splits)

lemma as_copy_set: "setStateObject obj (as_copy w s) = as_copy w (setStateObject obj s)"
  by (simp add: as_copy_def setStateObject_def)

lemma as_copy_on_object: "on_object E a f (as_copy w s) = map_option (as_copy w) (on_object E a f s)"
  by (cases "getStateObject E a s") (simp add: on_object_def as_copy_get as_copy_set split: option.splits)

lemma as_copy_revert_entry: "revert_entry E e (as_copy w s) = map_option (as_copy w) (revert_entry E e s)"
proof (cases e)
  case (selfDestructChange a)
  then show ?thesis
    by (cases "getStateObject E a s") (simp add: as_copy_get as_copy_set split: option.splits)
next
  case (accessListAddSlotChange a slot)
  then show ?thesis by (cases "DeleteSlot (sdb_accessList s) a slot") (simp_all add: as_copy_def)
next
  case (EvictWasm h version tag debug)
  then show ?thesis by (simp add: as_copy_def ActivatedAsm_def Let_def)
qed (simp_all add: as_copy_on_object, simp_all add: as_copy_def setTransientState_def Let_def)

lemma as_copy_revert_loop: "revert_loop E es (as_copy w s) = map_option (as_copy w) (revert_loop E es s)"
proof (induction es arbitrary: s)
  case (Cons e es)
  have j: "sdb_journal (as_copy w t) = sdb_journal t" "(as_copy w t)\<lparr>sdb_journal := j\<rparr> = as_copy w (t\<lparr>sdb_journal := j\<rparr>)" for t j
    by (simp_all add: as_copy_def)
  show ?case by (simp add: as_copy_revert_entry Cons j split: option.splits)
qed simp

lemma as_copy_revert: "RevertToSnapshot E revid (as_copy w s) = map_option (as_copy w) (RevertToSnapshot E revid s)"
proof -
  have j: "sdb_journal (as_copy w t) = sdb_journal t" "(as_copy w t)\<lparr>sdb_journal := j\<rparr> = as_copy w (t\<lparr>sdb_journal := j\<rparr>)"
    "(as_copy w t)\<lparr>arbExtraData := (arbExtraData (as_copy w t))\<lparr>arb_unexpectedBalanceDelta := d\<rparr>\<rparr> =
      as_copy w (t\<lparr>arbExtraData := (arbExtraData t)\<lparr>arb_unexpectedBalanceDelta := d\<rparr>\<rparr>)" for t j d
    by (simp_all add: as_copy_def)
  show ?thesis
    by (simp add: RevertToSnapshot_def journal_revert_def Let_def j as_copy_revert_loop option.map_comp comp_def)
qed

text \<open>
  C18: \<^verbatim>\<open>Copy\<close> always succeeds. The copy agrees with the original on every field but these: the
  flags of a deterministic and of a recording state, the commit hook and the state of the address
  checker are reset, and the cache of recent programs, if there is one, is rebuilt with the same
  programs in the same order and with the same capacity. So the copy describes the same world.
  Its snapshots are those of the original and can be applied to it with the same outcome, contrary to
  what the comment on the function says.
\<close>

theorem Copy_same:
  assumes "\<And>c. rw_cache (arb_recentWasms (arbExtraData s)) = Some c \<Longrightarrow> lru_repr c xs"
  shows "\<exists>s' w. StateDB_Copy s = Some s' \<and>
    s' = s\<lparr>arbExtraData := (arbExtraData s)\<lparr>arb_recentWasms := w, arb_addressCheckerState := None\<rparr>,
           sdb_deterministic := False, sdb_recording := False, sdb_OnCommit := None\<rparr> \<and>
    (case rw_cache (arb_recentWasms (arbExtraData s)) of
       None \<Rightarrow> rw_cache w = None
     | Some c \<Rightarrow> \<exists>c'. rw_cache w = Some c' \<and> lru_repr c' xs \<and> lru_cap c' = lru_cap c) \<and>
    world E s' = world E s \<and>
    (\<forall>revid. map_option (world E) (RevertToSnapshot E revid s') = map_option (world E) (RevertToSnapshot E revid s))"
proof -
  let ?r = "arb_recentWasms (arbExtraData s)"
  have "\<exists>w. RecentWasms_Copy ?r = Some w \<and>
    (case rw_cache ?r of None \<Rightarrow> rw_cache w = None
     | Some c \<Rightarrow> \<exists>c'. rw_cache w = Some c' \<and> lru_repr c' xs \<and> lru_cap c' = lru_cap c)"
  proof (cases "rw_cache ?r")
    case None
    then show ?thesis by (simp add: RecentWasms_Copy_def NewRecentWasms_def)
  next
    case (Some c)
    with RecentWasms_Copy_repr [OF assms [OF Some]] show ?thesis by (cases ?r) auto
  qed
  then obtain w where w: "RecentWasms_Copy ?r = Some w" "case rw_cache ?r of None \<Rightarrow> rw_cache w = None
    | Some c \<Rightarrow> \<exists>c'. rw_cache w = Some c' \<and> lru_repr c' xs \<and> lru_cap c' = lru_cap c" by blast
  then have "StateDB_Copy s = Some (as_copy w s)"
    by (simp add: StateDB_Copy_def as_copy_def copies_same fmmap_same)
  with w(2) world_as_copy [of E w] show ?thesis
    by (intro exI [of _ "as_copy w s"] exI [of _ w]) (simp add: as_copy_revert option.map_comp comp_def, simp add: as_copy_def)
qed

definition copied_state :: StateDB where
  "copied_state = NewWithReader\<lparr>sdb_deterministic := True,
     arbExtraData := (arbExtraData NewWithReader)\<lparr>arb_recentWasms := \<lparr>rw_cache = Some (NewBasicLRU 2)\<rparr>\<rparr>\<rparr>"

theorem Copy_same_witness:
  "\<exists>s'. StateDB_Copy copied_state = Some s' \<and> \<not> sdb_deterministic s' \<and> sdb_deterministic copied_state \<and>
     world env_empty s' = world env_empty NewWithReader"
proof -
  have "lru_repr c []" if "rw_cache (arb_recentWasms (arbExtraData copied_state)) = Some c" for c
    using that lru_New_repr [of 2] by (auto simp: copied_state_def)
  from Copy_same [of copied_state, OF this] have "\<exists>s'. StateDB_Copy copied_state = Some s' \<and> \<not> sdb_deterministic s' \<and>
    world env_empty s' = world env_empty copied_state" by fastforce
  moreover have "world env_empty copied_state = world env_empty NewWithReader" "sdb_deterministic copied_state"
    by (simp_all add: copied_state_def world_def view_def live_object_def comp_def)
  ultimately show ?thesis by simp
qed

end
