(* ===== verification/VMGasLaws.thy ===== *)
theory VMGasLaws
imports VMGas StateContract
begin

text \<open>
  What the gas functions promise: the fee for memory follows the quadratic formula without
  ever wrapping around, and a call never gets more than its share of the gas.
\<close>

subsection \<open>What a computation leaves alone\<close>

text \<open>Whatever the outcome, the computation does not change the given part of the frame.\<close>

definition keeps :: "(Frame \<Rightarrow> 'b) \<Rightarrow> 'a vm \<Rightarrow> bool" where
  "keeps g m \<longleftrightarrow> (\<forall>f r f'. m f = Some (r, f') \<longrightarrow> g f' = g f)"

named_theorems keeps_intros \<open>parts of the frame that computations do not change\<close>

lemma keepsD: "keeps g m \<Longrightarrow> m f = Some (r, f') \<Longrightarrow> g f' = g f"
  by (simp add: keeps_def)

lemma keeps_basic [keeps_intros]:
  "keeps g (vret x)" "keeps g (vfail e)" "keeps g (vget h)" "keeps g (vopt o')" "keeps g (vcheck y)"
  "keeps g (vback n)" "keeps g (vback_u64 n)" "keeps g self"
  by (auto simp: keeps_def vret_def vfail_def vget_def vopt_def vcheck_def vback_def vback_u64_def vbind_def
      self_def split: option.splits if_splits)

lemma keeps_bind [keeps_intros]: "keeps g m \<Longrightarrow> (\<And>x. keeps g (k x)) \<Longrightarrow> keeps g (vbind m k)"
  unfolding keeps_def by (metis vbind_SomeE)

lemma keeps_then [keeps_intros]: "keeps g m \<Longrightarrow> keeps g k \<Longrightarrow> keeps g (vthen m k)"
  unfolding vthen_def by (rule keeps_bind)

lemma keeps_when [keeps_intros]: "keeps g m \<Longrightarrow> keeps g (vwhen b m)"
  by (simp add: vwhen_def keeps_basic)

lemma keeps_if [keeps_intros]: "(b \<Longrightarrow> keeps g m) \<Longrightarrow> (\<not> b \<Longrightarrow> keeps g n) \<Longrightarrow> keeps g (if b then m else n)"
  by simp

lemma keeps_pair [keeps_intros]: "(\<And>a b. keeps g (m a b)) \<Longrightarrow> keeps g (case p of (a, b) \<Rightarrow> m a b)"
  by (cases p) simp

lemma keeps_db [keeps_intros]:
  "(\<And>f s. g (set_db s f) = g f) \<Longrightarrow> keeps g (vdb op1)"
  "(\<And>f s. g (set_db s f) = g f) \<Longrightarrow> keeps g (vdb_upd op2)"
  "(\<And>f s. g (set_db s f) = g f) \<Longrightarrow> keeps g (vdb_opt op3)"
  by (auto simp: keeps_def vdb_def vdb_upd_def vdb_opt_def split: option.splits prod.splits)

lemma keeps_memory [keeps_intros]: "(\<And>f m. g (f\<lparr>fr_mem := m\<rparr>) = g f) \<Longrightarrow> keeps g (memoryGasCost n)"
  by (auto simp: keeps_def memoryGasCost_def Let_def split: if_splits)

subsection \<open>The fee for memory\<close>

definition mem_fee :: "nat \<Rightarrow> nat" where
  "mem_fee w = 3 * w + w * w div 512"

text \<open>The memory holds whole words and its fee has been paid.\<close>

definition mem_paid :: "Memory \<Rightarrow> bool" where
  "mem_paid m \<longleftrightarrow>
     mem_Len m mod 32 = 0 \<and> mem_Len m \<le> 0x1FFFFFFFE0 \<and> unat (lastGasCost m) = mem_fee (mem_Len m div 32)"

lemma mem_fee_mono: "v \<le> w \<Longrightarrow> mem_fee v \<le> mem_fee w"
  by (simp add: mem_fee_def add_mono div_le_mono mult_le_mono)

lemma mem_fee_bound: "w \<le> 0xFFFFFFFF \<Longrightarrow> mem_fee w < 2 ^ 62"
proof -
  assume w: "w \<le> 0xFFFFFFFF"
  then have "w * w \<le> 0xFFFFFFFF * 0xFFFFFFFF" by (rule mult_le_mono [OF _ w])
  then have "w * w div 512 \<le> 0xFFFFFFFF * 0xFFFFFFFF div 512" by (rule div_le_mono)
  with w show ?thesis by (simp add: mem_fee_def)
qed

lemma words_of_size:
  assumes "n \<le> (0x1FFFFFFFE0 :: u64)"
  shows "unat (toWordSize n) \<le> 0xFFFFFFFF" "unat (toWordSize n * 32) = 32 * unat (toWordSize n)"
    "unat (toWordSize n * toWordSize n) = unat (toWordSize n) * unat (toWordSize n)"
    "unat (toWordSize n * MemoryGas + toWordSize n * toWordSize n div QuadCoeffDiv) = mem_fee (unat (toWordSize n))"
proof -
  have "unat n \<le> unat (0x1FFFFFFFE0 :: u64)" using assms by (simp only: word_le_nat_alt)
  then show w: "unat (toWordSize n) \<le> 0xFFFFFFFF" by (simp add: toWordSize_exact)
  have sq: "unat (toWordSize n) * unat (toWordSize n) \<le> 0xFFFFFFFF * 0xFFFFFFFF" by (rule mult_le_mono [OF w w])
  show "unat (toWordSize n * 32) = 32 * unat (toWordSize n)" using w by (simp add: unat_mult_lem [THEN iffD1])
  show sq': "unat (toWordSize n * toWordSize n) = unat (toWordSize n) * unat (toWordSize n)"
    using sq by (simp add: unat_mult_lem [THEN iffD1])
  have lin: "unat (toWordSize n * MemoryGas) = 3 * unat (toWordSize n)"
    using w by (simp add: unat_mult_lem [THEN iffD1])
  have quad: "unat (toWordSize n * toWordSize n div QuadCoeffDiv) = unat (toWordSize n) * unat (toWordSize n) div 512"
    by (simp add: unat_div sq')
  have "3 * unat (toWordSize n) + unat (toWordSize n) * unat (toWordSize n) div 512 < 2 ^ 64"
    using mem_fee_bound [OF w] by (simp add: mem_fee_def)
  then show "unat (toWordSize n * MemoryGas + toWordSize n * toWordSize n div QuadCoeffDiv) = mem_fee (unat (toWordSize n))"
    using lin quad by (simp add: unat_add_lem [THEN iffD1] mem_fee_def)
qed

lemma SingleGas_simps [simp]:
  "SingleGas ZeroGas = 0" "SingleGas (ComputationGas g) = g" "SingleGas (StorageAccessReadGas g) = g"
  "mg_refund ZeroGas = 0" "mg_refund (ComputationGas g) = 0" "mg_refund (StorageAccessReadGas g) = 0"
  by (simp_all add: SingleGas_def ComputationGas_def StorageAccessReadGas_def NewMultiGas_def ZeroGas_def Let_def)

lemma memoryGasCost_grow:
  assumes "mem_paid (fr_mem f)" "n \<noteq> 0" "n \<le> 0x1FFFFFFFE0" "mem_Len (fr_mem f) < 32 * unat (toWordSize n)"
  shows "\<exists>fee. memoryGasCost n f = Some (Inr (ComputationGas fee),
      f\<lparr>fr_mem := (fr_mem f)\<lparr>lastGasCost := word_of_nat (mem_fee (unat (toWordSize n)))\<rparr>\<rparr>) \<and>
    unat fee = mem_fee (unat (toWordSize n)) - mem_fee (mem_Len (fr_mem f) div 32)"
proof -
  note w = words_of_size [OF assms(3)]
  define t where "t = toWordSize n * MemoryGas + toWordSize n * toWordSize n div QuadCoeffDiv"
  have t: "t = word_of_nat (mem_fee (unat (toWordSize n)))" unfolding t_def w(4) [symmetric] by simp
  have len: "word_of_nat (mem_Len (fr_mem f)) < toWordSize n * 32"
    using assms(1,4) w(2) by (simp add: mem_paid_def word_less_nat_alt unat_of_nat)
  have "mem_fee (mem_Len (fr_mem f) div 32) \<le> mem_fee (unat (toWordSize n))"
    by (rule mem_fee_mono) (use assms(4) in linarith)
  then have "unat (t - lastGasCost (fr_mem f)) = mem_fee (unat (toWordSize n)) - mem_fee (mem_Len (fr_mem f) div 32)"
    using assms(1) w(4) by (simp add: mem_paid_def t_def unat_sub word_le_nat_alt)
  moreover have "memoryGasCost n f = Some (Inr (ComputationGas (t - lastGasCost (fr_mem f))),
      f\<lparr>fr_mem := (fr_mem f)\<lparr>lastGasCost := t\<rparr>\<rparr>)"
    using assms(2,3) len by (simp add: memoryGasCost_def Let_def t_def not_less)
  ultimately show ?thesis using t by auto
qed

lemma memoryGasCost_keep:
  assumes "mem_paid (fr_mem f)" "n \<le> 0x1FFFFFFFE0" "32 * unat (toWordSize n) \<le> mem_Len (fr_mem f)"
  shows "memoryGasCost n f = Some (Inr ZeroGas, f)"
  using assms words_of_size(2) [OF assms(2)]
  by (simp add: memoryGasCost_def Let_def mem_paid_def word_less_nat_alt word_le_nat_alt unat_of_nat not_less)

text \<open>
  C28: memory is charged by the quadratic formula and by nothing else. The check against
  0x1FFFFFFFE0 is what keeps the 64-bit computation exact: beyond it the operation fails, below
  it the fee is the exact difference of the total fees of the new and the old size, so the
  fees of any sequence of expansions add up to the fee of the final size.
\<close>

theorem memory_fee_exact:
  assumes "mem_paid (fr_mem f)"
  shows "case memoryGasCost n f of
      None \<Rightarrow> False
    | Some (Inl e, f') \<Rightarrow> e = ErrGasUintOverflow \<and> 0x1FFFFFFFE0 < n \<and> f' = f
    | Some (Inr mg, f') \<Rightarrow>
        let m = mem_Resize (toWordSize n * 32) (fr_mem f')
        in n \<le> 0x1FFFFFFFE0 \<and> mem_paid m \<and> mem_Len m = max (mem_Len (fr_mem f)) (32 * unat (toWordSize n)) \<and>
           unat (SingleGas mg) = mem_fee (mem_Len m div 32) - mem_fee (mem_Len (fr_mem f) div 32) \<and>
           f' = f\<lparr>fr_mem := fr_mem f'\<rparr>"
proof (cases "n \<le> 0x1FFFFFFFE0")
  case False
  then show ?thesis by (auto simp: memoryGasCost_def not_le)
next
  case n: True
  note w = words_of_size [OF n]
  show ?thesis
  proof (cases "mem_Len (fr_mem f) < 32 * unat (toWordSize n)")
    case True
    then have "n \<noteq> 0" by (auto simp: toWordSize_exact)
    from memoryGasCost_grow [OF assms this n True] True w(1,2) n mem_fee_bound [OF w(1)] show ?thesis
      by (auto simp: Let_def mem_paid_def mem_Resize_def mem_Len_def max_def unat_of_nat word_less_nat_alt)
  next
    case False
    then show ?thesis using memoryGasCost_keep [OF assms n] w(1,2) n assms
      by (auto simp: Let_def mem_paid_def mem_Resize_def mem_Len_def max_def not_less)
  qed
qed

text \<open>A frame on an empty state, with some gas and some stack.\<close>

definition fresh_frame :: "u64 \<Rightarrow> u256 list \<Rightarrow> Frame" where
  "fresh_frame gas st =
     \<lparr>fr_evm = \<lparr>evm_StateDB = NewWithReader, evm_callGasTemp = 0, evm_depth = 1, evm_readOnly = False,
        evm_returnData = [], evm_jumpDests = newMapJumpDests, evm_abort = False\<rparr>,
      fr_contract = NewContract 1 2 0 gas, fr_stack = \<lparr>st_data = st\<rparr>, fr_mem = NewMemory, fr_pc = 0\<rparr>"

theorem memory_fee_exact_witness:
  "\<exists>mg f'. memoryGasCost 33 (fresh_frame 100 []) = Some (Inr mg, f') \<and> unat (SingleGas mg) = 6"
proof -
  have "mem_paid (fr_mem (fresh_frame 100 []))"
    by (simp add: fresh_frame_def mem_paid_def NewMemory_def mem_Len_def mem_fee_def)
  note spec = memory_fee_exact [OF this, of 33]
  then obtain r f' where r: "memoryGasCost 33 (fresh_frame 100 []) = Some (r, f')" by (auto split: option.splits)
  with spec show ?thesis
    by (cases r) (auto simp: Let_def toWordSize_exact mem_fee_def fresh_frame_def NewMemory_def mem_Len_def)
qed

subsection \<open>The gas of a call\<close>

text \<open>
  A cost that consists of a base, which is at least \<open>least\<close>, and of the gas for the callee. From
  EIP-150 on the callee has at most what leaves the caller a 64th.
\<close>

definition call_split :: "bool \<Rightarrow> nat \<Rightarrow> nat \<Rightarrow> MultiGas \<Rightarrow> nat \<Rightarrow> bool" where
  "call_split eip150 least gas c temp \<longleftrightarrow>
     mg_refund c = 0 \<and>
     (\<exists>base. least \<le> base \<and> unat (mg_total c) = base + temp \<and>
        (eip150 \<and> base \<le> gas \<longrightarrow> temp \<le> (gas - base) - (gas - base) div 64))"

lemma SafeIncrement_total:
  "SafeIncrement z k g = (c, False) \<Longrightarrow>
     unat (mg_total c) = unat (mg_total z) + unat g \<and> mg_refund c = mg_refund z"
  by (auto simp: SafeIncrement_def saturatingScalarAdd_eq unat_add_lem [THEN iffD1] split: if_splits)

lemma SafeAdd_total:
  assumes "SafeAdd z x = (c, False)"
  shows "unat (mg_total c) = unat (mg_total z) + unat (mg_total x)" "unat (mg_refund c) = unat (mg_refund z) + unat (mg_refund x)"
  using SafeAdd_unat [of z x] assms by simp_all

lemma callGas_share:
  assumes "callGas True gas base req = Inr g" "base \<le> gas"
  shows "unat g \<le> (unat gas - unat base) - (unat gas - unat base) div 64"
proof -
  define a where "a = gas - base"
  have a: "unat a = unat gas - unat base" using assms(2) by (simp add: a_def unat_sub word_le_nat_alt)
  have r: "unat (a - a div 64) = unat a - unat a div 64"
    by (simp add: unat_sub word_le_nat_alt unat_div)
  have "g \<le> a - a div 64" using assms(1) by (auto simp: callGas_def Let_def a_def split: if_splits)
  with a r show ?thesis by (simp add: word_le_nat_alt)
qed

lemma memoryGasCost_refund: "memoryGasCost n f = Some (Inr c, f') \<Longrightarrow> mg_refund c = 0"
  by (auto simp: memoryGasCost_def Let_def split: if_splits)

text \<open>Every result of the computation satisfies the predicate.\<close>

definition yields :: "('a \<Rightarrow> bool) \<Rightarrow> 'a vm \<Rightarrow> bool" where
  "yields P m \<longleftrightarrow> (\<forall>f x f'. m f = Some (Inr x, f') \<longrightarrow> P x)"

text \<open>
  On frames with the stack \<open>st\<close>, the computation of the cost of a call: whatever happens the gas of
  the frame does not grow, and a cost is split.
\<close>

definition splits :: "bool \<Rightarrow> nat \<Rightarrow> Stack \<Rightarrow> MultiGas vm \<Rightarrow> bool" where
  "splits eip150 least st m \<longleftrightarrow> (\<forall>f r f'. fr_stack f = st \<longrightarrow> m f = Some (r, f') \<longrightarrow>
     unat (ct_Gas (fr_contract f')) \<le> unat (ct_Gas (fr_contract f)) \<and>
     (\<forall>c. r = Inr c \<longrightarrow> ct_Gas (fr_contract f') = ct_Gas (fr_contract f) \<and> fr_stack f' = st \<and>
        call_split eip150 least (unat (ct_Gas (fr_contract f))) c (unat (evm_callGasTemp (fr_evm f')))))"

lemma splitsD:
  assumes "splits p n st m" "fr_stack f = st" "m f = Some (r, f')"
  shows "unat (ct_Gas (fr_contract f')) \<le> unat (ct_Gas (fr_contract f))"
    "r = Inr c \<Longrightarrow> ct_Gas (fr_contract f') = ct_Gas (fr_contract f) \<and> fr_stack f' = st \<and>
       call_split p n (unat (ct_Gas (fr_contract f))) c (unat (evm_callGasTemp (fr_evm f')))"
  using assms unfolding splits_def by blast+

text \<open>The parts of the frame that the cost of a call reads.\<close>

definition scope :: "Frame \<Rightarrow> Contract \<times> Stack" where
  "scope f = (fr_contract f, fr_stack f)"

lemma scope_simps [simp]:
  "scope (set_db s f) = scope f" "scope (f\<lparr>fr_mem := m\<rparr>) = scope f" "scope (f\<lparr>fr_evm := e\<rparr>) = scope f"
  by (simp_all add: scope_def)

lemma keeps_scope: "keeps scope m \<Longrightarrow> m f = Some (r, f') \<Longrightarrow> fr_contract f' = fr_contract f \<and> fr_stack f' = fr_stack f"
  by (auto simp: keeps_def scope_def)

lemma splits_bind:
  assumes "keeps scope m" "yields P m" "\<And>x. P x \<Longrightarrow> splits p n st (k x)"
  shows "splits p n st (vbind m k)"
  unfolding splits_def
proof (intro allI impI, goal_cases)
  case (1 f r f')
  from 1(2) show ?case
  proof (cases rule: vbind_SomeE)
    case (err e)
    with keeps_scope [OF assms(1)] show ?thesis by simp
  next
    case (ok x f1)
    then have "P x" using assms(2) by (auto simp: yields_def)
    with splitsD [OF assms(3) _ ok(2)] keeps_scope [OF assms(1) ok(1)] 1(1) show ?thesis by simp
  qed
qed

lemmas splits_any = splits_bind [where P = "\<lambda>_. True"]

lemma yields_any [simp]: "yields (\<lambda>_. True) m"
  by (simp add: yields_def)

lemma yields_refund:
  "yields (\<lambda>c. mg_refund c = 0) (memoryGasCost n)"
  "mg_refund a = 0 \<Longrightarrow> mg_refund b = 0 \<Longrightarrow> yields (\<lambda>c. mg_refund c = 0) (vcheck (SafeAdd a b))"
  "mg_refund (SaturatingIncrement a k g) = mg_refund a"
  by (auto simp: yields_def memoryGasCost_refund vcheck_def vret_def vfail_def SaturatingIncrement_def SafeAdd_result
      split: if_splits)

lemma forward_gas_splits:
  assumes "mg_refund mg = 0" "n \<le> unat (mg_total mg)"
  shows "splits (IsEIP150 (chainRules cfg)) n st (forward_gas cfg mg)"
  unfolding splits_def
proof (intro allI impI, goal_cases)
  case (1 f r f')
  show ?case
  proof (cases r)
    case (Inl e)
    with 1 show ?thesis
      by (auto simp: forward_gas_def vback_def vopt_def vget_def vcheck_def vret_def vfail_def elim!: vbind_SomeE
          split: option.splits sum.splits if_splits)
  next
    case (Inr c)
    with 1(2) obtain req g where g: "callGas (IsEIP150 (chainRules cfg)) (ct_Gas (fr_contract f)) (SingleGas mg) req = Inr g"
      and c: "SafeIncrement mg ResourceKindComputation g = (c, False)"
      and f': "f' = f\<lparr>fr_evm := (fr_evm f)\<lparr>evm_callGasTemp := g\<rparr>\<rparr>"
      by (auto simp: forward_gas_def vback_def vopt_def vget_def vcheck_def vret_def vfail_def elim!: vbind_SomeE
          split: option.splits sum.splits if_splits) (metis prod.collapse)
    from SafeIncrement_total [OF c] assms callGas_share [of "ct_Gas (fr_contract f)" "SingleGas mg" req g] g 1(1)
    show ?thesis by (auto simp: Inr f' call_split_def SingleGas_def word_le_nat_alt)
  qed
qed

text \<open>What a call that transfers value costs at least; the value is the third element of the stack.\<close>

definition transfer_cost :: "EvmCfg \<Rightarrow> Stack \<Rightarrow> nat" where
  "transfer_cost cfg st =
     (case st_Back 2 st of
        None \<Rightarrow> 0
      | Some v \<Rightarrow> if v \<noteq> 0 \<and> \<not> IsEIP4762 (chainRules cfg) then unat CallValueTransferGas else 0)"

locale call_cost =
  fixes old :: gasFunc and least :: "EvmCfg \<Rightarrow> Stack \<Rightarrow> nat"
  assumes old_splits: "splits (IsEIP150 (chainRules cfg)) (least cfg st) st (old E cfg ms)"

lemma sum_forward_splits:
  assumes "mg_refund a = 0" "mg_refund b = 0" "n \<le> unat (mg_total a)"
  shows "splits (IsEIP150 (chainRules cfg)) n st (vbind (vcheck (SafeAdd a b)) (forward_gas cfg))"
proof (rule splits_bind)
  show "yields (\<lambda>c. mg_refund c = 0 \<and> n \<le> unat (mg_total c)) (vcheck (SafeAdd a b))"
    using assms SafeAdd_total [of a b]
    by (cases "SafeAdd a b") (auto simp: yields_def vcheck_def vret_def vfail_def word_unat_eq_iff split: if_splits)
qed (simp_all add: keeps_basic forward_gas_splits)

lemma memory_splits:
  "(\<And>c. mg_refund c = 0 \<Longrightarrow> splits p n st (k c)) \<Longrightarrow> splits p n st (vbind (memoryGasCost ms) k)"
  by (rule splits_bind [OF keeps_memory yields_refund(1)]) simp_all

lemma back_splits:
  assumes "\<And>x. st_Back i st = Some x \<Longrightarrow> splits p n st (k x)"
  shows "splits p n st (vbind (vback i) k)"
  unfolding splits_def
proof (intro allI impI, goal_cases)
  case (1 f r f')
  then obtain x where "st_Back i st = Some x" "k x f = Some (r, f')"
    by (auto simp: vback_def vopt_def vbind_def split: option.splits)
  with splitsD [OF assms _ this(2)] 1(1) show ?case by blast
qed

interpretation delegateCall: call_cost gasDelegateCall "\<lambda>_ _. 0"
  by unfold_locales (simp add: gasDelegateCall_def memory_splits forward_gas_splits)

interpretation staticCall: call_cost gasStaticCall "\<lambda>_ _. 0"
  by unfold_locales (simp add: gasStaticCall_def memory_splits forward_gas_splits)

lemma mg_total_value: "mg_total ZeroGas = 0" "unat g \<le> unat (mg_total (SaturatingIncrement mg k g))"
  using u64_bound [of g] u64_bound [of "mg_total mg"]
  by (auto simp: SaturatingIncrement_def ZeroGas_def saturatingScalarAdd_eq unat_add_lem [THEN iffD1])

interpretation callCode: call_cost gasCallCode transfer_cost
proof
  fix cfg st E ms
  have "transfer_cost cfg st \<le> unat (mg_total (if v \<noteq> 0 \<and> \<not> IsEIP4762 (chainRules cfg)
      then SaturatingIncrement ZeroGas ResourceKindComputation CallValueTransferGas else ZeroGas))"
    if "st_Back 2 st = Some v" for v
    using mg_total_value(2) [of CallValueTransferGas ZeroGas ResourceKindComputation] that by (auto simp: transfer_cost_def)
  then show "splits (IsEIP150 (chainRules cfg)) (transfer_cost cfg st) st (gasCallCode E cfg ms)"
    unfolding gasCallCode_def Let_def
    by (intro memory_splits back_splits sum_forward_splits) (auto simp: yields_refund(3))
qed

lemma keeps_db_contract [keeps_intros]:
  "keeps fr_contract (vdb op1)" "keeps fr_contract (vdb_upd op2)" "keeps fr_contract (vdb_opt op3)"
  "keeps scope (vdb op1)" "keeps scope (vdb_upd op2)" "keeps scope (vdb_opt op3)"
  by (rule keeps_db; simp)+

lemma yields_vret [simp]: "yields P (vret x) \<longleftrightarrow> P x"
  by (auto simp: yields_def vret_def)

lemma yields_bind: "(\<And>x. yields P (k x)) \<Longrightarrow> yields P (vbind m k)"
  unfolding yields_def by (fastforce elim!: vbind_SomeE)

interpretation plainCall: call_cost gasCall transfer_cost
proof
  fix cfg :: EvmCfg and st E ms
  have "splits (IsEIP150 (chainRules cfg)) (transfer_cost cfg st) st (vbind (vback 2) (\<lambda>v. vbind (vback 1) (\<lambda>to. vbind (m v to) (\<lambda>mg.
      vbind (memoryGasCost ms) (\<lambda>mem. vbind (vcheck (SafeAdd
        (if v \<noteq> 0 \<and> \<not> IsEIP4762 (chainRules cfg) then SaturatingIncrement mg ResourceKindComputation CallValueTransferGas else mg)
        mem)) (forward_gas cfg))))))"
    if "\<And>v to. keeps scope (m v to)" "\<And>v to. yields (\<lambda>c. mg_refund c = 0) (m v to)" for m
  proof (intro back_splits splits_bind [OF that] memory_splits sum_forward_splits)
    fix v :: u256 and mg :: MultiGas
    assume "st_Back 2 st = Some v"
    then show "transfer_cost cfg st \<le> unat (mg_total (if v \<noteq> 0 \<and> \<not> IsEIP4762 (chainRules cfg)
        then SaturatingIncrement mg ResourceKindComputation CallValueTransferGas else mg))"
      using mg_total_value(2) [of CallValueTransferGas mg ResourceKindComputation] by (auto simp: transfer_cost_def)
  qed (simp_all add: yields_refund(3))
  from this [of "\<lambda>v to. if IsEIP158 (chainRules cfg) then
            if v \<noteq> 0 then
              vbind (vdb (Empty E (to_address to))) (\<lambda>empty.
                vret (if empty then SaturatingIncrement ZeroGas ResourceKindStorageGrowth CallNewAccountGas else ZeroGas))
            else vret ZeroGas
          else vbind (vdb (Exist E (to_address to))) (\<lambda>exist.
                vret (if \<not> exist then SaturatingIncrement ZeroGas ResourceKindStorageGrowth CallNewAccountGas else ZeroGas))"]
  show "splits (IsEIP150 (chainRules cfg)) (transfer_cost cfg st) st (gasCall E cfg ms)"
    by (simp add: gasCall_def Let_def keeps_intros yields_refund(3) yields_bind)
qed

lemma chargeE:
  assumes "charge mg f = Some (r, f')"
  shows "unat (ct_Gas (fr_contract f')) \<le> unat (ct_Gas (fr_contract f))"
    "r = Inr u \<Longrightarrow> unat (SingleGas mg) \<le> unat (ct_Gas (fr_contract f)) \<and> fr_stack f' = fr_stack f \<and>
       unat (ct_Gas (fr_contract f')) = unat (ct_Gas (fr_contract f)) - unat (SingleGas mg)"
  using assms
  by (auto simp: charge_def vcontract_def UseMultiGas_def useGas_def vret_def vfail_def word_le_nat_alt unat_sub not_less
      elim!: vbind_SomeE split: if_splits prod.splits)

lemma call_split_add:
  assumes "call_split p n (gas - k) mg t" "k \<le> gas" "unat (mg_total c) = unat (mg_total mg) + k" "mg_refund c = 0"
  shows "call_split p n gas c t"
proof -
  from assms(1) obtain base where "n \<le> base" "unat (mg_total mg) = base + t"
    "p \<and> base \<le> gas - k \<longrightarrow> t \<le> (gas - k - base) - (gas - k - base) div 64" by (auto simp: call_split_def)
  moreover have "gas - k - base = gas - (base + k)" by simp
  ultimately have "n \<le> base + k" "unat (mg_total c) = (base + k) + t"
    "p \<and> base + k \<le> gas \<longrightarrow> t \<le> (gas - (base + k)) - (gas - (base + k)) div 64" using assms(2,3) by auto
  with assms(4) show ?thesis unfolding call_split_def by blast
qed

text \<open>
  The computations that start when \<open>mg\<close> has been charged early, from the gas \<open>g\<close>, and that
  give it back.
\<close>

definition paid :: "nat \<Rightarrow> MultiGas \<Rightarrow> Frame \<Rightarrow> bool" where
  "paid g mg f \<longleftrightarrow>
     g < 2 ^ 64 \<and> mg_refund mg = 0 \<and> unat (mg_total mg) \<le> g \<and> unat (ct_Gas (fr_contract f)) = g - unat (mg_total mg)"

definition pays_back :: "bool \<Rightarrow> nat \<Rightarrow> Stack \<Rightarrow> MultiGas \<Rightarrow> MultiGas vm \<Rightarrow> bool" where
  "pays_back p n st mg m \<longleftrightarrow> (\<forall>g f r f'. paid g mg f \<longrightarrow> fr_stack f = st \<longrightarrow> m f = Some (r, f') \<longrightarrow>
     unat (ct_Gas (fr_contract f')) \<le> g \<and>
     (\<forall>c. r = Inr c \<longrightarrow> unat (ct_Gas (fr_contract f')) = g \<and> fr_stack f' = st \<and>
        call_split p n g c (unat (evm_callGasTemp (fr_evm f')))))"

lemma pays_backD:
  "pays_back p n st mg m \<Longrightarrow> paid g mg f \<Longrightarrow> fr_stack f = st \<Longrightarrow> m f = Some (r, f') \<Longrightarrow>
     unat (ct_Gas (fr_contract f')) \<le> g \<and>
     (\<forall>c. r = Inr c \<longrightarrow> unat (ct_Gas (fr_contract f')) = g \<and> fr_stack f' = st \<and>
        call_split p n g c (unat (evm_callGasTemp (fr_evm f'))))"
  unfolding pays_back_def by blast

lemma splits_iff: "splits p n st m \<longleftrightarrow> pays_back p n st ZeroGas m"
proof -
  have "paid (unat (ct_Gas (fr_contract f))) ZeroGas f" for f
    using u64_bound [of "ct_Gas (fr_contract f)"] by (simp add: paid_def ZeroGas_def)
  moreover have "paid g ZeroGas f \<Longrightarrow> g = unat (ct_Gas (fr_contract f))" for g f by (simp add: paid_def ZeroGas_def)
  ultimately show ?thesis unfolding pays_back_def splits_def u64_eq_unat by blast
qed

lemma paid_keeps: "paid g mg f \<Longrightarrow> fr_contract f' = fr_contract f \<Longrightarrow> paid g mg f'"
  by (simp add: paid_def)

lemma paid_le: "paid g mg f \<Longrightarrow> unat (ct_Gas (fr_contract f)) \<le> g"
  by (simp add: paid_def)

lemma pays_back_bind:
  assumes "keeps scope m" "\<And>x. pays_back p n st mg (k x)"
  shows "pays_back p n st mg (vbind m k)"
  unfolding pays_back_def
proof (intro allI impI, goal_cases)
  case (1 g f r f')
  from 1(3) show ?case
  proof (cases rule: vbind_SomeE)
    case (err e)
    with keeps_scope [OF assms(1) err(1)] paid_le [OF 1(1)] show ?thesis by simp
  next
    case (ok x f1)
    have "fr_contract f1 = fr_contract f" "fr_stack f1 = st" using keeps_scope [OF assms(1) ok(1)] 1(2) by simp_all
    with pays_backD [OF assms(2) paid_keeps [OF 1(1)] _ ok(2)] show ?thesis by blast
  qed
qed

lemma pays_back_charge:
  assumes "pays_back p n st (SaturatingIncrement mg kind k) m"
  shows "pays_back p n st mg (vthen (charge (StorageAccessReadGas k)) m)"
  unfolding pays_back_def vthen_def
proof (intro allI impI, goal_cases)
  case (1 g f r f')
  from 1(3) show ?case
  proof (cases rule: vbind_SomeE)
    case (err e)
    with chargeE(1) [OF err(1)] paid_le [OF 1(1)] show ?thesis by simp
  next
    case (ok u f1)
    note c = chargeE(2) [OF ok(1) refl]
    have le: "unat (mg_total mg) + unat k \<le> g" using 1(1) c by (auto simp: paid_def)
    with 1(1) have "unat (mg_total (SaturatingIncrement mg kind k)) = unat (mg_total mg) + unat k"
      by (simp add: paid_def SaturatingIncrement_def saturatingScalarAdd_eq unat_add_lem [THEN iffD1])
    with le have "paid g (SaturatingIncrement mg kind k) f1"
      using 1(1) c by (auto simp: paid_def yields_refund(3))
    with pays_backD [OF assms this _ ok(2)] c 1(2) show ?thesis by simp
  qed
qed

lemma vbind_vret: "vbind (vret x) k = k x"
  by (simp add: vbind_run fun_eq_iff)

lemma vbind_vbind: "vbind (vbind m k) l = vbind m (\<lambda>x. vbind (k x) l)"
  by (simp add: vbind_run fun_eq_iff)

lemma vthen_vret: "vthen (vret ()) m = m"
  by (simp add: vthen_def vbind_vret)

lemma vbind_vthen: "vbind (vthen u m) l = vthen u (vbind m l)"
  by (simp add: vthen_def vbind_vbind)

lemma vthen_assoc: "vthen (vthen u v) m = vthen u (vthen v m)"
  by (simp add: vthen_def vbind_vbind)

lemma vbind_right: "vbind m vret = m"
  by (auto simp: vbind_def vret_def fun_eq_iff split: option.splits sum.splits)

lemma pays_back_then: "keeps scope u \<Longrightarrow> pays_back p n st mg m \<Longrightarrow> pays_back p n st mg (vthen u m)"
  unfolding vthen_def by (rule pays_back_bind)

lemmas vbind_assoc = vbind_right vbind_vret vbind_vbind vthen_vret vbind_vthen

lemma give_back_run:
  "vthen (give_back gas r) k f =
     k (set_contract ((fr_contract f)\<lparr>ct_Gas := ct_Gas (fr_contract f) + gas,
          RetainedMultiGas := r (RetainedMultiGas (fr_contract f))\<rparr>) f)"
  by (simp add: give_back_def vthen_def vbind_def vcontract_def)

lemma charged_again:
  assumes "splits p n st m" "paid g mg f" "fr_stack f = st" "m f = Some (Inr mo, f')"
    "unat (mg_total c) = unat (mg_total mo) + unat (mg_total mg)" "mg_refund c = 0"
  shows "call_split p n g c (unat (evm_callGasTemp (fr_evm f')))"
proof -
  from assms(2) have q: "unat (ct_Gas (fr_contract f)) = g - unat (mg_total mg)" "unat (mg_total mg) \<le> g"
    by (simp_all add: paid_def)
  have "call_split p n (g - unat (mg_total mg)) mo (unat (evm_callGasTemp (fr_evm f')))"
    using splitsD(2) [OF assms(1,3,4) refl] q(1) by simp
  from call_split_add [OF this q(2) assms(5,6)] show ?thesis .
qed

lemma give_back_check:
  assumes "splits p n st m" "paid g mg f" "fr_stack f = st" "gas = mg_total mg"
    "\<And>mo c. r mo = (c, False) \<Longrightarrow> unat (mg_total c) = unat (mg_total mo) + unat (mg_total mg) \<and> mg_refund c = mg_refund mo"
    "vbind m (\<lambda>mo. vthen (give_back gas ret) (vcheck (r mo))) f = Some (res, f')"
  shows "unat (ct_Gas (fr_contract f')) \<le> g \<and>
    (\<forall>c. res = Inr c \<longrightarrow> unat (ct_Gas (fr_contract f')) = g \<and> fr_stack f' = st \<and>
       call_split p n g c (unat (evm_callGasTemp (fr_evm f'))))"
  using assms(6)
proof (cases rule: vbind_SomeE)
  case (err e)
  with splitsD(1) [OF assms(1,3) err(1)] paid_le [OF assms(2)] show ?thesis by simp
next
  case (ok mo f1)
  note s = splitsD(2) [OF assms(1,3) ok(1) refl]
  have f': "ct_Gas (fr_contract f') = ct_Gas (fr_contract f1) + gas" "fr_evm f' = fr_evm f1" "fr_stack f' = fr_stack f1"
    using ok(2) by (auto simp: give_back_run vcheck_def vret_def vfail_def split: if_splits)
  have "unat (ct_Gas (fr_contract f')) = g"
    using s assms(2,4) unfolding f'(1) by (subst unat_add_no_overflow) (simp_all add: paid_def)
  moreover have "call_split p n g c (unat (evm_callGasTemp (fr_evm f')))" if "res = Inr c" for c
  proof -
    have "r mo = (c, False)" using ok(2) that
      by (auto simp: give_back_run vcheck_def vret_def vfail_def split: if_splits) (metis prod.collapse)
    moreover have "mg_refund mo = 0" using s by (simp add: call_split_def)
    ultimately have "unat (mg_total c) = unat (mg_total mo) + unat (mg_total mg)" "mg_refund c = 0" using assms(5) by auto
    from charged_again [OF assms(1-3) ok(1) this] show ?thesis by (simp add: f'(2))
  qed
  ultimately show ?thesis using s f'(3) by simp
qed

lemma keeps_access [keeps_intros]: "keeps fr_contract (access_address a)" "keeps fr_contract (access_slot a k)"
  "keeps scope (access_address a)" "keeps scope (access_slot a k)"
  unfolding access_address_def access_slot_def by (intro keeps_intros)+

context call_cost
begin

lemma variant7702_splits:
  "splits (IsEIP150 (chainRules cfg)) (least cfg st) st (makeCallVariantGasCallEIP7702 old E cfg ms)"
proof -
  let ?pb = "pays_back (IsEIP150 (chainRules cfg)) (least cfg st) st"
  have tail: "?pb mg (vbind (old E cfg ms) (\<lambda>mo.
      vthen (give_back (SingleGas mg) (\<lambda>r. SaturatingAddInto r mg)) (vcheck (SafeAdd mg mo))))" for mg
    unfolding pays_back_def
  proof (intro allI impI, goal_cases)
    case (1 g f r f')
    have "SafeAdd mg mo = (c, False) \<Longrightarrow>
        unat (mg_total c) = unat (mg_total mo) + unat (mg_total mg) \<and> mg_refund c = mg_refund mo" for mo c
      using SafeAdd_total [of mg mo c] 1(1) by (simp add: paid_def u64_eq_unat)
    moreover have "SingleGas mg = mg_total mg" using 1(1) by (simp add: SingleGas_def paid_def)
    ultimately show ?case by (intro give_back_check [OF old_splits 1(1,2) _ _ 1(3)]) blast+
  qed
  have delegation: "?pb mg (vbind (case d of None \<Rightarrow> vret mg
      | Some target \<Rightarrow> vbind (access_address target) (\<lambda>cold. vthen (charge (StorageAccessReadGas (cost cold)))
          (vret (SaturatingIncrement mg ResourceKindStorageAccessRead (cost cold))))) (\<lambda>mg. vbind (old E cfg ms) (\<lambda>mo.
      vthen (give_back (SingleGas mg) (\<lambda>r. SaturatingAddInto r mg)) (vcheck (SafeAdd mg mo)))))" for d mg cost
    by (cases d; simp add: vbind_assoc)
      (intro tail pays_back_bind [OF keeps_access(3)] pays_back_charge [where kind = ResourceKindStorageAccessRead])+
  show ?thesis
    unfolding splits_iff makeCallVariantGasCallEIP7702_def Let_def
  proof (intro pays_back_bind [OF keeps_basic(6)] pays_back_bind [OF keeps_access(3)], goal_cases)
    case (1 x cold)
    show ?case
      by (cases cold; simp only: vwhen_def vbind_assoc if_True if_False)
        (intro pays_back_charge [where kind = ResourceKindStorageAccessRead] pays_back_bind [OF keeps_db_contract(4)]
          delegation)+
  qed
qed

lemma variant2929_splits:
  "splits (IsEIP150 (chainRules cfg)) (least cfg st) st (makeCallVariantGasCallEIP2929 old i E cfg ms)"
proof -
  let ?pb = "pays_back (IsEIP150 (chainRules cfg)) (least cfg st) st"
  have tail: "?pb (SaturatingIncrement ZeroGas ResourceKindStorageAccessRead k) (vbind (old E cfg ms) (\<lambda>mo.
      vthen (give_back k (\<lambda>r. SaturatingIncrementInto r ResourceKindStorageAccessRead k))
        (vcheck (SafeIncrement mo ResourceKindStorageAccessRead k))))" for k
    unfolding pays_back_def
  proof (intro allI impI, goal_cases)
    case (1 g f r f')
    have k: "mg_total (SaturatingIncrement ZeroGas ResourceKindStorageAccessRead k) = k"
      using u64_bound [of k] by (simp add: SaturatingIncrement_def saturatingScalarAdd_eq ZeroGas_def)
    with SafeIncrement_total [of _ ResourceKindStorageAccessRead k]
    show ?case by (intro give_back_check [OF old_splits 1(1,2) _ _ 1(3)]) auto
  qed
  show ?thesis
    unfolding splits_iff makeCallVariantGasCallEIP2929_def Let_def
  proof (intro pays_back_bind [OF keeps_basic(6)] pays_back_bind [OF keeps_basic(3)], goal_cases)
    case (1 x warm)
    show ?case
    proof (cases warm)
      case True
      with old_splits show ?thesis by (simp add: vwhen_def vbind_assoc splits_iff)
    next
      case False
      then show ?thesis
        by (simp only: vwhen_def vthen_assoc if_True if_False not_False_eq_True)
          (intro pays_back_then [OF keeps_db_contract(5)] pays_back_charge [OF tail])
    qed
  qed
qed

end

lemmas call_splits =
  plainCall.old_splits callCode.old_splits delegateCall.old_splits staticCall.old_splits
  plainCall.variant2929_splits callCode.variant2929_splits delegateCall.variant2929_splits staticCall.variant2929_splits
  plainCall.variant7702_splits callCode.variant7702_splits delegateCall.variant7702_splits staticCall.variant7702_splits

text \<open>
  C29: the gas of calls, for all twelve cost functions of the four call operations. When the
  cost they return can be paid, the gas of the caller is where it was before the function ran
  (what was charged early has been given back), the gas of the callee is part of the cost, and
  the caller keeps at least a 64th of what is left when the other costs are paid.
\<close>

theorem call_keeps_64th:
  assumes "G \<in> {gasCall, gasCallCode, gasDelegateCall, gasStaticCall,
      gasCallEIP2929, gasCallCodeEIP2929, gasDelegateCallEIP2929, gasStaticCallEIP2929,
      gasCallEIP7702, gasCallCodeEIP7702, gasDelegateCallEIP7702, gasStaticCallEIP7702}"
    and "IsEIP150 (chainRules cfg)"
    and "G E cfg ms f = Some (Inr c, f')"
    and "SingleGas c \<le> ct_Gas (fr_contract f')"
  shows "let left = unat (ct_Gas (fr_contract f')) - unat (SingleGas c); callee = unat (evm_callGasTemp (fr_evm f'))
    in ct_Gas (fr_contract f') = ct_Gas (fr_contract f) \<and> callee \<le> unat (SingleGas c) \<and>
       (left + callee) div 64 \<le> left"
proof -
  have "\<exists>n. splits True n (fr_stack f) (G E cfg ms)"
    using assms(1) call_splits [where cfg = cfg and st = "fr_stack f" and E = E and ms = ms] assms(2) by (elim insertE emptyE; simp) blast+
  then obtain n where s: "splits True n (fr_stack f) (G E cfg ms)" by blast
  note g = splitsD(2) [OF s refl assms(3) refl, THEN conjunct1]
    and s = splitsD(2) [OF s refl assms(3) refl, THEN conjunct2, THEN conjunct2]
  from s obtain base where b: "mg_refund c = 0" "unat (mg_total c) = base + unat (evm_callGasTemp (fr_evm f'))"
    "base \<le> unat (ct_Gas (fr_contract f)) \<longrightarrow> unat (evm_callGasTemp (fr_evm f')) \<le>
       (unat (ct_Gas (fr_contract f)) - base) - (unat (ct_Gas (fr_contract f)) - base) div 64"
    by (auto simp: call_split_def)
  from assms(4) g b(1,2) have "base + unat (evm_callGasTemp (fr_evm f')) \<le> unat (ct_Gas (fr_contract f))"
    by (simp add: SingleGas_def word_le_nat_alt)
  with b g show ?thesis by (auto simp: Let_def SingleGas_def)
qed

text \<open>A chain at Cancun without precompiled contracts, for examples.\<close>

definition uint256_words :: Uint256 where
  "uint256_words =
     \<lparr>u256_Div = (\<lambda>x y. if y = 0 then 0 else x div y),
      u256_SDiv = (\<lambda>x y. if y = 0 then 0 else word_of_int (sgn (sint x) * sgn (sint y) * (\<bar>sint x\<bar> div \<bar>sint y\<bar>))),
      u256_Mod = (\<lambda>x y. if y = 0 then 0 else x mod y),
      u256_SMod = (\<lambda>x y. if y = 0 then 0 else word_of_int (sgn (sint x) * (\<bar>sint x\<bar> mod \<bar>sint y\<bar>))),
      u256_Exp = (\<lambda>x y. x ^ unat y),
      u256_ExtendSign = (\<lambda>x b. if b < 31 then word_of_int (signed_take_bit (8 * unat b + 7) (uint x)) else x),
      u256_Byte = (\<lambda>x n. if n < 32 then drop_bit (8 * (31 - unat n)) x AND 0xFF else 0),
      u256_AddMod = (\<lambda>x y z. if z = 0 then 0 else word_of_int ((uint x + uint y) mod uint z)),
      u256_MulMod = (\<lambda>x y z. if z = 0 then 0 else word_of_int ((uint x * uint y) mod uint z)),
      u256_SRsh = (\<lambda>x n. signed_drop_bit (unat n) x)\<rparr>"

definition cfg_cancun :: EvmCfg where
  "cfg_cancun =
     \<lparr>chainRules = rules_cancun,
      chainConfig = \<lparr>cc_ChainID = 1, ap_EnableArbOS = False, ap_MaxCodeSize = 0, ap_MaxInitCodeSize = 0\<rparr>,
      uint256 = uint256_words, ctx_Coinbase = 0, ctx_GasLimit = 30000000, ctx_BlockNumber = 1, ctx_Time = 1,
      ctx_Difficulty = Some 0, ctx_BaseFee = Some 7, ctx_BlobBaseFee = Some 1, ctx_Random = Some 0,
      ctx_ArbOSVersion = 0, tx_Origin = 1, tx_BlobHashes = [], EnablePreimageRecording = False, hook_GasPriceOp = (\<lambda>_. 7),
      hook_L1BlockNumber = Inr 1, hook_L1BlockHash = (\<lambda>_. Inr 0), hook_ExecuteWASM = (\<lambda>_ _. None),
      precompile = (\<lambda>_. None)\<rparr>"

theorem call_keeps_64th_witness:
  "\<exists>c f'. gasDelegateCall env_empty cfg_cancun 0 (fresh_frame 6400 [0, 0, 0, 0, 7, 0xFFFFFFFFFFFFFFFFFF]) =
      Some (Inr c, f') \<and>
    (let left = 6400 - unat (SingleGas c); callee = 6300 in callee \<le> unat (SingleGas c) \<and> (left + callee) div 64 \<le> left)"
proof -
  let ?f = "fresh_frame 6400 [0, 0, 0, 0, 7, 0xFFFFFFFFFFFFFFFFFF]"
  have c: "gasDelegateCall env_empty cfg_cancun 0 ?f =
      Some (Inr (ComputationGas 6300), ?f\<lparr>fr_evm := (fr_evm ?f)\<lparr>evm_callGasTemp := 6300\<rparr>\<rparr>)"
    by (simp add: gasDelegateCall_def memoryGasCost_def forward_gas_def vbind_def vback_def vopt_def vget_def st_Back_def
        st_len_def fresh_frame_def callGas_def Let_def IsUint64_def cfg_cancun_def rules_cancun_def NewContract_def
        vcheck_def vret_def SafeIncrement_def saturatingScalarAdd_eq SingleGas_def ZeroGas_def ComputationGas_def NewMultiGas_def)
  have "IsEIP150 (chainRules cfg_cancun)" by (simp add: cfg_cancun_def rules_cancun_def)
  from call_keeps_64th [where G = gasDelegateCall, OF _ this c] c show ?thesis
    by (auto simp: Let_def fresh_frame_def NewContract_def)
qed

subsection \<open>Delegation designators\<close>

text \<open>
  C31: a delegation designator is parsed exactly when it was printed: the code of an account
  delegates to an address if and only if it is the designator of that address.
\<close>

theorem delegation_roundtrip: "ParseDelegation b = Some a \<longleftrightarrow> b = AddressToDelegation a"
proof
  assume "ParseDelegation b = Some a"
  then have b: "length b = 23" "take 3 b = DelegationPrefix" "a = be_word (drop 3 b)"
    by (auto simp: ParseDelegation_def bytes_HasPrefix_def DelegationPrefix_def numeral_3_eq_3 split: if_splits)
  have "be_bytes 20 a = drop 3 b" unfolding b(3) using be_bytes_be_word [of "drop 3 b", where 'a = 160] b(1) by simp
  then show "b = AddressToDelegation a" using b(2) append_take_drop_id [of 3 b] by (simp add: AddressToDelegation_def)
next
  assume "b = AddressToDelegation a"
  then show "ParseDelegation b = Some a"
    by (simp add: ParseDelegation_def AddressToDelegation_def bytes_HasPrefix_def DelegationPrefix_def be_word_be_bytes)
qed

end
