(* ===== verification/VMWasmCost.thy ===== *)
theory VMWasmCost
imports VMGasLaws
begin








subsection \<open>Agreement with the EVM operations\<close>








text \<open>The result of a cost function on the state, as the result of one on the frame.\<close>

definition on_frame :: "Frame \<Rightarrow> (MultiGas \<times> StateDB) option \<Rightarrow> ((vmerror + MultiGas) \<times> Frame) option" where
  "on_frame f r = map_option (\<lambda>(c, s). (Inr c, set_db s f)) r"

lemma on_frame_simps [simp]: "on_frame f None = None" "on_frame f (Some (c, s)) = Some (Inr c, set_db s f)"
  by (simp_all add: on_frame_def)

lemma on_frame_set_db [simp]: "on_frame (set_db s f) r = on_frame f r"
  by (simp add: on_frame_def case_prod_beta cong: option.map_cong)














subsection \<open>The cost of a call\<close>



















end
