(* ===== verification/Stylus.thy ===== *)
theory Stylus
imports Geth_Prelude "HOL-Library.Monad_Syntax"
begin

text \<open>
  How Stylus programs are told apart from EVM code and how the root of a program that is split
  into fragments is read, from \<^verbatim>\<open>core/state/statedb_arbitrum.go\<close>.
\<close>

definition StylusDiscriminant :: bytes where "StylusDiscriminant = [0xEF, 0xF0, 0x00]"
definition StylusFragmentsDiscriminant :: bytes where "StylusFragmentsDiscriminant = [0xEF, 0xF0, 0x01]"
definition StylusRootDiscriminant :: bytes where "StylusRootDiscriminant = [0xEF, 0xF0, 0x02]"

definition ArbosVersion_Stylus :: u64 where "ArbosVersion_Stylus = 30"
definition ArbosVersion_StylusContractLimit :: u64 where "ArbosVersion_StylusContractLimit = 60"

definition IsStylusClassicProgramPrefix :: "bytes \<Rightarrow> bool" where
  "IsStylusClassicProgramPrefix b \<longleftrightarrow> length b > length StylusDiscriminant \<and> bytes_HasPrefix b StylusDiscriminant"

definition IsStylusFragmentPrefix :: "bytes \<Rightarrow> bool" where
  "IsStylusFragmentPrefix b \<longleftrightarrow>
     length b > length StylusFragmentsDiscriminant \<and> bytes_HasPrefix b StylusFragmentsDiscriminant"

definition IsStylusRootProgramPrefix :: "bytes \<Rightarrow> bool" where
  "IsStylusRootProgramPrefix b \<longleftrightarrow> length b > length StylusRootDiscriminant \<and> bytes_HasPrefix b StylusRootDiscriminant"

definition IsStylusDeployableProgramPrefix :: "bytes \<Rightarrow> u64 \<Rightarrow> bool" where
  "IsStylusDeployableProgramPrefix b arbosVersion \<longleftrightarrow>
     (if arbosVersion < ArbosVersion_Stylus then False
      else if arbosVersion < ArbosVersion_StylusContractLimit then IsStylusClassicProgramPrefix b
      else IsStylusClassicProgramPrefix b \<or> IsStylusRootProgramPrefix b)"

definition IsStylusComponentPrefix :: "bytes \<Rightarrow> u64 \<Rightarrow> bool" where
  "IsStylusComponentPrefix b arbosVersion \<longleftrightarrow>
     (if arbosVersion < ArbosVersion_StylusContractLimit then IsStylusDeployableProgramPrefix b arbosVersion
      else IsStylusDeployableProgramPrefix b arbosVersion \<or> IsStylusFragmentPrefix b)"

datatype stylus_error =
    NotStylusProgram
  | NotStylusFragment
  | NotStylusRoot
  | RootTooShort nat
  | RootAddressLength nat

definition StripStylusPrefix :: "bytes \<Rightarrow> stylus_error + bytes \<times> u8" where
  "StripStylusPrefix b =
     (if \<not> IsStylusClassicProgramPrefix b then Inl NotStylusProgram else Inr (drop 4 b, b ! 3))"

definition StripStylusFragmentPrefix :: "bytes \<Rightarrow> stylus_error + bytes" where
  "StripStylusFragmentPrefix b =
     (if \<not> IsStylusFragmentPrefix b then Inl NotStylusFragment else Inr (drop 3 b))"

record StylusRoot =
  DictionaryType :: u8
  DecompressedLength :: u32
  Addresses :: "address list"

function read_addresses :: "bytes \<Rightarrow> address list" where
  "read_addresses addressData =
     (if addressData = [] then [] else be_word (take 20 addressData) # read_addresses (drop 20 addressData))"
  by pat_completeness auto
termination by (relation "measure length") auto

declare read_addresses.simps [simp del]

definition NewStylusRoot :: "bytes \<Rightarrow> stylus_error + StylusRoot" where
  "NewStylusRoot b =
     (if \<not> IsStylusRootProgramPrefix b then Inl NotStylusRoot
      else if length b < 8 then Inl (RootTooShort (length b))
      else
        let addressData = drop 8 b in
        if length addressData mod 20 \<noteq> 0 then Inl (RootAddressLength (length addressData))
        else Inr \<lparr>DictionaryType = b ! 3, DecompressedLength = be_word (take 4 (drop 4 b)),
                Addresses = read_addresses addressData\<rparr>)"

definition NewStylusPrefix :: "u8 \<Rightarrow> bytes" where
  "NewStylusPrefix dictionary = StylusDiscriminant @ [dictionary]"

definition NewStylusFragmentPrefix :: bytes where
  "NewStylusFragmentPrefix = StylusFragmentsDiscriminant"

definition NewStylusRootPrefix :: "u8 \<Rightarrow> bytes" where
  "NewStylusRootPrefix dictionary = StylusRootDiscriminant @ [dictionary]"

subsection \<open>Prefixes and roots\<close>

lemmas stylus_prefix_defs = IsStylusClassicProgramPrefix_def IsStylusFragmentPrefix_def IsStylusRootProgramPrefix_def
  StylusDiscriminant_def StylusFragmentsDiscriminant_def StylusRootDiscriminant_def bytes_HasPrefix_def
  NewStylusPrefix_def NewStylusFragmentPrefix_def NewStylusRootPrefix_def

text \<open>The bytes of a root, as they are deployed.\<close>

definition root_bytes :: "StylusRoot \<Rightarrow> bytes" where
  "root_bytes r =
     NewStylusRootPrefix (DictionaryType r) @ be_bytes 4 (DecompressedLength r) @ concat (map (be_bytes 20) (Addresses r))"

lemma read_addresses_concat: "read_addresses (concat (map (be_bytes 20) as)) = as"
proof (induction as)
  case Nil
  then show ?case by (simp add: read_addresses.simps)
next
  case (Cons a as)
  have "read_addresses (be_bytes 20 a @ concat (map (be_bytes 20) as)) = be_word (be_bytes 20 a) # as"
    by (subst read_addresses.simps) (auto simp: Cons.IH simp flip: length_0_conv)
  then show ?case by (simp add: be_word_be_bytes)
qed

lemma concat_read_addresses: "length b mod 20 = 0 \<Longrightarrow> concat (map (be_bytes 20) (read_addresses b)) = b"
proof (induction b rule: read_addresses.induct)
  case (1 b)
  show ?case
  proof (cases "b = []")
    case True
    then show ?thesis by (simp add: read_addresses.simps)
  next
    case False
    with 1(2) have l: "20 \<le> length b" by (cases "length b < 20") auto
    then have "length (drop 20 b) mod 20 = 0" using 1(2) le_mod_geq [OF l] by simp
    with False 1(1) have "concat (map (be_bytes 20) (read_addresses (drop 20 b))) = drop 20 b" by simp
    moreover have "be_bytes 20 (be_word (take 20 b) :: address) = take 20 b"
      using be_bytes_be_word [of "take 20 b", where 'a = 160] l by simp
    ultimately show ?thesis using False append_take_drop_id [of 20 b]
      by (simp only: read_addresses.simps [of b] if_False list.map concat.simps)
  qed
qed

lemma length_concat_addresses: "length (concat (map (be_bytes 20) (as :: address list))) = 20 * length as"
  by (induction as) simp_all

lemma NewStylusRoot_bytes: "NewStylusRoot (root_bytes r) = Inr r"
  by (simp add: NewStylusRoot_def root_bytes_def stylus_prefix_defs length_concat_addresses read_addresses_concat
      be_word_be_bytes nth_append Let_def)

lemma bytes_NewStylusRoot:
  assumes "NewStylusRoot b = Inr r"
  shows "root_bytes r = b"
proof -
  from assms have b: "take 3 b = StylusRootDiscriminant" "8 \<le> length b" "length (drop 8 b) mod 20 = 0"
    "r = \<lparr>DictionaryType = b ! 3, DecompressedLength = be_word (take 4 (drop 4 b)), Addresses = read_addresses (drop 8 b)\<rparr>"
    by (auto simp: NewStylusRoot_def Let_def stylus_prefix_defs numeral_3_eq_3 split: if_splits)
  have "length (take 4 (drop 4 b)) = 4" using b(2) by simp
  with be_bytes_be_word [of "take 4 (drop 4 b)", where 'a = 32]
  have "be_bytes 4 (be_word (take 4 (drop 4 b)) :: u32) = take 4 (drop 4 b)" by simp
  moreover have "drop 4 b = take 4 (drop 4 b) @ drop 8 b" using append_take_drop_id [of 4 "drop 4 b"] by simp
  moreover have "b = take 3 b @ [b ! 3] @ drop 4 b" using b(2) id_take_nth_drop [of 3 b] by simp
  ultimately show ?thesis
    using b(1) concat_read_addresses [OF b(3)] unfolding b(4) root_bytes_def NewStylusRootPrefix_def
    by (metis StylusRoot.select_convs append.assoc)
qed

text \<open>
  C32: the parser of program roots accepts exactly the bytes that a root with whole addresses
  is written as, and gives back that root; the three kinds of Stylus code and EVM code that
  does not start with the magic bytes are told apart, and a prefix that is stripped from a
  program is the one it was given.
\<close>

theorem stylus_roundtrip:
  "(NewStylusRoot b = Inr r \<longleftrightarrow> b = root_bytes r) \<and>
   \<not> (IsStylusClassicProgramPrefix b \<and> IsStylusRootProgramPrefix b) \<and>
   \<not> (IsStylusClassicProgramPrefix b \<and> IsStylusFragmentPrefix b) \<and>
   \<not> (IsStylusFragmentPrefix b \<and> IsStylusRootProgramPrefix b) \<and>
   (StripStylusPrefix b = Inr (code, dict) \<longleftrightarrow> b = NewStylusPrefix dict @ code) \<and>
   (StripStylusFragmentPrefix b = Inr code \<longleftrightarrow> code \<noteq> [] \<and> b = NewStylusFragmentPrefix @ code)"
proof -
  have strip: "StripStylusPrefix b = Inr (code, dict) \<longleftrightarrow> b = NewStylusPrefix dict @ code"
  proof
    assume "StripStylusPrefix b = Inr (code, dict)"
    then have "3 < length b" "take 3 b = StylusDiscriminant" "code = drop 4 b" "dict = b ! 3"
      by (auto simp: StripStylusPrefix_def stylus_prefix_defs numeral_3_eq_3 split: if_splits)
    then show "b = NewStylusPrefix dict @ code"
      using id_take_nth_drop [of 3 b] by (simp add: NewStylusPrefix_def)
  qed (simp add: StripStylusPrefix_def stylus_prefix_defs)
  have fragment: "StripStylusFragmentPrefix b = Inr code \<longleftrightarrow> code \<noteq> [] \<and> b = NewStylusFragmentPrefix @ code"
  proof
    assume "StripStylusFragmentPrefix b = Inr code"
    then have "3 < length b" "take 3 b = StylusFragmentsDiscriminant" "code = drop 3 b"
      by (auto simp: StripStylusFragmentPrefix_def stylus_prefix_defs numeral_3_eq_3 split: if_splits)
    then show "code \<noteq> [] \<and> b = NewStylusFragmentPrefix @ code"
      using append_take_drop_id [of 3 b] by (simp add: NewStylusFragmentPrefix_def)
  qed (auto simp: StripStylusFragmentPrefix_def stylus_prefix_defs)
  have root: "NewStylusRoot b = Inr r \<longleftrightarrow> b = root_bytes r" using NewStylusRoot_bytes [of r] bytes_NewStylusRoot [of b r] by auto
  show ?thesis unfolding strip fragment root by (simp add: stylus_prefix_defs)
qed

end
