(* ===== verification/VMInstr.thy ===== *)
theory VMInstr
imports VMGas Stylus
begin

text \<open>
  The instructions of the EVM that do not start another call: \<^verbatim>\<open>core/vm/instructions.go\<close> and
  the operations defined in \<^verbatim>\<open>core/vm/eips.go\<close>. An instruction gives the bytes it returns and an
  error or the stop token; most of them return neither. Tracers and witnesses only observe and
  are left out, as is the address filter, which lives outside of the repository.
\<close>

type_synonym executionFunc = "Env \<Rightarrow> EvmCfg \<Rightarrow> (bytes \<times> vmerror option) vm"

definition fin :: "(bytes \<times> vmerror option) vm" where
  "fin = vret ([], None)"

subsection \<open>Access to the frame\<close>

definition vpop :: "u256 vm" where
  "vpop f = (case st_pop (fr_stack f) of None \<Rightarrow> None | Some (x, st) \<Rightarrow> Some (Inr x, f\<lparr>fr_stack := st\<rparr>))"

definition vpush :: "u256 \<Rightarrow> unit vm" where
  "vpush x f = Some (Inr (), f\<lparr>fr_stack := st_push x (fr_stack f)\<rparr>)"

definition vpeek :: "u256 vm" where
  "vpeek = vopt (\<lambda>f. st_peek (fr_stack f))"

text \<open>Writing through the pointer that \<^verbatim>\<open>peek\<close> returns.\<close>

definition set_top :: "u256 \<Rightarrow> Stack \<Rightarrow> Stack" where
  "set_top x st = st\<lparr>st_data := (st_data st)[st_len st - 1 := x]\<rparr>"

definition vset :: "u256 \<Rightarrow> unit vm" where
  "vset x f = Some (Inr (), f\<lparr>fr_stack := set_top x (fr_stack f)\<rparr>)"

definition vstack :: "(Stack \<Rightarrow> Stack option) \<Rightarrow> unit vm" where
  "vstack op f = (case op (fr_stack f) of None \<Rightarrow> None | Some st \<Rightarrow> Some (Inr (), f\<lparr>fr_stack := st\<rparr>))"

definition vmem :: "(Memory \<Rightarrow> Memory option) \<Rightarrow> unit vm" where
  "vmem op f = (case op (fr_mem f) of None \<Rightarrow> None | Some m \<Rightarrow> Some (Inr (), f\<lparr>fr_mem := m\<rparr>))"

definition vevm :: "(EVM \<Rightarrow> EVM) \<Rightarrow> unit vm" where
  "vevm op f = Some (Inr (), f\<lparr>fr_evm := op (fr_evm f)\<rparr>)"

definition vpc :: "(u64 \<Rightarrow> u64) \<Rightarrow> unit vm" where
  "vpc op f = Some (Inr (), f\<lparr>fr_pc := op (fr_pc f)\<rparr>)"

definition from_bool :: "bool \<Rightarrow> u256" where
  "from_bool b = (if b then 1 else 0)"

definition from_address :: "address \<Rightarrow> u256" where
  "from_address a = ucast a"

text \<open>\<^verbatim>\<open>x, y := pop(), peek()\<close> with the result written to \<^verbatim>\<open>y\<close>, and its variants.\<close>

definition un_op :: "(u256 \<Rightarrow> u256) \<Rightarrow> (bytes \<times> vmerror option) vm" where
  "un_op g = vbind vpeek (\<lambda>x. vthen (vset (g x)) fin)"

definition bin_op :: "(u256 \<Rightarrow> u256 \<Rightarrow> u256) \<Rightarrow> (bytes \<times> vmerror option) vm" where
  "bin_op g = vbind vpop (\<lambda>x. vbind vpeek (\<lambda>y. vthen (vset (g x y)) fin))"

definition tern_op :: "(u256 \<Rightarrow> u256 \<Rightarrow> u256 \<Rightarrow> u256) \<Rightarrow> (bytes \<times> vmerror option) vm" where
  "tern_op g = vbind vpop (\<lambda>x. vbind vpop (\<lambda>y. vbind vpeek (\<lambda>z. vthen (vset (g x y z)) fin)))"

definition push_op :: "(Frame \<Rightarrow> u256) \<Rightarrow> (bytes \<times> vmerror option) vm" where
  "push_op g = vbind (vget g) (\<lambda>x. vthen (vpush x) fin)"

subsection \<open>Arithmetic, comparison and bits\<close>

definition opAdd :: executionFunc where "opAdd E cfg = bin_op (\<lambda>x y. x + y)"
definition opSub :: executionFunc where "opSub E cfg = bin_op (\<lambda>x y. x - y)"
definition opMul :: executionFunc where "opMul E cfg = bin_op (\<lambda>x y. x * y)"
definition opDiv :: executionFunc where "opDiv E cfg = bin_op (u256_Div (uint256 cfg))"
definition opSdiv :: executionFunc where "opSdiv E cfg = bin_op (u256_SDiv (uint256 cfg))"
definition opMod :: executionFunc where "opMod E cfg = bin_op (u256_Mod (uint256 cfg))"
definition opSmod :: executionFunc where "opSmod E cfg = bin_op (u256_SMod (uint256 cfg))"
definition opExp :: executionFunc where "opExp E cfg = bin_op (u256_Exp (uint256 cfg))"
definition opSignExtend :: executionFunc where
  "opSignExtend E cfg = bin_op (\<lambda>b num. u256_ExtendSign (uint256 cfg) num b)"
definition opNot :: executionFunc where "opNot E cfg = un_op (\<lambda>x. NOT x)"
definition opLt :: executionFunc where "opLt E cfg = bin_op (\<lambda>x y. from_bool (x < y))"
definition opGt :: executionFunc where "opGt E cfg = bin_op (\<lambda>x y. from_bool (x > y))"
definition opSlt :: executionFunc where "opSlt E cfg = bin_op (\<lambda>x y. from_bool (sint x < sint y))"
definition opSgt :: executionFunc where "opSgt E cfg = bin_op (\<lambda>x y. from_bool (sint x > sint y))"
definition opEq :: executionFunc where "opEq E cfg = bin_op (\<lambda>x y. from_bool (x = y))"
definition opIszero :: executionFunc where "opIszero E cfg = un_op (\<lambda>x. from_bool (x = 0))"
definition opAnd :: executionFunc where "opAnd E cfg = bin_op (\<lambda>x y. x AND y)"
definition opOr :: executionFunc where "opOr E cfg = bin_op (\<lambda>x y. x OR y)"
definition opXor :: executionFunc where "opXor E cfg = bin_op (\<lambda>x y. x XOR y)"
definition opByte :: executionFunc where "opByte E cfg = bin_op (\<lambda>th val. u256_Byte (uint256 cfg) val th)"
definition opAddmod :: executionFunc where "opAddmod E cfg = tern_op (u256_AddMod (uint256 cfg))"
definition opMulmod :: executionFunc where "opMulmod E cfg = tern_op (u256_MulMod (uint256 cfg))"

definition opSHL :: executionFunc where
  "opSHL E cfg = bin_op (\<lambda>shift v. if shift < 256 then push_bit (unat shift) v else 0)"

definition opSHR :: executionFunc where
  "opSHR E cfg = bin_op (\<lambda>shift v. if shift < 256 then drop_bit (unat shift) v else 0)"

definition opSAR :: executionFunc where
  "opSAR E cfg = bin_op (\<lambda>shift v.
     if shift > 256 then if sint v \<ge> 0 then 0 else NOT 0
     else u256_SRsh (uint256 cfg) v (ucast shift))"

definition opCLZ :: executionFunc where
  "opCLZ E cfg = un_op (\<lambda>x. word_of_nat (256 - BitLen x))"

subsection \<open>Hashing and the environment\<close>

definition opKeccak256 :: executionFunc where
  "opKeccak256 E cfg =
     vbind vpop (\<lambda>offset. vbind vpeek (\<lambda>sz.
     vbind (vopt (\<lambda>f. mem_GetPtr (ucast offset) (ucast sz) (fr_mem f))) (\<lambda>data.
     let h = env_keccak E data in
     vthen (vwhen (EnablePreimageRecording cfg) (vdb_upd (AddPreimage h data)))
    (vthen (vset h) fin))))"

definition opAddress :: executionFunc where
  "opAddress E cfg = push_op (\<lambda>f. from_address (ct_address (fr_contract f)))"

definition opBalance :: executionFunc where
  "opBalance E cfg =
     vbind vpeek (\<lambda>slot. vbind (vdb (GetBalance E (to_address slot))) (\<lambda>b. vthen (vset b) fin))"

definition opOrigin :: executionFunc where
  "opOrigin E cfg = push_op (\<lambda>_. from_address (tx_Origin cfg))"

definition opCaller :: executionFunc where
  "opCaller E cfg = push_op (\<lambda>f. from_address (ct_caller (fr_contract f)))"

definition opCallValue :: executionFunc where
  "opCallValue E cfg = push_op (\<lambda>f. ct_value (fr_contract f))"

definition opCallDataLoad :: executionFunc where
  "opCallDataLoad E cfg =
     vbind vpeek (\<lambda>x.
     let (offset, overflow) = Uint64WithOverflow x in
     if \<not> overflow then
       vbind (vopt (\<lambda>f. getData (ct_Input (fr_contract f)) offset 32)) (\<lambda>data. vthen (vset (be_word data)) fin)
     else vthen (vset 0) fin)"

definition opCallDataSize :: executionFunc where
  "opCallDataSize E cfg = push_op (\<lambda>f. word_of_nat (length (ct_Input (fr_contract f))))"

text \<open>The offset into the data, where an overflow means the largest offset.\<close>

definition saturated :: "u256 \<Rightarrow> u64" where
  "saturated x = (let (o', overflow) = Uint64WithOverflow x in if overflow then MaxUint64 else o')"

definition opCallDataCopy :: executionFunc where
  "opCallDataCopy E cfg =
     vbind vpop (\<lambda>memOffset. vbind vpop (\<lambda>dataOffset. vbind vpop (\<lambda>len.
     let dataOffset64 = saturated dataOffset; memOffset64 = ucast memOffset; length64 = ucast len in
     vbind (vopt (\<lambda>f. getData (ct_Input (fr_contract f)) dataOffset64 length64)) (\<lambda>data.
     vthen (vmem (mem_Set memOffset64 length64 data)) fin))))"

definition opReturnDataSize :: executionFunc where
  "opReturnDataSize E cfg = push_op (\<lambda>f. word_of_nat (length (evm_returnData (fr_evm f))))"

definition opReturnDataCopy :: executionFunc where
  "opReturnDataCopy E cfg =
     vbind vpop (\<lambda>memOffset. vbind vpop (\<lambda>dataOffset. vbind vpop (\<lambda>len.
     let (offset64, overflow) = Uint64WithOverflow dataOffset in
     if overflow then vfail ErrReturnDataOutOfBounds
     else
       let (end64, overflow) = Uint64WithOverflow (dataOffset + len) in
       vbind (vget (\<lambda>f. evm_returnData (fr_evm f))) (\<lambda>returnData.
       if overflow \<or> word_of_nat (length returnData) < end64 then vfail ErrReturnDataOutOfBounds
       else
         vbind (vopt (\<lambda>_. slice returnData offset64 end64)) (\<lambda>data.
         vthen (vmem (mem_Set (ucast memOffset) (ucast len) data)) fin)))))"

definition opExtCodeSize :: executionFunc where
  "opExtCodeSize E cfg =
     vbind vpeek (\<lambda>slot. vbind (vdb (GetCodeSize E (to_address slot))) (\<lambda>n.
       vthen (vset (ucast (word_of_int n :: u64))) fin))"

definition opCodeSize :: executionFunc where
  "opCodeSize E cfg = push_op (\<lambda>f. word_of_nat (length (ct_Code (fr_contract f))))"

definition opCodeCopy :: executionFunc where
  "opCodeCopy E cfg =
     vbind vpop (\<lambda>memOffset. vbind vpop (\<lambda>codeOffset. vbind vpop (\<lambda>len.
     vbind (vopt (\<lambda>f. getData (ct_Code (fr_contract f)) (saturated codeOffset) (ucast len))) (\<lambda>codeCopy.
     vthen (vmem (mem_Set (ucast memOffset) (ucast len) codeCopy)) fin))))"

definition opExtCodeCopy :: executionFunc where
  "opExtCodeCopy E cfg =
     vbind vpop (\<lambda>a. vbind vpop (\<lambda>memOffset. vbind vpop (\<lambda>codeOffset. vbind vpop (\<lambda>len.
     vbind (vdb (GetCode E (to_address a))) (\<lambda>code.
     vbind (vopt (\<lambda>f. getData code (saturated codeOffset) (ucast len))) (\<lambda>codeCopy.
     vthen (vmem (mem_Set (ucast memOffset) (ucast len) codeCopy)) fin))))))"

definition opExtCodeHash :: executionFunc where
  "opExtCodeHash E cfg =
     vbind vpeek (\<lambda>slot.
     vbind (vdb (Empty E (to_address slot))) (\<lambda>empty.
     if empty then vthen (vset 0) fin
     else vbind (vdb (GetCodeHash E (to_address slot))) (\<lambda>h. vthen (vset h) fin)))"

definition opGasprice :: executionFunc where
  "opGasprice E cfg = push_op (\<lambda>f. word_of_int (hook_GasPriceOp cfg (fr_evm f)))"

definition opBlockhash :: executionFunc where
  "opBlockhash E cfg =
     vbind vpeek (\<lambda>num.
     let (num64, overflow) = Uint64WithOverflow num in
     if overflow then vthen (vset 0) fin
     else case hook_L1BlockNumber cfg of
       Inl err \<Rightarrow> vfail err
     | Inr upper \<Rightarrow>
         let lower = (if upper < 257 then 0 else upper - 256) in
         if num64 \<ge> lower \<and> num64 < upper then
           case hook_L1BlockHash cfg num64 of
             Inl err \<Rightarrow> vfail err
           | Inr h \<Rightarrow> vthen (vset h) fin
         else vthen (vset 0) fin)"

definition opCoinbase :: executionFunc where
  "opCoinbase E cfg = push_op (\<lambda>_. from_address (ctx_Coinbase cfg))"

definition opTimestamp :: executionFunc where
  "opTimestamp E cfg = push_op (\<lambda>_. ucast (ctx_Time cfg))"

definition opNumber :: executionFunc where
  "opNumber E cfg =
     (case hook_L1BlockNumber cfg of
        Inl err \<Rightarrow> vfail err
      | Inr bnum \<Rightarrow> vthen (vpush (ucast bnum)) fin)"

text \<open>A value behind a pointer; nil makes the push panic.\<close>

definition push_big :: "int option \<Rightarrow> (bytes \<times> vmerror option) vm" where
  "push_big v = vbind (vopt (\<lambda>_. v)) (\<lambda>x. vthen (vpush (word_of_int x)) fin)"

definition opDifficulty :: executionFunc where "opDifficulty E cfg = push_big (ctx_Difficulty cfg)"

definition opRandom :: executionFunc where
  "opRandom E cfg = vbind (vopt (\<lambda>_. ctx_Random cfg)) (\<lambda>v. vthen (vpush v) fin)"

definition opGasLimit :: executionFunc where
  "opGasLimit E cfg = push_op (\<lambda>_. ucast (ctx_GasLimit cfg))"

definition opSelfBalance :: executionFunc where
  "opSelfBalance E cfg = vbind self (\<lambda>a. vbind (vdb (GetBalance E a)) (\<lambda>balance. vthen (vpush balance) fin))"

definition opChainID :: executionFunc where
  "opChainID E cfg = push_op (\<lambda>_. word_of_int (cc_ChainID (chainConfig cfg)))"

definition opBaseFee :: executionFunc where "opBaseFee E cfg = push_big (ctx_BaseFee cfg)"

definition opBlobHash :: executionFunc where
  "opBlobHash E cfg = un_op (\<lambda>index.
     if uint index < int (length (tx_BlobHashes cfg)) then tx_BlobHashes cfg ! unat index else 0)"

definition opBlobBaseFee :: executionFunc where
  "opBlobBaseFee E cfg =
     (if ap_EnableArbOS (chainConfig cfg) then vfail (ErrOther ''BLOBBASEFEE is not supported on Arbitrum'')
      else push_big (ctx_BlobBaseFee cfg))"

subsection \<open>Stack, memory and storage\<close>

definition opPop :: executionFunc where "opPop E cfg = vbind vpop (\<lambda>_. fin)"

definition opMload :: executionFunc where
  "opMload E cfg =
     vbind vpeek (\<lambda>v.
     vbind (vopt (\<lambda>f. mem_GetPtr (ucast v) 32 (fr_mem f))) (\<lambda>data. vthen (vset (be_word data)) fin))"

definition opMstore :: executionFunc where
  "opMstore E cfg = vbind vpop (\<lambda>mStart. vbind vpop (\<lambda>val. vthen (vmem (mem_Set32 (ucast mStart) val)) fin))"

text \<open>An assignment to one byte of the store, which panics out of range.\<close>

definition mem_put :: "u64 \<Rightarrow> u8 \<Rightarrow> Memory \<Rightarrow> Memory option" where
  "mem_put off b m =
     (if uint off < int (mem_Len m) then Some (m\<lparr>mem_store := (mem_store m)[unat off := b]\<rparr>) else None)"

definition opMstore8 :: executionFunc where
  "opMstore8 E cfg = vbind vpop (\<lambda>off. vbind vpop (\<lambda>val. vthen (vmem (mem_put (ucast off) (ucast val))) fin))"

definition opMcopy :: executionFunc where
  "opMcopy E cfg =
     vbind vpop (\<lambda>dst. vbind vpop (\<lambda>src. vbind vpop (\<lambda>len.
     vthen (vmem (mem_Copy (ucast dst) (ucast src) (ucast len))) fin)))"

definition opSload :: executionFunc where
  "opSload E cfg =
     vbind vpeek (\<lambda>loc. vbind self (\<lambda>a. vbind (vdb (GetState E a loc)) (\<lambda>val. vthen (vset val) fin)))"

text \<open>\<^verbatim>\<open>if evm.readOnly { return nil, ErrWriteProtection }\<close>\<close>

definition protect :: "'a vm \<Rightarrow> 'a vm" where
  "protect m = vbind (vget (\<lambda>f. evm_readOnly (fr_evm f))) (\<lambda>ro. if ro then vfail ErrWriteProtection else m)"

definition opSstore :: executionFunc where
  "opSstore E cfg = protect (
     vbind vpop (\<lambda>loc. vbind vpop (\<lambda>val. vbind self (\<lambda>a. vbind (vdb (SetState E a loc val)) (\<lambda>_. fin)))))"

definition opTload :: executionFunc where
  "opTload E cfg =
     vbind vpeek (\<lambda>loc. vbind self (\<lambda>a.
     vbind (vget (\<lambda>f. GetTransientState a loc (fr_db f))) (\<lambda>val. vthen (vset val) fin)))"

definition opTstore :: executionFunc where
  "opTstore E cfg = protect (
     vbind vpop (\<lambda>loc. vbind vpop (\<lambda>val. vbind self (\<lambda>a. vthen (vdb_upd (SetTransientState a loc val)) fin))))"

subsection \<open>Control flow\<close>

text \<open>\<^verbatim>\<open>scope.Contract.validJumpdest\<close>, with the analysis cached in the contract and in the EVM.\<close>

definition vvalid :: "u256 \<Rightarrow> bool vm" where
  "vvalid pos f =
     (case validJumpdest (evm_jumpDests (fr_evm f)) (fr_contract f) pos of
        None \<Rightarrow> None
      | Some (ok, jd, c) \<Rightarrow> Some (Inr ok, f\<lparr>fr_evm := (fr_evm f)\<lparr>evm_jumpDests := jd\<rparr>, fr_contract := c\<rparr>))"

definition jump_to :: "u256 \<Rightarrow> (bytes \<times> vmerror option) vm" where
  "jump_to pos =
     vbind (vvalid pos) (\<lambda>ok.
       if \<not> ok then vfail ErrInvalidJump else vthen (vpc (\<lambda>_. ucast pos - 1)) fin)"

definition unless_aborted :: "(bytes \<times> vmerror option) vm \<Rightarrow> (bytes \<times> vmerror option) vm" where
  "unless_aborted m = vbind (vget (\<lambda>f. evm_abort (fr_evm f))) (\<lambda>ab. if ab then vfail errStopToken else m)"

definition opJump :: executionFunc where
  "opJump E cfg = unless_aborted (vbind vpop (\<lambda>pos. jump_to pos))"

definition opJumpi :: executionFunc where
  "opJumpi E cfg = unless_aborted (
     vbind vpop (\<lambda>pos. vbind vpop (\<lambda>cond. if cond \<noteq> 0 then jump_to pos else fin)))"

definition opJumpdest :: executionFunc where "opJumpdest E cfg = fin"
definition opPc :: executionFunc where "opPc E cfg = push_op (\<lambda>f. ucast (fr_pc f))"
definition opMsize :: executionFunc where "opMsize E cfg = push_op (\<lambda>f. word_of_nat (mem_Len (fr_mem f)))"
definition opGas :: executionFunc where "opGas E cfg = push_op (\<lambda>f. ucast (ct_Gas (fr_contract f)))"
definition opSwap :: "nat \<Rightarrow> executionFunc" where "opSwap n E cfg = vthen (vstack (st_swap n)) fin"
definition makeDup :: "nat \<Rightarrow> executionFunc" where "makeDup n E cfg = vthen (vstack (st_dup n)) fin"
definition opPush0 :: executionFunc where "opPush0 E cfg = vthen (vpush 0) fin"

definition opPush1 :: executionFunc where
  "opPush1 E cfg =
     vthen (vpc (\<lambda>pc. pc + 1))
       (vbind (vget (\<lambda>f. (fr_pc f, ct_Code (fr_contract f)))) (\<lambda>(pc, code).
         if uint pc < int (length code) then vthen (vpush (ucast (code ! unat pc))) fin else vthen (vpush 0) fin))"

definition opPush2 :: executionFunc where
  "opPush2 E cfg =
     vbind (vget (\<lambda>f. (fr_pc f, ct_Code (fr_contract f)))) (\<lambda>(pc, code).
     vthen
      (if uint (pc + 2) < int (length code) then
         vbind (vopt (\<lambda>_. slice code (pc + 1) (pc + 3))) (\<lambda>data. vpush (be_word data))
       else if uint (pc + 1) < int (length code) then vpush (push_bit 8 (ucast (code ! unat (pc + 1))))
       else vpush 0)
      (vthen (vpc (\<lambda>pc. pc + 2)) fin))"

text \<open>
  The conversion \<^verbatim>\<open>int(*pc+1)\<close> gives a negative number from 2^63 on, and the slice expression then
  panics; the program counter of code that fits in memory stays below.
\<close>

definition makePush :: "u64 \<Rightarrow> nat \<Rightarrow> executionFunc" where
  "makePush sz pushByteSize E cfg =
     vbind (vget (\<lambda>f. (fr_pc f, ct_Code (fr_contract f)))) (\<lambda>(pc, code).
       let codeLen = int (length code);
           start = min codeLen (sint (pc + 1));
           end' = min codeLen (start + int pushByteSize) in
       vbind (vopt (\<lambda>_. if start < 0 then None else Some (take (nat (end' - start)) (drop (nat start) code)))) (\<lambda>data.
       let a = be_word data;
           missing = int pushByteSize - (end' - start);
           a = (if missing > 0 then push_bit (nat (8 * missing)) a else a) in
       vthen (vpush a) (vthen (vpc (\<lambda>pc. pc + sz)) fin)))"

subsection \<open>Logs and the end of an execution\<close>

fun pop_topics :: "nat \<Rightarrow> hash list vm" where
  "pop_topics 0 = vret []"
| "pop_topics (Suc n) = vbind vpop (\<lambda>t. vbind (pop_topics n) (\<lambda>ts. vret (t # ts)))"

definition makeLog :: "nat \<Rightarrow> executionFunc" where
  "makeLog n E cfg = protect (
     vbind vpop (\<lambda>mStart. vbind vpop (\<lambda>mSize. vbind (pop_topics n) (\<lambda>topics.
     vbind (vopt (\<lambda>f. mem_GetCopy (ucast mStart) (ucast mSize) (fr_mem f))) (\<lambda>d.
     vbind self (\<lambda>a.
     vthen (vdb_upd (AddLog
       \<lparr>log_Address = a, log_Topics = topics, log_Data = d, log_BlockNumber = word_of_int (ctx_BlockNumber cfg),
        log_TxHash = 0, log_TxIndex = 0, log_BlockHash = 0, log_BlockTimestamp = 0, log_Index = 0, log_Removed = False\<rparr>))
       fin))))))"

definition opReturn :: executionFunc where
  "opReturn E cfg =
     vbind vpop (\<lambda>offset. vbind vpop (\<lambda>sz.
     vbind (vopt (\<lambda>f. mem_GetCopy (ucast offset) (ucast sz) (fr_mem f))) (\<lambda>ret. vret (ret, Some errStopToken))))"

definition opRevert :: executionFunc where
  "opRevert E cfg =
     vbind vpop (\<lambda>offset. vbind vpop (\<lambda>sz.
     vbind (vopt (\<lambda>f. mem_GetCopy (ucast offset) (ucast sz) (fr_mem f))) (\<lambda>ret.
     vthen (vevm (\<lambda>e. e\<lparr>evm_returnData := ret\<rparr>)) (vret (ret, Some ErrExecutionReverted)))))"

definition opUndefined :: executionFunc where
  "opUndefined E cfg =
     vbind (vopt (\<lambda>f. let code = ct_Code (fr_contract f); pc = fr_pc f
                      in if uint pc < int (length code) then Some (code ! unat pc) else None)) (\<lambda>op.
       vfail (ErrInvalidOpCode op))"

definition opStop :: executionFunc where "opStop E cfg = vfail errStopToken"

definition opSelfdestruct :: executionFunc where
  "opSelfdestruct E cfg = protect (
     vbind vpop (\<lambda>beneficiary. vbind self (\<lambda>a.
     vbind (vdb (GetBalance E a)) (\<lambda>balance.
     vbind (vdb (AddBalance E (to_address beneficiary) balance)) (\<lambda>_.
     vbind (vdb (SelfDestruct E a)) (\<lambda>_.
     vthen (vwhen (to_address beneficiary = a) (vdb_opt (ExpectBalanceBurn (uint balance))))
       (vfail errStopToken)))))))"

definition opSelfdestruct6780 :: executionFunc where
  "opSelfdestruct6780 E cfg = protect (
     vbind self (\<lambda>a.
     vbind (vdb (GetCode E a)) (\<lambda>code.
     if IsStylusComponentPrefix code (ArbOSVersion (chainRules cfg)) then vfail ErrExecutionReverted
     else
     vbind vpop (\<lambda>beneficiary.
     vbind (vdb (GetBalance E a)) (\<lambda>balance.
     vbind (vdb (SubBalance E a balance)) (\<lambda>_.
     vbind (vdb (AddBalance E (to_address beneficiary) balance)) (\<lambda>_.
     vbind (vdb (SelfDestruct6780 E a)) (\<lambda>_.
     vthen (if to_address beneficiary = a then
              vbind (vdb (GetBalance E a)) (\<lambda>b. vwhen (b = 0) (vdb_opt (ExpectBalanceBurn (uint balance))))
            else vret ())
       (vfail errStopToken)))))))))"

end
