(* ===== verification/VMCalls.thy ===== *)
theory VMCalls
imports VMInstr
begin

text \<open>
  The instructions of \<^verbatim>\<open>core/vm/instructions.go\<close> that start another execution. They are written over
  the operations of the EVM they call, which are tied to them in the theory of the interpreter.
\<close>

subsection \<open>Computations that may run other code\<close>

text \<open>
  A nested execution can also run out of the fuel of the model, which is kept apart from a
  panic of the program.
\<close>

datatype 'a run = OutOfFuel | Panic | Result 'a

type_synonym 'a xvm = "Frame \<Rightarrow> ((vmerror + 'a) \<times> Frame) run"

definition ropt :: "'a option \<Rightarrow> 'a run" where
  "ropt r = (case r of None \<Rightarrow> Panic | Some x \<Rightarrow> Result x)"

definition rbind :: "'a run \<Rightarrow> ('a \<Rightarrow> 'b run) \<Rightarrow> 'b run" where
  "rbind r k = (case r of OutOfFuel \<Rightarrow> OutOfFuel | Panic \<Rightarrow> Panic | Result x \<Rightarrow> k x)"

definition lift_vm :: "'a vm \<Rightarrow> 'a xvm" where
  "lift_vm m f = ropt (m f)"

definition xbind :: "'a xvm \<Rightarrow> ('a \<Rightarrow> 'b xvm) \<Rightarrow> 'b xvm" where
  "xbind m k f = rbind (m f) (\<lambda>(r, f). case r of Inl e \<Rightarrow> Result (Inl e, f) | Inr x \<Rightarrow> k x f)"

definition on_evm :: "(EVM \<Rightarrow> ('a \<times> EVM) run) \<Rightarrow> 'a xvm" where
  "on_evm c f = rbind (c (fr_evm f)) (\<lambda>(x, e). Result (Inr x, f\<lparr>fr_evm := e\<rparr>))"

type_synonym create_result = "bytes \<times> address \<times> u64 \<times> MultiGas \<times> vmerror option"

text \<open>The methods of \<^verbatim>\<open>EVM\<close> that instructions call, with the arguments in the order of the code.\<close>

record Callees =
  c_Call :: "address \<Rightarrow> address \<Rightarrow> bytes \<Rightarrow> u64 \<Rightarrow> u256 \<Rightarrow> EVM \<Rightarrow> (call_result \<times> EVM) run"
  c_CallCode :: "address \<Rightarrow> address \<Rightarrow> bytes \<Rightarrow> u64 \<Rightarrow> u256 \<Rightarrow> EVM \<Rightarrow> (call_result \<times> EVM) run"
  c_DelegateCall :: "address \<Rightarrow> address \<Rightarrow> address \<Rightarrow> bytes \<Rightarrow> u64 \<Rightarrow> u256 \<Rightarrow> EVM \<Rightarrow> (call_result \<times> EVM) run"
  c_StaticCall :: "address \<Rightarrow> address \<Rightarrow> bytes \<Rightarrow> u64 \<Rightarrow> EVM \<Rightarrow> (call_result \<times> EVM) run"
  c_Create :: "address \<Rightarrow> bytes \<Rightarrow> u64 \<Rightarrow> u256 \<Rightarrow> EVM \<Rightarrow> (create_result \<times> EVM) run"
  c_Create2 :: "address \<Rightarrow> bytes \<Rightarrow> u64 \<Rightarrow> u256 \<Rightarrow> u256 \<Rightarrow> EVM \<Rightarrow> (create_result \<times> EVM) run"

type_synonym executor = "Callees \<Rightarrow> Env \<Rightarrow> EvmCfg \<Rightarrow> (bytes \<times> vmerror option) xvm"

definition simple :: "executionFunc \<Rightarrow> executor" where
  "simple op cs E cfg = lift_vm (op E cfg)"

subsection \<open>Calls\<close>

definition CallStipend :: u64 where "CallStipend = 2300"

text \<open>What the four call instructions do with the result of the call.\<close>

definition after_call :: "u64 \<Rightarrow> u256 \<Rightarrow> u256 \<Rightarrow> call_result \<Rightarrow> (bytes \<times> vmerror option) vm" where
  "after_call gas retOffset retSize = (\<lambda>(ret, returnGas, usedMultiGas, err).
     vthen (vpush (if err \<noteq> None then 0 else 1))
    (vthen (vwhen (err = None \<or> err = Some ErrExecutionReverted) (vmem (mem_Set (ucast retOffset) (ucast retSize) ret)))
    (vthen (vcontract (\<lambda>c.
       let c = RefundGas c returnGas;
           c = c\<lparr>UsedMultiGas := SaturatingAddInto (UsedMultiGas c) usedMultiGas\<rparr>
       in ((), c\<lparr>RetainedMultiGas := SaturatingIncrementInto (RetainedMultiGas c) ResourceKindComputation gas\<rparr>)))
    (vthen (vevm (\<lambda>e. e\<lparr>evm_returnData := ret\<rparr>)) (vret (ret, None))))))"

text \<open>The arguments in memory.\<close>

definition call_args :: "u256 \<Rightarrow> u256 \<Rightarrow> bytes vm" where
  "call_args inOffset inSize = vopt (\<lambda>f. mem_GetPtr (ucast inOffset) (ucast inSize) (fr_mem f))"

definition opCall :: executor where
  "opCall cs E cfg =
     xbind (lift_vm (
       vbind vpop (\<lambda>_. vbind (vget (\<lambda>f. evm_callGasTemp (fr_evm f))) (\<lambda>gas.
       vbind vpop (\<lambda>addr. vbind vpop (\<lambda>v. vbind vpop (\<lambda>inOffset. vbind vpop (\<lambda>inSize.
       vbind vpop (\<lambda>retOffset. vbind vpop (\<lambda>retSize.
       vbind (call_args inOffset inSize) (\<lambda>args.
       vbind (vget (\<lambda>f. evm_readOnly (fr_evm f))) (\<lambda>readOnly.
       vbind self (\<lambda>a.
         if readOnly \<and> v \<noteq> 0 then vfail ErrWriteProtection
         else
           let gas = (if v \<noteq> 0 then gas + CallStipend else gas)
           in vret (a, to_address addr, args, gas, v, retOffset, retSize))))))))))))))
       (\<lambda>(a, toAddr, args, gas, v, retOffset, retSize).
     xbind (on_evm (c_Call cs a toAddr args gas v)) (\<lambda>res. lift_vm (after_call gas retOffset retSize res)))"

definition opCallCode :: executor where
  "opCallCode cs E cfg =
     xbind (lift_vm (
       vbind vpop (\<lambda>_. vbind (vget (\<lambda>f. evm_callGasTemp (fr_evm f))) (\<lambda>gas.
       vbind vpop (\<lambda>addr. vbind vpop (\<lambda>v. vbind vpop (\<lambda>inOffset. vbind vpop (\<lambda>inSize.
       vbind vpop (\<lambda>retOffset. vbind vpop (\<lambda>retSize.
       vbind (call_args inOffset inSize) (\<lambda>args.
       vbind self (\<lambda>a.
         let gas = (if v \<noteq> 0 then gas + CallStipend else gas)
         in vret (a, to_address addr, args, gas, v, retOffset, retSize)))))))))))))
       (\<lambda>(a, toAddr, args, gas, v, retOffset, retSize).
     xbind (on_evm (c_CallCode cs a toAddr args gas v)) (\<lambda>res. lift_vm (after_call gas retOffset retSize res)))"

definition opDelegateCall :: executor where
  "opDelegateCall cs E cfg =
     xbind (lift_vm (
       vbind vpop (\<lambda>_. vbind (vget (\<lambda>f. evm_callGasTemp (fr_evm f))) (\<lambda>gas.
       vbind vpop (\<lambda>addr. vbind vpop (\<lambda>inOffset. vbind vpop (\<lambda>inSize.
       vbind vpop (\<lambda>retOffset. vbind vpop (\<lambda>retSize.
       vbind (call_args inOffset inSize) (\<lambda>args.
       vbind (vget (\<lambda>f. fr_contract f)) (\<lambda>c.
         vret (ct_caller c, ct_address c, to_address addr, args, gas, ct_value c, retOffset, retSize))))))))))))
       (\<lambda>(caller, a, toAddr, args, gas, v, retOffset, retSize).
     xbind (on_evm (c_DelegateCall cs caller a toAddr args gas v)) (\<lambda>res.
       lift_vm (after_call gas retOffset retSize res)))"

definition opStaticCall :: executor where
  "opStaticCall cs E cfg =
     xbind (lift_vm (
       vbind vpop (\<lambda>_. vbind (vget (\<lambda>f. evm_callGasTemp (fr_evm f))) (\<lambda>gas.
       vbind vpop (\<lambda>addr. vbind vpop (\<lambda>inOffset. vbind vpop (\<lambda>inSize.
       vbind vpop (\<lambda>retOffset. vbind vpop (\<lambda>retSize.
       vbind (call_args inOffset inSize) (\<lambda>args.
       vbind self (\<lambda>a. vret (a, to_address addr, args, gas, retOffset, retSize))))))))))))
       (\<lambda>(a, toAddr, args, gas, retOffset, retSize).
     xbind (on_evm (c_StaticCall cs a toAddr args gas)) (\<lambda>res. lift_vm (after_call gas retOffset retSize res)))"

subsection \<open>Contract creation\<close>

text \<open>What both creation instructions do with the result, apart from the value they push.\<close>

definition after_create :: "u64 \<Rightarrow> u256 \<Rightarrow> create_result \<Rightarrow> (bytes \<times> vmerror option) vm" where
  "after_create gas stackvalue = (\<lambda>(res, addr, returnGas, usedMultiGas, suberr).
     vthen (vpush stackvalue)
    (vthen (vcontract (\<lambda>c.
       let c = RefundGas c returnGas;
           c = c\<lparr>RetainedMultiGas := SaturatingIncrementInto (RetainedMultiGas c) ResourceKindComputation gas\<rparr>
       in ((), c\<lparr>UsedMultiGas := SaturatingAddInto (UsedMultiGas c) usedMultiGas\<rparr>)))
    (if suberr = Some ErrExecutionReverted then
       vthen (vevm (\<lambda>e. e\<lparr>evm_returnData := res\<rparr>)) (vret (res, None))
     else vthen (vevm (\<lambda>e. e\<lparr>evm_returnData := []\<rparr>)) fin)))"

definition opCreate :: executor where
  "opCreate cs E cfg =
     xbind (lift_vm (protect (
       vbind vpop (\<lambda>v. vbind vpop (\<lambda>offset. vbind vpop (\<lambda>sz.
       vbind (vopt (\<lambda>f. mem_GetCopy (ucast offset) (ucast sz) (fr_mem f))) (\<lambda>input.
       vbind (vget (\<lambda>f. ct_Gas (fr_contract f))) (\<lambda>gas.
       let gas = (if IsEIP150 (chainRules cfg) then gas - gas div 64 else gas) in
       vbind (vcontract (\<lambda>c. UseMultiGas c (ComputationGas gas))) (\<lambda>_.
       vbind self (\<lambda>a. vret (a, input, gas, v)))))))))))
       (\<lambda>(a, input, gas, v).
     xbind (on_evm (c_Create cs a input gas v)) (\<lambda>(res, addr, returnGas, used, suberr).
       let stackvalue =
         (if IsHomestead (chainRules cfg) \<and> suberr = Some ErrCodeStoreOutOfGas then 0
          else if suberr \<noteq> None \<and> suberr \<noteq> Some ErrCodeStoreOutOfGas then 0
          else from_address addr)
       in lift_vm (after_create gas stackvalue (res, addr, returnGas, used, suberr))))"

definition opCreate2 :: executor where
  "opCreate2 cs E cfg =
     xbind (lift_vm (protect (
       vbind vpop (\<lambda>endowment. vbind vpop (\<lambda>offset. vbind vpop (\<lambda>sz. vbind vpop (\<lambda>salt.
       vbind (vopt (\<lambda>f. mem_GetCopy (ucast offset) (ucast sz) (fr_mem f))) (\<lambda>input.
       vbind (vget (\<lambda>f. ct_Gas (fr_contract f))) (\<lambda>gas.
       let gas = gas - gas div 64 in
       vbind (vcontract (\<lambda>c. UseMultiGas c (ComputationGas gas))) (\<lambda>_.
       vbind self (\<lambda>a. vret (a, input, gas, endowment, salt))))))))))))
       (\<lambda>(a, input, gas, endowment, salt).
     xbind (on_evm (c_Create2 cs a input gas endowment salt)) (\<lambda>(res, addr, returnGas, used, suberr).
       let stackvalue = (if suberr \<noteq> None then 0 else from_address addr)
       in lift_vm (after_create gas stackvalue (res, addr, returnGas, used, suberr))))"

end
