(* ===== verification/VMJumpTable.thy ===== *)
theory VMJumpTable
imports VMCalls
begin

text \<open>
  The instruction sets (\<^verbatim>\<open>core/vm/jump_table.go\<close>, the enabling functions of \<^verbatim>\<open>core/vm/eips.go\<close>) and
  the choice that \<^verbatim>\<open>NewEVM\<close> makes between them. The set for Verkle trees is not modelled. A table
  is a function, so that writing to an entry of a new table changes no other table.
\<close>

subsection \<open>Operations\<close>

record operation =
  op_execute :: executor
  op_constantGas :: u64
  op_dynamicGas :: "gasFunc option"
  op_minStack :: int
  op_maxStack :: int
  op_memorySize :: "(Stack \<Rightarrow> (u64 \<times> bool) option) option"
  op_undefined :: bool

type_synonym JumpTable = "u8 \<Rightarrow> operation"

text \<open>The composite literals of the source, field by field.\<close>

definition instr :: "executor \<Rightarrow> u64 \<Rightarrow> int \<Rightarrow> int \<Rightarrow> operation" where
  "instr ex gas mn mx =
     \<lparr>op_execute = ex, op_constantGas = gas, op_dynamicGas = None, op_minStack = mn, op_maxStack = mx,
      op_memorySize = None, op_undefined = False\<rparr>"

definition with_gas :: "gasFunc \<Rightarrow> operation \<Rightarrow> operation" where
  "with_gas g op = op\<lparr>op_dynamicGas := Some g\<rparr>"

definition with_memory :: "(Stack \<Rightarrow> (u64 \<times> bool) option) \<Rightarrow> operation \<Rightarrow> operation" where
  "with_memory m op = op\<lparr>op_memorySize := Some m\<rparr>"

definition with_constant :: "u64 \<Rightarrow> operation \<Rightarrow> operation" where
  "with_constant g op = op\<lparr>op_constantGas := g\<rparr>"

text \<open>The entry of the slots that a set does not assign.\<close>

definition undefined_operation :: operation where
  "undefined_operation =
     \<lparr>op_execute = simple opUndefined, op_constantGas = 0, op_dynamicGas = None, op_minStack = 0,
      op_maxStack = maxStack 0 0, op_memorySize = None, op_undefined = True\<rparr>"

definition change :: "u8 \<Rightarrow> (operation \<Rightarrow> operation) \<Rightarrow> JumpTable \<Rightarrow> JumpTable" where
  "change k h jt = jt(k := h (jt k))"

subsection \<open>Constants\<close>

abbreviation (input) GasQuickStep :: u64 where "GasQuickStep \<equiv> 2"
abbreviation (input) GasFastestStep :: u64 where "GasFastestStep \<equiv> 3"
abbreviation (input) GasFastStep :: u64 where "GasFastStep \<equiv> 5"
abbreviation (input) GasMidStep :: u64 where "GasMidStep \<equiv> 8"
abbreviation (input) GasSlowStep :: u64 where "GasSlowStep \<equiv> 10"
abbreviation (input) GasExtStep :: u64 where "GasExtStep \<equiv> 20"
abbreviation (input) Keccak256Gas :: u64 where "Keccak256Gas \<equiv> 30"
abbreviation (input) JumpdestGas :: u64 where "JumpdestGas \<equiv> 1"
abbreviation (input) CreateGas :: u64 where "CreateGas \<equiv> 32000"
abbreviation (input) Create2Gas :: u64 where "Create2Gas \<equiv> 32000"
abbreviation (input) CallGasFrontier :: u64 where "CallGasFrontier \<equiv> 40"
abbreviation (input) CallGasEIP150 :: u64 where "CallGasEIP150 \<equiv> 700"
abbreviation (input) BalanceGasFrontier :: u64 where "BalanceGasFrontier \<equiv> 20"
abbreviation (input) BalanceGasEIP150 :: u64 where "BalanceGasEIP150 \<equiv> 400"
abbreviation (input) BalanceGasEIP1884 :: u64 where "BalanceGasEIP1884 \<equiv> 700"
abbreviation (input) ExtcodeSizeGasFrontier :: u64 where "ExtcodeSizeGasFrontier \<equiv> 20"
abbreviation (input) SloadGasFrontier :: u64 where "SloadGasFrontier \<equiv> 50"
abbreviation (input) SloadGasEIP150 :: u64 where "SloadGasEIP150 \<equiv> 200"
abbreviation (input) SloadGasEIP1884 :: u64 where "SloadGasEIP1884 \<equiv> 800"
abbreviation (input) ExtcodeHashGasConstantinople :: u64 where "ExtcodeHashGasConstantinople \<equiv> 400"
abbreviation (input) ExtcodeHashGasEIP1884 :: u64 where "ExtcodeHashGasEIP1884 \<equiv> 700"
abbreviation (input) ExtcodeCopyBaseFrontier :: u64 where "ExtcodeCopyBaseFrontier \<equiv> 20"
abbreviation (input) ExtcodeCopyBaseEIP150 :: u64 where "ExtcodeCopyBaseEIP150 \<equiv> 700"

abbreviation (input) EXP :: u8 where "EXP \<equiv> 0x0A"
abbreviation (input) SHL :: u8 where "SHL \<equiv> 0x1B"
abbreviation (input) SHR :: u8 where "SHR \<equiv> 0x1C"
abbreviation (input) SAR :: u8 where "SAR \<equiv> 0x1D"
abbreviation (input) CLZ :: u8 where "CLZ \<equiv> 0x1E"
abbreviation (input) BALANCE :: u8 where "BALANCE \<equiv> 0x31"
abbreviation (input) EXTCODESIZE :: u8 where "EXTCODESIZE \<equiv> 0x3B"
abbreviation (input) EXTCODECOPY :: u8 where "EXTCODECOPY \<equiv> 0x3C"
abbreviation (input) RETURNDATASIZE :: u8 where "RETURNDATASIZE \<equiv> 0x3D"
abbreviation (input) RETURNDATACOPY :: u8 where "RETURNDATACOPY \<equiv> 0x3E"
abbreviation (input) EXTCODEHASH :: u8 where "EXTCODEHASH \<equiv> 0x3F"
abbreviation (input) PREVRANDAO :: u8 where "PREVRANDAO \<equiv> 0x44"
abbreviation (input) CHAINID :: u8 where "CHAINID \<equiv> 0x46"
abbreviation (input) SELFBALANCE :: u8 where "SELFBALANCE \<equiv> 0x47"
abbreviation (input) BASEFEE :: u8 where "BASEFEE \<equiv> 0x48"
abbreviation (input) BLOBHASH :: u8 where "BLOBHASH \<equiv> 0x49"
abbreviation (input) BLOBBASEFEE :: u8 where "BLOBBASEFEE \<equiv> 0x4A"
abbreviation (input) SLOAD :: u8 where "SLOAD \<equiv> 0x54"
abbreviation (input) SSTORE :: u8 where "SSTORE \<equiv> 0x55"
abbreviation (input) TLOAD :: u8 where "TLOAD \<equiv> 0x5C"
abbreviation (input) TSTORE :: u8 where "TSTORE \<equiv> 0x5D"
abbreviation (input) MCOPY :: u8 where "MCOPY \<equiv> 0x5E"
abbreviation (input) PUSH0 :: u8 where "PUSH0 \<equiv> 0x5F"
abbreviation (input) CREATE :: u8 where "CREATE \<equiv> 0xF0"
abbreviation (input) CALL :: u8 where "CALL \<equiv> 0xF1"
abbreviation (input) CALLCODE :: u8 where "CALLCODE \<equiv> 0xF2"
abbreviation (input) DELEGATECALL :: u8 where "DELEGATECALL \<equiv> 0xF4"
abbreviation (input) CREATE2 :: u8 where "CREATE2 \<equiv> 0xF5"
abbreviation (input) STATICCALL :: u8 where "STATICCALL \<equiv> 0xFA"
abbreviation (input) REVERT :: u8 where "REVERT \<equiv> 0xFD"

subsection \<open>The first instruction set\<close>

definition frontier_arithmetic :: "(u8 \<times> operation) list" where
  "frontier_arithmetic =
    [(0x00, instr (simple opStop) 0 (minStack 0 0) (maxStack 0 0)),
     (0x01, instr (simple opAdd) GasFastestStep (minStack 2 1) (maxStack 2 1)),
     (0x02, instr (simple opMul) GasFastStep (minStack 2 1) (maxStack 2 1)),
     (0x03, instr (simple opSub) GasFastestStep (minStack 2 1) (maxStack 2 1)),
     (0x04, instr (simple opDiv) GasFastStep (minStack 2 1) (maxStack 2 1)),
     (0x05, instr (simple opSdiv) GasFastStep (minStack 2 1) (maxStack 2 1)),
     (0x06, instr (simple opMod) GasFastStep (minStack 2 1) (maxStack 2 1)),
     (0x07, instr (simple opSmod) GasFastStep (minStack 2 1) (maxStack 2 1)),
     (0x08, instr (simple opAddmod) GasMidStep (minStack 3 1) (maxStack 3 1)),
     (0x09, instr (simple opMulmod) GasMidStep (minStack 3 1) (maxStack 3 1)),
     (0x0A, with_gas gasExpFrontier (instr (simple opExp) 0 (minStack 2 1) (maxStack 2 1))),
     (0x0B, instr (simple opSignExtend) GasFastStep (minStack 2 1) (maxStack 2 1)),
     (0x10, instr (simple opLt) GasFastestStep (minStack 2 1) (maxStack 2 1)),
     (0x11, instr (simple opGt) GasFastestStep (minStack 2 1) (maxStack 2 1)),
     (0x12, instr (simple opSlt) GasFastestStep (minStack 2 1) (maxStack 2 1)),
     (0x13, instr (simple opSgt) GasFastestStep (minStack 2 1) (maxStack 2 1)),
     (0x14, instr (simple opEq) GasFastestStep (minStack 2 1) (maxStack 2 1)),
     (0x15, instr (simple opIszero) GasFastestStep (minStack 1 1) (maxStack 1 1)),
     (0x16, instr (simple opAnd) GasFastestStep (minStack 2 1) (maxStack 2 1)),
     (0x18, instr (simple opXor) GasFastestStep (minStack 2 1) (maxStack 2 1)),
     (0x17, instr (simple opOr) GasFastestStep (minStack 2 1) (maxStack 2 1)),
     (0x19, instr (simple opNot) GasFastestStep (minStack 1 1) (maxStack 1 1)),
     (0x1A, instr (simple opByte) GasFastestStep (minStack 2 1) (maxStack 2 1))]"

definition frontier_environment :: "(u8 \<times> operation) list" where
  "frontier_environment =
    [(0x20, with_memory memoryKeccak256 (with_gas gasKeccak256 (instr (simple opKeccak256) Keccak256Gas (minStack 2 1) (maxStack 2 1)))),
     (0x30, instr (simple opAddress) GasQuickStep (minStack 0 1) (maxStack 0 1)),
     (0x31, instr (simple opBalance) BalanceGasFrontier (minStack 1 1) (maxStack 1 1)),
     (0x32, instr (simple opOrigin) GasQuickStep (minStack 0 1) (maxStack 0 1)),
     (0x33, instr (simple opCaller) GasQuickStep (minStack 0 1) (maxStack 0 1)),
     (0x34, instr (simple opCallValue) GasQuickStep (minStack 0 1) (maxStack 0 1)),
     (0x35, instr (simple opCallDataLoad) GasFastestStep (minStack 1 1) (maxStack 1 1)),
     (0x36, instr (simple opCallDataSize) GasQuickStep (minStack 0 1) (maxStack 0 1)),
     (0x37, with_memory memoryCallDataCopy (with_gas gasCallDataCopy (instr (simple opCallDataCopy) GasFastestStep (minStack 3 0) (maxStack 3 0)))),
     (0x38, instr (simple opCodeSize) GasQuickStep (minStack 0 1) (maxStack 0 1)),
     (0x39, with_memory memoryCodeCopy (with_gas gasCodeCopy (instr (simple opCodeCopy) GasFastestStep (minStack 3 0) (maxStack 3 0)))),
     (0x3A, instr (simple opGasprice) GasQuickStep (minStack 0 1) (maxStack 0 1)),
     (0x3B, instr (simple opExtCodeSize) ExtcodeSizeGasFrontier (minStack 1 1) (maxStack 1 1)),
     (0x3C, with_memory memoryExtCodeCopy (with_gas gasExtCodeCopy (instr (simple opExtCodeCopy) ExtcodeCopyBaseFrontier (minStack 4 0) (maxStack 4 0)))),
     (0x40, instr (simple opBlockhash) GasExtStep (minStack 1 1) (maxStack 1 1)),
     (0x41, instr (simple opCoinbase) GasQuickStep (minStack 0 1) (maxStack 0 1)),
     (0x42, instr (simple opTimestamp) GasQuickStep (minStack 0 1) (maxStack 0 1)),
     (0x43, instr (simple opNumber) GasQuickStep (minStack 0 1) (maxStack 0 1)),
     (0x44, instr (simple opDifficulty) GasQuickStep (minStack 0 1) (maxStack 0 1)),
     (0x45, instr (simple opGasLimit) GasQuickStep (minStack 0 1) (maxStack 0 1))]"

definition frontier_storage :: "(u8 \<times> operation) list" where
  "frontier_storage =
    [(0x50, instr (simple opPop) GasQuickStep (minStack 1 0) (maxStack 1 0)),
     (0x51, with_memory memoryMLoad (with_gas gasMLoad (instr (simple opMload) GasFastestStep (minStack 1 1) (maxStack 1 1)))),
     (0x52, with_memory memoryMStore (with_gas gasMStore (instr (simple opMstore) GasFastestStep (minStack 2 0) (maxStack 2 0)))),
     (0x53, with_memory memoryMStore8 (with_gas gasMStore8 (instr (simple opMstore8) GasFastestStep (minStack 2 0) (maxStack 2 0)))),
     (0x54, instr (simple opSload) SloadGasFrontier (minStack 1 1) (maxStack 1 1)),
     (0x55, with_gas gasSStore (instr (simple opSstore) 0 (minStack 2 0) (maxStack 2 0))),
     (0x56, instr (simple opJump) GasMidStep (minStack 1 0) (maxStack 1 0)),
     (0x57, instr (simple opJumpi) GasSlowStep (minStack 2 0) (maxStack 2 0)),
     (0x58, instr (simple opPc) GasQuickStep (minStack 0 1) (maxStack 0 1)),
     (0x59, instr (simple opMsize) GasQuickStep (minStack 0 1) (maxStack 0 1)),
     (0x5A, instr (simple opGas) GasQuickStep (minStack 0 1) (maxStack 0 1)),
     (0x5B, instr (simple opJumpdest) JumpdestGas (minStack 0 0) (maxStack 0 0))]"

definition frontier_push :: "(u8 \<times> operation) list" where
  "frontier_push =
    [(0x60, instr (simple opPush1) GasFastestStep (minStack 0 1) (maxStack 0 1)),
     (0x61, instr (simple opPush2) GasFastestStep (minStack 0 1) (maxStack 0 1)),
     (0x62, instr (simple (makePush 3 3)) GasFastestStep (minStack 0 1) (maxStack 0 1)),
     (0x63, instr (simple (makePush 4 4)) GasFastestStep (minStack 0 1) (maxStack 0 1)),
     (0x64, instr (simple (makePush 5 5)) GasFastestStep (minStack 0 1) (maxStack 0 1)),
     (0x65, instr (simple (makePush 6 6)) GasFastestStep (minStack 0 1) (maxStack 0 1)),
     (0x66, instr (simple (makePush 7 7)) GasFastestStep (minStack 0 1) (maxStack 0 1)),
     (0x67, instr (simple (makePush 8 8)) GasFastestStep (minStack 0 1) (maxStack 0 1)),
     (0x68, instr (simple (makePush 9 9)) GasFastestStep (minStack 0 1) (maxStack 0 1)),
     (0x69, instr (simple (makePush 10 10)) GasFastestStep (minStack 0 1) (maxStack 0 1)),
     (0x6A, instr (simple (makePush 11 11)) GasFastestStep (minStack 0 1) (maxStack 0 1)),
     (0x6B, instr (simple (makePush 12 12)) GasFastestStep (minStack 0 1) (maxStack 0 1)),
     (0x6C, instr (simple (makePush 13 13)) GasFastestStep (minStack 0 1) (maxStack 0 1)),
     (0x6D, instr (simple (makePush 14 14)) GasFastestStep (minStack 0 1) (maxStack 0 1)),
     (0x6E, instr (simple (makePush 15 15)) GasFastestStep (minStack 0 1) (maxStack 0 1)),
     (0x6F, instr (simple (makePush 16 16)) GasFastestStep (minStack 0 1) (maxStack 0 1)),
     (0x70, instr (simple (makePush 17 17)) GasFastestStep (minStack 0 1) (maxStack 0 1)),
     (0x71, instr (simple (makePush 18 18)) GasFastestStep (minStack 0 1) (maxStack 0 1)),
     (0x72, instr (simple (makePush 19 19)) GasFastestStep (minStack 0 1) (maxStack 0 1)),
     (0x73, instr (simple (makePush 20 20)) GasFastestStep (minStack 0 1) (maxStack 0 1)),
     (0x74, instr (simple (makePush 21 21)) GasFastestStep (minStack 0 1) (maxStack 0 1)),
     (0x75, instr (simple (makePush 22 22)) GasFastestStep (minStack 0 1) (maxStack 0 1))]"

definition frontier_push_more :: "(u8 \<times> operation) list" where
  "frontier_push_more =
    [(0x76, instr (simple (makePush 23 23)) GasFastestStep (minStack 0 1) (maxStack 0 1)),
     (0x77, instr (simple (makePush 24 24)) GasFastestStep (minStack 0 1) (maxStack 0 1)),
     (0x78, instr (simple (makePush 25 25)) GasFastestStep (minStack 0 1) (maxStack 0 1)),
     (0x79, instr (simple (makePush 26 26)) GasFastestStep (minStack 0 1) (maxStack 0 1)),
     (0x7A, instr (simple (makePush 27 27)) GasFastestStep (minStack 0 1) (maxStack 0 1)),
     (0x7B, instr (simple (makePush 28 28)) GasFastestStep (minStack 0 1) (maxStack 0 1)),
     (0x7C, instr (simple (makePush 29 29)) GasFastestStep (minStack 0 1) (maxStack 0 1)),
     (0x7D, instr (simple (makePush 30 30)) GasFastestStep (minStack 0 1) (maxStack 0 1)),
     (0x7E, instr (simple (makePush 31 31)) GasFastestStep (minStack 0 1) (maxStack 0 1)),
     (0x7F, instr (simple (makePush 32 32)) GasFastestStep (minStack 0 1) (maxStack 0 1))]"

definition frontier_dup_swap :: "(u8 \<times> operation) list" where
  "frontier_dup_swap =
    [(0x80, instr (simple (makeDup 1)) GasFastestStep (minDupStack 1) (maxDupStack 1)),
     (0x81, instr (simple (makeDup 2)) GasFastestStep (minDupStack 2) (maxDupStack 2)),
     (0x82, instr (simple (makeDup 3)) GasFastestStep (minDupStack 3) (maxDupStack 3)),
     (0x83, instr (simple (makeDup 4)) GasFastestStep (minDupStack 4) (maxDupStack 4)),
     (0x84, instr (simple (makeDup 5)) GasFastestStep (minDupStack 5) (maxDupStack 5)),
     (0x85, instr (simple (makeDup 6)) GasFastestStep (minDupStack 6) (maxDupStack 6)),
     (0x86, instr (simple (makeDup 7)) GasFastestStep (minDupStack 7) (maxDupStack 7)),
     (0x87, instr (simple (makeDup 8)) GasFastestStep (minDupStack 8) (maxDupStack 8)),
     (0x88, instr (simple (makeDup 9)) GasFastestStep (minDupStack 9) (maxDupStack 9)),
     (0x89, instr (simple (makeDup 10)) GasFastestStep (minDupStack 10) (maxDupStack 10)),
     (0x8A, instr (simple (makeDup 11)) GasFastestStep (minDupStack 11) (maxDupStack 11)),
     (0x8B, instr (simple (makeDup 12)) GasFastestStep (minDupStack 12) (maxDupStack 12)),
     (0x8C, instr (simple (makeDup 13)) GasFastestStep (minDupStack 13) (maxDupStack 13)),
     (0x8D, instr (simple (makeDup 14)) GasFastestStep (minDupStack 14) (maxDupStack 14)),
     (0x8E, instr (simple (makeDup 15)) GasFastestStep (minDupStack 15) (maxDupStack 15)),
     (0x8F, instr (simple (makeDup 16)) GasFastestStep (minDupStack 16) (maxDupStack 16)),
     (0x90, instr (simple (opSwap 1)) GasFastestStep (minSwapStack 2) (maxSwapStack 2)),
     (0x91, instr (simple (opSwap 2)) GasFastestStep (minSwapStack 3) (maxSwapStack 3)),
     (0x92, instr (simple (opSwap 3)) GasFastestStep (minSwapStack 4) (maxSwapStack 4)),
     (0x93, instr (simple (opSwap 4)) GasFastestStep (minSwapStack 5) (maxSwapStack 5)),
     (0x94, instr (simple (opSwap 5)) GasFastestStep (minSwapStack 6) (maxSwapStack 6)),
     (0x95, instr (simple (opSwap 6)) GasFastestStep (minSwapStack 7) (maxSwapStack 7)),
     (0x96, instr (simple (opSwap 7)) GasFastestStep (minSwapStack 8) (maxSwapStack 8)),
     (0x97, instr (simple (opSwap 8)) GasFastestStep (minSwapStack 9) (maxSwapStack 9))]"

definition frontier_swap_more :: "(u8 \<times> operation) list" where
  "frontier_swap_more =
    [(0x98, instr (simple (opSwap 9)) GasFastestStep (minSwapStack 10) (maxSwapStack 10)),
     (0x99, instr (simple (opSwap 10)) GasFastestStep (minSwapStack 11) (maxSwapStack 11)),
     (0x9A, instr (simple (opSwap 11)) GasFastestStep (minSwapStack 12) (maxSwapStack 12)),
     (0x9B, instr (simple (opSwap 12)) GasFastestStep (minSwapStack 13) (maxSwapStack 13)),
     (0x9C, instr (simple (opSwap 13)) GasFastestStep (minSwapStack 14) (maxSwapStack 14)),
     (0x9D, instr (simple (opSwap 14)) GasFastestStep (minSwapStack 15) (maxSwapStack 15)),
     (0x9E, instr (simple (opSwap 15)) GasFastestStep (minSwapStack 16) (maxSwapStack 16)),
     (0x9F, instr (simple (opSwap 16)) GasFastestStep (minSwapStack 17) (maxSwapStack 17))]"

definition frontier_system :: "(u8 \<times> operation) list" where
  "frontier_system =
    [(0xA0, with_memory memoryLog (with_gas (makeGasLog 0) (instr (simple (makeLog 0)) 0 (minStack 2 0) (maxStack 2 0)))),
     (0xA1, with_memory memoryLog (with_gas (makeGasLog 1) (instr (simple (makeLog 1)) 0 (minStack 3 0) (maxStack 3 0)))),
     (0xA2, with_memory memoryLog (with_gas (makeGasLog 2) (instr (simple (makeLog 2)) 0 (minStack 4 0) (maxStack 4 0)))),
     (0xA3, with_memory memoryLog (with_gas (makeGasLog 3) (instr (simple (makeLog 3)) 0 (minStack 5 0) (maxStack 5 0)))),
     (0xA4, with_memory memoryLog (with_gas (makeGasLog 4) (instr (simple (makeLog 4)) 0 (minStack 6 0) (maxStack 6 0)))),
     (0xF0, with_memory memoryCreate (with_gas gasCreate (instr opCreate CreateGas (minStack 3 1) (maxStack 3 1)))),
     (0xF1, with_memory memoryCall (with_gas gasCall (instr opCall CallGasFrontier (minStack 7 1) (maxStack 7 1)))),
     (0xF2, with_memory memoryCall (with_gas gasCallCode (instr opCallCode CallGasFrontier (minStack 7 1) (maxStack 7 1)))),
     (0xF3, with_memory memoryReturn (with_gas gasReturn (instr (simple opReturn) 0 (minStack 2 0) (maxStack 2 0)))),
     (0xFF, with_gas gasSelfdestruct (instr (simple opSelfdestruct) 0 (minStack 1 0) (maxStack 1 0))),
     (0xFE, instr (simple opUndefined) 0 (minStack 0 0) (maxStack 0 0))]"

definition newFrontierInstructionSet :: JumpTable where
  "newFrontierInstructionSet k =
     (case map_of (frontier_arithmetic @ frontier_environment @ frontier_storage @ frontier_push @ frontier_push_more @
                   frontier_dup_swap @ frontier_swap_more @ frontier_system) k of
        Some op \<Rightarrow> op
      | None \<Rightarrow> undefined_operation)"

subsection \<open>Changes by number of the improvement proposal\<close>

definition enable1884 :: "JumpTable \<Rightarrow> JumpTable" where
  "enable1884 jt =
     (let jt = change SLOAD (with_constant SloadGasEIP1884) jt;
          jt = change BALANCE (with_constant BalanceGasEIP1884) jt;
          jt = change EXTCODEHASH (with_constant ExtcodeHashGasEIP1884) jt
      in jt(SELFBALANCE := instr (simple opSelfBalance) GasFastStep (minStack 0 1) (maxStack 0 1)))"

definition enable1344 :: "JumpTable \<Rightarrow> JumpTable" where
  "enable1344 jt = jt(CHAINID := instr (simple opChainID) GasQuickStep (minStack 0 1) (maxStack 0 1))"

definition enable2200 :: "JumpTable \<Rightarrow> JumpTable" where
  "enable2200 jt =
     change SSTORE (with_gas gasSStoreEIP2200) (change SLOAD (with_constant SloadGasEIP2200) jt)"

definition enable2929 :: "JumpTable \<Rightarrow> JumpTable" where
  "enable2929 jt =
     (let warm = (\<lambda>g op. with_gas g (with_constant WarmStorageReadCostEIP2929 op));
          jt = change SSTORE (with_gas gasSStoreEIP2929) jt;
          jt = change SLOAD (\<lambda>op. with_gas gasSLoadEIP2929 (with_constant 0 op)) jt;
          jt = change EXTCODECOPY (warm gasExtCodeCopyEIP2929) jt;
          jt = change EXTCODESIZE (warm gasEip2929AccountCheck) jt;
          jt = change EXTCODEHASH (warm gasEip2929AccountCheck) jt;
          jt = change BALANCE (warm gasEip2929AccountCheck) jt;
          jt = change CALL (warm gasCallEIP2929) jt;
          jt = change CALLCODE (warm gasCallCodeEIP2929) jt;
          jt = change STATICCALL (warm gasStaticCallEIP2929) jt;
          jt = change DELEGATECALL (warm gasDelegateCallEIP2929) jt
      in change SELFDESTRUCT (\<lambda>op. with_gas gasSelfdestructEIP2929 (with_constant SelfdestructGasEIP150 op)) jt)"

definition enable3529 :: "JumpTable \<Rightarrow> JumpTable" where
  "enable3529 jt =
     change SELFDESTRUCT (with_gas gasSelfdestructEIP3529) (change SSTORE (with_gas gasSStoreEIP3529) jt)"

definition enable3198 :: "JumpTable \<Rightarrow> JumpTable" where
  "enable3198 jt = jt(BASEFEE := instr (simple opBaseFee) GasQuickStep (minStack 0 1) (maxStack 0 1))"

definition enable1153 :: "JumpTable \<Rightarrow> JumpTable" where
  "enable1153 jt =
     jt(TLOAD := instr (simple opTload) WarmStorageReadCostEIP2929 (minStack 1 1) (maxStack 1 1),
        TSTORE := instr (simple opTstore) WarmStorageReadCostEIP2929 (minStack 2 0) (maxStack 2 0))"

definition enable3855 :: "JumpTable \<Rightarrow> JumpTable" where
  "enable3855 jt = jt(PUSH0 := instr (simple opPush0) GasQuickStep (minStack 0 1) (maxStack 0 1))"

definition enable3860 :: "JumpTable \<Rightarrow> JumpTable" where
  "enable3860 jt = change CREATE2 (with_gas gasCreate2Eip3860) (change CREATE (with_gas gasCreateEip3860) jt)"

definition enable5656 :: "JumpTable \<Rightarrow> JumpTable" where
  "enable5656 jt =
     jt(MCOPY := with_memory memoryMcopy
       (with_gas gasMcopy (instr (simple opMcopy) GasFastestStep (minStack 3 0) (maxStack 3 0))))"

definition enable4844 :: "JumpTable \<Rightarrow> JumpTable" where
  "enable4844 jt = jt(BLOBHASH := instr (simple opBlobHash) GasFastestStep (minStack 1 1) (maxStack 1 1))"

definition enable7939 :: "JumpTable \<Rightarrow> JumpTable" where
  "enable7939 jt = jt(CLZ := instr (simple opCLZ) GasFastStep (minStack 1 1) (maxStack 1 1))"

definition enable7516 :: "JumpTable \<Rightarrow> JumpTable" where
  "enable7516 jt = jt(BLOBBASEFEE := instr (simple opBlobBaseFee) GasQuickStep (minStack 0 1) (maxStack 0 1))"

definition enable6780 :: "JumpTable \<Rightarrow> JumpTable" where
  "enable6780 jt =
     jt(SELFDESTRUCT := with_gas gasSelfdestructEIP3529
       (instr (simple opSelfdestruct6780) SelfdestructGasEIP150 (minStack 1 0) (maxStack 1 0)))"

definition enable7702 :: "JumpTable \<Rightarrow> JumpTable" where
  "enable7702 jt =
     (let jt = change CALL (with_gas gasCallEIP7702) jt;
          jt = change CALLCODE (with_gas gasCallCodeEIP7702) jt;
          jt = change STATICCALL (with_gas gasStaticCallEIP7702) jt
      in change DELEGATECALL (with_gas gasDelegateCallEIP7702) jt)"

subsection \<open>Instruction sets by fork\<close>

definition newHomesteadInstructionSet :: JumpTable where
  "newHomesteadInstructionSet =
     newFrontierInstructionSet(DELEGATECALL := with_memory memoryDelegateCall
       (with_gas gasDelegateCall (instr opDelegateCall CallGasFrontier (minStack 6 1) (maxStack 6 1))))"

definition newTangerineWhistleInstructionSet :: JumpTable where
  "newTangerineWhistleInstructionSet =
     (let jt = newHomesteadInstructionSet;
          jt = change BALANCE (with_constant BalanceGasEIP150) jt;
          jt = change EXTCODESIZE (with_constant ExtcodeSizeGasEIP150) jt;
          jt = change SLOAD (with_constant SloadGasEIP150) jt;
          jt = change EXTCODECOPY (with_constant ExtcodeCopyBaseEIP150) jt;
          jt = change CALL (with_constant CallGasEIP150) jt;
          jt = change CALLCODE (with_constant CallGasEIP150) jt
      in change DELEGATECALL (with_constant CallGasEIP150) jt)"

definition newSpuriousDragonInstructionSet :: JumpTable where
  "newSpuriousDragonInstructionSet = change EXP (with_gas gasExpEIP158) newTangerineWhistleInstructionSet"

definition newByzantiumInstructionSet :: JumpTable where
  "newByzantiumInstructionSet =
     newSpuriousDragonInstructionSet(
       STATICCALL := with_memory memoryStaticCall
         (with_gas gasStaticCall (instr opStaticCall CallGasEIP150 (minStack 6 1) (maxStack 6 1))),
       RETURNDATASIZE := instr (simple opReturnDataSize) GasQuickStep (minStack 0 1) (maxStack 0 1),
       RETURNDATACOPY := with_memory memoryReturnDataCopy
         (with_gas gasReturnDataCopy (instr (simple opReturnDataCopy) GasFastestStep (minStack 3 0) (maxStack 3 0))),
       REVERT := with_memory memoryRevert
         (with_gas gasRevert (instr (simple opRevert) 0 (minStack 2 0) (maxStack 2 0))))"

definition newConstantinopleInstructionSet :: JumpTable where
  "newConstantinopleInstructionSet =
     newByzantiumInstructionSet(
       SHL := instr (simple opSHL) GasFastestStep (minStack 2 1) (maxStack 2 1),
       SHR := instr (simple opSHR) GasFastestStep (minStack 2 1) (maxStack 2 1),
       SAR := instr (simple opSAR) GasFastestStep (minStack 2 1) (maxStack 2 1),
       EXTCODEHASH := instr (simple opExtCodeHash) ExtcodeHashGasConstantinople (minStack 1 1) (maxStack 1 1),
       CREATE2 := with_memory memoryCreate2
         (with_gas gasCreate2 (instr opCreate2 Create2Gas (minStack 4 1) (maxStack 4 1))))"

definition newIstanbulInstructionSet :: JumpTable where
  "newIstanbulInstructionSet = enable2200 (enable1884 (enable1344 newConstantinopleInstructionSet))"

definition newBerlinInstructionSet :: JumpTable where
  "newBerlinInstructionSet = enable2929 newIstanbulInstructionSet"

definition newLondonInstructionSet :: JumpTable where
  "newLondonInstructionSet = enable3198 (enable3529 newBerlinInstructionSet)"

definition newMergeInstructionSet :: JumpTable where
  "newMergeInstructionSet =
     newLondonInstructionSet(PREVRANDAO := instr (simple opRandom) GasQuickStep (minStack 0 1) (maxStack 0 1))"

definition newShanghaiInstructionSet :: JumpTable where
  "newShanghaiInstructionSet = enable3860 (enable3855 newMergeInstructionSet)"

definition newCancunInstructionSet :: JumpTable where
  "newCancunInstructionSet =
     enable6780 (enable5656 (enable1153 (enable7516 (enable4844 newShanghaiInstructionSet))))"

definition newPragueInstructionSet :: JumpTable where
  "newPragueInstructionSet = enable7702 newCancunInstructionSet"

definition newOsakaInstructionSet :: JumpTable where
  "newOsakaInstructionSet = enable7939 newPragueInstructionSet"

subsection \<open>The choice of the instruction set\<close>

text \<open>
  The proposals that can be switched on one by one. Proposal 4762, the gas costs of Verkle trees,
  is known to the code and is not modelled: its entry is \<open>None\<close>.
\<close>

definition activators :: "(int \<times> (JumpTable \<Rightarrow> JumpTable) option) list" where
  "activators =
     [(5656, Some enable5656), (6780, Some enable6780), (3855, Some enable3855), (3860, Some enable3860),
      (3529, Some enable3529), (3198, Some enable3198), (2929, Some enable2929), (2200, Some enable2200),
      (1884, Some enable1884), (1344, Some enable1344), (1153, Some enable1153), (4762, None),
      (7702, Some enable7702), (7939, Some enable7939)]"

text \<open>
  The inner option is the outcome, with \<open>None\<close> for the error of a proposal that is not defined. The
  outer \<open>None\<close> stands for a table that is not modelled.
\<close>

definition EnableEIP :: "int \<Rightarrow> JumpTable \<Rightarrow> JumpTable option option" where
  "EnableEIP eipNum jt =
     (case map_of activators eipNum of
        None \<Rightarrow> Some None
      | Some enablerFn \<Rightarrow> map_option (\<lambda>enablerFn. Some (enablerFn jt)) enablerFn)"

text \<open>The table for the rules: \<open>None\<close> stands for the set that is not modelled.\<close>

definition instruction_set :: "Rules \<Rightarrow> JumpTable option" where
  "instruction_set rules =
     (if IsOsaka rules then Some newOsakaInstructionSet
      else if IsVerkle rules then None
      else if IsPrague rules then Some newPragueInstructionSet
      else if IsCancun rules then Some newCancunInstructionSet
      else if IsShanghai rules then Some newShanghaiInstructionSet
      else if IsMerge rules then Some newMergeInstructionSet
      else if IsLondon rules then Some newLondonInstructionSet
      else if IsBerlin rules then Some newBerlinInstructionSet
      else if IsIstanbul rules then Some newIstanbulInstructionSet
      else if IsConstantinople rules then Some newConstantinopleInstructionSet
      else if IsByzantium rules then Some newByzantiumInstructionSet
      else if IsEIP158 rules then Some newSpuriousDragonInstructionSet
      else if IsEIP150 rules then Some newTangerineWhistleInstructionSet
      else if IsHomestead rules then Some newHomesteadInstructionSet
      else Some newFrontierInstructionSet)"

text \<open>An extra proposal that is not known is logged and skipped.\<close>

primrec enable_extra :: "int list \<Rightarrow> JumpTable \<Rightarrow> JumpTable option" where
  "enable_extra [] jt = Some jt"
| "enable_extra (eip # extraEips) jt =
     (case EnableEIP eip jt of
        None \<Rightarrow> None
      | Some None \<Rightarrow> enable_extra extraEips jt
      | Some (Some jt) \<Rightarrow> enable_extra extraEips jt)"

text \<open>
  Under the rules of proposal 4762 the EVM charges for what it adds to the witness of a Verkle
  tree, whichever instruction set it runs. These charges are not modelled, and a machine with
  these rules has no table here.
\<close>

definition NewEVM_table :: "Rules \<Rightarrow> int list \<Rightarrow> JumpTable option" where
  "NewEVM_table rules extraEips =
     (if IsEIP4762 rules then None else Option.bind (instruction_set rules) (enable_extra extraEips))"

end
