(* ===== verification/VMInterp.thy ===== *)
theory VMInterp
imports VMJumpTable Rlp
begin

text \<open>
  The interpreter loop (\<^verbatim>\<open>core/vm/interpreter.go\<close>) and the operations of the EVM that start an
  execution (\<^verbatim>\<open>core/vm/evm.go\<close>). Code runs code, so the definitions are tied together by fuel: the
  loop uses one unit for each instruction, and what an instruction calls runs with what is
  left. That an amount of fuel which depends only on the gas is enough is a theorem of the
  theory on termination. Tracers, the address filter and the stack of contracts of the
  processing hook only observe and are left out. The charges of Verkle trees are not modelled: an
  execution that reaches one of them stops without a result.
\<close>

subsection \<open>Operations on the EVM\<close>

type_synonym 'a evm = "EVM \<Rightarrow> ('a \<times> EVM) run"

definition eret :: "'a \<Rightarrow> 'a evm" where
  "eret x e = Result (x, e)"

definition ebind :: "'a evm \<Rightarrow> ('a \<Rightarrow> 'b evm) \<Rightarrow> 'b evm" where
  "ebind m k e = rbind (m e) (\<lambda>(x, e). k x e)"

definition edb :: "(StateDB \<Rightarrow> 'a \<times> StateDB) \<Rightarrow> 'a evm" where
  "edb op e = (case op (evm_StateDB e) of (x, s) \<Rightarrow> Result (x, e\<lparr>evm_StateDB := s\<rparr>))"

definition edb_upd :: "(StateDB \<Rightarrow> StateDB) \<Rightarrow> unit evm" where
  "edb_upd op e = Result ((), e\<lparr>evm_StateDB := op (evm_StateDB e)\<rparr>)"

definition edb_opt :: "(StateDB \<Rightarrow> StateDB option) \<Rightarrow> unit evm" where
  "edb_opt op e = rbind (ropt (op (evm_StateDB e))) (\<lambda>s. Result ((), e\<lparr>evm_StateDB := s\<rparr>))"

definition ewhen :: "bool \<Rightarrow> unit evm \<Rightarrow> unit evm" where
  "ewhen b m = (if b then m else eret ())"

definition eget :: "(EVM \<Rightarrow> 'a) \<Rightarrow> 'a evm" where
  "eget g e = Result (g e, e)"

text \<open>
  Where the code charges for the witness of a Verkle tree (proposal 4762), the model stops: the
  charges are not modelled, and no result of such an execution is claimed.
\<close>

definition witness_charge :: "unit evm" where
  "witness_charge e = Panic"

subsection \<open>Transfers, precompiled contracts and code\<close>

definition CanTransfer :: "Env \<Rightarrow> address \<Rightarrow> u256 \<Rightarrow> bool evm" where
  "CanTransfer E addr amount = ebind (edb (GetBalance E addr)) (\<lambda>b. eret (b \<ge> amount))"

definition Transfer :: "Env \<Rightarrow> address \<Rightarrow> address \<Rightarrow> u256 \<Rightarrow> unit evm" where
  "Transfer E sender recipient amount =
     ebind (edb (SubBalance E sender amount)) (\<lambda>_. ebind (edb (AddBalance E recipient amount)) (\<lambda>_. eret ()))"

definition RunPrecompiledContract ::
    "EvmCfg \<Rightarrow> PrecompiledContract \<Rightarrow> bytes \<Rightarrow> u64 \<Rightarrow> PrecompileCall \<Rightarrow> call_result evm" where
  "RunPrecompiledContract cfg p input suppliedGas info =
     (case p of
        AdvancedPrecompile run \<Rightarrow> (\<lambda>e. ropt (run input suppliedGas info e))
      | PlainPrecompile requiredGas run \<Rightarrow>
          let gasCost = requiredGas (ctx_ArbOSVersion cfg) input
          in if suppliedGas < gasCost then eret ([], 0, ComputationGas suppliedGas, Some ErrOutOfGas)
             else case run (ctx_ArbOSVersion cfg) input of
                    (output, err) \<Rightarrow> eret (output, suppliedGas - gasCost, ComputationGas gasCost, err))"

definition resolveCode :: "Env \<Rightarrow> EvmCfg \<Rightarrow> address \<Rightarrow> bytes evm" where
  "resolveCode E cfg addr =
     ebind (edb (GetCode E addr)) (\<lambda>code.
       if \<not> IsPrague (chainRules cfg) then eret code
       else case ParseDelegation code of
              Some target \<Rightarrow>
                if precompile cfg target \<noteq> None \<and> ctx_ArbOSVersion cfg \<ge> 50 then eret []
                else edb (GetCode E target)
            | None \<Rightarrow> eret code)"

definition resolveCodeHash :: "Env \<Rightarrow> EvmCfg \<Rightarrow> address \<Rightarrow> hash evm" where
  "resolveCodeHash E cfg addr =
     (if IsPrague (chainRules cfg) then
        ebind (edb (GetCode E addr)) (\<lambda>code.
          case ParseDelegation code of
            Some target \<Rightarrow> edb (GetCodeHash E target)
          | None \<Rightarrow> edb (GetCodeHash E addr))
      else edb (GetCodeHash E addr))"

subsection \<open>Calls\<close>

text \<open>
  The definitions of this section take \<^verbatim>\<open>EVM.Run\<close> as the argument \<open>run\<close>. It gets a contract, the
  input and the flag for a static call, and returns the bytes, the error and the contract as
  the execution left it.
\<close>

type_synonym runner = "Contract \<Rightarrow> bytes \<Rightarrow> bool \<Rightarrow> (bytes \<times> vmerror option \<times> Contract) evm"

abbreviation (input) CallCreateDepth :: int where "CallCreateDepth \<equiv> 1024"
abbreviation (input) CreateDataGas :: u64 where "CreateDataGas \<equiv> 200"
abbreviation (input) SystemAddress :: address where
  "SystemAddress \<equiv> 0xfffffffffffffffffffffffffffffffffffffffe"

definition isSystemCall :: "address \<Rightarrow> bool" where
  "isSystemCall caller \<longleftrightarrow> caller = SystemAddress"

definition run_precompile ::
    "EvmCfg \<Rightarrow> PrecompiledContract \<Rightarrow> bytes \<Rightarrow> u64 \<Rightarrow> PrecompileCall \<Rightarrow> call_result evm" where
  "run_precompile cfg p input gas info =
     ebind (RunPrecompiledContract cfg p input gas info) (\<lambda>(ret, gas, precompileMultiGas, err).
       eret (ret, gas, SaturatingAddInto ZeroGas precompileMultiGas, err))"

definition run_contract :: "runner \<Rightarrow> Contract \<Rightarrow> bytes \<Rightarrow> bool \<Rightarrow> call_result evm" where
  "run_contract run contract input readOnly =
     ebind (run contract input readOnly) (\<lambda>(ret, err, contract).
       eret (ret, ct_Gas contract, SaturatingAddInto ZeroGas (GetTotalUsedMultiGas contract), err))"

text \<open>The end of all calls: an error reverts the state, and consumes the gas unless it is a revert.\<close>

definition settle :: "Env \<Rightarrow> int \<Rightarrow> call_result \<Rightarrow> call_result evm" where
  "settle E snapshot = (\<lambda>(ret, gas, usedMultiGas, err).
     if err = None then eret (ret, gas, usedMultiGas, err)
     else ebind (edb_opt (RevertToSnapshot E snapshot)) (\<lambda>_.
       if err \<noteq> Some ErrExecutionReverted then
         eret (ret, 0, SaturatingIncrementInto usedMultiGas ResourceKindComputation gas, err)
       else eret (ret, gas, usedMultiGas, err)))"

definition evm_Call :: "runner \<Rightarrow> Env \<Rightarrow> EvmCfg \<Rightarrow> address \<Rightarrow> address \<Rightarrow> bytes \<Rightarrow> u64 \<Rightarrow> u256 \<Rightarrow> call_result evm" where
  "evm_Call run E cfg caller addr input gas v =
     ebind (eget evm_depth) (\<lambda>depth.
     if depth > CallCreateDepth then eret ([], gas, ZeroGas, Some ErrDepth)
     else
     ebind (if v \<noteq> 0 then CanTransfer E caller v else eret True) (\<lambda>can.
     if \<not> can then eret ([], gas, ZeroGas, Some ErrInsufficientBalance)
     else
     ebind (edb Snapshot) (\<lambda>snapshot.
     let p = precompile cfg addr in
     ebind (edb (Exist E addr)) (\<lambda>exist.
     ebind (ewhen (\<not> exist \<and> p = None \<and> IsEIP4762 (chainRules cfg) \<and> \<not> isSystemCall caller) witness_charge) (\<lambda>_.
     if \<not> exist \<and> p = None \<and> IsEIP158 (chainRules cfg) \<and> v = 0 then eret ([], gas, ZeroGas, None)
     else
     ebind (ewhen (\<not> exist) (edb_upd (CreateAccount E addr))) (\<lambda>_.
     ebind (Transfer E caller addr v) (\<lambda>_.
     ebind
       (case p of
          Some p \<Rightarrow>
            run_precompile cfg p input gas
              \<lparr>pi_PrecompileAddress = addr, pi_ActingAsAddress = addr, pi_Caller = caller, pi_Value = v, pi_ReadOnly = False\<rparr>
        | None \<Rightarrow>
            ebind (resolveCode E cfg addr) (\<lambda>code.
            if code = [] then eret ([], gas, ZeroGas, None)
            else
            ebind (resolveCodeHash E cfg addr) (\<lambda>h.
            let contract = (NewContract caller addr v gas)\<lparr>IsSystemCall := isSystemCall caller\<rparr>
            in run_contract run (SetCallCode contract h code) input False)))
       (settle E snapshot))))))))"

text \<open>The code of another account that runs in the context of the caller.\<close>

definition run_code_of ::
    "runner \<Rightarrow> Env \<Rightarrow> EvmCfg \<Rightarrow> address \<Rightarrow> Contract \<Rightarrow> PrecompileCall \<Rightarrow> bytes \<Rightarrow> bool \<Rightarrow> call_result evm" where
  "run_code_of run E cfg addr contract info input readOnly =
     (case precompile cfg addr of
        Some p \<Rightarrow> run_precompile cfg p input (ct_Gas contract) info
      | None \<Rightarrow>
          ebind (resolveCodeHash E cfg addr) (\<lambda>h. ebind (resolveCode E cfg addr) (\<lambda>code.
          run_contract run (SetCallCode contract h code) input readOnly)))"

definition evm_CallCode :: "runner \<Rightarrow> Env \<Rightarrow> EvmCfg \<Rightarrow> address \<Rightarrow> address \<Rightarrow> bytes \<Rightarrow> u64 \<Rightarrow> u256 \<Rightarrow> call_result evm" where
  "evm_CallCode run E cfg caller addr input gas v =
     ebind (eget evm_depth) (\<lambda>depth.
     if depth > CallCreateDepth then eret ([], gas, ZeroGas, Some ErrDepth)
     else
     ebind (CanTransfer E caller v) (\<lambda>can.
     if \<not> can then eret ([], gas, ZeroGas, Some ErrInsufficientBalance)
     else
     ebind (edb Snapshot) (\<lambda>snapshot.
     ebind (run_code_of run E cfg addr ((NewContract caller caller v gas)\<lparr>delegateOrCallcode := True\<rparr>)
         \<lparr>pi_PrecompileAddress = addr, pi_ActingAsAddress = caller, pi_Caller = caller, pi_Value = v, pi_ReadOnly = False\<rparr>
         input False)
       (settle E snapshot))))"

definition evm_DelegateCall ::
    "runner \<Rightarrow> Env \<Rightarrow> EvmCfg \<Rightarrow> address \<Rightarrow> address \<Rightarrow> address \<Rightarrow> bytes \<Rightarrow> u64 \<Rightarrow> u256 \<Rightarrow> call_result evm" where
  "evm_DelegateCall run E cfg originCaller caller addr input gas v =
     ebind (eget evm_depth) (\<lambda>depth.
     if depth > CallCreateDepth then eret ([], gas, ZeroGas, Some ErrDepth)
     else
     ebind (edb Snapshot) (\<lambda>snapshot.
     ebind (run_code_of run E cfg addr ((NewContract originCaller caller v gas)\<lparr>delegateOrCallcode := True\<rparr>)
         \<lparr>pi_PrecompileAddress = addr, pi_ActingAsAddress = caller, pi_Caller = originCaller, pi_Value = v, pi_ReadOnly = False\<rparr>
         input False)
       (settle E snapshot)))"

definition evm_StaticCall :: "runner \<Rightarrow> Env \<Rightarrow> EvmCfg \<Rightarrow> address \<Rightarrow> address \<Rightarrow> bytes \<Rightarrow> u64 \<Rightarrow> call_result evm" where
  "evm_StaticCall run E cfg caller addr input gas =
     ebind (eget evm_depth) (\<lambda>depth.
     if depth > CallCreateDepth then eret ([], gas, ZeroGas, Some ErrDepth)
     else
     ebind (edb Snapshot) (\<lambda>snapshot.
     ebind (edb (AddBalance E addr 0)) (\<lambda>_.
     ebind (run_code_of run E cfg addr (NewContract caller addr 0 gas)
         \<lparr>pi_PrecompileAddress = addr, pi_ActingAsAddress = addr, pi_Caller = caller, pi_Value = 0, pi_ReadOnly = True\<rparr>
         input True)
       (settle E snapshot))))"

subsection \<open>Contract creation\<close>

text \<open>\<^verbatim>\<open>initNewContract\<close>: the result, the error and the contract.\<close>

definition initNewContract ::
    "runner \<Rightarrow> Env \<Rightarrow> EvmCfg \<Rightarrow> Contract \<Rightarrow> address \<Rightarrow> (bytes \<times> vmerror option \<times> Contract) evm" where
  "initNewContract run E cfg contract address =
     ebind (run contract [] False) (\<lambda>(ret, err, contract).
     let rules = chainRules cfg in
     if err \<noteq> None then eret (ret, err, contract)
     else if IsEIP158 rules \<and> int (length ret) > sint (MaxCodeSize (chainConfig cfg)) then
       eret (ret, Some ErrMaxCodeSizeExceeded, contract)
     else if length ret \<ge> 1 \<and> ret ! 0 = 0xEF \<and> IsLondon rules \<and>
         \<not> (IsArbitrum rules \<and> IsStylusComponentPrefix ret (ArbOSVersion rules)) then
       eret (ret, Some ErrInvalidCode, contract)
     else
       case UseMultiGas contract (StorageGrowthGas (word_of_nat (length ret) * CreateDataGas)) of
         (ok, contract) \<Rightarrow>
           if \<not> ok then eret (ret, Some ErrCodeStoreOutOfGas, contract)
           else if length ret > 0 then ebind (edb (SetCode E address ret)) (\<lambda>_. eret (ret, None, contract))
           else eret (ret, None, contract))"

text \<open>
  Under proposal 4762 the code charges a first time after it has raised the nonce of the creator
  and again before the transfer. The model stops at the first of these charges.
\<close>

definition evm_create :: "runner \<Rightarrow> Env \<Rightarrow> EvmCfg \<Rightarrow> address \<Rightarrow> bytes \<Rightarrow> u64 \<Rightarrow> u256 \<Rightarrow> address \<Rightarrow> create_result evm" where
  "evm_create run E cfg caller code gas v address =
     (let rules = chainRules cfg in
     ebind (eget evm_depth) (\<lambda>depth.
     if depth > CallCreateDepth then eret ([], 0, gas, ZeroGas, Some ErrDepth)
     else
     ebind (CanTransfer E caller v) (\<lambda>can.
     if \<not> can then eret ([], 0, gas, ZeroGas, Some ErrInsufficientBalance)
     else
     ebind (edb (GetNonce E caller)) (\<lambda>nonce.
     if nonce + 1 < nonce then eret ([], 0, gas, ZeroGas, Some ErrNonceUintOverflow)
     else
     ebind (edb_upd (SetNonce E caller (nonce + 1))) (\<lambda>_.
     ebind (ewhen (IsEIP4762 rules) witness_charge) (\<lambda>_.
     ebind (ewhen (IsEIP2929 rules) (edb_upd (AddAddressToAccessList address))) (\<lambda>_.
     ebind (edb (GetCodeHash E address)) (\<lambda>contractHash.
     ebind (edb (GetStorageRoot E address)) (\<lambda>storageRoot.
     ebind (edb (GetNonce E address)) (\<lambda>nonce.
     if nonce \<noteq> 0 \<or> (contractHash \<noteq> 0 \<and> contractHash \<noteq> EmptyCodeHash E) \<or>
         (storageRoot \<noteq> 0 \<and> storageRoot \<noteq> EmptyRootHash) then
       eret ([], 0, 0, ComputationGas gas, Some ErrContractAddressCollision)
     else
     ebind (edb Snapshot) (\<lambda>snapshot.
     ebind (edb (Exist E address)) (\<lambda>exist.
     ebind (ewhen (\<not> exist) (edb_upd (CreateAccount E address))) (\<lambda>_.
     ebind (edb_opt (CreateContract E address)) (\<lambda>_.
     ebind (ewhen (IsEIP158 rules) (edb_upd (SetNonce E address 1))) (\<lambda>_.
     ebind (Transfer E caller address v) (\<lambda>_.
     let contract = (SetCallCode (NewContract caller address v gas) 0 code)\<lparr>IsDeployment := True\<rparr> in
     ebind (initNewContract run E cfg contract address) (\<lambda>(ret, err, contract).
     if err \<noteq> None \<and> (IsHomestead rules \<or> err \<noteq> Some ErrCodeStoreOutOfGas) then
       ebind (edb_opt (RevertToSnapshot E snapshot)) (\<lambda>_.
         let contract = (if err \<noteq> Some ErrExecutionReverted
                         then snd (UseMultiGas contract (ComputationGas (ct_Gas contract))) else contract)
         in eret (ret, address, ct_Gas contract, GetTotalUsedMultiGas contract, err))
     else eret (ret, address, ct_Gas contract, GetTotalUsedMultiGas contract, err))))))))))))))))))"

text \<open>
  The addresses of \<^verbatim>\<open>crypto.CreateAddress\<close> and \<^verbatim>\<open>crypto.CreateAddress2\<close>, the last twenty bytes of a hash.
  Encoding an address and a nonce cannot fail.
\<close>

definition CreateAddress :: "(bytes \<Rightarrow> hash) \<Rightarrow> address \<Rightarrow> u64 \<Rightarrow> address" where
  "CreateAddress kec b nonce =
     (let data = (case EncodeToBytes (VSlice [VBytes (be_bytes 20 b), VUint nonce]) of Some data \<Rightarrow> data | None \<Rightarrow> [])
      in be_word (drop 12 (be_bytes 32 (kec data))))"

definition CreateAddress2 :: "(bytes \<Rightarrow> hash) \<Rightarrow> address \<Rightarrow> u256 \<Rightarrow> hash \<Rightarrow> address" where
  "CreateAddress2 kec b salt inithash =
     be_word (drop 12 (be_bytes 32 (kec ([0xff] @ be_bytes 20 b @ be_bytes 32 salt @ be_bytes 32 inithash))))"

definition evm_Create :: "runner \<Rightarrow> Env \<Rightarrow> EvmCfg \<Rightarrow> address \<Rightarrow> bytes \<Rightarrow> u64 \<Rightarrow> u256 \<Rightarrow> create_result evm" where
  "evm_Create run E cfg caller code gas v =
     ebind (edb (GetNonce E caller)) (\<lambda>nonce.
       evm_create run E cfg caller code gas v (CreateAddress (env_keccak E) caller nonce))"

definition evm_Create2 :: "runner \<Rightarrow> Env \<Rightarrow> EvmCfg \<Rightarrow> address \<Rightarrow> bytes \<Rightarrow> u64 \<Rightarrow> u256 \<Rightarrow> u256 \<Rightarrow> create_result evm" where
  "evm_Create2 run E cfg caller code gas endowment salt =
     evm_create run E cfg caller code gas endowment
       (CreateAddress2 (env_keccak E) caller salt (env_keccak E code))"

definition callees :: "runner \<Rightarrow> Env \<Rightarrow> EvmCfg \<Rightarrow> Callees" where
  "callees run E cfg =
     \<lparr>c_Call = evm_Call run E cfg, c_CallCode = evm_CallCode run E cfg, c_DelegateCall = evm_DelegateCall run E cfg,
      c_StaticCall = evm_StaticCall run E cfg, c_Create = evm_Create run E cfg, c_Create2 = evm_Create2 run E cfg\<rparr>"

subsection \<open>The loop\<close>

text \<open>The dynamic gas functions report their errors as running out of gas.\<close>

definition out_of_gas :: "'a vm \<Rightarrow> 'a vm" where
  "out_of_gas m f = (case m f of Some (Inl e, f) \<Rightarrow> Some (Inl ErrOutOfGas, f) | r \<Rightarrow> r)"

text \<open>\<^verbatim>\<open>if contract.Gas < cost \<dots> else contract.Gas -= cost\<close>, with the cost noted in \<^verbatim>\<open>UsedMultiGas\<close>.\<close>

definition pay :: "u64 \<Rightarrow> (MultiGas \<Rightarrow> MultiGas) \<Rightarrow> unit vm" where
  "pay cost note' =
     vbind (vget (\<lambda>f. ct_Gas (fr_contract f))) (\<lambda>gas.
       if gas < cost then vfail ErrOutOfGas
       else vcontract (\<lambda>c. ((), c\<lparr>ct_Gas := ct_Gas c - cost, UsedMultiGas := note' (UsedMultiGas c)\<rparr>)))"

definition check_stack :: "operation \<Rightarrow> unit vm" where
  "check_stack operation =
     vbind (vget (\<lambda>f. int (st_len (fr_stack f)))) (\<lambda>sLen.
       if sLen < op_minStack operation then vfail (ErrStackUnderflow sLen (op_minStack operation))
       else if sLen > op_maxStack operation then vfail (ErrStackOverflow sLen (op_maxStack operation))
       else vret ())"

definition memory_size :: "operation \<Rightarrow> u64 vm" where
  "memory_size operation =
     (case op_memorySize operation of
        None \<Rightarrow> vret 0
      | Some memorySize \<Rightarrow>
          vbind (vopt (\<lambda>f. memorySize (fr_stack f))) (\<lambda>r.
          vbind (vcheck r) (\<lambda>memSize. vcheck (math_SafeMul (toWordSize memSize) 32))))"

definition charge_dynamic :: "operation \<Rightarrow> Env \<Rightarrow> EvmCfg \<Rightarrow> u64 vm" where
  "charge_dynamic operation E cfg =
     (case op_dynamicGas operation of
        None \<Rightarrow> vret 0
      | Some dynamicGas \<Rightarrow>
          vbind (memory_size operation) (\<lambda>memorySize.
          vbind (out_of_gas (dynamicGas E cfg memorySize)) (\<lambda>multigasDynamicCost.
          vthen (pay (SingleGas multigasDynamicCost) (\<lambda>used. SaturatingAddInto used multigasDynamicCost))
            (vret memorySize))))"

text \<open>What the loop does before it executes the operation.\<close>

definition prepare_op :: "operation \<Rightarrow> u8 \<Rightarrow> Env \<Rightarrow> EvmCfg \<Rightarrow> unit vm" where
  "prepare_op operation op E cfg =
     vthen (check_stack operation)
    (vthen (pay (op_constantGas operation) (\<lambda>used. addConstantMultiGas used (op_constantGas operation) op))
    (vbind (charge_dynamic operation E cfg) (\<lambda>memorySize.
       vwhen (memorySize > 0) (vmem (\<lambda>m. Some (mem_Resize memorySize m))))))"

definition run_op :: "JumpTable \<Rightarrow> executor" where
  "run_op jumpTable cs E cfg =
     xbind (lift_vm (
       vthen (vopt (\<lambda>f. if IsEIP4762 (chainRules cfg) \<and> \<not> IsDeployment (fr_contract f) \<and> \<not> IsSystemCall (fr_contract f)
                        then None else Some ()))
      (vbind (vget (\<lambda>f. GetOp (fr_contract f) (fr_pc f))) (\<lambda>op.
       vthen (prepare_op (jumpTable op) op E cfg) (vret op)))))
       (\<lambda>op. op_execute (jumpTable op) cs E cfg)"

text \<open>The stop token is cleared when the loop ends.\<close>

definition clear_stop :: "vmerror option \<Rightarrow> vmerror option" where
  "clear_stop err = (if err = Some errStopToken then None else err)"

type_synonym loop = "Frame \<Rightarrow> ((bytes \<times> vmerror option) \<times> Frame) run"

definition evm_Run :: "loop \<Rightarrow> EvmCfg \<Rightarrow> runner" where
  "evm_Run loop cfg contract input readOnly e =
     (let sets = readOnly \<and> \<not> evm_readOnly e;
          e = e\<lparr>evm_depth := evm_depth e + 1\<rparr>;
          e = (if sets then e\<lparr>evm_readOnly := True\<rparr> else e);
          e = e\<lparr>evm_returnData := []\<rparr>;
          leave = (\<lambda>e. let e = (if sets then e\<lparr>evm_readOnly := False\<rparr> else e) in e\<lparr>evm_depth := evm_depth e - 1\<rparr>)
      in if ct_Code contract = [] then Result (([], None, contract), leave e)
         else
           let f = \<lparr>fr_evm = e, fr_contract = contract\<lparr>ct_Input := input\<rparr>, fr_stack = newstack, fr_mem = NewMemory, fr_pc = 0\<rparr>
           in rbind
                (if IsArbitrum (chainRules cfg) \<and> IsStylusDeployableProgramPrefix (ct_Code contract) (ArbOSVersion (chainRules cfg))
                 then ropt (hook_ExecuteWASM cfg input f) else loop f)
                (\<lambda>((ret, err), f). Result ((ret, err, fr_contract f), leave (fr_evm f))))"

primrec interp :: "nat \<Rightarrow> JumpTable \<Rightarrow> Env \<Rightarrow> EvmCfg \<Rightarrow> loop" where
  "interp 0 jumpTable E cfg f = OutOfFuel"
| "interp (Suc n) jumpTable E cfg f =
     rbind (run_op jumpTable (callees (evm_Run (interp n jumpTable E cfg) cfg) E cfg) E cfg f) (\<lambda>(r, f).
       case r of
         Inl err \<Rightarrow> Result (([], clear_stop (Some err)), f)
       | Inr (res, Some err) \<Rightarrow> Result ((res, clear_stop (Some err)), f)
       | Inr (res, None) \<Rightarrow> interp n jumpTable E cfg (f\<lparr>fr_pc := fr_pc f + 1\<rparr>))"

text \<open>The interpreter with fuel, and the operations on top of it.\<close>

definition run_with :: "nat \<Rightarrow> JumpTable \<Rightarrow> Env \<Rightarrow> EvmCfg \<Rightarrow> runner" where
  "run_with n jumpTable E cfg = evm_Run (interp n jumpTable E cfg) cfg"

end
