(* ===== verification/VMOps.thy ===== *)
theory VMOps
imports VMInterp VMGasLaws
begin

text \<open>
  What single operations do to the gas and to the height of the stack. Both are tracked through
  the computations by rules: the gas is left alone by everything but the operations that call,
  and the height of the stack changes by a number that can be read off the code.
\<close>

subsection \<open>Gas\<close>

definition gas_left :: "Frame \<Rightarrow> nat" where
  "gas_left f = unat (ct_Gas (fr_contract f))"

lemma gas_left_simps [simp]:
  "gas_left (set_db s f) = gas_left f" "gas_left (f\<lparr>fr_mem := m\<rparr>) = gas_left f" "gas_left (f\<lparr>fr_evm := e\<rparr>) = gas_left f"
  "gas_left (f\<lparr>fr_stack := st\<rparr>) = gas_left f" "gas_left (f\<lparr>fr_pc := pc\<rparr>) = gas_left f"
  by (simp_all add: gas_left_def set_db_def)

lemma gas_left_bound: "gas_left f < 2 ^ 64"
  using u64_bound [of "ct_Gas (fr_contract f)"] by (simp add: gas_left_def)

lemma keeps_gas_contract: "keeps fr_contract m \<Longrightarrow> keeps gas_left m"
  by (auto simp: keeps_def gas_left_def)

lemma keeps_frame [keeps_intros]:
  "(\<And>f st. g (f\<lparr>fr_stack := st\<rparr>) = g f) \<Longrightarrow> keeps g vpop"
  "(\<And>f st. g (f\<lparr>fr_stack := st\<rparr>) = g f) \<Longrightarrow> keeps g (vpush x)"
  "(\<And>f st. g (f\<lparr>fr_stack := st\<rparr>) = g f) \<Longrightarrow> keeps g (vset x)"
  "(\<And>f st. g (f\<lparr>fr_stack := st\<rparr>) = g f) \<Longrightarrow> keeps g (vstack op1)"
  "keeps g vpeek"
  "(\<And>f m. g (f\<lparr>fr_mem := m\<rparr>) = g f) \<Longrightarrow> keeps g (vmem op2)"
  "(\<And>f e. g (f\<lparr>fr_evm := e\<rparr>) = g f) \<Longrightarrow> keeps g (vevm op3)"
  "(\<And>f pc. g (f\<lparr>fr_pc := pc\<rparr>) = g f) \<Longrightarrow> keeps g (vpc op4)"
  by (auto simp: keeps_def vpop_def vpush_def vset_def vstack_def vpeek_def vopt_def vmem_def vevm_def vpc_def
      split: option.splits)

lemma keeps_option [keeps_intros]:
  "(\<And>x. keeps g (m x)) \<Longrightarrow> keeps g n \<Longrightarrow> keeps g (case v of None \<Rightarrow> n | Some x \<Rightarrow> m x)"
  by (cases v) simp_all

lemma keeps_sum [keeps_intros]:
  "(\<And>x. keeps g (m x)) \<Longrightarrow> (\<And>y. keeps g (n y)) \<Longrightarrow> keeps g (case v of Inl x \<Rightarrow> m x | Inr y \<Rightarrow> n y)"
  by (cases v) simp_all

lemma keeps_let [keeps_intros]: "(\<And>x. keeps g (m x)) \<Longrightarrow> keeps g (let x = v in m x)"
  by simp

lemma validJumpdest_gas: "validJumpdest jd c pos = Some (ok, jd', c') \<Longrightarrow> ct_Gas c' = ct_Gas c"
  by (auto simp: validJumpdest_def isCode_def Let_def split: if_splits option.splits prod.splits Option.bind_splits)

lemma keeps_valid [keeps_intros]: "keeps gas_left (vvalid pos)"
  by (auto simp: keeps_def vvalid_def gas_left_def dest: validJumpdest_gas split: option.splits)

lemma keeps_shapes [keeps_intros]:
  "keeps gas_left fin" "keeps gas_left (un_op h1)" "keeps gas_left (bin_op h2)" "keeps gas_left (tern_op h3)"
  "keeps gas_left (push_op h4)" "keeps gas_left (push_big v)" "keeps gas_left (jump_to pos)"
  unfolding fin_def un_op_def bin_op_def tern_op_def push_op_def push_big_def jump_to_def
  by (intro keeps_intros; simp)+

lemma keeps_guards [keeps_intros]:
  "keeps gas_left m \<Longrightarrow> keeps gas_left (protect m)" "keeps gas_left m' \<Longrightarrow> keeps gas_left (unless_aborted m')"
  unfolding protect_def unless_aborted_def by (intro keeps_intros; simp)+

lemma keeps_topics [keeps_intros]: "keeps gas_left (pop_topics n)"
  by (induction n) (simp_all add: keeps_intros)

subsection \<open>The height of the stack\<close>

abbreviation height :: "Frame \<Rightarrow> int" where
  "height f \<equiv> int (st_len (fr_stack f))"

text \<open>A computation that ends well changes the height by \<open>d\<close>.\<close>

definition shifts :: "int \<Rightarrow> 'a vm \<Rightarrow> bool" where
  "shifts d m \<longleftrightarrow> (\<forall>f x f'. m f = Some (Inr x, f') \<longrightarrow> height f' = height f + d)"

text \<open>An instruction after which the execution continues changes the height by \<open>d\<close>.\<close>

definition continues :: "int \<Rightarrow> (bytes \<times> vmerror option) vm \<Rightarrow> bool" where
  "continues d m \<longleftrightarrow> (\<forall>f res f'. m f = Some (Inr (res, None), f') \<longrightarrow> height f' = height f + d)"

named_theorems shift_intros \<open>how computations change the height of the stack\<close>

lemma shiftsD: "shifts d m \<Longrightarrow> m f = Some (Inr x, f') \<Longrightarrow> height f' = height f + d"
  by (simp add: shifts_def)

lemma shifts_stack [shift_intros]:
  "shifts (- 1) vpop" "shifts 1 (vpush x)" "shifts 0 (vset x)" "shifts 0 vpeek"
  "shifts 0 (vstack (st_swap n))" "shifts 1 (vstack (st_dup n))"
  by (auto simp: shifts_def vpop_def vpush_def vset_def vstack_def vpeek_def vopt_def st_pop_def st_push_def set_top_def
      st_len_def st_dup_def st_swap_def Let_def of_nat_diff Suc_le_eq split: option.splits if_splits)

lemma keeps_shifts: "keeps fr_stack m \<Longrightarrow> shifts 0 m"
  by (auto simp: shifts_def dest: keepsD)

lemma shifts_zero [shift_intros]:
  "shifts 0 (vret x)" "shifts 0 (vget h)" "shifts 0 (vopt h')" "shifts 0 self" "shifts 0 (vmem op2)"
  "shifts 0 (vevm op3)" "shifts 0 (vpc op4)" "shifts 0 (vdb op5)" "shifts 0 (vdb_upd op6)" "shifts 0 (vdb_opt op7)"
  "shifts 0 (vcontract op8)" "shifts 0 (vvalid pos)" "shifts d (vfail e)" "shifts 0 (vback n)" "shifts 0 (vcheck y)"
  by (auto simp: shifts_def vret_def vget_def vopt_def self_def vmem_def vevm_def vpc_def vdb_def vdb_upd_def vdb_opt_def
      vcontract_def vvalid_def vfail_def vback_def vcheck_def set_db_def set_contract_def split: option.splits prod.splits)

lemma shifts_when [shift_intros]: "shifts 0 m \<Longrightarrow> shifts 0 (vwhen b m)"
  by (simp add: vwhen_def shifts_zero)

lemma shifts_bind: "shifts a m \<Longrightarrow> (\<And>x. shifts (d - a) (k x)) \<Longrightarrow> shifts d (vbind m k)"
  unfolding shifts_def by (fastforce elim!: vbind_SomeE)

lemma shifts_then: "shifts a m \<Longrightarrow> shifts (d - a) k \<Longrightarrow> shifts d (vthen m k)"
  unfolding vthen_def by (rule shifts_bind)

lemma shifts_if: "shifts d m \<Longrightarrow> shifts d n \<Longrightarrow> shifts d (if b then m else n)"
  by simp

lemma shifts_ret: "d = 0 \<Longrightarrow> shifts d (vret x)"
  by (simp add: shifts_zero)

lemma shifts_topics [shift_intros]: "shifts (- int n) (pop_topics n)"
proof (induction n)
  case 0
  then show ?case by (simp add: shifts_zero)
next
  case (Suc n)
  show ?case unfolding pop_topics.simps
    by (rule shifts_bind [OF shifts_stack(1)], rule shifts_bind [OF Suc], rule shifts_ret) simp
qed

lemma continues_bind [shift_intros]:
  assumes "shifts a m" "\<And>x. continues (d - a) (k x)"
  shows "continues d (vbind m k)"
  unfolding continues_def
proof (intro allI impI)
  fix f res f'
  assume "vbind m k f = Some (Inr (res, None), f')"
  then obtain x f1 where "m f = Some (Inr x, f1)" "k x f1 = Some (Inr (res, None), f')" by (auto elim!: vbind_SomeE)
  with shiftsD [OF assms(1)] assms(2) show "height f' = height f + d" unfolding continues_def by fastforce
qed

lemma continues_then [shift_intros]: "shifts a m \<Longrightarrow> continues (d - a) k \<Longrightarrow> continues d (vthen m k)"
  unfolding vthen_def by (rule continues_bind)

lemma continues_end [shift_intros]:
  "d = 0 \<Longrightarrow> continues d fin" "continues d (vret (res, Some e))" "continues d (vfail e)" "d = 0 \<Longrightarrow> continues d (vret r)"
  by (simp_all add: continues_def fin_def vret_def vfail_def)

lemma continues_cases [shift_intros]:
  "continues d m \<Longrightarrow> continues d n \<Longrightarrow> continues d (if b then m else n)"
  "(\<And>a b. continues d (m1 a b)) \<Longrightarrow> continues d (case p of (a, b) \<Rightarrow> m1 a b)"
  "(\<And>x. continues d (m2 x)) \<Longrightarrow> (\<And>y. continues d (n2 y)) \<Longrightarrow> continues d (case v of Inl x \<Rightarrow> m2 x | Inr y \<Rightarrow> n2 y)"
  "(\<And>x. continues d (m3 x)) \<Longrightarrow> continues d (let x = w in m3 x)"
  by (simp_all split: prod.splits sum.splits)

lemma continues_shape_heights:
  "continues 0 (un_op h1)" "continues (- 1) (bin_op h2)" "continues (- 2) (tern_op h3)"
  "continues 1 (push_op h4)" "continues 1 (push_big v)" "continues 0 (jump_to pos)"
  unfolding un_op_def bin_op_def tern_op_def push_op_def push_big_def jump_to_def
  by ((rule shift_intros)+; simp)+

lemma continues_shapes [shift_intros]:
  "d = 0 \<Longrightarrow> continues d (un_op h1)" "d = - 1 \<Longrightarrow> continues d (bin_op h2)" "d = - 2 \<Longrightarrow> continues d (tern_op h3)"
  "d = 1 \<Longrightarrow> continues d (push_op h4)" "d = 1 \<Longrightarrow> continues d (push_big v)" "d = 0 \<Longrightarrow> continues d (jump_to pos)"
  by (simp_all add: continues_shape_heights)

lemma continues_guards [shift_intros]:
  "continues d m \<Longrightarrow> continues d (protect m)" "continues d m \<Longrightarrow> continues d (unless_aborted m)"
  unfolding protect_def unless_aborted_def
  by (rule continues_bind [OF shifts_zero(2)], simp add: shift_intros)+

text \<open>An instruction that leaves the gas alone and changes the height of the stack by a fixed number.\<close>

definition tame :: "int \<Rightarrow> executionFunc \<Rightarrow> bool" where
  "tame d ex \<longleftrightarrow> (\<forall>E cfg. keeps gas_left (ex E cfg) \<and> continues d (ex E cfg))"

lemma tameI: "(\<And>E cfg. keeps gas_left (ex E cfg)) \<Longrightarrow> (\<And>E cfg. continues d (ex E cfg)) \<Longrightarrow> tame d ex"
  by (simp add: tame_def)

named_theorems tame_rules \<open>what instructions do to the gas and the height of the stack\<close>

lemma tame_arithmetic [tame_rules]:
  "tame (- 1) opAdd" "tame (- 1) opSub" "tame (- 1) opMul" "tame (- 1) opDiv" "tame (- 1) opSdiv" "tame (- 1) opMod"
  "tame (- 1) opSmod" "tame (- 1) opExp" "tame (- 1) opSignExtend" "tame 0 opNot" "tame (- 1) opLt" "tame (- 1) opGt"
  "tame (- 1) opSlt" "tame (- 1) opSgt" "tame (- 1) opEq" "tame 0 opIszero" "tame (- 1) opAnd" "tame (- 1) opOr"
  "tame (- 1) opXor" "tame (- 1) opByte" "tame (- 2) opAddmod" "tame (- 2) opMulmod" "tame (- 1) opSHL" "tame (- 1) opSHR"
  "tame (- 1) opSAR" "tame 0 opCLZ"
  by (rule tameI; simp add: opAdd_def opSub_def opMul_def opDiv_def opSdiv_def opMod_def opSmod_def opExp_def
      opSignExtend_def opNot_def opLt_def opGt_def opSlt_def opSgt_def opEq_def opIszero_def opAnd_def opOr_def opXor_def
      opByte_def opAddmod_def opMulmod_def opSHL_def opSHR_def opSAR_def opCLZ_def keeps_shapes continues_shapes)+

lemma tame_environment [tame_rules]:
  "tame 1 opAddress" "tame 1 opOrigin" "tame 1 opCaller" "tame 1 opCallValue" "tame 1 opCallDataSize" "tame 1 opReturnDataSize"
  "tame 1 opCodeSize" "tame 1 opGasprice" "tame 1 opCoinbase" "tame 1 opTimestamp" "tame 1 opDifficulty" "tame 1 opGasLimit"
  "tame 1 opChainID" "tame 1 opBaseFee" "tame 0 opBlobHash" "tame 1 opPc" "tame 1 opMsize" "tame 1 opGas"
  by (rule tameI; simp add: opAddress_def opOrigin_def opCaller_def opCallValue_def opCallDataSize_def opReturnDataSize_def
      opCodeSize_def opGasprice_def opCoinbase_def opTimestamp_def opDifficulty_def opGasLimit_def opChainID_def
      opBaseFee_def opBlobHash_def opPc_def opMsize_def opGas_def keeps_shapes continues_shapes)+

lemma tame_data [tame_rules]:
  "tame (- 1) opKeccak256" "tame 0 opBalance" "tame 0 opCallDataLoad" "tame (- 3) opCallDataCopy" "tame (- 3) opReturnDataCopy"
  "tame 0 opExtCodeSize" "tame (- 3) opCodeCopy" "tame (- 4) opExtCodeCopy" "tame 0 opExtCodeHash" "tame 0 opBlockhash"
  "tame 1 opNumber" "tame 1 opRandom" "tame 1 opSelfBalance" "tame 1 opBlobBaseFee"
  unfolding opKeccak256_def opBalance_def opCallDataLoad_def opCallDataCopy_def opReturnDataCopy_def opExtCodeSize_def
    opCodeCopy_def opExtCodeCopy_def opExtCodeHash_def opBlockhash_def opNumber_def opRandom_def opSelfBalance_def
    opBlobBaseFee_def
  by (rule tameI; (rule keeps_intros shift_intros | simp)+)+

lemma tame_memory [tame_rules]:
  "tame (- 1) opPop" "tame 0 opMload" "tame (- 2) opMstore" "tame (- 2) opMstore8" "tame (- 3) opMcopy" "tame 0 opSload"
  "tame (- 2) opSstore" "tame 0 opTload" "tame (- 2) opTstore" "tame (- 1) opJump" "tame (- 2) opJumpi" "tame 0 opJumpdest"
  "tame 0 (opSwap n)" "tame 1 (makeDup n)" "tame 1 opPush0"
  unfolding opPop_def opMload_def opMstore_def opMstore8_def opMcopy_def opSload_def opSstore_def opTload_def opTstore_def
    opJump_def opJumpi_def opJumpdest_def opSwap_def makeDup_def opPush0_def
  by (rule tameI; (rule keeps_intros shift_intros | simp)+)+

lemma tame_push1 [tame_rules]: "tame 1 opPush1" and tame_push [tame_rules]: "tame 1 (makePush sz n)"
  unfolding opPush1_def makePush_def
  by (rule tameI; (rule keeps_intros shift_intros | simp)+)+

lemma tame_push2 [tame_rules]: "tame 1 opPush2"
proof (rule tameI)
  fix E :: Env and cfg :: EvmCfg
  show "keeps gas_left (opPush2 E cfg)"
    unfolding opPush2_def by (rule keeps_intros | simp)+
  have push: "shifts 1 (if b1 then vbind (vopt h) (\<lambda>data. vpush (w data)) else if b2 then vpush x else vpush y)" for b1 b2 h w x y
    by (intro shifts_if shifts_bind [OF shifts_zero(3)]) (simp_all add: shifts_stack)
  show "continues 1 (opPush2 E cfg)"
    unfolding opPush2_def
    by (rule continues_bind [OF shifts_zero(2)], rule continues_cases(2), rule continues_then [OF push])
      (rule shift_intros | simp)+
qed

lemma tame_log [tame_rules]: "d = - 2 - int n \<Longrightarrow> tame d (makeLog n)"
  unfolding makeLog_def by (rule tameI; (rule keeps_intros shift_intros | simp)+)

text \<open>The instructions after which an execution does not continue.\<close>

definition halting :: "executionFunc \<Rightarrow> bool" where
  "halting ex \<longleftrightarrow> (\<forall>E cfg f res f'. ex E cfg f \<noteq> Some (Inr (res, None), f'))"

lemma halting_tame: "halting ex \<Longrightarrow> (\<And>E cfg. keeps gas_left (ex E cfg)) \<Longrightarrow> tame d ex"
  by (simp add: halting_def tame_def continues_def)

lemma halting_stops:
  "halting opReturn" "halting opRevert" "halting opUndefined" "halting opStop" "halting opSelfdestruct" "halting opSelfdestruct6780"
  by (auto simp: halting_def opReturn_def opRevert_def opUndefined_def opStop_def opSelfdestruct_def opSelfdestruct6780_def
      protect_def vret_def vfail_def vthen_def elim!: vbind_SomeE split: if_splits)

lemma tame_stops [tame_rules]:
  "tame d opReturn" "tame d opRevert" "tame d opUndefined" "tame d opStop" "tame d opSelfdestruct" "tame d opSelfdestruct6780"
  by (rule halting_tame [OF halting_stops(1)] halting_tame [OF halting_stops(2)] halting_tame [OF halting_stops(3)]
      halting_tame [OF halting_stops(4)] halting_tame [OF halting_stops(5)] halting_tame [OF halting_stops(6)];
      unfold opReturn_def opRevert_def opUndefined_def opStop_def opSelfdestruct_def opSelfdestruct6780_def;
      (rule keeps_intros | simp)+)+

end
