(* ===== verification/VMTable.thy ===== *)
theory VMTable
imports VMOps
begin

text \<open>
  The contract between an entry of an instruction table and the interpreter loop, and the
  proof that all tables keep it. The gas function of an entry charges at least what the
  execution of the entry can hand out: a call gets the gas that was set aside for it, with a
  stipend on top when value is transferred, and transferring value costs more than the stipend.
\<close>

subsection \<open>Gas functions\<close>

text \<open>What executing an operation may add to the gas, by the slot in the table.\<close>

definition no_slack :: "Frame \<Rightarrow> nat" where
  "no_slack f = 0"

definition temp_slack :: "Frame \<Rightarrow> nat" where
  "temp_slack f = unat (evm_callGasTemp (fr_evm f))"

definition value_slack :: "Frame \<Rightarrow> nat" where
  "value_slack f =
     temp_slack f + (case st_Back 2 (fr_stack f) of None \<Rightarrow> 0 | Some v \<Rightarrow> if v \<noteq> 0 then unat CallStipend else 0)"

definition slack :: "u8 \<Rightarrow> Frame \<Rightarrow> nat" where
  "slack k =
     (if k = CALL \<or> k = CALLCODE then value_slack
      else if k = DELEGATECALL \<or> k = STATICCALL then temp_slack
      else no_slack)"

text \<open>A gas function charges the slack and at least \<open>j\<close> more, and leaves the gas to the interpreter.\<close>

definition covers :: "(Frame \<Rightarrow> nat) \<Rightarrow> nat \<Rightarrow> gasFunc \<Rightarrow> bool" where
  "covers W j g \<longleftrightarrow> (\<forall>E cfg ms f r f'. \<not> IsEIP4762 (chainRules cfg) \<longrightarrow> g E cfg ms f = Some (r, f') \<longrightarrow>
     gas_left f' \<le> gas_left f \<and>
     (\<forall>c. r = Inr c \<longrightarrow> gas_left f' = gas_left f \<and> fr_stack f' = fr_stack f \<and> W f' + j \<le> unat (SingleGas c)))"

lemma covers_splits:
  assumes "\<And>E cfg ms st. splits (IsEIP150 (chainRules cfg)) (least cfg st) st (g E cfg ms)"
    "\<And>cfg f. \<not> IsEIP4762 (chainRules cfg) \<Longrightarrow> W f \<le> unat (evm_callGasTemp (fr_evm f)) + least cfg (fr_stack f)"
  shows "covers W 0 g"
  unfolding covers_def
proof (intro allI impI, goal_cases)
  case (1 E cfg ms f r f')
  note s = splitsD [OF assms(1) refl 1(2)]
  have "W f' \<le> unat (SingleGas c)" if "r = Inr c" for c
    using s(2) [OF that] assms(2) [OF 1(1), of f'] by (auto simp: call_split_def SingleGas_def)
  then show ?case using s by (auto simp: gas_left_def)
qed

lemma covers_value: "\<not> IsEIP4762 (chainRules cfg) \<Longrightarrow> value_slack f \<le> unat (evm_callGasTemp (fr_evm f)) + transfer_cost cfg (fr_stack f)"
  by (simp add: value_slack_def temp_slack_def transfer_cost_def CallStipend_def split: option.splits)

lemma covers_call:
  "covers value_slack 0 gasCall" "covers value_slack 0 gasCallEIP2929" "covers value_slack 0 gasCallEIP7702"
  "covers value_slack 0 gasCallCode" "covers value_slack 0 gasCallCodeEIP2929" "covers value_slack 0 gasCallCodeEIP7702"
  by (rule covers_splits [OF _ covers_value], rule call_splits, assumption)+

lemma covers_temp:
  "covers temp_slack 0 gasDelegateCall" "covers temp_slack 0 gasDelegateCallEIP2929" "covers temp_slack 0 gasDelegateCallEIP7702"
  "covers temp_slack 0 gasStaticCall" "covers temp_slack 0 gasStaticCallEIP2929" "covers temp_slack 0 gasStaticCallEIP7702"
  by (rule covers_splits, rule call_splits, simp add: temp_slack_def)+

lemma covers_plain:
  assumes "\<And>E cfg ms. keeps scope (g E cfg ms)" "\<And>E cfg ms. yields (\<lambda>c. j \<le> unat (SingleGas c)) (g E cfg ms)"
  shows "covers no_slack j g"
  unfolding covers_def
proof (intro allI impI, goal_cases)
  case (1 E cfg ms f r f')
  have "fr_contract f' = fr_contract f \<and> fr_stack f' = fr_stack f" by (rule keeps_scope [OF assms(1) 1(2)])
  moreover have "j \<le> unat (SingleGas c)" if "r = Inr c" for c
    using assms(2) [of E cfg ms] 1(2) that unfolding yields_def by blast
  ultimately show ?case by (simp add: gas_left_def no_slack_def)
qed

lemma covers_free: "(\<And>E cfg ms. keeps scope (g E cfg ms)) \<Longrightarrow> covers no_slack 0 g"
  by (rule covers_plain) (simp_all add: yields_def)

lemma keeps_scope_memory [keeps_intros]: "keeps scope (memoryGasCost n)"
  by (rule keeps_memory) simp

lemma covers_no_slack:
  "covers no_slack 0 (memoryCopierGas i)" "covers no_slack 0 gasKeccak256" "covers no_slack 0 pureMemoryGascost"
  "covers no_slack 0 gasCreate2" "covers no_slack 0 gasCreateEip3860" "covers no_slack 0 gasCreate2Eip3860"
  "covers no_slack 0 gasExtCodeCopyEIP2929" "covers no_slack 0 gasEip2929AccountCheck" "covers no_slack 0 gasSelfdestruct"
  "covers no_slack 0 (makeSelfdestructGasFn b)"
  unfolding memoryCopierGas_def gasKeccak256_def pureMemoryGascost_def gasCreate2_def gasCreateEip3860_def
    gasCreate2Eip3860_def gasExtCodeCopyEIP2929_def gasEip2929AccountCheck_def gasSelfdestruct_def makeSelfdestructGasFn_def
  by (rule covers_free; (rule keeps_intros | simp)+)+

named_theorems yield_intros \<open>what the results of computations satisfy\<close>

lemma yields_cases [yield_intros]:
  "(b \<Longrightarrow> yields P m) \<Longrightarrow> (\<not> b \<Longrightarrow> yields P n) \<Longrightarrow> yields P (if b then m else n)"
  "(\<And>a b. yields P (m1 a b)) \<Longrightarrow> yields P (case p of (a, b) \<Rightarrow> m1 a b)"
  "(\<And>x. yields P (m2 x)) \<Longrightarrow> yields P (let x = w in m2 x)"
  "yields P (vfail e)"
  by (simp_all add: yields_def vfail_def split: prod.splits)

lemma yields_then: "yields P m \<Longrightarrow> yields P (vthen u m)"
  unfolding vthen_def by (rule yields_bind)

lemmas [yield_intros] = yields_bind yields_then

lemma SingleGas_growth [simp]: "SingleGas (StorageGrowthGas g) = g" "SingleGas (StorageAccessWriteGas g) = g"
  by (simp_all add: SingleGas_def StorageGrowthGas_def StorageAccessWriteGas_def NewMultiGas_def Let_def)

lemma SingleGas_increment: "mg_refund mg = 0 \<Longrightarrow> n \<le> unat g \<Longrightarrow> n \<le> unat (SingleGas (SaturatingIncrement mg k g))"
  using mg_total_value(2) [of g mg k] by (simp add: SingleGas_def yields_refund(3))

lemma covers_sstore: "covers no_slack 1 gasSStore" "covers no_slack 1 gasSStoreEIP2200"
proof -
  show "covers no_slack 1 gasSStore"
    unfolding gasSStore_def
    by (rule covers_plain; (rule keeps_intros yield_intros | simp)+)
  show "covers no_slack 1 gasSStoreEIP2200"
    unfolding gasSStoreEIP2200_def
    by (rule covers_plain; (rule keeps_intros yield_intros | simp add: SstoreSetGasEIP2200_def SstoreResetGasEIP2200_def)+)
qed

lemma SingleGas_increment_if [simp]:
  "n \<le> unat g \<Longrightarrow> n \<le> unat (SingleGas (SaturatingIncrement (if b then SaturatingIncrement ZeroGas k h else ZeroGas) l g))"
  by (simp add: SingleGas_increment yields_refund(3))

lemma covers_sstore_access: "covers no_slack 1 (makeGasSStoreFunc r)"
  unfolding makeGasSStoreFunc_def Let_def
  by (rule covers_plain; (rule keeps_intros yield_intros
        | simp add: SstoreSetGasEIP2200_def SstoreResetGasEIP2200_def WarmStorageReadCostEIP2929_def ColdSloadCostEIP2929_def)+)

lemma covers_sload: "covers no_slack 1 gasSLoadEIP2929"
proof (rule covers_plain)
  have "map_option SingleGas (MultiGasFromPairs
      [(ResourceKindStorageAccessRead, ColdSloadCostEIP2929 - WarmStorageReadCostEIP2929),
       (ResourceKindComputation, WarmStorageReadCostEIP2929)]) = Some 2100" by code_simp
  then have cold: "yields (\<lambda>c. 1 \<le> unat (SingleGas c)) (vopt (\<lambda>_. MultiGasFromPairs
      [(ResourceKindStorageAccessRead, ColdSloadCostEIP2929 - WarmStorageReadCostEIP2929),
       (ResourceKindComputation, WarmStorageReadCostEIP2929)]))"
    by (auto simp: yields_def vopt_def split: option.splits)
  show "yields (\<lambda>c. 1 \<le> unat (SingleGas c)) (gasSLoadEIP2929 E cfg ms)" for E cfg ms
    unfolding gasSLoadEIP2929_def by (rule cold yield_intros | simp add: WarmStorageReadCostEIP2929_def)+
  show "keeps scope (gasSLoadEIP2929 E cfg ms)" for E cfg ms
    unfolding gasSLoadEIP2929_def by (rule keeps_intros | simp)+
qed

lemma yields_through: "yields Q m \<Longrightarrow> (\<And>x. Q x \<Longrightarrow> yields P (k x)) \<Longrightarrow> yields P (vbind m k)"
  unfolding yields_def by (fastforce elim!: vbind_SomeE)

lemma covers_exp: "covers no_slack 1 gasExpFrontier" "covers no_slack 1 gasExpEIP158"
proof -
  have gas: "yields (\<lambda>g. 1 \<le> unat g) (vcheck (math_SafeAdd x ExpGas))" for x
    by (auto simp: yields_def vcheck_def math_SafeAdd_eq vret_def vfail_def unat_add_lem [THEN iffD1] split: if_splits)
  have exp: "yields (\<lambda>c. 1 \<le> unat (SingleGas c)) (gasExp b)" for b
    unfolding gasExp_def Let_def by (rule yields_bind, rule yields_through [OF gas]) simp
  have "keeps scope (gasExp b)" for b
    unfolding gasExp_def by (rule keeps_intros | simp)+
  with exp show "covers no_slack 1 gasExpFrontier" "covers no_slack 1 gasExpEIP158"
    by (simp_all add: covers_plain gasExpFrontier_def gasExpEIP158_def)
qed

definition costs :: "nat \<Rightarrow> MultiGas \<Rightarrow> bool" where
  "costs n c \<longleftrightarrow> mg_refund c = 0 \<and> n \<le> unat (mg_total c)"

lemma yields_costs:
  "costs n c \<Longrightarrow> yields (costs n) (vcheck (SafeIncrement c k g))"
  "costs 0 c \<Longrightarrow> n \<le> unat g \<Longrightarrow> yields (costs n) (vcheck (SafeIncrement c k g))"
  "yields (costs 0) (memoryGasCost ms)"
  using SafeIncrement_total [of c k g]
  by (cases "SafeIncrement c k g"; auto simp: yields_def costs_def vcheck_def vret_def vfail_def memoryGasCost_refund split: if_splits)+

lemma covers_log: "covers no_slack 1 (makeGasLog n)"
proof (rule covers_plain)
  show "keeps scope (makeGasLog n E cfg ms)" for E cfg ms
    unfolding makeGasLog_def by (rule keeps_intros | simp)+
  have weaken: "yields (costs 1) m \<Longrightarrow> yields (\<lambda>c. 1 \<le> unat (SingleGas c)) m" for m
    by (auto simp: yields_def costs_def SingleGas_def)
  show "yields (\<lambda>c. 1 \<le> unat (SingleGas c)) (makeGasLog n E cfg ms)" for E cfg ms
    unfolding makeGasLog_def
    by (rule weaken, rule yields_bind, rule yields_through [OF yields_costs(3)], rule yields_through [OF yields_costs(2) [where n = 1]])
      (assumption | rule yields_bind [where m = "vcheck (math_SafeMul a b)" for a b] yields_costs(1)
        yields_through [OF yields_costs(1)] | simp)+
qed

lemmas covers_rules = covers_call covers_temp covers_no_slack covers_sstore covers_sstore_access covers_sload covers_exp covers_log

subsection \<open>Executing an operation\<close>

text \<open>
  What the operations of the EVM that an instruction calls promise for the gas they are given:
  they return no more, and they do not run out of fuel when the gas is below \<open>N\<close>.
\<close>

definition prudent :: "nat \<Rightarrow> u64 \<Rightarrow> ('a \<Rightarrow> u64) \<Rightarrow> ('a \<times> EVM) run \<Rightarrow> bool" where
  "prudent N gas left r \<longleftrightarrow>
     (r = OutOfFuel \<longrightarrow> N \<le> unat gas) \<and> (\<forall>x e. r = Result (x, e) \<longrightarrow> left x \<le> gas)"

definition call_left :: "call_result \<Rightarrow> u64" where
  "call_left = (\<lambda>(ret, gas, used, err). gas)"

definition create_left :: "create_result \<Rightarrow> u64" where
  "create_left = (\<lambda>(ret, addr, gas, used, err). gas)"

definition callees_ok :: "nat \<Rightarrow> Callees \<Rightarrow> bool" where
  "callees_ok N cs \<longleftrightarrow>
     (\<forall>a b input gas v e. prudent N gas call_left (c_Call cs a b input gas v e)) \<and>
     (\<forall>a b input gas v e. prudent N gas call_left (c_CallCode cs a b input gas v e)) \<and>
     (\<forall>o' a b input gas v e. prudent N gas call_left (c_DelegateCall cs o' a b input gas v e)) \<and>
     (\<forall>a b input gas e. prudent N gas call_left (c_StaticCall cs a b input gas e)) \<and>
     (\<forall>a input gas v e. prudent N gas create_left (c_Create cs a input gas v e)) \<and>
     (\<forall>a input gas v salt e. prudent N gas create_left (c_Create2 cs a input gas v salt e))"

text \<open>
  An execution that adds at most \<open>W\<close> to the gas, runs out of fuel only where that is due to the
  gas, and changes the height of the stack by \<open>d\<close> when the loop continues.
\<close>

definition safe_outcome :: "nat \<Rightarrow> nat \<Rightarrow> int \<Rightarrow> Frame \<Rightarrow> ((vmerror + bytes \<times> vmerror option) \<times> Frame) run \<Rightarrow> bool" where
  "safe_outcome N w d f r \<longleftrightarrow>
     (r = OutOfFuel \<longrightarrow> N \<le> w + gas_left f) \<and>
     (\<forall>x f'. r = Result (x, f') \<longrightarrow> gas_left f' \<le> w + gas_left f \<and>
        (\<forall>res. x = Inr (res, None) \<longrightarrow> height f' = height f + d))"

definition safe_exec :: "(Frame \<Rightarrow> nat) \<Rightarrow> int \<Rightarrow> executor \<Rightarrow> bool" where
  "safe_exec W d ex \<longleftrightarrow>
     (\<forall>N cs E cfg f. callees_ok N cs \<longrightarrow> W f + gas_left f < 2 ^ 64 \<longrightarrow> safe_outcome N (W f) d f (ex cs E cfg f))"

text \<open>An execution after which the loop ends.\<close>

definition halts :: "executor \<Rightarrow> bool" where
  "halts ex \<longleftrightarrow> (\<forall>cs E cfg f. ex cs E cfg f \<noteq> OutOfFuel \<and>
     (\<forall>x f'. ex cs E cfg f = Result (x, f') \<longrightarrow> gas_left f' \<le> gas_left f \<and> (\<forall>res. x \<noteq> Inr (res, None))))"

lemma simple_cases:
  "simple op cs E cfg f \<noteq> OutOfFuel" "simple op cs E cfg f = Result r \<longleftrightarrow> op E cfg f = Some r"
  by (auto simp: simple_def lift_vm_def ropt_def split: option.splits)

lemma tameD:
  assumes "tame d op" "op E cfg f = Some (r, f')"
  shows "gas_left f' = gas_left f" "r = Inr (res, None) \<Longrightarrow> height f' = height f + d"
  using assms keepsD [of gas_left "op E cfg" f r f'] by (auto simp: tame_def continues_def)

lemma safe_simple: "tame d op \<Longrightarrow> safe_exec W d (simple op)"
  unfolding safe_exec_def safe_outcome_def by (auto simp: simple_cases tameD)

lemma halts_simple: "halting op \<Longrightarrow> tame d op \<Longrightarrow> halts (simple op)"
  unfolding halts_def halting_def by (auto simp: simple_cases tameD(1))

lemma safe_lift:
  assumes "keeps gas_left m" "shifts a m" "\<And>x f1. m f = Some (Inr x, f1) \<Longrightarrow> safe_outcome N w (d - a) f1 (k x f1)"
  shows "safe_outcome N w d f (xbind (lift_vm m) k f)"
proof (cases "m f")
  case None
  then show ?thesis by (simp add: xbind_def lift_vm_def ropt_def rbind_def safe_outcome_def)
next
  case (Some p)
  obtain r f1 where p: "p = (r, f1)" by (cases p)
  have g: "gas_left f1 = gas_left f" using keepsD [OF assms(1)] Some p by blast
  show ?thesis
  proof (cases r)
    case (Inl e)
    with Some p g show ?thesis by (simp add: xbind_def lift_vm_def ropt_def rbind_def safe_outcome_def)
  next
    case (Inr x)
    have "height f1 = height f + a" using shiftsD [OF assms(2)] Some p Inr by blast
    with assms(3) [of x f1] Some p Inr g show ?thesis
      by (auto simp: xbind_def lift_vm_def ropt_def rbind_def safe_outcome_def)
  qed
qed

lemma RefundGas_left: "unat (ct_Gas c) + unat g < 2 ^ 64 \<Longrightarrow> unat (ct_Gas (RefundGas c g)) = unat (ct_Gas c) + unat g"
  by (simp add: RefundGas_def unat_add_lem [THEN iffD1])

text \<open>\<open>m\<close> continues with the gas increased by \<open>g\<close> and the height of the stack by \<open>d\<close>, or fails before.\<close>

definition adds :: "u64 \<Rightarrow> int \<Rightarrow> (bytes \<times> vmerror option) vm \<Rightarrow> bool" where
  "adds g d m \<longleftrightarrow> (\<forall>f r f'. unat g + gas_left f < 2 ^ 64 \<longrightarrow> m f = Some (r, f') \<longrightarrow>
     gas_left f' \<le> gas_left f + unat g \<and> (\<forall>res. r = Inr (res, None) \<longrightarrow> height f' = height f + d))"

lemma addsD:
  "adds g d m \<Longrightarrow> unat g + gas_left f < 2 ^ 64 \<Longrightarrow> m f = Some (r, f') \<Longrightarrow>
     gas_left f' \<le> gas_left f + unat g \<and> (\<forall>res. r = Inr (res, None) \<longrightarrow> height f' = height f + d)"
  unfolding adds_def by blast

lemma adds_bind:
  assumes "keeps gas_left m" "shifts a m" "\<And>x. adds g (d - a) (k x)"
  shows "adds g d (vbind m k)"
  unfolding adds_def
proof (intro allI impI, goal_cases)
  case (1 f r f')
  from 1(2) show ?case
  proof (cases rule: vbind_SomeE)
    case (err e)
    with keepsD [OF assms(1) err(1)] show ?thesis by simp
  next
    case (ok x f1)
    have "gas_left f1 = gas_left f" "height f1 = height f + a"
      using keepsD [OF assms(1) ok(1)] shiftsD [OF assms(2) ok(1)] by simp_all
    with addsD [OF assms(3) _ ok(2)] 1(1) show ?thesis by simp
  qed
qed

lemma adds_then: "keeps gas_left m \<Longrightarrow> shifts a m \<Longrightarrow> adds g (d - a) k \<Longrightarrow> adds g d (vthen m k)"
  unfolding vthen_def by (rule adds_bind)

lemma adds_refund:
  assumes "\<And>c. ct_Gas (h c) = ct_Gas (RefundGas c g)" "keeps gas_left k" "continues d k"
  shows "adds g d (vthen (vcontract (\<lambda>c. ((), h c))) k)"
  unfolding adds_def
proof (intro allI impI, goal_cases)
  case (1 f r f')
  let ?f = "set_contract (h (fr_contract f)) f"
  have k: "k ?f = Some (r, f')" using 1(2) by (simp add: vthen_def vbind_def vcontract_def)
  have "gas_left ?f = gas_left f + unat g" using 1(1) RefundGas_left [of "fr_contract f" g]
    by (simp add: gas_left_def assms(1))
  moreover have "height ?f = height f" by simp
  moreover have "height f' = height ?f + d" if "r = Inr (res, None)" for res
    using assms(3) k that unfolding continues_def by blast
  ultimately show ?case using keepsD [OF assms(2) k] by simp
qed

lemma adds_after_call: "adds (call_left x) 1 (after_call gas ro rs x)"
proof (cases x)
  case (fields ret g used err)
  show ?thesis unfolding fields after_call_def call_left_def prod.case Let_def
    by (intro adds_then [OF _ shifts_stack(2)] adds_then [OF _ shifts_when [OF shifts_zero(5)]] adds_refund)
      (rule keeps_intros shift_intros | simp)+
qed

lemma adds_after_create: "adds (create_left x) 1 (after_create gas sv x)"
proof (cases x)
  case (fields res addr g used err)
  show ?thesis unfolding fields after_create_def create_left_def prod.case Let_def
    by (intro adds_then [OF _ shifts_stack(2)] adds_refund)
      (rule keeps_intros shift_intros | simp)+
qed

text \<open>The end of an instruction that calls: the gas the callee returns is added.\<close>

lemma safe_tail:
  assumes "prudent N gas left (c (fr_evm f))" "unat gas \<le> w" "w + gas_left f < 2 ^ 64"
    "\<And>x. adds (left x) d (k x)"
  shows "safe_outcome N w d f (xbind (on_evm c) (\<lambda>x. lift_vm (k x)) f)"
proof (cases "c (fr_evm f)")
  case (Result p)
  obtain x e where p: "p = (x, e)" by (cases p)
  have le: "left x \<le> gas" using assms(1) Result p by (simp add: prudent_def)
  have w: "w + gas_left (f\<lparr>fr_evm := e\<rparr>) < 2 ^ 64" using assms(3) by simp
  have "unat (left x) \<le> w" using le assms(2) by (simp add: word_le_nat_alt)
  moreover have "xbind (on_evm c) (\<lambda>x. lift_vm (k x)) f = ropt (k x (f\<lparr>fr_evm := e\<rparr>))"
    by (simp add: xbind_def on_evm_def rbind_def Result p lift_vm_def)
  moreover have "gas_left f' \<le> gas_left f + unat (left x) \<and> (\<forall>res. r = Inr (res, None) \<longrightarrow> height f' = height f + d)"
    if "k x (f\<lparr>fr_evm := e\<rparr>) = Some (r, f')" for r f'
    using addsD [OF assms(4) _ that] w \<open>unat (left x) \<le> w\<close> by simp
  ultimately show ?thesis by (cases "k x (f\<lparr>fr_evm := e\<rparr>)") (auto simp: safe_outcome_def ropt_def intro: order_trans)
qed (use assms in \<open>simp_all add: xbind_def on_evm_def rbind_def safe_outcome_def prudent_def\<close>)

text \<open>Popping, by position.\<close>

definition drop_top :: "Stack \<Rightarrow> Stack" where
  "drop_top st = st\<lparr>st_data := butlast (st_data st)\<rparr>"

lemma st_Back_drop_top [simp]: "st_Back n (drop_top st) = st_Back (Suc n) st"
  by (auto simp: st_Back_def drop_top_def st_len_def nth_butlast)

lemma vpop_bind:
  "vbind vpop k f =
     (case st_Back 0 (fr_stack f) of None \<Rightarrow> None | Some x \<Rightarrow> k x (f\<lparr>fr_stack := drop_top (fr_stack f)\<rparr>))"
  by (auto simp: vbind_def vpop_def st_pop_def st_Back_def st_len_def drop_top_def butlast_conv_take)

lemma vopt_bind: "vbind (vopt h) k f = (case h f of None \<Rightarrow> None | Some x \<Rightarrow> k x f)"
  by (simp add: vbind_def vopt_def split: option.splits)

lemmas head_simps = vpop_bind vopt_bind vbind_run vm_run(1,2) call_args_def self_def Let_def

lemma head_slack:
  assumes "value_slack f + gas_left f < 2 ^ 64" "st_Back 2 (fr_stack f) = Some v"
  shows "unat (if v \<noteq> 0 then evm_callGasTemp (fr_evm f) + CallStipend else evm_callGasTemp (fr_evm f)) = value_slack f"
  using assms by (auto simp: value_slack_def temp_slack_def unat_add_lem [THEN iffD1])

lemma safe_after_call:
  assumes "\<forall>e. prudent N gas call_left (c e)" "unat gas = w" "w + gas_left f < 2 ^ 64" "d = 1"
  shows "safe_outcome N w d f (xbind (on_evm c) (\<lambda>res. lift_vm (after_call gas ro rs res)) f)"
  using assms by (auto intro!: safe_tail adds_after_call)

lemma callees_okD:
  assumes "callees_ok N cs"
  shows "\<forall>e. prudent N gas call_left (c_Call cs a b input gas v e)"
    "\<forall>e. prudent N gas call_left (c_CallCode cs a b input gas v e)"
    "\<forall>e. prudent N gas call_left (c_DelegateCall cs o' a b input gas v e)"
    "\<forall>e. prudent N gas call_left (c_StaticCall cs a b input gas e)"
    "\<forall>e. prudent N gas create_left (c_Create cs a input gas v e)"
    "\<forall>e. prudent N gas create_left (c_Create2 cs a input gas v salt e)"
  using assms unfolding callees_ok_def by simp_all

lemma safe_opCall: "safe_exec value_slack (- 6) opCall"
  unfolding safe_exec_def
proof (intro allI impI)
  fix N cs E cfg f
  assume cs: "callees_ok N cs" and w: "value_slack f + gas_left f < 2 ^ 64"
  show "safe_outcome N (value_slack f) (- 6) f (opCall cs E cfg f)"
    unfolding opCall_def
  proof (rule safe_lift [where a = "- 7"], goal_cases)
    case 1
    show ?case unfolding call_args_def by (rule keeps_intros | simp)+
  next
    case 2
    show ?case unfolding call_args_def Let_def by (rule shifts_ret shifts_bind shifts_if shift_intros | simp)+
  next
    case (3 x f1)
    obtain a to args gas v ro rs where x: "x = (a, to, args, gas, v, ro, rs)" by (cases x)
    have "st_Back 2 (fr_stack f) = Some v"
      "gas = (if v \<noteq> 0 then evm_callGasTemp (fr_evm f) + CallStipend else evm_callGasTemp (fr_evm f))" "gas_left f1 = gas_left f"
      using 3 unfolding x by (auto simp: head_simps numeral_eq_Suc split: option.splits if_splits)
    with w head_slack [of f v] show ?case
      unfolding x prod.case by (intro safe_after_call callees_okD(1) [OF cs]) simp_all
  qed
qed

lemma safe_opCallCode: "safe_exec value_slack (- 6) opCallCode"
  unfolding safe_exec_def
proof (intro allI impI)
  fix N cs E cfg f
  assume cs: "callees_ok N cs" and w: "value_slack f + gas_left f < 2 ^ 64"
  show "safe_outcome N (value_slack f) (- 6) f (opCallCode cs E cfg f)"
    unfolding opCallCode_def
  proof (rule safe_lift [where a = "- 7"], goal_cases)
    case 1
    show ?case unfolding call_args_def by (rule keeps_intros | simp)+
  next
    case 2
    show ?case unfolding call_args_def Let_def by (rule shifts_ret shifts_bind shifts_if shift_intros | simp)+
  next
    case (3 x f1)
    obtain a to args gas v ro rs where x: "x = (a, to, args, gas, v, ro, rs)" by (cases x)
    have "st_Back 2 (fr_stack f) = Some v"
      "gas = (if v \<noteq> 0 then evm_callGasTemp (fr_evm f) + CallStipend else evm_callGasTemp (fr_evm f))" "gas_left f1 = gas_left f"
      using 3 unfolding x by (auto simp: head_simps numeral_eq_Suc split: option.splits if_splits)
    with w head_slack [of f v] show ?case
      unfolding x prod.case by (intro safe_after_call callees_okD(2) [OF cs]) simp_all
  qed
qed

lemma safe_opDelegateCall: "safe_exec temp_slack (- 5) opDelegateCall"
  unfolding safe_exec_def
proof (intro allI impI)
  fix N cs E cfg f
  assume cs: "callees_ok N cs" and w: "temp_slack f + gas_left f < 2 ^ 64"
  show "safe_outcome N (temp_slack f) (- 5) f (opDelegateCall cs E cfg f)"
    unfolding opDelegateCall_def
  proof (rule safe_lift [where a = "- 6"], goal_cases)
    case 1
    show ?case unfolding call_args_def by (rule keeps_intros | simp)+
  next
    case 2
    show ?case unfolding call_args_def Let_def by (rule shifts_ret shifts_bind shifts_if shift_intros | simp)+
  next
    case (3 x f1)
    obtain c a to args gas v ro rs where x: "x = (c, a, to, args, gas, v, ro, rs)" by (metis surj_pair)
    have "gas = evm_callGasTemp (fr_evm f)" "gas_left f1 = gas_left f"
      using 3 unfolding x by (auto simp: head_simps split: option.splits)
    with w show ?case
      unfolding x prod.case by (intro safe_after_call callees_okD(3) [OF cs]) (simp_all add: temp_slack_def)
  qed
qed

lemma safe_opStaticCall: "safe_exec temp_slack (- 5) opStaticCall"
  unfolding safe_exec_def
proof (intro allI impI)
  fix N cs E cfg f
  assume cs: "callees_ok N cs" and w: "temp_slack f + gas_left f < 2 ^ 64"
  show "safe_outcome N (temp_slack f) (- 5) f (opStaticCall cs E cfg f)"
    unfolding opStaticCall_def
  proof (rule safe_lift [where a = "- 6"], goal_cases)
    case 1
    show ?case unfolding call_args_def by (rule keeps_intros | simp)+
  next
    case 2
    show ?case unfolding call_args_def Let_def by (rule shifts_ret shifts_bind shifts_if shift_intros | simp)+
  next
    case (3 x f1)
    obtain a to args gas ro rs where x: "x = (a, to, args, gas, ro, rs)" by (cases x)
    have "gas = evm_callGasTemp (fr_evm f)" "gas_left f1 = gas_left f"
      using 3 unfolding x by (auto simp: head_simps split: option.splits)
    with w show ?case
      unfolding x prod.case by (intro safe_after_call callees_okD(4) [OF cs]) (simp_all add: temp_slack_def)
  qed
qed

text \<open>For a creation the gas is taken from the frame first.\<close>

lemma safe_lift_paid:
  assumes "\<And>x f1. m f = Some (x, f1) \<Longrightarrow> gas_left f1 \<le> gas_left f" "shifts a m"
    "\<And>x f1. m f = Some (Inr x, f1) \<Longrightarrow> \<exists>w. w + gas_left f1 = gas_left f \<and> safe_outcome N w (d - a) f1 (k x f1)"
  shows "safe_outcome N (n f) d f (xbind (lift_vm m) k f)"
proof (cases "m f")
  case None
  then show ?thesis by (simp add: xbind_def lift_vm_def ropt_def rbind_def safe_outcome_def)
next
  case (Some p)
  obtain r f1 where p: "p = (r, f1)" by (cases p)
  have g: "gas_left f1 \<le> gas_left f" using assms(1) Some p by blast
  show ?thesis
  proof (cases r)
    case (Inl e)
    with Some p g show ?thesis by (simp add: xbind_def lift_vm_def ropt_def rbind_def safe_outcome_def)
  next
    case (Inr x)
    have h: "height f1 = height f + a" using shiftsD [OF assms(2)] Some p Inr by blast
    from assms(3) Some p Inr obtain w where "w + gas_left f1 = gas_left f" "safe_outcome N w (d - a) f1 (k x f1)" by blast
    with h have "safe_outcome N (n f) d f (k x f1)" by (fastforce simp: safe_outcome_def)
    with Some p Inr show ?thesis by (simp add: xbind_def lift_vm_def ropt_def rbind_def)
  qed
qed

lemma safe_after_create:
  assumes "\<forall>e. prudent N gas create_left (c e)" "unat gas + gas_left f < 2 ^ 64" "d = 1"
    "\<And>x. k x = lift_vm (after_create gas (sv x) x)"
  shows "safe_outcome N (unat gas) d f (xbind (on_evm c) k f)"
proof -
  have "k = (\<lambda>x. lift_vm (after_create gas (sv x) x))" using assms(4) by blast
  then show ?thesis using assms(1-3) by (auto intro!: safe_tail adds_after_create)
qed

definition spend :: "u64 \<Rightarrow> Frame \<Rightarrow> Frame" where
  "spend gas f = set_contract (snd (UseMultiGas (fr_contract f) (ComputationGas gas))) f"

lemma spend_bind:
  "gas \<le> ct_Gas (fr_contract f) \<Longrightarrow> vbind (vcontract (\<lambda>c. UseMultiGas c (ComputationGas gas))) k f = k True (spend gas f)"
  by (simp add: vbind_def vcontract_def UseMultiGas_def useGas_def spend_def word_less_nat_alt word_le_nat_alt)

lemma spend_left: "gas \<le> ct_Gas (fr_contract f) \<Longrightarrow> unat gas + gas_left (spend gas f) = gas_left f"
  by (simp add: spend_def UseMultiGas_def useGas_def gas_left_def unat_sub word_le_nat_alt word_less_nat_alt)

lemma spend_le: "gas \<le> ct_Gas (fr_contract f) \<Longrightarrow> gas_left (spend gas f) \<le> gas_left f"
  using spend_left [of gas f] by simp

lemma keeps_less [simp]: "gas - gas div 64 \<le> (gas :: u64)"
  by (simp add: word_le_nat_alt unat_sub_if' unat_div)

lemma gas_left_spend_stack [simp]: "gas_left (spend gas (f\<lparr>fr_stack := st\<rparr>)) = gas_left (spend gas f)"
  by (simp add: spend_def gas_left_def)

lemma safe_opCreate: "safe_exec no_slack (- 2) opCreate"
  unfolding safe_exec_def
proof (intro allI impI)
  fix N cs E and cfg :: EvmCfg and f :: Frame
  assume cs: "callees_ok N cs"
  show "safe_outcome N (no_slack f) (- 2) f (opCreate cs E cfg f)"
    unfolding opCreate_def
  proof (rule safe_lift_paid [where a = "- 3"], goal_cases)
    case (1 r f1)
    then show ?case by (auto simp: protect_def head_simps spend_bind spend_le split: option.splits if_splits)
  next
    case 2
    show ?case unfolding protect_def Let_def by (rule shifts_ret shifts_bind shifts_if shift_intros | simp)+
  next
    case (3 x f1)
    then obtain a input gas v where x: "x = (a, input, gas, v)" and g: "unat gas + gas_left f1 = gas_left f"
      by (auto simp: protect_def head_simps spend_bind spend_left split: option.splits if_splits)
    have "safe_outcome N (unat gas) 1 f1 (xbind (on_evm (c_Create cs a input gas v)) (\<lambda>(res, addr, returnGas, used, suberr).
       let stackvalue =
         (if IsHomestead (chainRules cfg) \<and> suberr = Some ErrCodeStoreOutOfGas then 0
          else if suberr \<noteq> None \<and> suberr \<noteq> Some ErrCodeStoreOutOfGas then 0
          else from_address addr)
       in lift_vm (after_create gas stackvalue (res, addr, returnGas, used, suberr))) f1)"
      by (rule safe_after_create [where sv = "\<lambda>(res, addr, returnGas, used, suberr).
           if IsHomestead (chainRules cfg) \<and> suberr = Some ErrCodeStoreOutOfGas then 0
           else if suberr \<noteq> None \<and> suberr \<noteq> Some ErrCodeStoreOutOfGas then 0
           else from_address addr", OF callees_okD(5) [OF cs]])
        (use g gas_left_bound [of f] in \<open>simp_all add: Let_def split_beta\<close>)
    with x g show ?case by auto
  qed
qed

lemma safe_opCreate2: "safe_exec no_slack (- 3) opCreate2"
  unfolding safe_exec_def
proof (intro allI impI)
  fix N cs E and cfg :: EvmCfg and f :: Frame
  assume cs: "callees_ok N cs"
  show "safe_outcome N (no_slack f) (- 3) f (opCreate2 cs E cfg f)"
    unfolding opCreate2_def
  proof (rule safe_lift_paid [where a = "- 4"], goal_cases)
    case (1 r f1)
    then show ?case by (auto simp: protect_def head_simps spend_bind spend_le split: option.splits if_splits)
  next
    case 2
    show ?case unfolding protect_def Let_def by (rule shifts_ret shifts_bind shifts_if shift_intros | simp)+
  next
    case (3 x f1)
    then obtain a input gas v salt where x: "x = (a, input, gas, v, salt)" and g: "unat gas + gas_left f1 = gas_left f"
      by (auto simp: protect_def head_simps spend_bind spend_left split: option.splits if_splits)
    have "safe_outcome N (unat gas) 1 f1
       (xbind (on_evm (c_Create2 cs a input gas v salt)) (\<lambda>(res, addr, returnGas, used, suberr).
       let stackvalue = (if suberr \<noteq> None then 0 else from_address addr)
       in lift_vm (after_create gas stackvalue (res, addr, returnGas, used, suberr))) f1)"
      by (rule safe_after_create [where sv = "\<lambda>(res, addr, returnGas, used, suberr).
           if suberr \<noteq> None then 0 else from_address addr", OF callees_okD(6) [OF cs]])
        (use g gas_left_bound [of f] in \<open>simp_all add: Let_def split_beta\<close>)
    with x g show ?case by auto
  qed
qed

subsection \<open>More fuel\<close>

text \<open>
  More fuel for the executions an instruction starts changes a result only where there was none.
\<close>

definition extends :: "'a run \<Rightarrow> 'a run \<Rightarrow> bool" where
  "extends r' r \<longleftrightarrow> r = OutOfFuel \<or> r' = r"

named_theorems extend_rules \<open>computations that are extended when their parts are\<close>

lemma extends_refl [extend_rules, simp]: "extends r r"
  by (simp add: extends_def)

lemma extends_rbind [extend_rules]: "extends r' r \<Longrightarrow> (\<And>x. extends (k' x) (k x)) \<Longrightarrow> extends (rbind r' k') (rbind r k)"
  by (auto simp: extends_def rbind_def split: run.splits)

lemma extends_prod [extend_rules]:
  "(\<And>x y. extends (k' x y) (k x y)) \<Longrightarrow> extends (case p of (x, y) \<Rightarrow> k' x y) (case p of (x, y) \<Rightarrow> k x y)"
  by (cases p) simp

definition mextends :: "('s \<Rightarrow> 'a run) \<Rightarrow> ('s \<Rightarrow> 'a run) \<Rightarrow> bool" where
  "mextends m' m \<longleftrightarrow> (\<forall>f. extends (m' f) (m f))"

lemma mextends_refl [extend_rules]: "mextends m m"
  by (simp add: mextends_def)

lemma mextends_xbind [extend_rules]:
  "mextends m' m \<Longrightarrow> (\<And>x. mextends (k' x) (k x)) \<Longrightarrow> mextends (xbind m' k') (xbind m k)"
  by (auto simp: mextends_def xbind_def intro!: extends_rbind split: sum.splits)

lemma mextends_on_evm [extend_rules]: "mextends c' c \<Longrightarrow> mextends (on_evm c') (on_evm c)"
  by (auto simp: mextends_def on_evm_def intro!: extends_rbind)

lemma mextends_prod [extend_rules]:
  "(\<And>x y. mextends (k' x y) (k x y)) \<Longrightarrow> mextends (case p of (x, y) \<Rightarrow> k' x y) (case p of (x, y) \<Rightarrow> k x y)"
  by (cases p) simp

definition callees_extend :: "Callees \<Rightarrow> Callees \<Rightarrow> bool" where
  "callees_extend cs' cs \<longleftrightarrow>
     (\<forall>a b input gas v. mextends (c_Call cs' a b input gas v) (c_Call cs a b input gas v)) \<and>
     (\<forall>a b input gas v. mextends (c_CallCode cs' a b input gas v) (c_CallCode cs a b input gas v)) \<and>
     (\<forall>a b c input gas v. mextends (c_DelegateCall cs' a b c input gas v) (c_DelegateCall cs a b c input gas v)) \<and>
     (\<forall>a b input gas. mextends (c_StaticCall cs' a b input gas) (c_StaticCall cs a b input gas)) \<and>
     (\<forall>a input gas v. mextends (c_Create cs' a input gas v) (c_Create cs a input gas v)) \<and>
     (\<forall>a input gas v salt. mextends (c_Create2 cs' a input gas v salt) (c_Create2 cs a input gas v salt))"

lemma callees_extendD:
  assumes "callees_extend cs' cs"
  shows "mextends (c_Call cs' a b input gas v) (c_Call cs a b input gas v)"
    "mextends (c_CallCode cs' a b input gas v) (c_CallCode cs a b input gas v)"
    "mextends (c_DelegateCall cs' a b c input gas v) (c_DelegateCall cs a b c input gas v)"
    "mextends (c_StaticCall cs' a b input gas) (c_StaticCall cs a b input gas)"
    "mextends (c_Create cs' a input gas v) (c_Create cs a input gas v)"
    "mextends (c_Create2 cs' a input gas v salt) (c_Create2 cs a input gas v salt)"
  using assms unfolding callees_extend_def by simp_all

definition mono_exec :: "executor \<Rightarrow> bool" where
  "mono_exec ex \<longleftrightarrow> (\<forall>cs' cs E cfg. callees_extend cs' cs \<longrightarrow> mextends (ex cs' E cfg) (ex cs E cfg))"

lemma mono_simple: "mono_exec (simple op)"
  by (simp add: mono_exec_def simple_def mextends_refl)

lemma mono_calls:
  "mono_exec opCall" "mono_exec opCallCode" "mono_exec opDelegateCall" "mono_exec opStaticCall"
  "mono_exec opCreate" "mono_exec opCreate2"
  unfolding mono_exec_def opCall_def opCallCode_def opDelegateCall_def opStaticCall_def opCreate_def opCreate2_def
  by (intro allI impI; (rule extend_rules callees_extendD | assumption)+)+

end
