(* ===== verification/VMTableSets.thy ===== *)
theory VMTableSets
imports VMTable
begin

text \<open>
  Every entry of every instruction table keeps the contract of the interpreter loop, also after
  any of the proposals has been switched on.
\<close>

text \<open>The slots whose gas function charges for the operation itself, without a constant cost.\<close>

definition base_cost :: "u8 \<Rightarrow> nat" where
  "base_cost k = (if k = EXP \<or> k = SLOAD \<or> k = SSTORE \<or> (0xA0 \<le> k \<and> k \<le> 0xA4) then 1 else 0)"

definition entry_ok :: "u8 \<Rightarrow> operation \<Rightarrow> bool" where
  "entry_ok k op \<longleftrightarrow>
     (\<forall>g. op_dynamicGas op = Some g \<longrightarrow> covers (slack k) (base_cost k) g) \<and>
     safe_exec (slack k) (StackLimit - op_maxStack op) (op_execute op) \<and> mono_exec (op_execute op) \<and>
     (halts (op_execute op) \<or>
      (0 < op_constantGas op \<or> (op_dynamicGas op \<noteq> None \<and> base_cost k = 1)) \<and>
      (slack k = no_slack \<or> op_dynamicGas op \<noteq> None))"

definition table_ok :: "JumpTable \<Rightarrow> bool" where
  "table_ok jt \<longleftrightarrow> (\<forall>k. entry_ok k (jt k))"

lemma with_simps [simp]:
  "op_execute (with_gas g op) = op_execute op" "op_constantGas (with_gas g op) = op_constantGas op"
  "op_dynamicGas (with_gas g op) = Some g" "op_maxStack (with_gas g op) = op_maxStack op"
  "op_execute (with_memory m op) = op_execute op" "op_constantGas (with_memory m op) = op_constantGas op"
  "op_dynamicGas (with_memory m op) = op_dynamicGas op" "op_maxStack (with_memory m op) = op_maxStack op"
  "op_execute (with_constant c op) = op_execute op" "op_constantGas (with_constant c op) = c"
  "op_dynamicGas (with_constant c op) = op_dynamicGas op" "op_maxStack (with_constant c op) = op_maxStack op"
  "op_execute (instr ex c mn mx) = ex" "op_constantGas (instr ex c mn mx) = c"
  "op_dynamicGas (instr ex c mn mx) = None" "op_maxStack (instr ex c mn mx) = mx"
  by (simp_all add: with_gas_def with_memory_def with_constant_def instr_def)

lemma entry_with_gas: "entry_ok k op \<Longrightarrow> covers (slack k) (base_cost k) g \<Longrightarrow> entry_ok k (with_gas g op)"
  unfolding entry_ok_def by auto

lemma entry_with_constant: "entry_ok k op \<Longrightarrow> 0 < c \<Longrightarrow> entry_ok k (with_constant c op)"
  unfolding entry_ok_def by auto

lemma entry_with_memory [simp]: "entry_ok k (with_memory m op) \<longleftrightarrow> entry_ok k op"
  unfolding entry_ok_def by simp

lemma entry_simple:
  "slack k = no_slack \<Longrightarrow> tame (StackLimit - mx) ex \<Longrightarrow> 0 < c \<Longrightarrow> entry_ok k (instr (simple ex) c mn mx)"
  unfolding entry_ok_def by (simp add: safe_simple mono_simple)

lemma entry_halting:
  "halting ex \<Longrightarrow> tame (StackLimit - mx) ex \<Longrightarrow> entry_ok k (instr (simple ex) c mn mx)"
  unfolding entry_ok_def using safe_simple halts_simple mono_simple by auto

lemma entry_gas:
  "safe_exec (slack k) (StackLimit - mx) ex \<Longrightarrow> mono_exec ex \<Longrightarrow> covers (slack k) (base_cost k) g \<Longrightarrow> 0 < c \<or> base_cost k = 1 \<Longrightarrow>
     entry_ok k (with_gas g (instr ex c mn mx))"
  unfolding entry_ok_def by auto

lemma entry_gas_simple:
  "tame (StackLimit - mx) ex \<Longrightarrow> covers (slack k) (base_cost k) g \<Longrightarrow> 0 < c \<or> base_cost k = 1 \<Longrightarrow>
     entry_ok k (with_gas g (instr (simple ex) c mn mx))"
  by (rule entry_gas) (simp_all add: safe_simple mono_simple)

lemma entry_gas_halting:
  "halting ex \<Longrightarrow> tame (StackLimit - mx) ex \<Longrightarrow> covers (slack k) (base_cost k) g \<Longrightarrow>
     entry_ok k (with_gas g (instr (simple ex) c mn mx))"
  by (rule entry_with_gas [OF entry_halting])

lemmas entry_rules = entry_simple entry_halting entry_gas_simple entry_gas_halting entry_gas tame_rules halting_stops
  covers_rules [unfolded One_nat_def] safe_opCall safe_opCallCode safe_opDelegateCall safe_opStaticCall safe_opCreate safe_opCreate2 mono_calls

lemmas entry_simps = maxStack_def maxSwapStack_def maxDupStack_def slack_def base_cost_def

definition entries_ok :: "(u8 \<times> operation) list \<Rightarrow> bool" where
  "entries_ok ops \<longleftrightarrow> list_all (\<lambda>(k, op). entry_ok k op) ops"

lemma entries_arithmetic: "entries_ok frontier_arithmetic"
  by (simp add: entries_ok_def frontier_arithmetic_def entry_rules entry_simps)

lemma entries_environment: "entries_ok frontier_environment"
  by (simp add: entries_ok_def frontier_environment_def entry_rules entry_simps)

lemma entries_storage: "entries_ok frontier_storage"
  by (simp add: entries_ok_def frontier_storage_def entry_rules entry_simps)

lemma entries_push: "entries_ok frontier_push" "entries_ok frontier_push_more"
  by (simp_all add: entries_ok_def frontier_push_def frontier_push_more_def entry_rules entry_simps)

lemma entries_dup_swap: "entries_ok frontier_dup_swap" "entries_ok frontier_swap_more"
  by (simp_all add: entries_ok_def frontier_dup_swap_def frontier_swap_more_def entry_rules entry_simps)

lemma entries_system: "entries_ok frontier_system"
  by (simp add: entries_ok_def frontier_system_def entry_rules entry_simps)

lemma entry_undefined: "entry_ok k undefined_operation"
  using entry_halting [OF halting_stops(3), of "maxStack 0 0" k 0 0] tame_rules
  by (simp add: entry_ok_def undefined_operation_def)

lemma entries_map_of: "entries_ok ops \<Longrightarrow> map_of ops k = Some op \<Longrightarrow> entry_ok k op"
  by (auto simp: entries_ok_def list_all_iff dest!: map_of_SomeD)

lemma table_frontier: "table_ok newFrontierInstructionSet"
proof -
  have "entries_ok (frontier_arithmetic @ frontier_environment @ frontier_storage @ frontier_push @ frontier_push_more @
      frontier_dup_swap @ frontier_swap_more @ frontier_system)"
    using entries_arithmetic entries_environment entries_storage entries_push entries_dup_swap entries_system
    by (simp add: entries_ok_def)
  from entries_map_of [OF this] show ?thesis unfolding table_ok_def newFrontierInstructionSet_def
    by (simp add: entry_undefined del: map_of_append split: option.split)
qed

lemma table_upd: "table_ok jt \<Longrightarrow> entry_ok k op \<Longrightarrow> table_ok (jt(k := op))"
  by (simp add: table_ok_def)

lemma table_change: "table_ok jt \<Longrightarrow> (\<And>op. entry_ok k op \<Longrightarrow> entry_ok k (h op)) \<Longrightarrow> table_ok (change k h jt)"
  by (simp add: table_ok_def change_def)

lemma table_gas: "table_ok jt \<Longrightarrow> covers (slack k) (base_cost k) g \<Longrightarrow> table_ok (change k (with_gas g) jt)"
  by (rule table_change) (simp_all add: entry_with_gas)

lemma table_constant: "table_ok jt \<Longrightarrow> 0 < c \<Longrightarrow> table_ok (change k (with_constant c) jt)"
  by (rule table_change) (simp_all add: entry_with_constant)

lemma table_gas_constant:
  "table_ok jt \<Longrightarrow> covers (slack k) (base_cost k) g \<Longrightarrow> 0 < c \<Longrightarrow>
     table_ok (change k (\<lambda>op. with_gas g (with_constant c op)) jt)"
  by (rule table_change) (simp_all add: entry_with_gas entry_with_constant)

lemma table_sload: "table_ok jt \<Longrightarrow> table_ok (change SLOAD (\<lambda>op. with_gas gasSLoadEIP2929 (with_constant 0 op)) jt)"
  by (rule table_change) (auto simp: entry_ok_def entry_rules entry_simps)

lemmas table_rules = table_upd table_gas table_constant table_gas_constant table_sload entry_rules

lemma table_enable:
  assumes "table_ok jt"
  shows "table_ok (enable1884 jt)" "table_ok (enable1344 jt)" "table_ok (enable2200 jt)" "table_ok (enable2929 jt)"
    "table_ok (enable3529 jt)" "table_ok (enable3198 jt)" "table_ok (enable1153 jt)" "table_ok (enable3855 jt)"
    "table_ok (enable3860 jt)" "table_ok (enable5656 jt)" "table_ok (enable4844 jt)" "table_ok (enable7939 jt)"
    "table_ok (enable7516 jt)" "table_ok (enable6780 jt)" "table_ok (enable7702 jt)"
  using assms
  by (simp_all add: enable1884_def enable1344_def enable2200_def enable2929_def enable3529_def enable3198_def enable1153_def
      enable3855_def enable3860_def enable5656_def enable4844_def enable7939_def enable7516_def enable6780_def
      enable7702_def table_rules entry_simps WarmStorageReadCostEIP2929_def SELFDESTRUCT_def)

lemma table_early:
  "table_ok newHomesteadInstructionSet" "table_ok newTangerineWhistleInstructionSet" "table_ok newSpuriousDragonInstructionSet"
proof -
  show h: "table_ok newHomesteadInstructionSet"
    unfolding newHomesteadInstructionSet_def by (rule table_upd [OF table_frontier]) (simp add: entry_rules entry_simps)
  show t: "table_ok newTangerineWhistleInstructionSet"
    using h by (simp add: newTangerineWhistleInstructionSet_def Let_def table_constant)
  show "table_ok newSpuriousDragonInstructionSet"
    unfolding newSpuriousDragonInstructionSet_def by (rule table_gas [OF t]) (simp add: entry_rules entry_simps)
qed

lemma table_later: "table_ok newByzantiumInstructionSet" "table_ok newConstantinopleInstructionSet"
proof -
  show b: "table_ok newByzantiumInstructionSet"
    unfolding newByzantiumInstructionSet_def
    by (intro table_upd table_early(3)) (simp_all add: entry_rules entry_simps)
  show "table_ok newConstantinopleInstructionSet"
    unfolding newConstantinopleInstructionSet_def
    by (intro table_upd b) (simp_all add: entry_rules entry_simps)
qed

lemma table_latest:
  "table_ok newIstanbulInstructionSet" "table_ok newBerlinInstructionSet" "table_ok newLondonInstructionSet"
  "table_ok newMergeInstructionSet" "table_ok newShanghaiInstructionSet" "table_ok newCancunInstructionSet"
  "table_ok newPragueInstructionSet" "table_ok newOsakaInstructionSet"
proof -
  have random: "entry_ok PREVRANDAO (instr (simple opRandom) GasQuickStep (minStack 0 1) (maxStack 0 1))"
    by (simp add: entry_rules entry_simps)
  show i: "table_ok newIstanbulInstructionSet"
    unfolding newIstanbulInstructionSet_def by (intro table_enable table_later)
  show b: "table_ok newBerlinInstructionSet" unfolding newBerlinInstructionSet_def by (rule table_enable [OF i])
  show l: "table_ok newLondonInstructionSet" unfolding newLondonInstructionSet_def by (intro table_enable b)
  show m: "table_ok newMergeInstructionSet" unfolding newMergeInstructionSet_def by (rule table_upd [OF l random])
  show s: "table_ok newShanghaiInstructionSet" unfolding newShanghaiInstructionSet_def by (intro table_enable m)
  show c: "table_ok newCancunInstructionSet" unfolding newCancunInstructionSet_def by (intro table_enable s)
  show p: "table_ok newPragueInstructionSet" unfolding newPragueInstructionSet_def by (rule table_enable [OF c])
  show "table_ok newOsakaInstructionSet" unfolding newOsakaInstructionSet_def by (rule table_enable [OF p])
qed

lemma instruction_set_ok: "instruction_set rules = Some jt \<Longrightarrow> table_ok jt"
  using table_frontier table_early table_later table_latest by (auto simp: instruction_set_def split: if_splits)

lemma EnableEIP_ok: "table_ok jt \<Longrightarrow> EnableEIP eip jt = Some (Some jt') \<Longrightarrow> table_ok jt'"
  using table_enable [of jt] by (auto simp: EnableEIP_def activators_def split: if_splits)

text \<open>Whatever the fork and the extra proposals, the table keeps the contract.\<close>

lemma NewEVM_table_ok:
  assumes "NewEVM_table rules eips = Some jt"
  shows "table_ok jt"
proof -
  have "enable_extra eips jt0 = Some jt \<Longrightarrow> table_ok jt0 \<Longrightarrow> table_ok jt" for jt0
    by (induction eips arbitrary: jt0) (auto split: option.splits dest: EnableEIP_ok)
  then show ?thesis using assms instruction_set_ok by (auto simp: NewEVM_table_def bind_eq_Some_conv split: if_splits)
qed

end
