(* ===== verification/VMTermination.thy ===== *)
theory VMTermination
imports VMTableSets
begin

text \<open>
  The interpreter ends: the fuel that one execution needs is bounded by its gas. With this come
  the bounds that hold in every execution, that no call returns more gas than it was given and
  that no stack grows beyond its limit.
\<close>

subsection \<open>What is paid before an operation is executed\<close>

lemma slack_simps [simp]:
  "slack k (set_contract c f) = slack k f" "slack k (f\<lparr>fr_mem := m\<rparr>) = slack k f"
  by (simp_all add: slack_def value_slack_def temp_slack_def no_slack_def)

lemma payE:
  assumes "pay cost note' f = Some (r, f1)"
  shows "gas_left f1 \<le> gas_left f"
    "r = Inr u \<Longrightarrow> gas_left f1 + unat cost = gas_left f \<and> fr_stack f1 = fr_stack f \<and> slack k f1 = slack k f"
  using assms
  by (auto simp: pay_def vbind_run vm_run vcontract_def gas_left_def unat_sub word_le_nat_alt word_less_nat_alt not_less
      split: if_splits)

lemma memory_size_keeps: "keeps (\<lambda>f. f) (memory_size op)"
  unfolding memory_size_def by (rule keeps_intros)+

lemma out_of_gas_SomeE:
  assumes "out_of_gas m f = Some (r, f1)"
  obtains r' where "m f = Some (r', f1)" "\<And>c. r = Inr c \<Longrightarrow> r' = Inr c"
  using assms by (auto simp: out_of_gas_def split: option.splits prod.splits sum.splits)

lemma charge_dynamic_paid:
  assumes "charge_dynamic op E cfg f = Some (r, f1)" "\<not> IsEIP4762 (chainRules cfg)"
    "\<And>g. op_dynamicGas op = Some g \<Longrightarrow> covers (slack k) j g"
  shows "gas_left f1 \<le> gas_left f \<and> (\<forall>ms. r = Inr ms \<longrightarrow> fr_stack f1 = fr_stack f \<and>
    (op_dynamicGas op \<noteq> None \<longrightarrow> slack k f1 + j + gas_left f1 \<le> gas_left f))"
proof (cases "op_dynamicGas op")
  case None
  with assms(1) show ?thesis by (auto simp: charge_dynamic_def vret_def)
next
  case (Some g)
  note covers = assms(3) [OF Some]
  from assms(1) Some have "vbind (memory_size op) (\<lambda>ms. vbind (out_of_gas (g E cfg ms)) (\<lambda>c.
      vthen (pay (SingleGas c) (\<lambda>used. SaturatingAddInto used c)) (vret ms))) f = Some (r, f1)"
    by (simp add: charge_dynamic_def)
  then show ?thesis
  proof (cases rule: vbind_SomeE)
    case (err e)
    with keepsD [OF memory_size_keeps err(1)] show ?thesis by simp
  next
    case (ok ms f2)
    have f2: "f2 = f" using keepsD [OF memory_size_keeps ok(1)] by simp
    from ok(2) show ?thesis
    proof (cases rule: vbind_SomeE)
      case (err e)
      then obtain r' where "g E cfg ms f = Some (r', f1)" unfolding f2 by (auto elim: out_of_gas_SomeE)
      with covers assms(2) err(2) show ?thesis unfolding covers_def by blast
    next
      case (ok c f3)
      have "g E cfg ms f = Some (Inr c, f3)" using out_of_gas_SomeE [OF ok(1)] unfolding f2 by blast
      with covers assms(2) have c: "gas_left f3 = gas_left f" "fr_stack f3 = fr_stack f" "slack k f3 + j \<le> unat (SingleGas c)"
        unfolding covers_def by blast+
      from ok(2) show ?thesis unfolding vthen_def
      proof (cases rule: vbind_SomeE)
        case (err e)
        with payE(1) [OF err(1)] c show ?thesis by simp
      next
        case (ok u f4)
        note p = payE(2) [OF ok(1) refl, of k]
        from ok(2) have "f1 = f4" by (simp add: vret_def)
        with p c show ?thesis by auto
      qed
    qed
  qed
qed

lemma check_stackE:
  assumes "check_stack op f = Some (r, f1)"
  shows "f1 = f" "r = Inr u \<Longrightarrow> op_minStack op \<le> height f \<and> height f \<le> op_maxStack op"
  using assms by (auto simp: check_stack_def vbind_run vm_run split: if_splits)

lemma prepare_op_paid:
  assumes "prepare_op op b E cfg f = Some (r, f1)" "\<not> IsEIP4762 (chainRules cfg)" "entry_ok k op"
  shows "gas_left f1 \<le> gas_left f \<and> (\<forall>u. r = Inr u \<longrightarrow> fr_stack f1 = fr_stack f \<and> height f \<le> op_maxStack op \<and>
    (halts (op_execute op) \<or> slack k f1 + gas_left f1 < gas_left f))"
  using assms(1) unfolding prepare_op_def vthen_def
proof (cases rule: vbind_SomeE)
  case (err e)
  with check_stackE(1) [OF err(1)] show ?thesis by simp
next
  case (ok u0 f2)
  note c = check_stackE(1) [OF ok(1)] check_stackE(2) [OF ok(1) refl]
  from ok(2) show ?thesis
  proof (cases rule: vbind_SomeE)
    case (err e)
    with payE(1) [OF err(1)] c show ?thesis by simp
  next
    case (ok u1 f3)
    note p = payE(2) [OF ok(1) refl, of k]
    have entry: "\<And>g. op_dynamicGas op = Some g \<Longrightarrow> covers (slack k) (base_cost k) g"
      using assms(3) by (simp add: entry_ok_def)
    from ok(2) show ?thesis
    proof (cases rule: vbind_SomeE)
      case (err e)
      with charge_dynamic_paid [OF err(1) assms(2) entry] p c show ?thesis by simp
    next
      case (ok ms f4)
      have d: "gas_left f4 \<le> gas_left f3" "fr_stack f4 = fr_stack f3"
        "op_dynamicGas op \<noteq> None \<longrightarrow> slack k f4 + base_cost k + gas_left f4 \<le> gas_left f3"
        using charge_dynamic_paid [OF ok(1) assms(2) entry] by blast+
      have f1: "gas_left f1 = gas_left f4" "fr_stack f1 = fr_stack f4" "slack k f1 = slack k f4"
        using ok(2) by (auto simp: vwhen_def vmem_def vret_def split: if_splits)
      have "halts (op_execute op) \<or> slack k f4 + gas_left f4 < gas_left f"
        using assms(3) d p c unfolding entry_ok_def
        by (cases "op_dynamicGas op") (auto simp: no_slack_def word_less_nat_alt)
      with d p c f1 show ?thesis by simp
    qed
  qed
qed

lemma run_op_bounds:
  assumes "table_ok jt" "\<not> IsEIP4762 (chainRules cfg)" "callees_ok N cs"
  shows "run_op jt cs E cfg f = OutOfFuel \<Longrightarrow> N < gas_left f"
    "run_op jt cs E cfg f = Result (x, f') \<Longrightarrow> gas_left f' \<le> gas_left f \<and>
       (\<forall>res. x = Inr (res, None) \<longrightarrow> gas_left f' < gas_left f \<and> height f' \<le> StackLimit)"
proof -
  define op where "op = GetOp (fr_contract f) (fr_pc f)"
  have entry: "entry_ok op (jt op)" using assms(1) by (simp add: table_ok_def)
  define m where "m = prepare_op (jt op) op E cfg f"
  have run: "run_op jt cs E cfg f =
      (case m of None \<Rightarrow> Panic | Some (Inl e, f1) \<Rightarrow> Result (Inl e, f1) | Some (Inr u, f1) \<Rightarrow> op_execute (jt op) cs E cfg f1)"
    using assms(2) by (auto simp: run_op_def xbind_def rbind_def lift_vm_def ropt_def vbind_run vthen_def vbind_def vm_run vopt_def m_def op_def
        split: option.splits sum.splits)
  have bounds: "(run_op jt cs E cfg f = OutOfFuel \<longrightarrow> N < gas_left f) \<and>
      (\<forall>x f'. run_op jt cs E cfg f = Result (x, f') \<longrightarrow> gas_left f' \<le> gas_left f \<and>
        (\<forall>res. x = Inr (res, None) \<longrightarrow> gas_left f' < gas_left f \<and> height f' \<le> StackLimit))"
  proof (cases m)
    case None
    then show ?thesis by (simp add: run)
  next
    case (Some p)
    obtain r f1 where p: "p = (r, f1)" by (cases p)
    note paid = prepare_op_paid [OF Some [unfolded m_def p] assms(2) entry]
    show ?thesis
    proof (cases r)
      case (Inl e)
      with Some p paid show ?thesis by (simp add: run)
    next
      case (Inr u)
      then have run1: "run_op jt cs E cfg f = op_execute (jt op) cs E cfg f1" using Some p by (simp add: run)
      from paid Inr consider "halts (op_execute (jt op))" | "slack op f1 + gas_left f1 < gas_left f" by blast
      then show ?thesis
      proof cases
        case 1
        have le: "gas_left f1 \<le> gas_left f" using paid by blast
        from 1 have "op_execute (jt op) cs E cfg f1 \<noteq> OutOfFuel"
          "\<And>x f'. op_execute (jt op) cs E cfg f1 = Result (x, f') \<Longrightarrow> gas_left f' \<le> gas_left f1 \<and> (\<forall>res. x \<noteq> Inr (res, None))"
          unfolding halts_def by blast+
        with le show ?thesis unfolding run1 by fastforce
      next
        case 2
        then have "slack op f1 + gas_left f1 < 2 ^ 64" using gas_left_bound [of f] by linarith
        then have "safe_outcome N (slack op f1) (StackLimit - op_maxStack (jt op)) f1 (op_execute (jt op) cs E cfg f1)"
          using entry assms(3) unfolding entry_ok_def safe_exec_def by blast
        with 2 paid Inr show ?thesis unfolding run1 safe_outcome_def by fastforce
      qed
    qed
  qed
  then show "run_op jt cs E cfg f = OutOfFuel \<Longrightarrow> N < gas_left f"
    "run_op jt cs E cfg f = Result (x, f') \<Longrightarrow> gas_left f' \<le> gas_left f \<and>
       (\<forall>res. x = Inr (res, None) \<longrightarrow> gas_left f' < gas_left f \<and> height f' \<le> StackLimit)"
    by blast+
qed

subsection \<open>Calls\<close>

text \<open>
  What the code behind interfaces has to do: a program of the processing hook and a precompiled
  contract with access to the EVM return no more gas than they got.
\<close>

definition hooks_ok :: "EvmCfg \<Rightarrow> bool" where
  "hooks_ok cfg \<longleftrightarrow>
     (\<forall>input f r f'. hook_ExecuteWASM cfg input f = Some (r, f') \<longrightarrow> gas_left f' \<le> gas_left f) \<and>
     (\<forall>a pc input gas info e r e'. precompile cfg a = Some (AdvancedPrecompile pc) \<longrightarrow>
        pc input gas info e = Some (r, e') \<longrightarrow> call_left r \<le> gas)"

definition runner_ok :: "nat \<Rightarrow> runner \<Rightarrow> bool" where
  "runner_ok N rn \<longleftrightarrow> (\<forall>c input ro e. prudent N (ct_Gas c) (\<lambda>(ret, err, c'). ct_Gas c') (rn c input ro e))"

definition eprudent :: "nat \<Rightarrow> u64 \<Rightarrow> ('a \<Rightarrow> u64) \<Rightarrow> 'a evm \<Rightarrow> bool" where
  "eprudent N gas left m \<longleftrightarrow> (\<forall>e. prudent N gas left (m e))"

definition fuelless :: "'a evm \<Rightarrow> bool" where
  "fuelless m \<longleftrightarrow> (\<forall>e. m e \<noteq> OutOfFuel)"

lemma fuelless_basic [simp]:
  "fuelless (eret x)" "fuelless (eget g)" "fuelless (edb op1)" "fuelless (edb_upd op2)" "fuelless (edb_opt op3)"
  "fuelless (ewhen b m) \<longleftrightarrow> b \<longrightarrow> fuelless m" "fuelless witness_charge"
  by (auto simp: fuelless_def witness_charge_def eret_def eget_def edb_def edb_upd_def edb_opt_def ewhen_def rbind_def ropt_def
      split: prod.splits option.splits run.splits)

lemma fuelless_bind [simp]: "fuelless m \<Longrightarrow> (\<And>x. fuelless (k x)) \<Longrightarrow> fuelless (ebind m k)"
  by (auto simp: fuelless_def ebind_def rbind_def split: run.splits prod.splits)

lemma fuelless_code [simp]:
  "fuelless (CanTransfer E a v)" "fuelless (Transfer E a b v)" "fuelless (resolveCode E cfg a)" "fuelless (resolveCodeHash E cfg a)"
  by (auto simp: CanTransfer_def Transfer_def resolveCode_def resolveCodeHash_def intro!: fuelless_bind split: option.splits)

lemma eprudent_ret: "left x \<le> gas \<Longrightarrow> eprudent N gas left (eret x)"
  by (simp add: eprudent_def prudent_def eret_def)

lemma eprudent_bind: "fuelless m \<Longrightarrow> (\<And>x. eprudent N gas left (k x)) \<Longrightarrow> eprudent N gas left (ebind m k)"
  by (auto simp: eprudent_def prudent_def fuelless_def ebind_def rbind_def split: run.splits prod.splits)

lemma eprudent_through:
  assumes "eprudent N gas left1 m" "\<And>x. left1 x \<le> gas \<Longrightarrow> eprudent N gas left (k x)"
  shows "eprudent N gas left (ebind m k)"
  unfolding eprudent_def
proof
  fix e
  show "prudent N gas left (ebind m k e)"
  proof (cases "m e")
    case (Result p)
    obtain x e1 where p: "p = (x, e1)" by (cases p)
    have "left1 x \<le> gas" using assms(1) Result p unfolding eprudent_def prudent_def by blast
    from assms(2) [OF this] Result p show ?thesis by (simp add: eprudent_def ebind_def rbind_def)
  qed (use assms(1) in \<open>simp_all add: eprudent_def prudent_def ebind_def rbind_def\<close>)
qed

lemma eprudent_if: "(b \<Longrightarrow> eprudent N gas left m) \<Longrightarrow> (\<not> b \<Longrightarrow> eprudent N gas left n) \<Longrightarrow> eprudent N gas left (if b then m else n)"
  by simp

lemma left_simps [simp]: "call_left (ret, gas, used, err) = gas" "create_left (ret, a, gas, used, err) = gas"
  by (simp_all add: call_left_def create_left_def)

lemma eprudent_settle: "eprudent N gas call_left m \<Longrightarrow> eprudent N gas call_left (ebind m (settle E snap))"
proof (erule eprudent_through)
  fix x :: call_result assume "call_left x \<le> gas"
  then show "eprudent N gas call_left (settle E snap x)"
    unfolding settle_def by (cases x) (auto intro!: eprudent_if eprudent_ret eprudent_bind)
qed

lemma eprudent_precompile:
  assumes "hooks_ok cfg" "precompile cfg a = Some p"
  shows "eprudent N gas call_left (run_precompile cfg p input gas info)"
proof -
  have "eprudent N gas call_left (RunPrecompiledContract cfg p input gas info)"
  proof (cases p)
    case (PlainPrecompile required pc)
    then show ?thesis
      by (auto simp: RunPrecompiledContract_def Let_def call_left_def word_le_nat_alt word_less_nat_alt unat_sub_if' intro!: eprudent_ret
          split: prod.splits)
  next
    case (AdvancedPrecompile pc)
    have "call_left r \<le> gas" if "pc input gas info e = Some (r, e')" for e r e'
      using assms AdvancedPrecompile that unfolding hooks_ok_def by blast
    then show ?thesis unfolding AdvancedPrecompile
      by (auto simp: RunPrecompiledContract_def eprudent_def prudent_def ropt_def split: option.splits)
  qed
  then show ?thesis unfolding run_precompile_def
    by (rule eprudent_through) (auto intro!: eprudent_ret)
qed

lemma eprudent_contract:
  assumes "runner_ok N rn" "ct_Gas c = gas"
  shows "eprudent N gas call_left (run_contract rn c input ro)"
proof -
  have "eprudent N gas (\<lambda>(ret, err, c'). ct_Gas c') (rn c input ro)"
    using assms by (auto simp: runner_ok_def eprudent_def)
  then show ?thesis unfolding run_contract_def
    by (rule eprudent_through) (auto intro!: eprudent_ret)
qed

lemma SetCallCode_gas [simp]: "ct_Gas (SetCallCode c h code) = ct_Gas c" "ct_Gas (NewContract a b v gas) = gas"
  by (simp_all add: SetCallCode_def NewContract_def)

lemma eprudent_code_of:
  assumes "hooks_ok cfg" "runner_ok N rn" "ct_Gas c = gas"
  shows "eprudent N gas call_left (run_code_of rn E cfg addr c info input ro)"
  unfolding run_code_of_def
  using assms by (cases "precompile cfg addr") (auto intro!: eprudent_precompile eprudent_bind eprudent_contract)

lemmas eprudent_rules = eprudent_settle eprudent_if eprudent_ret eprudent_bind

lemma evm_Call_prudent:
  assumes "hooks_ok cfg" "runner_ok N rn"
  shows "eprudent N gas call_left (evm_Call rn E cfg caller addr input gas v)"
proof -
  have body: "eprudent N gas call_left (case precompile cfg addr of
      Some p \<Rightarrow> run_precompile cfg p input gas info
    | None \<Rightarrow> ebind (resolveCode E cfg addr) (\<lambda>code. if code = [] then eret ([], gas, ZeroGas, None)
        else ebind (resolveCodeHash E cfg addr) (\<lambda>h.
          run_contract rn (SetCallCode ((NewContract caller addr v gas)\<lparr>IsSystemCall := s\<rparr>) h code) input False)))" for info s
    using assms by (cases "precompile cfg addr")
      (auto intro!: eprudent_precompile eprudent_bind eprudent_if eprudent_contract eprudent_ret)
  show ?thesis unfolding evm_Call_def Let_def
    by (rule body eprudent_rules | simp)+
qed

lemma evm_other_calls_prudent:
  assumes "hooks_ok cfg" "runner_ok N rn"
  shows "eprudent N gas call_left (evm_CallCode rn E cfg caller addr input gas v)"
    "eprudent N gas call_left (evm_DelegateCall rn E cfg o' caller addr input gas v)"
    "eprudent N gas call_left (evm_StaticCall rn E cfg caller addr input gas)"
  unfolding evm_CallCode_def evm_DelegateCall_def evm_StaticCall_def
  by (rule eprudent_rules eprudent_code_of [OF assms] | simp)+

lemma UseMultiGas_le: "ct_Gas (snd (UseMultiGas c mg)) \<le> ct_Gas c"
  by (auto simp: UseMultiGas_def useGas_def word_le_nat_alt word_less_nat_alt unat_sub_if' split: prod.splits)

lemma initNewContract_prudent:
  assumes "runner_ok N rn"
  shows "eprudent N (ct_Gas c) (\<lambda>(ret, err, c'). ct_Gas c') (initNewContract rn E cfg c a)"
proof -
  have "eprudent N (ct_Gas c) (\<lambda>(ret, err, c'). ct_Gas c') (rn c [] False)"
    using assms by (auto simp: runner_ok_def eprudent_def)
  then show ?thesis unfolding initNewContract_def
  proof (rule eprudent_through, goal_cases)
    case (1 x)
    obtain ret err c' where x: "x = (ret, err, c')" by (cases x)
    with 1 have "ct_Gas c' \<le> ct_Gas c" by simp
    moreover from this have "ct_Gas c2 \<le> ct_Gas c" if "UseMultiGas c' mg = (ok, c2)" for mg ok c2
      using UseMultiGas_le [of c' mg] that by simp
    ultimately show ?case
      unfolding x prod.case Let_def by (auto intro!: eprudent_ret eprudent_bind split: prod.splits)
  qed
qed

lemma eprudent_init:
  assumes "runner_ok N rn" "ct_Gas c = gas"
    "\<And>ret err c'. ct_Gas c' \<le> gas \<Longrightarrow> eprudent N gas create_left (k (ret, err, c'))"
  shows "eprudent N gas create_left (ebind (initNewContract rn E cfg c a) k)"
proof (rule eprudent_through)
  show "eprudent N gas (\<lambda>(ret, err, c'). ct_Gas c') (initNewContract rn E cfg c a)"
    using initNewContract_prudent [OF assms(1), of c E cfg a] assms(2) by simp
qed (use assms(3) in auto)

lemma UseMultiGas_le_if: "ct_Gas c \<le> gas \<Longrightarrow> ct_Gas (if b then snd (UseMultiGas c mg) else c) \<le> gas"
  using order_trans [OF UseMultiGas_le [of c mg]] by simp

lemma evm_create_prudent:
  assumes "runner_ok N rn"
  shows "eprudent N gas create_left (evm_create rn E cfg caller code gas v a)"
  unfolding evm_create_def Let_def
  by (rule eprudent_init [OF assms] eprudent_if eprudent_ret eprudent_bind | simp only: prod.case | simp add: UseMultiGas_le_if)+

lemma callees_prudent:
  assumes "hooks_ok cfg" "runner_ok N rn"
  shows "callees_ok N (callees rn E cfg)"
proof -
  have "eprudent N gas create_left (evm_Create rn E cfg a input gas v)" for a input gas v
    unfolding evm_Create_def by (intro eprudent_bind evm_create_prudent [OF assms(2)]) simp
  moreover have "eprudent N gas create_left (evm_Create2 rn E cfg a input gas v salt)" for a input gas v salt
    unfolding evm_Create2_def by (intro evm_create_prudent [OF assms(2)])
  ultimately show ?thesis
    using evm_Call_prudent [OF assms] evm_other_calls_prudent [OF assms]
    unfolding callees_ok_def callees_def eprudent_def by simp
qed

subsection \<open>The loop\<close>

definition loop_ok :: "nat \<Rightarrow> loop \<Rightarrow> bool" where
  "loop_ok N lp \<longleftrightarrow> (\<forall>f. (lp f = OutOfFuel \<longrightarrow> N \<le> gas_left f) \<and> (\<forall>r f'. lp f = Result (r, f') \<longrightarrow> gas_left f' \<le> gas_left f))"

text \<open>The frame an execution starts with, and what \<^verbatim>\<open>Run\<close> runs in it.\<close>

definition enter :: "Contract \<Rightarrow> bytes \<Rightarrow> bool \<Rightarrow> EVM \<Rightarrow> Frame" where
  "enter c input ro e =
     (let e1 = e\<lparr>evm_depth := evm_depth e + 1\<rparr>;
          e1 = (if ro \<and> \<not> evm_readOnly e then e1\<lparr>evm_readOnly := True\<rparr> else e1)
      in \<lparr>fr_evm = e1\<lparr>evm_returnData := []\<rparr>, fr_contract = c\<lparr>ct_Input := input\<rparr>,
          fr_stack = newstack, fr_mem = NewMemory, fr_pc = 0\<rparr>)"

definition leave :: "bool \<Rightarrow> EVM \<Rightarrow> EVM \<Rightarrow> EVM" where
  "leave ro e e' = (let e' = (if ro \<and> \<not> evm_readOnly e then e'\<lparr>evm_readOnly := False\<rparr> else e') in e'\<lparr>evm_depth := evm_depth e' - 1\<rparr>)"

definition run_body :: "loop \<Rightarrow> EvmCfg \<Rightarrow> bytes \<Rightarrow> loop" where
  "run_body lp cfg input f =
     (if IsArbitrum (chainRules cfg) \<and> IsStylusDeployableProgramPrefix (ct_Code (fr_contract f)) (ArbOSVersion (chainRules cfg))
      then ropt (hook_ExecuteWASM cfg input f) else lp f)"

lemma evm_Run_eq:
  "evm_Run lp cfg c input ro e =
     (if ct_Code c = [] then Result (([], None, c), leave ro e (fr_evm (enter c input ro e)))
      else rbind (run_body lp cfg input (enter c input ro e))
             (\<lambda>((ret, err), f). Result ((ret, err, fr_contract f), leave ro e (fr_evm f))))"
proof -
  define sets where "sets = (ro \<and> \<not> evm_readOnly e)"
  show ?thesis
    unfolding evm_Run_def Let_def enter_def leave_def run_body_def sets_def [symmetric] by (cases sets) simp_all
qed

lemma gas_left_enter [simp]: "gas_left (enter c input ro e) = unat (ct_Gas c)"
  by (simp add: enter_def gas_left_def Let_def)

lemma evm_Run_ok:
  assumes "loop_ok N lp" "hooks_ok cfg"
  shows "runner_ok N (evm_Run lp cfg)"
  unfolding runner_ok_def
proof (intro allI)
  fix c :: Contract and input ro e
  let ?f = "enter c input ro e"
  have out: "run_body lp cfg input ?f = OutOfFuel \<Longrightarrow> N \<le> gas_left ?f"
    using assms(1) unfolding run_body_def loop_ok_def ropt_def by (auto simp del: gas_left_enter split: option.splits if_splits)
  have res: "gas_left f' \<le> gas_left ?f" if "run_body lp cfg input ?f = Result (r, f')" for r f'
  proof -
    from that consider "lp ?f = Result (r, f')" | "hook_ExecuteWASM cfg input ?f = Some (r, f')"
      unfolding run_body_def ropt_def by (auto split: option.splits if_splits)
    then show ?thesis using assms unfolding loop_ok_def hooks_ok_def by cases blast+
  qed
  show "prudent N (ct_Gas c) (\<lambda>(ret, err, c'). ct_Gas c') (evm_Run lp cfg c input ro e)"
  proof (cases "run_body lp cfg input ?f")
    case (Result p)
    obtain ret err f' where p: "p = ((ret, err), f')" by (metis surj_pair)
    have "ct_Gas (fr_contract f') \<le> ct_Gas c"
      using res [OF Result [unfolded p]] by (simp add: word_le_nat_alt) (simp add: gas_left_def)
    with Result p show ?thesis by (simp add: evm_Run_eq prudent_def rbind_def)
  qed (use out in \<open>simp_all add: evm_Run_eq prudent_def rbind_def\<close>)
qed

lemma interp_step:
  assumes "run_op jt (callees (evm_Run (interp n jt E cfg) cfg) E cfg) E cfg f = r"
  shows "interp (Suc n) jt E cfg f = (case r of OutOfFuel \<Rightarrow> OutOfFuel | Panic \<Rightarrow> Panic
    | Result (Inl err, f1) \<Rightarrow> Result (([], clear_stop (Some err)), f1)
    | Result (Inr (res, Some err), f1) \<Rightarrow> Result ((res, clear_stop (Some err)), f1)
    | Result (Inr (res, None), f1) \<Rightarrow> interp n jt E cfg (f1\<lparr>fr_pc := fr_pc f1 + 1\<rparr>))"
  unfolding interp.simps assms by (auto simp: rbind_def split: run.splits prod.splits sum.splits option.splits)

lemma loop_okD:
  assumes "loop_ok N lp"
  shows "lp f = OutOfFuel \<Longrightarrow> N \<le> gas_left f" "lp f = Result (r, f') \<Longrightarrow> gas_left f' \<le> gas_left f"
  using assms unfolding loop_ok_def by blast+

lemma interp_ok:
  assumes "table_ok jt" "\<not> IsEIP4762 (chainRules cfg)" "hooks_ok cfg"
  shows "loop_ok n (interp n jt E cfg)"
proof (induction n)
  case 0
  then show ?case by (simp add: loop_ok_def)
next
  case (Suc n)
  define cs where "cs = callees (evm_Run (interp n jt E cfg) cfg) E cfg"
  have "callees_ok n cs" unfolding cs_def by (rule callees_prudent [OF assms(3) evm_Run_ok [OF Suc assms(3)]])
  note step = run_op_bounds [OF assms(1,2) this, of E]
  have "(interp (Suc n) jt E cfg f = OutOfFuel \<longrightarrow> Suc n \<le> gas_left f) \<and>
      (\<forall>r f'. interp (Suc n) jt E cfg f = Result (r, f') \<longrightarrow> gas_left f' \<le> gas_left f)" for f
  proof (cases "run_op jt cs E cfg f")
    case OutOfFuel
    with step(1) [OF OutOfFuel] interp_step [OF OutOfFuel [unfolded cs_def]] show ?thesis by simp
  next
    case Panic
    with interp_step [OF Panic [unfolded cs_def]] show ?thesis by simp
  next
    case (Result p)
    obtain x f1 where p: "p = (x, f1)" by (cases p)
    note b = step(2) [OF Result [unfolded p]]
    note i = interp_step [OF Result [unfolded cs_def p]]
    consider e where "x = Inl e" | res e where "x = Inr (res, Some e)" | res where "x = Inr (res, None)"
      by (cases x) (auto, metis not_None_eq)
    then show ?thesis
    proof cases
      case 3
      let ?g = "f1\<lparr>fr_pc := fr_pc f1 + 1\<rparr>"
      have "gas_left ?g < gas_left f" using b 3 by simp
      then show ?thesis
        using loop_okD(1) [OF Suc, of ?g] loop_okD(2) [OF Suc, of ?g] unfolding i 3 by fastforce
    qed (use i b in simp_all)
  qed
  then show ?case unfolding loop_ok_def by blast
qed

subsection \<open>More fuel\<close>

definition runner_extends :: "runner \<Rightarrow> runner \<Rightarrow> bool" where
  "runner_extends rn' rn \<longleftrightarrow> (\<forall>c input ro. mextends (rn' c input ro) (rn c input ro))"

lemma mextends_ebind [extend_rules]:
  "mextends m' m \<Longrightarrow> (\<And>x. mextends (k' x) (k x)) \<Longrightarrow> mextends (ebind m' k') (ebind m k)"
  by (auto simp: mextends_def ebind_def intro!: extends_rbind)

lemma mextends_cases [extend_rules]:
  "mextends m' m \<Longrightarrow> mextends n' n \<Longrightarrow> mextends (if b then m' else n') (if b then m else n)"
  "mextends k' k \<Longrightarrow> (\<And>x. mextends (h' x) (h x)) \<Longrightarrow>
     mextends (case v of None \<Rightarrow> k' | Some x \<Rightarrow> h' x) (case v of None \<Rightarrow> k | Some x \<Rightarrow> h x)"
  "(\<And>x. mextends (h' x) (h x)) \<Longrightarrow> mextends (let x = w in h' x) (let x = w in h x)"
  by (simp_all split: option.splits)

lemma runner_extendsD: "runner_extends rn' rn \<Longrightarrow> mextends (rn' c input ro) (rn c input ro)"
  by (simp add: runner_extends_def)

lemma callees_mono:
  assumes "runner_extends rn' rn"
  shows "callees_extend (callees rn' E cfg) (callees rn E cfg)"
  unfolding callees_extend_def callees_def Callees.simps evm_Call_def evm_CallCode_def evm_DelegateCall_def evm_StaticCall_def
    evm_Create_def evm_Create2_def evm_create_def initNewContract_def run_code_of_def run_contract_def
  by (intro conjI allI; (rule extend_rules runner_extendsD [OF assms])+)

lemma evm_Run_mono:
  assumes "mextends lp' lp"
  shows "runner_extends (evm_Run lp' cfg) (evm_Run lp cfg)"
proof -
  have "mextends (run_body lp' cfg input) (run_body lp cfg input)" for input
    using assms by (auto simp: mextends_def run_body_def)
  then show ?thesis
    unfolding runner_extends_def mextends_def evm_Run_eq by (auto intro!: extends_rbind)
qed

lemma run_op_mono:
  assumes "table_ok jt" "callees_extend cs' cs"
  shows "mextends (run_op jt cs' E cfg) (run_op jt cs E cfg)"
proof -
  have "mextends (op_execute (jt op) cs' E cfg) (op_execute (jt op) cs E cfg)" for op
    using assms unfolding table_ok_def entry_ok_def mono_exec_def by blast
  then show ?thesis unfolding run_op_def by (intro mextends_xbind mextends_refl)
qed

lemma extends_next:
  assumes "mextends lp' lp"
  shows "extends (case x of (Inl err, f) \<Rightarrow> Result (k1 err f) | (Inr (res, Some err), f) \<Rightarrow> Result (k2 res err f)
      | (Inr (res, None), f) \<Rightarrow> lp' (k3 f))
    (case x of (Inl err, f) \<Rightarrow> Result (k1 err f) | (Inr (res, Some err), f) \<Rightarrow> Result (k2 res err f)
      | (Inr (res, None), f) \<Rightarrow> lp (k3 f))"
  using assms by (auto simp: mextends_def split: sum.splits option.splits prod.splits)

definition round_with :: "JumpTable \<Rightarrow> Env \<Rightarrow> EvmCfg \<Rightarrow> loop \<Rightarrow> loop" where
  "round_with jt E cfg lp f =
     rbind (run_op jt (callees (evm_Run lp cfg) E cfg) E cfg f) (\<lambda>(r, f). case r of
       Inl err \<Rightarrow> Result (([], clear_stop (Some err)), f)
     | Inr (res, Some err) \<Rightarrow> Result ((res, clear_stop (Some err)), f)
     | Inr (res, None) \<Rightarrow> lp (f\<lparr>fr_pc := fr_pc f + 1\<rparr>))"

lemma interp_Suc: "interp (Suc n) jt E cfg = round_with jt E cfg (interp n jt E cfg)"
  by (rule ext) (simp add: round_with_def)

lemma round_mono:
  assumes "table_ok jt" "mextends lp' lp"
  shows "mextends (round_with jt E cfg lp') (round_with jt E cfg lp)"
proof -
  have "extends (run_op jt (callees (evm_Run lp' cfg) E cfg) E cfg f) (run_op jt (callees (evm_Run lp cfg) E cfg) E cfg f)" for f
    using run_op_mono [OF assms(1) callees_mono [OF evm_Run_mono [OF assms(2)]]] unfolding mextends_def by blast
  then show ?thesis
    unfolding mextends_def round_with_def by (intro allI extends_rbind extends_next [OF assms(2)])
qed

lemma interp_mono:
  assumes "table_ok jt"
  shows "mextends (interp (Suc n) jt E cfg) (interp n jt E cfg)"
proof (induction n)
  case 0
  then show ?case by (simp add: mextends_def extends_def)
next
  case (Suc n)
  from round_mono [OF assms this, of E cfg] show ?case by (simp only: interp_Suc [symmetric])
qed

lemma interp_fuel:
  assumes "table_ok jt" "interp n jt E cfg f \<noteq> OutOfFuel" "n \<le> m"
  shows "interp m jt E cfg f = interp n jt E cfg f"
  using assms(3)
proof (induction m rule: dec_induct)
  case (step m)
  with interp_mono [OF assms(1), of m E cfg] assms(2) show ?case unfolding mextends_def extends_def by metis
qed simp

subsection \<open>Steps\<close>

text \<open>
  One round of the loop as a relation between frames: the operation at the program counter
  continues, with the executions it starts run to their end. An execution stops at a frame whose
  operation does not continue.
\<close>

definition op_outcome :: "JumpTable \<Rightarrow> Env \<Rightarrow> EvmCfg \<Rightarrow> nat \<Rightarrow> Frame \<Rightarrow> ((vmerror + bytes \<times> vmerror option) \<times> Frame) run" where
  "op_outcome jt E cfg n = run_op jt (callees (run_with n jt E cfg) E cfg) E cfg"

inductive vm_step :: "JumpTable \<Rightarrow> Env \<Rightarrow> EvmCfg \<Rightarrow> Frame \<Rightarrow> Frame \<Rightarrow> bool" for jt E cfg where
  "op_outcome jt E cfg n f = Result (Inr (res, None), f1) \<Longrightarrow> vm_step jt E cfg f (f1\<lparr>fr_pc := fr_pc f1 + 1\<rparr>)"

inductive vm_stop :: "JumpTable \<Rightarrow> Env \<Rightarrow> EvmCfg \<Rightarrow> Frame \<Rightarrow> bytes \<times> vmerror option \<Rightarrow> Frame \<Rightarrow> bool" for jt E cfg where
  failed: "op_outcome jt E cfg n f = Result (Inl err, f1) \<Longrightarrow> vm_stop jt E cfg f ([], clear_stop (Some err)) f1"
| stopped: "op_outcome jt E cfg n f = Result (Inr (res, Some err), f1) \<Longrightarrow> vm_stop jt E cfg f (res, clear_stop (Some err)) f1"

inductive vm_steps :: "JumpTable \<Rightarrow> Env \<Rightarrow> EvmCfg \<Rightarrow> Frame \<Rightarrow> nat \<Rightarrow> Frame \<Rightarrow> bool" for jt E cfg where
  start: "vm_steps jt E cfg f 0 f"
| round: "vm_step jt E cfg f g \<Longrightarrow> vm_steps jt E cfg g k h \<Longrightarrow> vm_steps jt E cfg f (Suc k) h"

inductive_cases vm_stepE: "vm_step jt E cfg f g"
inductive_cases vm_stopE: "vm_stop jt E cfg f r g"

lemma op_outcome_mono:
  assumes "table_ok jt" "op_outcome jt E cfg n f = Result x" "n \<le> m"
  shows "op_outcome jt E cfg m f = Result x"
proof -
  have "mextends (interp m jt E cfg) (interp n jt E cfg)"
    using interp_fuel [OF assms(1) _ assms(3)] by (auto simp: mextends_def extends_def)
  from run_op_mono [OF assms(1) callees_mono [OF evm_Run_mono [OF this]]] assms(2) show ?thesis
    unfolding op_outcome_def run_with_def mextends_def extends_def by (metis run.distinct(3))
qed

lemma vm_step_run:
  assumes "table_ok jt" "vm_step jt E cfg f g"
  shows "\<exists>N. \<forall>m \<ge> N. interp (Suc m) jt E cfg f = interp m jt E cfg g"
  using assms(2)
proof (rule vm_stepE)
  fix n res f1
  assume g: "g = f1\<lparr>fr_pc := fr_pc f1 + 1\<rparr>" and n: "op_outcome jt E cfg n f = Result (Inr (res, None), f1)"
  have "interp (Suc m) jt E cfg f = interp m jt E cfg g" if "n \<le> m" for m
    using interp_step [OF op_outcome_mono [OF assms(1) n that, unfolded op_outcome_def run_with_def]] g by simp
  then show ?thesis by blast
qed

lemma vm_steps_run:
  assumes "table_ok jt" "vm_steps jt E cfg f k g"
  shows "\<exists>N. \<forall>m \<ge> N. interp (m + k) jt E cfg f = interp m jt E cfg g"
  using assms(2)
proof induction
  case (round f g k h)
  from vm_step_run [OF assms(1) round(1)] obtain M where "\<forall>m \<ge> M. interp (Suc m) jt E cfg f = interp m jt E cfg g" ..
  moreover from round(3) obtain N where "\<forall>m \<ge> N. interp (m + k) jt E cfg g = interp m jt E cfg h" ..
  ultimately have "\<forall>m \<ge> M + N. interp (m + Suc k) jt E cfg f = interp m jt E cfg h" by simp
  then show ?case ..
qed simp

lemma vm_stop_run:
  assumes "table_ok jt" "vm_stop jt E cfg f r g"
  shows "\<exists>N. \<forall>m \<ge> N. interp (Suc m) jt E cfg f = Result (r, g)"
  using assms(2)
proof (rule vm_stopE)
  fix n err
  assume r: "r = ([], clear_stop (Some err))" and n: "op_outcome jt E cfg n f = Result (Inl err, g)"
  have "interp (Suc m) jt E cfg f = Result (r, g)" if "n \<le> m" for m
    using interp_step [OF op_outcome_mono [OF assms(1) n that, unfolded op_outcome_def run_with_def]] r by simp
  then show ?thesis by blast
next
  fix n res err
  assume r: "r = (res, clear_stop (Some err))" and n: "op_outcome jt E cfg n f = Result (Inr (res, Some err), g)"
  have "interp (Suc m) jt E cfg f = Result (r, g)" if "n \<le> m" for m
    using interp_step [OF op_outcome_mono [OF assms(1) n that, unfolded op_outcome_def run_with_def]] r by simp
  then show ?thesis by blast
qed

lemma run_vm_steps:
  "interp n jt E cfg f = Result (r, g) \<Longrightarrow> \<exists>k h. vm_steps jt E cfg f k h \<and> vm_stop jt E cfg h r g"
proof (induction n arbitrary: f)
  case (Suc n)
  note i = interp_step [OF refl, of n jt E cfg f, folded run_with_def, folded op_outcome_def]
  from Suc.prems i obtain x f1 where o: "op_outcome jt E cfg n f = Result (x, f1)" by (auto split: run.splits)
  show ?case
  proof (cases "\<exists>res. x = Inr (res, None)")
    case True
    then obtain res where x: "x = Inr (res, None)" ..
    with Suc.prems i o have "interp n jt E cfg (f1\<lparr>fr_pc := fr_pc f1 + 1\<rparr>) = Result (r, g)" by simp
    from Suc.IH [OF this] vm_step.intros [OF o [unfolded x]] show ?thesis by (blast intro: vm_steps.round)
  next
    case False
    with Suc.prems i o have "vm_stop jt E cfg f r g"
      by (auto split: sum.splits option.splits prod.splits intro: vm_stop.intros)
    then show ?thesis by (blast intro: vm_steps.start)
  qed
qed simp

lemma vm_step_bounds:
  assumes "table_ok jt" "\<not> IsEIP4762 (chainRules cfg)" "hooks_ok cfg" "vm_step jt E cfg f g"
  shows "gas_left g < gas_left f" "height g \<le> StackLimit"
proof -
  from assms(4) obtain n res f1 where g: "g = f1\<lparr>fr_pc := fr_pc f1 + 1\<rparr>"
    and o: "op_outcome jt E cfg n f = Result (Inr (res, None), f1)" by (rule vm_stepE)
  have "callees_ok n (callees (run_with n jt E cfg) E cfg)"
    unfolding run_with_def using interp_ok [OF assms(1-3)] by (intro callees_prudent evm_Run_ok assms(3))
  from run_op_bounds(2) [OF assms(1,2) this o [unfolded op_outcome_def]] g
  show "gas_left g < gas_left f" "height g \<le> StackLimit" by simp_all
qed

subsection \<open>Properties\<close>

text \<open>
  C4: every execution ends. Whatever the code, the fork and the extra proposals, an execution
  with gas \<open>g\<close> needs no more than \<open>g + 1\<close> units of fuel, nested executions included, and more
  fuel does not change its outcome.
\<close>

theorem interp_terminates:
  assumes "NewEVM_table (chainRules cfg) eips = Some jt" "\<not> IsEIP4762 (chainRules cfg)" "hooks_ok cfg"
    and "unat (ct_Gas (fr_contract f)) < n"
  shows "interp n jt E cfg f \<noteq> OutOfFuel \<and> (\<forall>m \<ge> n. interp m jt E cfg f = interp n jt E cfg f)"
proof -
  note ok = NewEVM_table_ok [OF assms(1)]
  have "interp n jt E cfg f \<noteq> OutOfFuel"
    using loop_okD(1) [OF interp_ok [OF ok assms(2,3)], of n E f] assms(4) by (auto simp: gas_left_def)
  with interp_fuel [OF ok this] show ?thesis by blast
qed

text \<open>The code \<^verbatim>\<open>JUMPDEST PUSH1 0 JUMP\<close>, a loop without end.\<close>

definition loop_frame :: "u64 \<Rightarrow> Frame" where
  "loop_frame gas = (fresh_frame gas [])\<lparr>fr_contract := SetCallCode (NewContract 1 2 0 gas) 0 [0x5b, 0x60, 0, 0x56]\<rparr>"

lemma cancun_table: "NewEVM_table (chainRules cfg_cancun) [] = Some newCancunInstructionSet"
  by (simp add: NewEVM_table_def instruction_set_def cfg_cancun_def rules_cancun_def)

lemma cancun_hooks: "hooks_ok cfg_cancun" "\<not> IsEIP4762 (chainRules cfg_cancun)"
  by (simp_all add: hooks_ok_def cfg_cancun_def rules_cancun_def)

theorem interp_terminates_witness:
  "interp 1000 newCancunInstructionSet env_empty cfg_cancun (loop_frame 999) \<noteq> OutOfFuel"
proof -
  have "unat (ct_Gas (fr_contract (loop_frame 999))) < 1000" by (simp add: loop_frame_def)
  from interp_terminates [OF cancun_table cancun_hooks(2,1) this] show ?thesis by blast
qed

text \<open>
  The interpreter and its step relation describe the same executions: the loop ends with a
  result for some amount of fuel exactly if a sequence of rounds leads to a frame whose
  operation stops with that result.
\<close>

lemma interp_iff_steps:
  assumes "NewEVM_table (chainRules cfg) eips = Some jt"
  shows "(\<exists>n. interp n jt E cfg f = Result (r, g)) \<longleftrightarrow> (\<exists>k h. vm_steps jt E cfg f k h \<and> vm_stop jt E cfg h r g)"
proof
  assume "\<exists>k h. vm_steps jt E cfg f k h \<and> vm_stop jt E cfg h r g"
  then obtain k h where "vm_steps jt E cfg f k h" "vm_stop jt E cfg h r g" by blast
  with vm_steps_run [OF NewEVM_table_ok [OF assms]] vm_stop_run [OF NewEVM_table_ok [OF assms]]
  obtain M N where "\<forall>m \<ge> M. interp (m + k) jt E cfg f = interp m jt E cfg h"
    and "\<forall>m \<ge> N. interp (Suc m) jt E cfg h = Result (r, g)" by meson
  from this(1) [rule_format, of "Suc (M + N)"] this(2) [rule_format, of "M + N"]
  have "interp (Suc (M + N) + k) jt E cfg f = Result (r, g)" by (simp del: interp.simps add_Suc)
  then show "\<exists>n. interp n jt E cfg f = Result (r, g)" ..
qed (use run_vm_steps in blast)

text \<open>The code \<^verbatim>\<open>JUMPDEST\<close>, one round and an implicit stop.\<close>

definition short_frame :: "u64 \<Rightarrow> u64 \<Rightarrow> MultiGas \<Rightarrow> Frame" where
  "short_frame gas pc used =
     (fresh_frame gas [])\<lparr>fr_contract := (SetCallCode (NewContract 1 2 0 gas) 0 [0x5b])\<lparr>UsedMultiGas := used\<rparr>, fr_pc := pc\<rparr>"

lemma change_apply: "change k h jt j = (if j = k then h (jt j) else jt j)"
  by (simp add: change_def)

lemmas cancun_table_defs = newCancunInstructionSet_def newShanghaiInstructionSet_def newMergeInstructionSet_def newLondonInstructionSet_def
  newBerlinInstructionSet_def newIstanbulInstructionSet_def newConstantinopleInstructionSet_def newByzantiumInstructionSet_def
  newSpuriousDragonInstructionSet_def newTangerineWhistleInstructionSet_def newHomesteadInstructionSet_def newFrontierInstructionSet_def
  enable1884_def enable1344_def enable2200_def enable2929_def enable3529_def enable3198_def enable1153_def
      enable3855_def enable3860_def enable5656_def enable4844_def enable7939_def enable7516_def enable6780_def
      enable7702_def change_apply Let_def
  frontier_arithmetic_def frontier_environment_def frontier_storage_def SELFDESTRUCT_def

lemma cancun_entries:
  "newCancunInstructionSet 0x5b = instr (simple opJumpdest) 1 (minStack 0 0) (maxStack 0 0)"
  "newCancunInstructionSet 0 = instr (simple opStop) 0 (minStack 0 0) (maxStack 0 0)"
  by (simp_all add: cancun_table_defs)

lemma short_outcomes:
  "op_outcome newCancunInstructionSet env_empty cfg_cancun n (short_frame 9 0 ZeroGas) =
     Result (Inr ([], None), short_frame 8 0 (addConstantMultiGas ZeroGas 1 0x5b))"
  "op_outcome newCancunInstructionSet env_empty cfg_cancun n (short_frame 8 1 used) =
     Result (Inl errStopToken, short_frame 8 1 (addConstantMultiGas used 0 0))"
  by (simp_all add: op_outcome_def run_op_def xbind_def rbind_def lift_vm_def ropt_def vm_run vbind_def vthen_def vopt_def cfg_cancun_def rules_cancun_def GetOp_def STOP_def
      short_frame_def fresh_frame_def SetCallCode_def NewContract_def cancun_entries prepare_op_def check_stack_def pay_def
      charge_dynamic_def simple_def opJumpdest_def opStop_def fin_def vwhen_def vcontract_def set_contract_def
      minStack_def maxStack_def StackLimit_def st_len_def instr_def)

lemma short_steps:
  "vm_steps newCancunInstructionSet env_empty cfg_cancun (short_frame 9 0 ZeroGas) 1
     (short_frame 8 1 (addConstantMultiGas ZeroGas 1 0x5b))"
  "vm_stop newCancunInstructionSet env_empty cfg_cancun (short_frame 8 1 used) ([], None)
     (short_frame 8 1 (addConstantMultiGas used 0 0))"
proof -
  from vm_step.intros [OF short_outcomes(1)]
  have "vm_step newCancunInstructionSet env_empty cfg_cancun (short_frame 9 0 ZeroGas)
     (short_frame 8 1 (addConstantMultiGas ZeroGas 1 0x5b))" by (simp add: short_frame_def)
  from vm_steps.round [OF this vm_steps.start]
  show "vm_steps newCancunInstructionSet env_empty cfg_cancun (short_frame 9 0 ZeroGas) 1
     (short_frame 8 1 (addConstantMultiGas ZeroGas 1 0x5b))" by simp
  from vm_stop.failed [OF short_outcomes(2)]
  show "vm_stop newCancunInstructionSet env_empty cfg_cancun (short_frame 8 1 used) ([], None)
     (short_frame 8 1 (addConstantMultiGas used 0 0))" by (simp add: clear_stop_def)
qed

text \<open>
  C9: a frame that an execution reaches has a stack of at most 1024 words, and it has been
  reached in no more rounds than the gas that was spent.
\<close>

theorem reached_frames_bounded:
  assumes "NewEVM_table (chainRules cfg) eips = Some jt" "\<not> IsEIP4762 (chainRules cfg)" "hooks_ok cfg"
    and "vm_steps jt E cfg f k g" "st_len (fr_stack f) \<le> 1024"
  shows "st_len (fr_stack g) \<le> 1024 \<and> k + unat (ct_Gas (fr_contract g)) \<le> unat (ct_Gas (fr_contract f))"
  using assms(4,5)
proof induction
  case (round f g k h)
  note b = vm_step_bounds [OF NewEVM_table_ok [OF assms(1)] assms(2,3) round(1)]
  with round(3) show ?case by (simp add: gas_left_def StackLimit_def)
qed simp

theorem reached_frames_bounded_witness:
  "let f = short_frame 9 0 ZeroGas; g = short_frame 8 1 (addConstantMultiGas ZeroGas 1 0x5b) in
     vm_steps newCancunInstructionSet env_empty cfg_cancun f 1 g \<and>
     st_len (fr_stack g) \<le> 1024 \<and> 1 + unat (ct_Gas (fr_contract g)) \<le> unat (ct_Gas (fr_contract f))"
  using reached_frames_bounded [OF cancun_table cancun_hooks(2,1) short_steps(1)] short_steps(1)
  by (simp add: Let_def short_frame_def fresh_frame_def st_len_def)

text \<open>
  C8: a call or a creation never returns more gas than it was given, and it ends when the fuel
  exceeds the gas. This holds for the four kinds of calls and the two kinds of creations, with
  any code behind them.
\<close>

theorem calls_return_no_more_gas:
  assumes "NewEVM_table (chainRules cfg) eips = Some jt" "\<not> IsEIP4762 (chainRules cfg)" "hooks_ok cfg"
    and rn: "rn = run_with n jt E cfg"
  shows "prudent n gas call_left (evm_Call rn E cfg caller addr input gas v e) \<and>
    prudent n gas call_left (evm_CallCode rn E cfg caller addr input gas v e) \<and>
    prudent n gas call_left (evm_DelegateCall rn E cfg originCaller caller addr input gas v e) \<and>
    prudent n gas call_left (evm_StaticCall rn E cfg caller addr input gas e) \<and>
    prudent n gas create_left (evm_Create rn E cfg caller code gas v e) \<and>
    prudent n gas create_left (evm_Create2 rn E cfg caller code gas v salt e)"
proof -
  have "callees_ok n (callees rn E cfg)"
    unfolding rn run_with_def using interp_ok [OF NewEVM_table_ok [OF assms(1)] assms(2,3)]
    by (intro callees_prudent evm_Run_ok assms(3))
  then show ?thesis by (simp add: callees_ok_def callees_def)
qed

theorem calls_return_no_more_gas_witness:
  "prudent 101 100 call_left
     (evm_Call (run_with 101 newCancunInstructionSet env_empty cfg_cancun) env_empty cfg_cancun 1 2 [] 100 0
       (fr_evm (fresh_frame 100 [])))"
  using calls_return_no_more_gas [OF cancun_table cancun_hooks(2,1) refl] by blast

end
