(* ===== verification/StateCode.thy ===== *)
theory StateCode
imports StateRevert
begin

text \<open>
  Setting the code of an account logs the code the object holds, not the code of the account, so
  it can only be undone when the code has been read or there is none (\<open>code_loaded\<close>). No operation
  of a transaction loses that property, reverts included: what a revert removes are objects of
  accounts that were not in the database.
\<close>

subsection \<open>Operations\<close>

definition born_ok :: "Env \<Rightarrow> destructs \<Rightarrow> journalEntry \<Rightarrow> bool" where
  "born_ok E D e \<longleftrightarrow> (\<forall>a. e = createObjectChange a \<or> e = createZombieChange a \<longrightarrow> db_object E D a = None)"

definition births_ok :: "Env \<Rightarrow> StateDB \<Rightarrow> bool" where
  "births_ok E s \<longleftrightarrow> (\<forall>e \<in> set (jr_entries (sdb_journal s)). born_ok E (stateObjectsDestruct s) e)"

text \<open>An object without code at hand has a code hash to look it up with.\<close>

definition codes_sound :: "Env \<Rightarrow> StateDB \<Rightarrow> bool" where
  "codes_sound E s \<longleftrightarrow> (\<forall>a obj. live_object E s a = Some obj \<longrightarrow> so_code obj \<noteq> [] \<or> CodeHash (so_data obj) \<noteq> 0)"

definition tidy :: "Env \<Rightarrow> StateDB \<Rightarrow> StateDB \<Rightarrow> bool" where
  "tidy E s s' \<longleftrightarrow>
     stateObjectsDestruct s' = stateObjectsDestruct s \<and> (\<forall>a. code_loaded E a s \<longrightarrow> code_loaded E a s') \<and>
     (births_ok E s \<longrightarrow> births_ok E s') \<and>
     (EmptyCodeHash E \<noteq> 0 \<longrightarrow> codes_sound E s \<longrightarrow> codes_sound E s')"

named_theorems tidy_rules \<open>steps that keep loaded code loaded\<close>

lemma tidy_refl [tidy_rules, simp]: "tidy E s s"
  by (simp add: tidy_def)

lemma tidy_trans: "tidy E s t \<Longrightarrow> tidy E t u \<Longrightarrow> tidy E s u"
  by (simp add: tidy_def)

lemma tidy_frame:
  assumes "stateObjects s' = stateObjects s" "stateObjectsDestruct s' = stateObjectsDestruct s"
    "jr_entries (sdb_journal s') = jr_entries (sdb_journal s) @ es" "\<forall>e \<in> set es. born_ok E (stateObjectsDestruct s) e"
  shows "tidy E s s'"
  using assms by (auto simp: tidy_def code_loaded_def births_ok_def codes_sound_def live_object_def)

lemma tidy_append [tidy_rules]:
  "(\<And>a. e \<noteq> createObjectChange a) \<Longrightarrow> (\<And>a. e \<noteq> createZombieChange a) \<Longrightarrow> tidy E s (sdb_append e s)"
  by (rule tidy_frame [where es = "[e]"]) (auto simp: sdb_append_def born_ok_def)

lemma tidy_get:
  assumes "getStateObject E a s = (s1, x)"
  shows "tidy E s s1" "x = live_object E s a" "live_object E s1 = live_object E s"
    "stateObjectsDestruct s1 = stateObjectsDestruct s" "sdb_journal s1 = sdb_journal s"
proof -
  have eq: "live_object E s1 = live_object E s" "x = live_object E s a" "stateObjectsDestruct s1 = stateObjectsDestruct s"
    "sdb_journal s1 = sdb_journal s"
    using assms getStateObject_live [of E a s]
    by (auto simp: getStateObject_def live_object_def obj_at_def db_object_def Let_def fun_eq_iff
        split: option.splits sum.splits if_splits)
  then show "tidy E s s1" by (simp add: tidy_def code_loaded_def births_ok_def codes_sound_def)
  from eq show "x = live_object E s a" "live_object E s1 = live_object E s"
    "stateObjectsDestruct s1 = stateObjectsDestruct s" "sdb_journal s1 = sdb_journal s" by blast+
qed

lemma tidy_store:
  assumes "code_loaded E (so_address obj) s \<Longrightarrow> so_code obj \<noteq> [] \<or> CodeHash (so_data obj) = EmptyCodeHash E"
    "EmptyCodeHash E \<noteq> 0 \<Longrightarrow> codes_sound E s \<Longrightarrow> so_code obj \<noteq> [] \<or> CodeHash (so_data obj) \<noteq> 0"
  shows "tidy E s (setStateObject obj s)"
  using assms by (auto simp: tidy_def code_loaded_def births_ok_def codes_sound_def live_setStateObject)

lemma tidy_store_same:
  assumes "live_object E s (so_address obj') = Some obj" "so_code obj' = so_code obj"
    "CodeHash (so_data obj') = CodeHash (so_data obj)"
  shows "tidy E s (setStateObject obj' s)"
  using assms by (intro tidy_store) (auto simp: code_loaded_def codes_sound_def)

lemma tidy_create:
  assumes "live_object E s a = None"
  shows "tidy E s (fst (createObject E a s))" "tidy E s (fst (createZombie E a s))"
proof -
  have none: "db_object E (stateObjectsDestruct s) a = None"
    using assms by (auto simp: live_object_def obj_at_def split: option.splits)
  then have "tidy E s (sdb_append (createObjectChange a) s)" "tidy E s (sdb_append (createZombieChange a) s)"
    by (auto intro!: tidy_frame [where es = "[_]"] simp: sdb_append_def born_ok_def)
  moreover have "so_address (newObject E a None) = a" "CodeHash (so_data (newObject E a None)) = EmptyCodeHash E"
    by (simp_all add: newObject_def NewEmptyStateAccount_def)
  ultimately show "tidy E s (fst (createObject E a s))" "tidy E s (fst (createZombie E a s))"
    by (simp_all add: createObject_def createZombie_def Let_def tidy_trans [OF _ tidy_store])
qed

text \<open>Most setters take an object, change the journal, and store the object with its code as it was.\<close>

definition frames :: "Env \<Rightarrow> StateDB \<Rightarrow> StateDB \<Rightarrow> bool" where
  "frames E s s' \<longleftrightarrow> tidy E s s' \<and> live_object E s' = live_object E s"

lemma frames_trans: "frames E s t \<Longrightarrow> frames E t u \<Longrightarrow> frames E s u"
  by (auto simp: frames_def intro: tidy_trans)

lemma frames_base:
  "frames E s s" "frames E s (add_delta d s)" "frames E s (setError err s)" "frames E s (so_touch s obj)"
  "(\<And>a. e \<noteq> createObjectChange a) \<Longrightarrow> (\<And>a. e \<noteq> createZombieChange a) \<Longrightarrow> frames E s (sdb_append e s)"
proof -
  show "frames E s (add_delta d s)" "frames E s (setError err s)"
    unfolding frames_def by (simp_all, rule_tac [!] tidy_frame [where es = "[]"]) simp_all
  show "frames E s (so_touch s obj)"
    unfolding frames_def by (simp, rule tidy_frame [where es = "[touchChange (so_address obj)]"]) (simp_all add: so_touch_def born_ok_def)
qed (simp_all add: frames_def tidy_append)

lemma frames_rules [simp]:
  "frames E s s" "frames E s t \<Longrightarrow> frames E s (add_delta d t)" "frames E s t \<Longrightarrow> frames E s (setError err t)"
  "frames E s t \<Longrightarrow> frames E s (so_touch t obj)"
  "(\<And>a. e \<noteq> createObjectChange a) \<Longrightarrow> (\<And>a. e \<noteq> createZombieChange a) \<Longrightarrow> frames E s t \<Longrightarrow> frames E s (sdb_append e t)"
  by (rule frames_base frames_trans [OF _ frames_base(2)] frames_trans [OF _ frames_base(3)] frames_trans [OF _ frames_base(4)]
      frames_trans [OF _ frames_base(5)]; assumption)+

lemma tidy_update:
  assumes "tidy E s s1" "live_object E s1 a = Some obj" "frames E s1 s2" "so_address obj' = a" "so_code obj' = so_code obj"
    "CodeHash (so_data obj') = CodeHash (so_data obj)"
  shows "tidy E s (setStateObject obj' s2)"
proof -
  have "tidy E s s2" using assms(1,3) by (auto simp: frames_def intro: tidy_trans)
  moreover have "tidy E s2 (setStateObject obj' s2)"
    using assms by (intro tidy_store_same [where obj = obj]) (simp_all add: frames_def)
  ultimately show ?thesis by (rule tidy_trans)
qed

lemma tidy_getOrNew:
  assumes "objs_ok E s" "getOrNewStateObject E a s = (s1, obj)"
  shows "tidy E s s1" "live_object E s1 a = Some obj" "so_address obj = a"
proof -
  obtain s0 x where g: "getStateObject E a s = (s0, x)" by (cases "getStateObject E a s")
  note t = tidy_get [OF g]
  have "tidy E s0 (fst (createObject E a s0))" if "x = None" using tidy_create(1) [of E s0 a] t that by simp
  with g t(1) assms(2) show "tidy E s s1"
    by (auto simp: getOrNewStateObject_def split: option.splits intro: tidy_trans)
qed (use getOrNew_logged [OF assms] in \<open>auto simp: obj_ok_def\<close>)

lemma so_reads_code:
  assumes "so_getState E k s obj = (vs, s2, obj2)"
  shows "frames E s s2" "so_address obj2 = so_address obj" "so_code obj2 = so_code obj" "so_data obj2 = so_data obj"
  using assms by (auto simp: so_getState_def so_GetCommittedState_def Let_def split: option.splits if_splits sum.splits prod.splits)

lemma tidy_setters:
  assumes "objs_ok E s"
  shows "tidy E s (snd (AddBalance E a v s))" "tidy E s (snd (SubBalance E a v s))" "tidy E s (SetBalance E a v' s)"
    "tidy E s (SetNonce E a n s)" "tidy E s (snd (SetState E a k w s))" "tidy E s (snd (SetCode E a c s))"
proof -
  obtain s1 obj where g: "getOrNewStateObject E a s = (s1, obj)" by (cases "getOrNewStateObject E a s")
  note t = tidy_getOrNew [OF assms g]
  note upd = tidy_update [OF t(1,2)]
  show "tidy E s (snd (AddBalance E a v s))"
    using t(3) by (auto simp: AddBalance_def g so_AddBalance_def so_SetBalance_def so_setBalance_def Let_def
        intro!: upd)
  show "tidy E s (snd (SubBalance E a v s))"
    using t(1,3) by (auto simp: SubBalance_def g so_SetBalance_def so_setBalance_def Let_def intro!: upd)
  show "tidy E s (SetBalance E a v' s)"
    using t(3) by (auto simp: SetBalance_def g so_SetBalance_def so_setBalance_def Let_def
        intro!: upd split: option.splits)
  show "tidy E s (SetNonce E a n s)"
    using t(3) by (auto simp: SetNonce_def g so_SetNonce_def so_setNonce_def Let_def intro!: upd)
  show "tidy E s (snd (SetState E a k w s))"
  proof -
    obtain prev orig s2 obj2 where r: "so_getState E k s1 obj = ((prev, orig), s2, obj2)" by (metis surj_pair)
    from so_reads_code [OF r] t(3) show ?thesis
      by (auto simp: SetState_def g so_SetState_def r so_setState_def Let_def intro!: upd)
  qed
  have "tidy E s1 (sdb_append (codeChange a (so_code obj)) s1)" by (simp add: tidy_append)
  with t(1,3) show "tidy E s (snd (SetCode E a c s))"
    by (auto simp: SetCode_def g so_SetCode_def so_setCode_def Let_def EmptyCodeHash_def intro!: tidy_store intro: tidy_trans)
qed

lemma tidy_destruct: "objs_ok E s \<Longrightarrow> tidy E s (snd (SelfDestruct E a s))"
proof -
  assume ok: "objs_ok E s"
  obtain s1 x where g: "getStateObject E a s = (s1, x)" by (cases "getStateObject E a s")
  note t = tidy_get [OF g]
  show ?thesis
  proof (cases x)
    case None
    with g t(1) show ?thesis by (simp add: SelfDestruct_def)
  next
    case (Some obj)
    have a: "so_address obj = a" using live_object_ok [OF ok, of a obj] t(2) Some by (simp add: obj_ok_def)
    have "live_object E s1 a = Some obj" using t(2,3) Some by simp
    note upd = tidy_update [OF t(1) this]
    show ?thesis using a
      by (auto simp: SelfDestruct_def g Some so_SetBalance_def so_setBalance_def Let_def intro!: upd)
  qed
qed

lemma tidy_SelfDestruct6780: "objs_ok E s \<Longrightarrow> tidy E s (snd (SelfDestruct6780 E a s))"
proof -
  assume ok: "objs_ok E s"
  obtain s1 x where g: "getStateObject E a s = (s1, x)" by (cases "getStateObject E a s")
  note t = tidy_get [OF g]
  have "objs_ok E s1" using getStateObject_state [OF ok g] by blast
  with tidy_destruct tidy_trans t(1) have "tidy E s (snd (SelfDestruct E a s1))" by blast
  with t(1) show ?thesis by (auto simp: SelfDestruct6780_def g split: option.splits prod.splits)
qed

lemma tidy_getters:
  assumes "objs_ok E s"
  shows "tidy E s (snd (GetBalance E a s))" "tidy E s (snd (GetCode E a s))" "tidy E s (snd (GetCodeSize E a s))"
    "tidy E s (snd (GetState E a k s))" "tidy E s (snd (GetCommittedState E a k s))"
proof -
  obtain s1 x where g: "getStateObject E a s = (s1, x)" by (cases "getStateObject E a s")
  note t = tidy_get [OF g]
  show "tidy E s (snd (GetBalance E a s))" using t(1) by (simp add: GetBalance_def g)
  have err: "tidy E s t'" if "only_err s1 t'" for t'
    using t(1) that by (auto simp: only_err_def intro!: tidy_trans [OF t(1)] tidy_frame [where es = "[]"])
  then show "tidy E s (snd (GetCodeSize E a s))"
    using t(1) by (auto simp: GetCodeSize_def g so_CodeSize_only_err split: option.splits)
  show "tidy E s (snd (GetCode E a s))"
  proof (cases x)
    case (Some obj)
    obtain c s2 obj2 where c: "so_Code E s1 obj = (c, s2, obj2)" by (metis surj_pair)
    have a: "so_address obj = a" "live_object E s1 a = Some obj"
      using live_object_ok [OF assms, of a obj] t(2,3) Some by (simp_all add: obj_ok_def)
    have e: "only_err s1 s2" "obj2 = obj \<or> so_code obj = [] \<and> CodeHash (so_data obj) \<noteq> EmptyCodeHash E \<and> obj2 = obj\<lparr>so_code := c\<rparr>"
      using c by (auto simp: so_Code_def Let_def split: if_splits prod.splits option.splits)
    have r: "only_err s1 s2" "so_address obj2 = a" "code_loaded E a s1 \<Longrightarrow> obj2 = obj" "so_data obj2 = so_data obj"
      "so_code obj2 = [] \<Longrightarrow> so_code obj = []"
      using e a by (auto simp: code_loaded_def)
    have l: "live_object E s2 = live_object E s1" by (rule only_errD(3) [OF r(1)])
    have "tidy E s2 (setStateObject obj2 s2)"
    proof (rule tidy_store)
      show "code_loaded E (so_address obj2) s2 \<Longrightarrow> so_code obj2 \<noteq> [] \<or> CodeHash (so_data obj2) = EmptyCodeHash E"
        using r(2,3) a(2) unfolding code_loaded_def l by fastforce
      assume "codes_sound E s2"
      then have "so_code obj \<noteq> [] \<or> CodeHash (so_data obj) \<noteq> 0" using a(2) unfolding codes_sound_def l by blast
      with r(4,5) show "so_code obj2 \<noteq> [] \<or> CodeHash (so_data obj2) \<noteq> 0" by metis
    qed
    with err [OF r(1)] have "tidy E s (setStateObject obj2 s2)" by (rule tidy_trans)
    then show ?thesis by (simp add: GetCode_def g Some c)
  qed (use g t(1) in \<open>simp add: GetCode_def\<close>)
  show "tidy E s (snd (GetState E a k s))" "tidy E s (snd (GetCommittedState E a k s))"
  proof -
    obtain vs s2 obj2 where r: "so_getState E k s1 (the x) = (vs, s2, obj2)" by (metis surj_pair)
    obtain v s3 obj3 where r': "so_GetCommittedState E k s1 (the x) = (v, s3, obj3)" by (metis surj_pair)
    have "tidy E s (setStateObject obj2 s2)" "tidy E s (setStateObject obj3 s3)" if "x = Some obj" for obj
    proof -
      have a: "so_address obj = a" "live_object E s1 a = Some obj"
        using live_object_ok [OF assms, of a obj] t(2,3) that by (simp_all add: obj_ok_def)
      note upd = tidy_update [OF t(1) a(2)]
      show "tidy E s (setStateObject obj2 s2)" "tidy E s (setStateObject obj3 s3)"
        using so_reads_code [OF r] r' that a(1)
        by (auto simp: so_GetCommittedState_def split: option.splits if_splits sum.splits intro!: upd)
    qed
    then show "tidy E s (snd (GetState E a k s))" "tidy E s (snd (GetCommittedState E a k s))"
      using r r' t(1) by (auto simp: GetState_def GetCommittedState_def g split: option.splits prod.splits)
  qed
qed

lemma tidy_creates:
  assumes "objs_ok E s"
  shows "live_object E s a = None \<Longrightarrow> tidy E s (CreateAccount E a s)"
    "CreateContract E a s = Some s' \<Longrightarrow> tidy E s s'" "tidy E s (CreateZombieIfDeleted E a s)"
proof -
  obtain s1 x where g: "getStateObject E a s = (s1, x)" by (cases "getStateObject E a s")
  note t = tidy_get [OF g]
  show "live_object E s a = None \<Longrightarrow> tidy E s (CreateAccount E a s)" by (simp add: CreateAccount_def tidy_create)
  have zombie: "tidy E s (fst (createZombie E a s1))" if "x = None"
    using tidy_trans [OF t(1) tidy_create(2)] t(2,3) that by simp
  then show "tidy E s (CreateZombieIfDeleted E a s)"
    using t(1) by (auto simp: CreateZombieIfDeleted_def g split: option.splits)
  show "tidy E s s'" if c: "CreateContract E a s = Some s'"
  proof (cases x)
    case (Some obj)
    have a: "so_address obj = a" "live_object E s1 a = Some obj"
      using live_object_ok [OF assms, of a obj] t(2,3) Some by (simp_all add: obj_ok_def)
    have "tidy E s (setStateObject (obj\<lparr>so_newContract := True\<rparr>) s1)"
      using a by (intro tidy_update [OF t(1) a(2)]) simp_all
    with c t(1) Some show ?thesis
      by (auto simp: CreateContract_def g split: if_splits intro: tidy_trans [OF _ tidy_append])
  qed (use c g in \<open>simp add: CreateContract_def\<close>)
qed

lemma tidy_frame_none: "stateObjects s' = stateObjects s \<Longrightarrow> stateObjectsDestruct s' = stateObjectsDestruct s \<Longrightarrow>
    jr_entries (sdb_journal s') = jr_entries (sdb_journal s) \<Longrightarrow> tidy E s s'"
  by (rule tidy_frame [where es = "[]"]) simp_all

lemma tidy_frame_one: "stateObjects s' = stateObjects s \<Longrightarrow> stateObjectsDestruct s' = stateObjectsDestruct s \<Longrightarrow>
    jr_entries (sdb_journal s') = jr_entries (sdb_journal s) @ [e] \<Longrightarrow>
    (\<And>a. e \<noteq> createObjectChange a) \<Longrightarrow> (\<And>a. e \<noteq> createZombieChange a) \<Longrightarrow> tidy E s s'"
  by (rule tidy_frame [where es = "[e]"]) (simp_all add: born_ok_def)

lemma exec_tidy:
  assumes "objs_ok E s" "op_ok E op s" "exec E op s = Some s'" "\<And>i. op \<noteq> OpRevertToSnapshot i"
  shows "tidy E s s'"
proof (cases op)
  case (OpSetTransientState a k v)
  with assms(3) show ?thesis
    by (auto simp: SetTransientState_def setTransientState_def Let_def sdb_append_def
        intro: tidy_frame_one [where e = "transientStorageChange a k (GetTransientState a k s)"] split: if_splits)
next
  case (OpAddLog l)
  with assms(3) show ?thesis
    by (auto simp: AddLog_def Let_def sdb_append_def intro!: tidy_frame_one [where e = "addLogChange (sdb_thash s)"])
next
  case (OpAddRefund g)
  with assms(3) show ?thesis
    by (auto simp: AddRefund_def Let_def sdb_append_def intro!: tidy_frame_one [where e = "refundChange (sdb_refund s)"])
next
  case (OpSubRefund g)
  with assms(3) show ?thesis
    by (auto simp: SubRefund_def Let_def sdb_append_def split: if_splits
        intro!: tidy_frame_one [where e = "refundChange (sdb_refund s)"])
next
  case (OpAddAddressToAccessList a)
  with assms(3) show ?thesis
    by (auto simp: AddAddressToAccessList_def Let_def sdb_append_def split: if_splits prod.splits
        intro: tidy_frame_none tidy_frame_one [where e = "accessListAddAccountChange a"])
next
  case (OpAddSlotToAccessList a k)
  obtain al x y where al: "AddSlot (sdb_accessList s) a k = Some (al, x, y)"
    using assms(3) OpAddSlotToAccessList by (auto simp: AddSlotToAccessList_def split: option.splits)
  let ?es = "(if x then [accessListAddAccountChange a] else []) @ (if y then [accessListAddSlotChange a k] else [])"
  from al assms(3) OpAddSlotToAccessList show ?thesis
    by (intro tidy_frame [where es = ?es]) (auto simp: AddSlotToAccessList_def Let_def sdb_append_def born_ok_def)
next
  case (OpActivateWasm h m)
  with assms(3) show ?thesis
    by (auto simp: ActivateWasm_def Let_def sdb_append_def split: if_splits sum.splits
        intro: tidy_frame_one [where e = "wasmActivation h"])
next
  case (OpRecordCacheWasm h v t d)
  with assms(3) show ?thesis
    by (auto simp: RecordCacheWasm_def intro: tidy_frame_one [where e = "CacheWasm h v t d"])
next
  case (OpRecordEvictWasm h v t d)
  with assms(3) show ?thesis
    by (auto simp: RecordEvictWasm_def intro: tidy_frame_one [where e = "EvictWasm h v t d"])
qed (use assms tidy_setters [OF assms(1)] tidy_getters [OF assms(1)] tidy_creates [OF assms(1)] tidy_destruct [OF assms(1)]
    tidy_SelfDestruct6780 [OF assms(1)] in
    \<open>auto simp: AddPreimage_def AddStylusPages_def Let_def Snapshot_def ExpectBalanceBurn_def ExpectBalanceMint_def add_delta_def
      split: if_splits prod.splits intro: tidy_frame_none\<close>)

subsection \<open>Reverting\<close>

lemma on_object_tidy:
  assumes "on_object E a h s = Some s'" "objs_ok E s" "\<And>obj. so_address (h obj) = so_address obj"
    "\<And>obj. so_code obj \<noteq> [] \<or> CodeHash (so_data obj) = EmptyCodeHash E \<Longrightarrow>
       so_code (h obj) \<noteq> [] \<or> CodeHash (so_data (h obj)) = EmptyCodeHash E"
    "\<And>obj. EmptyCodeHash E \<noteq> 0 \<Longrightarrow> so_code obj \<noteq> [] \<or> CodeHash (so_data obj) \<noteq> 0 \<Longrightarrow>
       so_code (h obj) \<noteq> [] \<or> CodeHash (so_data (h obj)) \<noteq> 0"
  shows "tidy E s s'" "sdb_journal s' = sdb_journal s"
proof -
  obtain s1 obj where g: "getStateObject E a s = (s1, Some obj)" and s': "s' = setStateObject (h obj) s1"
    using assms(1) by (auto simp: on_object_def split: option.splits prod.splits)
  note t = tidy_get [OF g]
  have a: "so_address obj = a" "live_object E s1 a = Some obj"
    using live_object_ok [OF assms(2), of a obj] t(2,3) by (simp_all add: obj_ok_def)
  then have "tidy E s1 (setStateObject (h obj) s1)"
    using assms(3-5) by (intro tidy_store) (auto simp: code_loaded_def codes_sound_def)
  with t(1) show "tidy E s s'" unfolding s' by (rule tidy_trans)
  show "sdb_journal s' = sdb_journal s" using t(5) s' by simp
qed

lemma tidy_drop:
  assumes "db_object E (stateObjectsDestruct s) a = None"
  shows "tidy E s (s\<lparr>stateObjects := fmdrop a (stateObjects s)\<rparr>)"
  using assms by (auto simp: tidy_def births_ok_def codes_sound_def code_loaded_def live_object_def obj_at_def)

lemma revert_entry_tidy:
  assumes "revert_entry E e s = Some s'" "objs_ok E s" "born_ok E (stateObjectsDestruct s) e"
  shows "tidy E s s' \<and> sdb_journal s' = sdb_journal s"
proof (cases e)
  case (createObjectChange a)
  with assms tidy_drop [of E s a] show ?thesis by (auto simp: born_ok_def)
next
  case (createZombieChange a)
  with assms tidy_drop [of E s a] show ?thesis by (auto simp: born_ok_def)
next
  case (selfDestructChange a)
  obtain s1 x where g: "getStateObject E a s = (s1, x)" by (cases "getStateObject E a s")
  note t = tidy_get [OF g]
  have "tidy E s (setStateObject (obj\<lparr>so_selfDestructed := False\<rparr>) s1)" if "x = Some obj" for obj
    using live_object_ok [OF assms(2), of a obj] t(2,3) that
    by (intro tidy_update [OF t(1), of a obj]) (simp_all add: obj_ok_def)
  with assms(1) t(1,5) show ?thesis by (auto simp: selfDestructChange g split: option.splits)
next
  case (addLogChange h)
  with assms(1) show ?thesis
    by (auto simp: Let_def split: if_splits intro!: tidy_frame_none)
next
  case (accessListAddSlotChange a k)
  with assms(1) show ?thesis by (auto intro!: tidy_frame_none)
qed (use assms(1) on_object_tidy [OF _ assms(2)] in
    \<open>auto simp: so_setBalance_def so_setNonce_def so_setState_def so_setCode_def EmptyCodeHash_def setTransientState_def Let_def
      intro!: tidy_frame_none\<close>)

lemma revert_loop_tidy:
  assumes "revert_loop E es s = Some s'" "objs_ok E s" "\<forall>e \<in> set es. born_ok E (stateObjectsDestruct s) e" "births_ok E s"
  shows "tidy E s s'"
  using assms
proof (induction es arbitrary: s)
  case (Cons e es)
  then obtain t where t: "revert_entry E e s = Some t"
    "revert_loop E es (t\<lparr>sdb_journal := journal_undirty e (sdb_journal t)\<rparr>) = Some s'" (is "revert_loop E es ?t = _")
    by (auto split: option.splits)
  have r: "tidy E s t" "sdb_journal t = sdb_journal s" using revert_entry_tidy [OF t(1) Cons.prems(2)] Cons.prems(3) by simp_all
  have "tidy E t ?t" by (rule tidy_frame_none) simp_all
  with r(1) have st: "tidy E s ?t" by (rule tidy_trans)
  have "objs_ok E ?t" using revert_entry_refines(2) [OF Cons.prems(2) t(1)] by (simp add: sdb_simps reverted_ok_def)
  moreover from st Cons.prems(3,4) have "\<forall>e \<in> set es. born_ok E (stateObjectsDestruct ?t) e" "births_ok E ?t"
    by (simp_all add: tidy_def)
  ultimately have "tidy E ?t s'" using Cons.IH [OF t(2)] by blast
  with st show ?case by (rule tidy_trans)
qed simp

lemma RevertToSnapshot_tidy:
  assumes "RevertToSnapshot E i s = Some s'" "objs_ok E s" "births_ok E s"
  shows "tidy E s s'" "jr_nextRevisionId (sdb_journal s') = jr_nextRevisionId (sdb_journal s)"
proof -
  define k where "k = sort_Search (length (jr_validRevisions (sdb_journal s))) (\<lambda>j. rev_id (jr_validRevisions (sdb_journal s) ! j) \<ge> i)"
  define r where "r = jr_validRevisions (sdb_journal s) ! k"
  have r: "map_option (\<lambda>s. s\<lparr>sdb_journal := (sdb_journal s)\<lparr>jr_validRevisions := take k (jr_validRevisions (sdb_journal s))\<rparr>\<rparr>)
      (journal_revert E (rev_journalIndex r)
        (s\<lparr>arbExtraData := (arbExtraData s)\<lparr>arb_unexpectedBalanceDelta := rev_unexpectedBalanceDelta r\<rparr>\<rparr>)) = Some s'"
    using assms(1) unfolding RevertToSnapshot_def Let_def k_def [symmetric] r_def [symmetric] by (simp split: if_splits)
  let ?n = "rev_journalIndex r" and ?s = "s\<lparr>arbExtraData := (arbExtraData s)\<lparr>arb_unexpectedBalanceDelta := rev_unexpectedBalanceDelta r\<rparr>\<rparr>"
  obtain t where t: "revert_loop E (rev (drop ?n (jr_entries (sdb_journal s)))) ?s = Some t"
    and s': "s' = t\<lparr>sdb_journal := (sdb_journal t)\<lparr>jr_entries := take ?n (jr_entries (sdb_journal t)),
      jr_validRevisions := take k (jr_validRevisions (sdb_journal t))\<rparr>\<rparr>"
    using r by (auto simp: journal_revert_def)
  have s1: "tidy E s ?s" by (rule tidy_frame_none) simp_all
  have ok: "objs_ok E ?s" "births_ok E ?s" using assms(2,3) by (simp_all add: sdb_simps births_ok_def)
  have "tidy E ?s t"
    using ok assms(3) by (intro revert_loop_tidy [OF t]) (auto simp: births_ok_def dest: in_set_dropD)
  with s1 have st: "tidy E s t" by (rule tidy_trans)
  have "tidy E t s'" unfolding s' by (auto simp: tidy_def code_loaded_def births_ok_def codes_sound_def live_object_def dest: in_set_takeD)
  with st show "tidy E s s'" by (rule tidy_trans)
  show "jr_nextRevisionId (sdb_journal s') = jr_nextRevisionId (sdb_journal s)"
    using revert_loop_refines(2) [OF ok(1) t] by (simp add: s')
qed

subsection \<open>Runs\<close>

text \<open>The invariant of a transaction, with what is needed to set code.\<close>

definition tx_wf :: "Env \<Rightarrow> StateDB \<Rightarrow> bool" where
  "tx_wf E s \<longleftrightarrow> sdb_wf E s \<and> births_ok E s \<and> codes_sound E s"

text \<open>What is relied on of the database and of the hash function.\<close>

definition env_ok :: "Env \<Rightarrow> bool" where
  "env_ok E \<longleftrightarrow> code_reader_ok E \<and> EmptyCodeHash E \<noteq> 0"

lemma exec_step:
  assumes "tx_wf E s" "env_ok E" "op_ok E op s" "exec E op s = Some s'"
  shows "tx_wf E s'" "tidy E s s'" "jr_nextRevisionId (sdb_journal s) \<le> jr_nextRevisionId (sdb_journal s')"
proof -
  have ok: "objs_ok E s" "world_ok (world E s)" "births_ok E s" "code_reader_ok E"
    using assms(1,2) by (simp_all add: tx_wf_def sdb_wf_def env_ok_def)
  have wf: "sdb_wf E s'" using run_wf [of E s "[op]" s'] assms by (simp add: tx_wf_def env_ok_def)
  have "tidy E s s' \<and> jr_nextRevisionId (sdb_journal s) \<le> jr_nextRevisionId (sdb_journal s')"
  proof (cases "\<exists>i. op = OpRevertToSnapshot i")
    case True
    with assms(4) RevertToSnapshot_tidy [OF _ ok(1,3)] show ?thesis by auto
  next
    case False
    then have "tidy E s s'" by (intro exec_tidy [OF ok(1) assms(3,4)]) blast
    moreover have "jr_nextRevisionId (sdb_journal s) \<le> jr_nextRevisionId (sdb_journal s')"
    proof (cases "journaled op")
      case True
      from exec_logged [OF ok(1,2,4) True assms(3,4)] show ?thesis by (auto simp: logged_def)
    next
      case j: False
      with False have "op = OpSnapshot" by (auto simp: journaled_def)
      with assms(4) show ?thesis by (auto simp: Snapshot_simps)
    qed
    ultimately show ?thesis ..
  qed
  then show "tidy E s s'" "jr_nextRevisionId (sdb_journal s) \<le> jr_nextRevisionId (sdb_journal s')" by simp_all
  with wf assms(1,2) show "tx_wf E s'" by (simp add: tx_wf_def tidy_def env_ok_def)
qed

lemma run_step:
  "tx_wf E s \<Longrightarrow> env_ok E \<Longrightarrow> run E ops s = Some s' \<Longrightarrow>
     tx_wf E s' \<and> tidy E s s' \<and> jr_nextRevisionId (sdb_journal s) \<le> jr_nextRevisionId (sdb_journal s')"
proof (induction ops arbitrary: s)
  case (Cons op ops)
  then obtain t where t: "op_ok E op s" "exec E op s = Some t" "run E ops t = Some s'"
    by (auto split: if_splits option.splits)
  note st = exec_step [OF Cons.prems(1,2) t(1,2)]
  from Cons.IH [OF st(1) Cons.prems(2) t(3)] st show ?case by (auto intro: tidy_trans)
qed simp

lemma run_append: "run E (ops @ ops') s = (case run E ops s of None \<Rightarrow> None | Some t \<Rightarrow> run E ops' t)"
  by (induction ops arbitrary: s) (auto split: option.splits)

lemma tx_wf_new:
  assumes "\<And>a acct. env_Account E a = Inr (Some acct) \<Longrightarrow> CodeHash acct \<noteq> 0"
  shows "tx_wf E NewWithReader"
proof -
  have "codes_sound E NewWithReader"
    using assms by (auto simp: codes_sound_def live_object_def obj_at_def db_object_def NewWithReader_def newObject_def
        split: if_splits sum.splits option.splits)
  then show ?thesis
    using wf_NewWithReader [of E] unfolding tx_wf_def by (simp add: births_ok_def NewWithReader_def newJournal_def)
qed

end
