(* ===== verification/StateBalance.thy ===== *)
theory StateBalance
  imports StateRevert
begin

text \<open>
  The accounting behind \<^verbatim>\<open>unexpectedBalanceDelta\<close>: in the Arbitrum fork every balance change
  made through the state database is added up, so that the block processor can check that
  the total supply changed only where it expects. The total is taken over all addresses.
\<close>

definition acct_balance :: "acct_view option \<Rightarrow> int" where
  "acct_balance v = (case v of None \<Rightarrow> 0 | Some x \<Rightarrow> uint (v_balance x))"

definition total_balance :: "AState \<Rightarrow> int" where
  "total_balance A = (\<Sum>a\<in>UNIV. acct_balance (as_acct A a))"

lemma total_balance_put:
  "total_balance (acct_put A a v) = total_balance A - acct_balance (as_acct A a) + uint (v_balance v)"
proof -
  have "total_balance (acct_put A a v) =
      uint (v_balance v) + (\<Sum>b\<in>UNIV - {a}. acct_balance (as_acct (acct_put A a v) b))"
    unfolding total_balance_def by (subst sum.remove [of UNIV a]) (simp_all add: acct_balance_def)
  also have "(\<Sum>b\<in>UNIV - {a}. acct_balance (as_acct (acct_put A a v) b)) =
      (\<Sum>b\<in>UNIV - {a}. acct_balance (as_acct A b))"
    by (intro sum.cong) auto
  also have "\<dots> = total_balance A - acct_balance (as_acct A a)"
    unfolding total_balance_def by (subst sum.remove [of UNIV a]) simp_all
  finally show ?thesis by simp
qed

lemma total_balance_upd [simp]:
  "total_balance (A\<lparr>as_refund := x\<rparr>) = total_balance A"
  "total_balance (A\<lparr>as_transient := y\<rparr>) = total_balance A"
  "total_balance (A\<lparr>as_accessList := al\<rparr>) = total_balance A"
  "total_balance (A\<lparr>as_activated := w\<rparr>) = total_balance A"
  "total_balance (A\<lparr>as_logs := l, as_logSize := n\<rparr>) = total_balance A"
  by (simp_all add: total_balance_def)

lemma new_view_balance [simp]: "v_balance (new_view E D a) = 0"
  by (simp add: new_view_def obj_view_def newObject_def NewEmptyStateAccount_def)

lemma acct_or_new_balance: "acct_balance (as_acct A a) = uint (v_balance (acct_or_new E A a))"
  by (simp add: acct_balance_def acct_or_new_def split: option.splits)

text \<open>The condition under which a balance operation is plain integer arithmetic: no wrap-around.\<close>

fun balance_ok :: "Env \<Rightarrow> db_op \<Rightarrow> StateDB \<Rightarrow> bool" where
  "balance_ok E (OpAddBalance a v) s \<longleftrightarrow> uint (fst (GetBalance E a s)) + uint v < 2 ^ 256"
| "balance_ok E (OpSubBalance a v) s \<longleftrightarrow> v \<le> fst (GetBalance E a s)"
| "balance_ok E _ s \<longleftrightarrow> True"

fun balanced_run :: "Env \<Rightarrow> db_op list \<Rightarrow> StateDB \<Rightarrow> bool" where
  "balanced_run E [] s \<longleftrightarrow> True"
| "balanced_run E (op # ops) s \<longleftrightarrow>
     balance_ok E op s \<and> (case exec E op s of None \<Rightarrow> True | Some s' \<Rightarrow> balanced_run E ops s')"

text \<open>
  What has been announced: burns count positive, mints negative. A revert takes back what has been
  announced since the snapshot, so the ledger remembers the amount at each open snapshot.
\<close>

type_synonym ledger = "int \<times> (int \<times> int) list"

fun announce :: "db_op \<Rightarrow> StateDB \<Rightarrow> ledger \<Rightarrow> ledger" where
  "announce (OpExpectBurn n) s (x, st) = (x + n, st)"
| "announce (OpExpectMint n) s (x, st) = (x - n, st)"
| "announce OpSnapshot s (x, st) = (x, st @ [(fst (Snapshot s), x)])"
| "announce (OpRevertToSnapshot i) s (x, st) =
     (case dropWhile (\<lambda>(j, _). j \<noteq> i) st of
        [] \<Rightarrow> (x, st)
      | (_, y) # _ \<Rightarrow> (y, takeWhile (\<lambda>(j, _). j \<noteq> i) st))"
| "announce _ s l = l"

fun announced :: "Env \<Rightarrow> db_op list \<Rightarrow> StateDB \<Rightarrow> ledger \<Rightarrow> ledger" where
  "announced E [] s l = l"
| "announced E (op # ops) s l =
     (case exec E op s of None \<Rightarrow> l | Some s' \<Rightarrow> announced E ops s' (announce op s l))"

text \<open>The part of the delta that the total supply does not explain.\<close>

definition unexplained :: "Env \<Rightarrow> StateDB \<Rightarrow> int" where
  "unexplained E s = arb_unexpectedBalanceDelta (arbExtraData s) - total_balance (world E s)"

lemma GetBalance_or_new:
  "objs_ok E s \<Longrightarrow> fst (GetBalance E a s) = v_balance (acct_or_new E (world E s) a)"
  using field_getters(1) [of E s a] by (simp add: acct_get_def acct_or_new_def split: option.splits)

lemma uint_add_no_overflow: "uint (x::u256) + uint y < 2 ^ 256 \<Longrightarrow> uint (x + y) = uint x + uint y"
  by (simp add: uint_word_ariths)

lemma uint_sub_no_underflow: "(y::u256) \<le> x \<Longrightarrow> uint (x - y) = uint x - uint y"
  by (simp add: uint_sub_if' word_le_def)

lemma quiet_unexplained: "quiet E s s' \<Longrightarrow> unexplained E s' = unexplained E s"
  by (simp add: quiet_def unexplained_def)

lemma SelfDestruct_unexplained:
  assumes "objs_ok E s"
  shows "unexplained E (snd (SelfDestruct E a s)) = unexplained E s"
  using SelfDestruct_refines(3,4) [OF assms, of a]
  by (auto simp: unexplained_def total_balance_put acct_get_def acct_balance_def split: option.splits)

lemma exec_unexplained:
  assumes "objs_ok E s" "world_ok (world E s)" "code_reader_ok E" "journaled op" "op_ok E op s"
    "exec E op s = Some s'" "balance_ok E op s"
  shows "unexplained E s' = unexplained E s + (case op of OpExpectBurn n \<Rightarrow> n | OpExpectMint n \<Rightarrow> - n | _ \<Rightarrow> 0)"
proof (cases op)
  case (OpAddBalance a v)
  with assms have "uint (v_balance (acct_or_new E (world E s) a) + v) = uint (v_balance (acct_or_new E (world E s) a)) + uint v"
    by (intro uint_add_no_overflow) (simp add: GetBalance_or_new)
  with OpAddBalance assms AddBalance_logged(2,3) [OF assms(1), of a v] acct_or_new_balance [of "world E s" a E]
  show ?thesis by (auto simp: unexplained_def total_balance_put)
next
  case (OpSubBalance a v)
  with assms have "uint (v_balance (acct_or_new E (world E s) a) - v) = uint (v_balance (acct_or_new E (world E s) a)) - uint v"
    by (intro uint_sub_no_underflow) (simp add: GetBalance_or_new)
  with OpSubBalance assms SubBalance_logged(2,3) [OF assms(1), of a v] acct_or_new_balance [of "world E s" a E]
  show ?thesis by (auto simp: unexplained_def total_balance_put)
next
  case (OpSetBalance a v)
  with assms SetBalance_logged(2,3) [OF assms(1), of a v] acct_or_new_balance [of "world E s" a E]
  show ?thesis by (auto simp: unexplained_def total_balance_put)
next
  case (OpSetNonce a v)
  with assms SetNonce_logged(2,3) [OF assms(1), of a v] acct_or_new_balance [of "world E s" a E]
  show ?thesis by (auto simp: unexplained_def total_balance_put)
next
  case (OpSetCode a c)
  with assms SetCode_refines(1,2) [OF assms(1), of a c] acct_or_new_balance [of "world E s" a E]
  show ?thesis by (auto simp: unexplained_def total_balance_put)
next
  case (OpSetState a k v)
  with assms SetState_logged(3,4) [OF assms(1), of a k v] acct_or_new_balance [of "world E s" a E]
  show ?thesis by (auto simp: unexplained_def total_balance_put)
next
  case (OpSelfDestruct a)
  with assms SelfDestruct_unexplained [OF assms(1), of a] show ?thesis by auto
next
  case (OpSelfDestruct6780 a)
  obtain s1 where q: "quiet E s s1" and eq: "snd (SelfDestruct6780 E a s) =
       (if acct_get (world E s) a False v_newContract then snd (SelfDestruct E a s1) else s1)"
    by (rule SelfDestruct6780_cases [OF assms(1)])
  then have "objs_ok E s1" by (simp add: quiet_def)
  with q eq OpSelfDestruct6780 assms SelfDestruct_unexplained [of E s1 a] quiet_unexplained [OF q]
  show ?thesis by (auto split: if_splits)
next
  case (OpSetTransientState a k v)
  with assms SetTransientState_refines(2,4) [OF assms(1,2), of a k v] show ?thesis
    by (auto simp: unexplained_def)
next
  case (OpAddLog l)
  have "as_acct (world E (AddLog l s)) = as_acct (world E s)"
    by (simp add: AddLog_def Let_def view_def live_object_def sdb_append_def)
  with OpAddLog assms AddLog_refines(3) [OF assms(1,2), of l] show ?thesis
    by (auto simp: unexplained_def total_balance_def)
next
  case (OpAddRefund g)
  with assms refund_refines(2,3) [OF assms(1), of g] show ?thesis by (auto simp: unexplained_def)
next
  case (OpSubRefund g)
  with assms refund_refines(4) [OF assms(1), of g s'] show ?thesis by (auto simp: unexplained_def)
next
  case (OpCreateAccount a)
  with assms have v: "view E s a = None" by (simp add: view_live)
  with CreateAccount_refines(2,3) [OF assms(1) this] OpCreateAccount assms show ?thesis
    by (auto simp: unexplained_def total_balance_put acct_balance_def)
next
  case (OpCreateContract a)
  with assms CreateContract_refines(2,3) [OF assms(1), of a s'] show ?thesis
    by (auto simp: unexplained_def total_balance_put acct_balance_def)
next
  case (OpCreateZombieIfDeleted a)
  with assms CreateZombieIfDeleted_refines(2,3) [OF assms(1), of a] show ?thesis
    by (auto simp: unexplained_def total_balance_put acct_balance_def)
next
  case (OpAddAddressToAccessList a)
  with assms AddAddressToAccessList_refines(2,4) [OF assms(1,2), of a] show ?thesis
    by (auto simp: unexplained_def)
next
  case (OpAddSlotToAccessList a k)
  with assms AddSlotToAccessList_refines [OF assms(1,2), of a k] show ?thesis by (auto simp: unexplained_def)
next
  case (OpActivateWasm h m)
  with assms ActivateWasm_refines(2,3) [OF assms(1), of h m s'] show ?thesis
    by (auto simp: unexplained_def split: sum.splits)
next
  case (OpGetBalance a)
  with assms field_getters(1) [OF assms(1), of a] quiet_unexplained show ?thesis by auto
next
  case (OpGetCode a)
  with assms GetCode_refines [OF assms(1,3), of a] quiet_unexplained show ?thesis by auto
next
  case (OpGetCodeSize a)
  with assms GetCodeSize_quiet [OF assms(1), of a] quiet_unexplained show ?thesis by auto
next
  case (OpGetState a k)
  with assms GetStateAndCommittedState_refines [OF assms(1), of a k] quiet_unexplained show ?thesis
    by (auto simp: GetState_eq)
next
  case (OpGetCommittedState a k)
  with assms GetCommittedState_refines [OF assms(1), of a k] quiet_unexplained show ?thesis by auto
next
  case (OpExpectBurn n)
  then have "s' = add_delta n s" using assms(6) by (simp add: ExpectBalanceBurn_def split: if_splits)
  with OpExpectBurn show ?thesis by (simp add: unexplained_def add_delta_def sdb_simps)
next
  case (OpExpectMint n)
  then have "s' = add_delta (- n) s" using assms(6) by (simp add: ExpectBalanceMint_def split: if_splits)
  with OpExpectMint show ?thesis by (simp add: unexplained_def add_delta_def sdb_simps)
qed (use assms in \<open>auto simp: journaled_def unexplained_def
    unjournalled_logged [OF assms(1)] unjournalled_delta\<close>)

subsection \<open>Along a run\<close>

definition explains :: "Env \<Rightarrow> int \<Rightarrow> StateDB \<Rightarrow> revision \<Rightarrow> int \<times> int \<Rightarrow> bool" where
  "explains E c s r e \<longleftrightarrow> rev_id r = fst e \<and>
     (\<exists>A. rev_world E s (rev_journalIndex r) = Some A \<and> rev_unexpectedBalanceDelta r - total_balance A = c + snd e)"

definition explained :: "Env \<Rightarrow> int \<Rightarrow> ledger \<Rightarrow> StateDB \<Rightarrow> bool" where
  "explained E c l s \<longleftrightarrow>
     unexplained E s = c + fst l \<and> list_all2 (explains E c s) (jr_validRevisions (sdb_journal s)) (snd l)"

lemma explained_logged:
  assumes "explained E c (x, st) s" "logged E es s s'" "sdb_wf E s" "unexplained E s' = c + y"
  shows "explained E c (y, st) s'"
proof -
  have "rev_journalIndex r \<le> length (jr_entries (sdb_journal s))" if "r \<in> set (jr_validRevisions (sdb_journal s))" for r
    using assms(3) that by (auto simp: sdb_wf_def revs_ok_def Let_def)
  then have "explains E c s' r e" if "explains E c s r e" "r \<in> set (jr_validRevisions (sdb_journal s))" for r e
    using that logged_rev_world [OF assms(2)] by (simp add: explains_def)
  then have "list_all2 (explains E c s') (jr_validRevisions (sdb_journal s)) st"
    using assms(1) unfolding explained_def by (auto intro: list.rel_mono_strong)
  with assms(2,4) show ?thesis by (simp add: explained_def logged_def)
qed

lemma explained_Snapshot:
  assumes "explained E c (x, st) s"
  shows "explained E c (x, st @ [(fst (Snapshot s), x)]) (snd (Snapshot s))"
proof -
  have d: "unexplained E (snd (Snapshot s)) = unexplained E s"
    by (simp add: unexplained_def Snapshot_simps) (simp add: Snapshot_def Let_def)
  have "explains E c (snd (Snapshot s)) = explains E c s"
    by (simp add: explains_def fun_eq_iff rev_world_Snapshot)
  moreover have "rev_world E s (length (jr_entries (sdb_journal s))) = Some (world E s)" by (simp add: rev_world_def)
  ultimately show ?thesis
    using assms d unfolding explained_def Snapshot_simps
    by (auto intro!: list_all2_appendI) (simp add: explains_def unexplained_def)
qed

lemma explained_Revert:
  assumes "explained E c (x, st) s" "sdb_wf E s" "RevertToSnapshot E i s = Some s'"
  shows "explained E c (announce (OpRevertToSnapshot i) s (x, st)) s'"
proof -
  let ?rs = "jr_validRevisions (sdb_journal s)"
  from RevertToSnapshot_unknown [OF assms(2)] assms(3) obtain k
    where k: "k < length ?rs" "rev_id (?rs ! k) = i" by (metis in_set_conv_nth option.distinct(1))
  let ?r = "?rs ! k"
  from RevertToSnapshot_refines [OF assms(2) k(1) refl] assms(3) k(2) obtain A where
    A: "rev_world E s (rev_journalIndex ?r) = Some A" "world E s' = A"
    and s': "jr_validRevisions (sdb_journal s') = take k ?rs"
      "arb_unexpectedBalanceDelta (arbExtraData s') = rev_unexpectedBalanceDelta ?r"
      "\<forall>m \<le> rev_journalIndex ?r. rev_world E s' m = rev_world E s m" by auto
  have all: "list_all2 (explains E c s) ?rs st" using assms(1) by (simp add: explained_def)
  then have len: "length st = length ?rs" by (simp add: list_all2_lengthD)
  have ex: "explains E c s (?rs ! j) (st ! j)" if "j < length ?rs" for j
    using all that by (simp add: list_all2_conv_all_nth)
  have ids: "fst (st ! j) = rev_id (?rs ! j)" if "j < length ?rs" for j using ex [OF that] by (simp add: explains_def)
  have "sorted_wrt (<) (map rev_id ?rs)" using assms(2) by (simp add: sdb_wf_def revs_ok_def Let_def)
  then have "rev_id (?rs ! j) \<noteq> i" if "j < k" for j
    using that k sorted_wrt_nth_less [of "(<)" "map rev_id ?rs" j k] by simp
  then have "fst (st ! j) \<noteq> i" if "j < k" for j using that ids [of j] k(1) by simp
  then have pre: "\<forall>e \<in> set (take k st). fst e \<noteq> i" by (force simp: in_set_conv_nth)
  have sp: "st = take k st @ st ! k # drop (Suc k) st" "fst (st ! k) = i" using k len ids by (simp_all add: id_take_nth_drop)
  have tw: "takeWhile (\<lambda>(j, _). j \<noteq> i) st = take k st" "dropWhile (\<lambda>(j, _). j \<noteq> i) st = st ! k # drop (Suc k) st"
  proof -
    have "takeWhile (\<lambda>(j, _). j \<noteq> i) (take k st @ st ! k # drop (Suc k) st) = take k st"
      "dropWhile (\<lambda>(j, _). j \<noteq> i) (take k st @ st ! k # drop (Suc k) st) = st ! k # drop (Suc k) st"
      using pre sp(2) by (simp_all add: takeWhile_append2 dropWhile_append2 split_beta)
    then show "takeWhile (\<lambda>(j, _). j \<noteq> i) st = take k st" "dropWhile (\<lambda>(j, _). j \<noteq> i) st = st ! k # drop (Suc k) st"
      by (simp_all only: sp(1) [symmetric])
  qed
  have "rev_journalIndex r' \<le> rev_journalIndex ?r" if "r' \<in> set (take k ?rs)" for r'
  proof -
    from that k(1) obtain j where j: "j < k" "r' = ?rs ! j" by (auto simp: in_set_conv_nth)
    have "sorted (map rev_journalIndex ?rs)" using assms(2) by (simp add: sdb_wf_def revs_ok_def Let_def)
    with j k(1) show ?thesis using sorted_nth_mono [of "map rev_journalIndex ?rs" j k] by simp
  qed
  then have "explains E c s' r' e" if "explains E c s r' e" "r' \<in> set (take k ?rs)" for r' e
    using that s'(3) by (simp add: explains_def)
  then have "list_all2 (explains E c s') (take k ?rs) (take k st)"
    using list_all2_takeI [OF all] by (blast intro: list.rel_mono_strong)
  moreover have "unexplained E s' = c + snd (st ! k)" using ex [OF k(1)] A s'(2) by (auto simp: explains_def unexplained_def)
  ultimately show ?thesis using tw s'(1) by (simp add: explained_def split: prod.splits)
qed

lemma explained_run:
  "explained E c l s \<Longrightarrow> sdb_wf E s \<Longrightarrow> code_reader_ok E \<Longrightarrow> run E ops s = Some s' \<Longrightarrow>
   balanced_run E ops s \<Longrightarrow> explained E c (announced E ops s l) s'"
proof (induction ops arbitrary: s l)
  case (Cons op ops)
  obtain x st where l: "l = (x, st)" by (cases l)
  from Cons.prems(4) obtain s1 where s1: "op_ok E op s" "exec E op s = Some s1" "run E ops s1 = Some s'"
    by (auto split: if_splits option.splits)
  have bal: "balance_ok E op s" "balanced_run E ops s1" using Cons.prems(5) s1(2) by simp_all
  have ok: "objs_ok E s" "world_ok (world E s)" using Cons.prems(2) by (simp_all add: sdb_wf_def)
  have wf1: "sdb_wf E s1" using run_wf [OF Cons.prems(2,3), of "[op]" s1] s1 by simp
  note ex = Cons.prems(1) [unfolded l]
  have "explained E c (announce op s l) s1"
  proof (cases "journaled op")
    case True
    from exec_logged [OF ok Cons.prems(3) True s1(1,2)] obtain es where es: "logged E es s s1" by blast
    have u: "unexplained E s1 = c + (x + (case op of OpExpectBurn n \<Rightarrow> n | OpExpectMint n \<Rightarrow> - n | _ \<Rightarrow> 0))"
      using exec_unexplained [OF ok Cons.prems(3) True s1(1,2) bal(1)] ex by (simp add: explained_def)
    from explained_logged [OF ex es Cons.prems(2) u] True show ?thesis
      unfolding l by (cases op) (simp_all add: journaled_def)
  next
    case False
    then consider "op = OpSnapshot" | i where "op = OpRevertToSnapshot i" by (auto simp: journaled_def)
    then show ?thesis
      using s1(2) explained_Snapshot [OF ex] explained_Revert [OF ex Cons.prems(2)] unfolding l by cases simp_all
  qed
  with Cons.IH wf1 Cons.prems(3) s1(2,3) bal(2) show ?case by simp
qed simp

subsection \<open>Properties\<close>

text \<open>
  C6: from the start of a transaction (no snapshot is open), along any run of operations in
  which no addition overflows and no subtraction underflows, the change of
  \<^verbatim>\<open>unexpectedBalanceDelta\<close> is exactly the change of the sum of all account balances, plus the burns
  and minus the mints that have been announced. Reverting to a snapshot takes back the changes of
  balances and what has been announced since then, nothing else.
\<close>

theorem delta_tracks_total_supply:
  assumes "sdb_wf E s" "code_reader_ok E" "jr_validRevisions (sdb_journal s) = []"
    and "run E ops s = Some s'" "balanced_run E ops s"
  shows "GetUnexpectedBalanceDelta s' - GetUnexpectedBalanceDelta s =
    total_balance (world E s') - total_balance (world E s) + fst (announced E ops s (0, []))"
proof -
  have "explained E (unexplained E s) (0, []) s" using assms(3) by (simp add: explained_def)
  from explained_run [OF this assms(1,2,4,5)] show ?thesis
    by (simp add: explained_def unexplained_def GetUnexpectedBalanceDelta_def)
qed

theorem delta_tracks_total_supply_witness:
  "\<exists>s'. run env_empty [OpAddBalance 7 5, OpExpectMint 5, OpSnapshot, OpAddBalance 8 9, OpExpectMint 4, OpRevertToSnapshot 0,
        OpSubBalance 7 2, OpExpectBurn 2] NewWithReader = Some s' \<and>
    GetUnexpectedBalanceDelta s' - GetUnexpectedBalanceDelta NewWithReader =
      total_balance (world env_empty s') - total_balance (world env_empty NewWithReader) + (- 3)"
proof -
  let ?ops = "[OpAddBalance 7 5, OpExpectMint 5, OpSnapshot, OpAddBalance 8 9, OpExpectMint 4, OpRevertToSnapshot 0,
    OpSubBalance 7 2, OpExpectBurn 2]"
  have "\<not> Option.is_none (run env_empty ?ops NewWithReader)" by code_simp
  then obtain s' where s': "run env_empty ?ops NewWithReader = Some s'" by (auto simp: Option.is_none_def)
  have "balanced_run env_empty ?ops NewWithReader" by code_simp
  moreover have "fst (announced env_empty ?ops NewWithReader (0, [])) = - 3" by code_simp
  ultimately show ?thesis
    using delta_tracks_total_supply [OF wf_NewWithReader env_empty_ok _ s'] s'
    by (simp add: NewWithReader_def newJournal_def)
qed

end
