(* ===== verification/StateSupply.thy ===== *)
theory StateSupply
imports StateCode StateBalance
begin

text \<open>
  Balances, their sum and the recorded delta under the operations of a transaction: transfers and
  self-destructions, as the EVM composes them, keep the delta and never increase the sum.
\<close>

definition bal :: "Env \<Rightarrow> StateDB \<Rightarrow> address \<Rightarrow> int" where
  "bal E s a = acct_balance (as_acct (world E s) a)"

definition total_supply :: "Env \<Rightarrow> StateDB \<Rightarrow> int" where
  "total_supply E s = total_balance (world E s)"

definition same_books :: "Env \<Rightarrow> StateDB \<Rightarrow> StateDB \<Rightarrow> bool" where
  "same_books E s s' \<longleftrightarrow> bal E s' = bal E s \<and> GetUnexpectedBalanceDelta s' = GetUnexpectedBalanceDelta s"

lemma supply_bal: "total_supply E s = (\<Sum>a\<in>UNIV. bal E s a)"
  by (simp add: total_supply_def total_balance_def bal_def)

lemma bal_nonneg [simp]: "0 \<le> bal E s a"
  by (simp add: bal_def acct_balance_def split: option.splits)

lemma bal_le_supply: "bal E s a \<le> total_supply E s"
  unfolding supply_bal by (rule member_le_sum) simp_all

lemma sum_upd: "(\<Sum>x\<in>UNIV. (f(a := y)) x) = (\<Sum>x\<in>UNIV. f x) - f a + (y::int)" for f :: "address \<Rightarrow> int"
proof -
  have split: "(\<Sum>x\<in>UNIV. g x) = g a + (\<Sum>x\<in>UNIV - {a}. g x)" for g :: "address \<Rightarrow> int"
    by (rule sum.remove) simp_all
  have "(\<Sum>x\<in>UNIV - {a}. (f(a := y)) x) = (\<Sum>x\<in>UNIV - {a}. f x)" by (rule sum.cong) simp_all
  with split [of "f(a := y)"] split [of f] show ?thesis by simp
qed

lemma supply_upd: "bal E s' = (bal E s)(a := y) \<Longrightarrow> total_supply E s' = total_supply E s - bal E s a + y"
  by (simp only: supply_bal sum_upd)

lemma supply_cong: "bal E s' = bal E s \<Longrightarrow> total_supply E s' = total_supply E s"
  by (simp add: supply_bal)

lemma same_books_supply: "same_books E s s' \<Longrightarrow> total_supply E s' = total_supply E s"
  by (simp add: same_books_def supply_bal)

lemma same_books_refl: "same_books E s s"
  by (simp add: same_books_def)

lemma same_booksI:
  "\<forall>a. acct_balance (as_acct (world E s') a) = acct_balance (as_acct (world E s) a) \<Longrightarrow> arbExtraData s' = arbExtraData s \<Longrightarrow> same_books E s s'"
  by (simp add: same_books_def bal_def fun_eq_iff GetUnexpectedBalanceDelta_def)

lemma quiet_books: "quiet E s s' \<Longrightarrow> same_books E s s'"
  by (rule same_booksI) (simp_all add: quiet_def)

lemma GetBalance_bal:
  assumes "objs_ok E s"
  shows "uint (fst (GetBalance E a s)) = bal E s a"
  using field_getters(1) [OF assms, of a] by (simp add: acct_get_def bal_def acct_balance_def split: option.splits)

subsection \<open>Operations that touch no balance\<close>

fun neutral :: "db_op \<Rightarrow> bool" where
  "neutral (OpAddBalance a v) \<longleftrightarrow> v = 0"
| "neutral (OpSubBalance a v) \<longleftrightarrow> v = 0"
| "neutral (OpSetBalance a v) \<longleftrightarrow> False"
| "neutral (OpExpectBurn n) \<longleftrightarrow> False"
| "neutral (OpExpectMint n) \<longleftrightarrow> False"
| "neutral (OpSelfDestruct a) \<longleftrightarrow> False"
| "neutral (OpSelfDestruct6780 a) \<longleftrightarrow> False"
| "neutral (OpRevertToSnapshot i) \<longleftrightarrow> False"
| "neutral op \<longleftrightarrow> True"

lemma put_balance:
  assumes "world E s' = acct_put (world E s) a v" "v_balance v = v_balance (acct_or_new E (world E s) a)"
  shows "acct_balance (as_acct (world E s') b) = acct_balance (as_acct (world E s) b)"
  using assms acct_or_new_balance [of "world E s" a E] by (simp add: acct_balance_def)

lemma neutral_books:
  assumes "objs_ok E s" "world_ok (world E s)" "code_reader_ok E" "op_ok E op s" "exec E op s = Some s'" "neutral op"
  shows "same_books E s s'"
proof (cases op)
  case (OpAddBalance a v)
  with assms put_balance [OF AddBalance_logged(2) [OF assms(1), of a v]] AddBalance_logged(3) [OF assms(1), of a v]
  show ?thesis by (auto simp: same_books_def bal_def GetUnexpectedBalanceDelta_def)
next
  case (OpSubBalance a v)
  with assms put_balance [OF SubBalance_logged(2) [OF assms(1), of a v]] SubBalance_logged(3) [OF assms(1), of a v]
  show ?thesis by (auto simp: same_books_def bal_def GetUnexpectedBalanceDelta_def)
next
  case (OpSetNonce a v)
  with assms put_balance [OF SetNonce_logged(2) [OF assms(1), of a v]] SetNonce_logged(3) [OF assms(1), of a v]
  show ?thesis by (auto intro: same_booksI)
next
  case (OpSetCode a c)
  with assms put_balance [OF SetCode_refines(1) [OF assms(1), of a c]] SetCode_refines(2) [OF assms(1), of a c]
  show ?thesis by (auto intro: same_booksI)
next
  case (OpSetState a k v)
  with assms put_balance [OF SetState_logged(3) [OF assms(1), of a k v]] SetState_logged(4) [OF assms(1), of a k v]
  show ?thesis by (auto intro: same_booksI)
next
  case (OpSetTransientState a k v)
  with assms SetTransientState_refines(2,4) [OF assms(1,2), of a k v] show ?thesis
    by (auto intro: same_booksI)
next
  case (OpAddLog l)
  have "as_acct (world E (AddLog l s)) = as_acct (world E s)"
    by (simp add: AddLog_def Let_def view_def live_object_def sdb_append_def)
  with OpAddLog assms AddLog_refines(3) [OF assms(1,2), of l] show ?thesis by (auto intro: same_booksI)
next
  case (OpAddRefund g)
  with assms refund_refines(2,3) [OF assms(1), of g] show ?thesis by (auto intro: same_booksI)
next
  case (OpSubRefund g)
  with assms refund_refines(4) [OF assms(1), of g s'] show ?thesis by (auto intro: same_booksI)
next
  case (OpCreateAccount a)
  with assms have v: "view E s a = None" by (simp add: view_live)
  with CreateAccount_refines(2,3) [OF assms(1) this] OpCreateAccount assms show ?thesis
    by (auto intro!: same_booksI simp: acct_balance_def)
next
  case (OpCreateContract a)
  with assms CreateContract_refines(2,3) [OF assms(1), of a s'] show ?thesis
    by (auto intro!: same_booksI simp: acct_balance_def)
next
  case (OpCreateZombieIfDeleted a)
  with assms CreateZombieIfDeleted_refines(2,3) [OF assms(1), of a] show ?thesis
    by (auto intro!: same_booksI simp: acct_balance_def)
next
  case (OpAddAddressToAccessList a)
  with assms AddAddressToAccessList_refines(2,4) [OF assms(1,2), of a] show ?thesis by (auto intro: same_booksI)
next
  case (OpAddSlotToAccessList a k)
  with assms AddSlotToAccessList_refines [OF assms(1,2), of a k] show ?thesis by (auto intro: same_booksI)
next
  case (OpActivateWasm h m)
  with assms ActivateWasm_refines(2,3) [OF assms(1), of h m s'] show ?thesis
    by (auto simp: same_books_def bal_def GetUnexpectedBalanceDelta_def split: sum.splits)
next
  case (OpGetBalance a)
  with assms field_getters(1) [OF assms(1), of a] quiet_books show ?thesis by auto
next
  case (OpGetCode a)
  with assms GetCode_refines [OF assms(1,3), of a] quiet_books show ?thesis by auto
next
  case (OpGetCodeSize a)
  with assms GetCodeSize_quiet [OF assms(1), of a] quiet_books show ?thesis by auto
next
  case (OpGetState a k)
  with assms GetStateAndCommittedState_refines [OF assms(1), of a k] quiet_books show ?thesis
    by (auto simp: GetState_eq)
next
  case (OpGetCommittedState a k)
  with assms GetCommittedState_refines [OF assms(1), of a k] quiet_books show ?thesis by auto
next
  case OpSnapshot
  have "arbExtraData (snd (Snapshot s)) = arbExtraData s" by (simp add: Snapshot_def Let_def)
  with OpSnapshot assms show ?thesis by (auto intro!: same_booksI simp: Snapshot_simps(2))
qed (use assms in \<open>auto simp: same_books_def bal_def GetUnexpectedBalanceDelta_def
    unjournalled_logged [OF assms(1)] unjournalled_delta\<close>)

subsection \<open>Operations on balances\<close>

lemma put_bal:
  assumes "world E s' = acct_put (world E s) a v"
  shows "bal E s' = (bal E s)(a := uint (v_balance v))"
  using assms by (simp add: fun_eq_iff bal_def acct_balance_def)

lemma bal_or_new: "bal E s a = uint (v_balance (acct_or_new E (world E s) a))"
  unfolding bal_def by (rule acct_or_new_balance)

lemma AddBalance_books:
  assumes "objs_ok E s" "bal E s a + uint v < 2 ^ 256"
  shows "bal E (snd (AddBalance E a v s)) = (bal E s)(a := bal E s a + uint v)"
    "GetUnexpectedBalanceDelta (snd (AddBalance E a v s)) = GetUnexpectedBalanceDelta s + uint v"
  using put_bal [OF AddBalance_logged(2) [OF assms(1)], of a v] AddBalance_logged(3) [OF assms(1), of a v] assms(2)
  by (simp_all add: bal_or_new uint_add_no_overflow GetUnexpectedBalanceDelta_def)

lemma SubBalance_books:
  assumes "objs_ok E s" "uint v \<le> bal E s a"
  shows "bal E (snd (SubBalance E a v s)) = (bal E s)(a := bal E s a - uint v)"
    "GetUnexpectedBalanceDelta (snd (SubBalance E a v s)) = GetUnexpectedBalanceDelta s - uint v"
  using put_bal [OF SubBalance_logged(2) [OF assms(1)], of a v] SubBalance_logged(3) [OF assms(1), of a v] assms(2)
  by (simp_all add: bal_or_new uint_sub_no_underflow word_le_def GetUnexpectedBalanceDelta_def)

lemma SelfDestruct_books:
  assumes "objs_ok E s"
  shows "bal E (snd (SelfDestruct E a s)) = (bal E s)(a := 0)"
    "GetUnexpectedBalanceDelta (snd (SelfDestruct E a s)) = GetUnexpectedBalanceDelta s - bal E s a"
  using SelfDestruct_refines(3,4) [OF assms, of a]
  by (auto simp: bal_def acct_balance_def acct_get_def fun_eq_iff GetUnexpectedBalanceDelta_def split: option.splits)

lemma SelfDestruct6780_books:
  assumes "objs_ok E s"
  shows "same_books E s (snd (SelfDestruct6780 E a s)) \<or>
    bal E (snd (SelfDestruct6780 E a s)) = (bal E s)(a := 0) \<and>
    GetUnexpectedBalanceDelta (snd (SelfDestruct6780 E a s)) = GetUnexpectedBalanceDelta s - bal E s a"
proof -
  obtain s1 where q: "quiet E s s1" and eq: "snd (SelfDestruct6780 E a s) =
       (if acct_get (world E s) a False v_newContract then snd (SelfDestruct E a s1) else s1)"
    by (rule SelfDestruct6780_cases [OF assms])
  then have "objs_ok E s1" by (simp add: quiet_def)
  with eq SelfDestruct_books [of E s1 a] quiet_books [OF q] show ?thesis by (auto simp: same_books_def)
qed

lemma ExpectBalanceBurn_books:
  assumes "ExpectBalanceBurn n s = Some s'"
  shows "bal E s' = bal E s" "GetUnexpectedBalanceDelta s' = GetUnexpectedBalanceDelta s + n"
  using assms by (auto simp: ExpectBalanceBurn_def add_delta_def bal_def fun_eq_iff view_def live_object_def
      GetUnexpectedBalanceDelta_def split: if_splits)

subsection \<open>Transfers and self-destructions\<close>

text \<open>
  No balance can overflow as long as the sum of all balances is below half of the range of a
  balance; half, because \<^verbatim>\<open>SELFDESTRUCT\<close> credits the beneficiary before it clears the contract.
\<close>

definition solvent :: "Env \<Rightarrow> StateDB \<Rightarrow> StateDB \<Rightarrow> bool" where
  "solvent E s s' \<longleftrightarrow>
     (total_supply E s < 2 ^ 255 \<longrightarrow>
      total_supply E s' \<le> total_supply E s \<and> GetUnexpectedBalanceDelta s' = GetUnexpectedBalanceDelta s)"

lemma solvent_refl: "solvent E s s"
  by (simp add: solvent_def)

lemma solvent_trans: "solvent E s t \<Longrightarrow> solvent E t u \<Longrightarrow> solvent E s u"
  unfolding solvent_def by auto

lemma solvent_books: "same_books E s s' \<Longrightarrow> solvent E s s'"
  using same_books_supply [of E s s'] by (simp add: solvent_def same_books_def)

lemma solventI:
  assumes "\<And>a. bal E s a < 2 ^ 255 \<Longrightarrow> total_supply E s < 2 ^ 255 \<Longrightarrow>
    total_supply E s' \<le> total_supply E s \<and> GetUnexpectedBalanceDelta s' = GetUnexpectedBalanceDelta s"
  shows "solvent E s s'"
  using assms bal_le_supply [of E s] unfolding solvent_def by (meson le_less_trans)

lemma AddBalance_ok [simp]: "objs_ok E s \<Longrightarrow> objs_ok E (snd (AddBalance E a v s))"
  using AddBalance_logged(1) [of E s a v] by (auto simp: logged_def)

lemma SubBalance_ok [simp]: "objs_ok E s \<Longrightarrow> objs_ok E (snd (SubBalance E a v s))"
  using SubBalance_logged(1) [of E s a v] by (auto simp: logged_def)

lemma SelfDestruct_ok [simp]: "objs_ok E s \<Longrightarrow> objs_ok E (snd (SelfDestruct E a s))"
  using SelfDestruct_refines(1) [of E s a] by (auto simp: logged_def)

lemma SelfDestruct6780_ok: "objs_ok E s \<Longrightarrow> objs_ok E (snd (SelfDestruct6780 E a s))"
  by (rule SelfDestruct6780_cases [of E s a]) (simp_all add: quiet_def)

lemma Transfer_books:
  fixes a b :: address
  assumes "objs_ok E s" "uint v \<le> bal E s a" "total_supply E s < 2 ^ 256"
  defines "s' \<equiv> snd (AddBalance E b v (snd (SubBalance E a v s)))"
  shows "total_supply E s' = total_supply E s" "GetUnexpectedBalanceDelta s' = GetUnexpectedBalanceDelta s"
    "bal E s' = (bal E s)(a := bal E s a - uint v, b := ((bal E s)(a := bal E s a - uint v)) b + uint v)"
proof -
  let ?s1 = "snd (SubBalance E a v s)"
  note sub = SubBalance_books [OF assms(1,2)]
  have sup: "total_supply E ?s1 = total_supply E s - uint v" using supply_upd [OF sub(1)] by simp
  with bal_le_supply [of E ?s1 b] assms(3) have "bal E ?s1 b + uint v < 2 ^ 256" by simp
  note add = AddBalance_books [OF SubBalance_ok [OF assms(1)] this]
  show "total_supply E s' = total_supply E s" unfolding s'_def using supply_upd [OF add(1)] sup by simp
  show "GetUnexpectedBalanceDelta s' = GetUnexpectedBalanceDelta s" unfolding s'_def using add(2) sub(2) by simp
  show "bal E s' = (bal E s)(a := bal E s a - uint v, b := ((bal E s)(a := bal E s a - uint v)) b + uint v)"
    unfolding s'_def add(1) sub(1) ..
qed

lemma transfer_solvent:
  assumes "objs_ok E s" "uint v \<le> bal E s a"
  shows "solvent E s (snd (AddBalance E b v (snd (SubBalance E a v s))))"
  using Transfer_books [OF assms] by (simp add: solvent_def)

lemma selfdestruct_solvent:
  fixes v :: u256 and a b :: address
  assumes "objs_ok E s" "uint v = bal E s a"
  defines "s2 \<equiv> snd (SelfDestruct E a (snd (AddBalance E b v s)))"
  shows "b \<noteq> a \<Longrightarrow> solvent E s s2" "b = a \<Longrightarrow> ExpectBalanceBurn (uint v) s2 = Some s3 \<Longrightarrow> solvent E s s3"
proof -
  let ?s1 = "snd (AddBalance E b v s)"
  note gone = SelfDestruct_books [OF AddBalance_ok [OF assms(1)], where a = a and a1 = b and v1 = v]
  have add: "bal E ?s1 = (bal E s)(b := bal E s b + uint v)" "total_supply E ?s1 = total_supply E s + uint v"
      "GetUnexpectedBalanceDelta ?s1 = GetUnexpectedBalanceDelta s + uint v" if "total_supply E s < 2 ^ 255"
  proof -
    from bal_le_supply [of E s a] bal_le_supply [of E s b] that assms(2) have "bal E s b + uint v < 2 ^ 256" by simp
    note add = AddBalance_books [OF assms(1) this]
    show "bal E ?s1 = (bal E s)(b := bal E s b + uint v)" "total_supply E ?s1 = total_supply E s + uint v"
      "GetUnexpectedBalanceDelta ?s1 = GetUnexpectedBalanceDelta s + uint v"
      using add supply_upd [OF add(1)] by simp_all
  qed
  show "solvent E s s2" if "b \<noteq> a"
    unfolding solvent_def s2_def using add gone supply_upd [OF gone(1)] that assms(2) by simp
  show "solvent E s s3" if same: "b = a" and burn: "ExpectBalanceBurn (uint v) s2 = Some s3"
    unfolding solvent_def
    using add gone supply_upd [OF gone(1)] same assms(2) supply_cong [OF ExpectBalanceBurn_books(1) [OF burn, of E]]
      ExpectBalanceBurn_books(2) [OF burn]
    by (simp add: s2_def)
qed

text \<open>With EIP-6780 the balance moves first, and the contract is cleared only if it is new.\<close>

lemma selfdestruct6780_solvent:
  fixes v :: u256 and a b :: address
  assumes "objs_ok E s" "uint v = bal E s a"
  defines "s2 \<equiv> snd (SelfDestruct6780 E a (snd (AddBalance E b v (snd (SubBalance E a v s)))))"
  shows "b \<noteq> a \<Longrightarrow> solvent E s s2"
    "b = a \<Longrightarrow> bal E s2 a = 0 \<Longrightarrow> same_books E s2 t \<Longrightarrow> ExpectBalanceBurn (uint v) t = Some s3 \<Longrightarrow> solvent E s s3"
    "b = a \<Longrightarrow> bal E s2 a \<noteq> 0 \<Longrightarrow> solvent E s s2"
proof -
  let ?s1 = "snd (AddBalance E b v (snd (SubBalance E a v s)))"
  have ok: "objs_ok E ?s1" using assms(1) by simp
  have moved: "total_supply E ?s1 = total_supply E s" "GetUnexpectedBalanceDelta ?s1 = GetUnexpectedBalanceDelta s"
      "bal E ?s1 a = (if b = a then uint v else 0)" if "total_supply E s < 2 ^ 255"
    using that assms(2) Transfer_books [OF assms(1), of v a b] by auto
  have cases: "total_supply E s2 = total_supply E s \<and> GetUnexpectedBalanceDelta s2 = GetUnexpectedBalanceDelta s \<and>
        bal E s2 a = (if b = a then uint v else 0) \<or>
      total_supply E s2 = total_supply E s - (if b = a then uint v else 0) \<and> bal E s2 a = 0 \<and>
        GetUnexpectedBalanceDelta s2 = GetUnexpectedBalanceDelta s - (if b = a then uint v else 0)"
      if "total_supply E s < 2 ^ 255"
    using SelfDestruct6780_books [OF ok, of a] unfolding s2_def [symmetric]
  proof
    assume "same_books E ?s1 s2"
    with moved [OF that] same_books_supply [OF this] show ?thesis by (simp add: same_books_def)
  next
    assume cleared: "bal E s2 = (bal E ?s1)(a := 0) \<and> GetUnexpectedBalanceDelta s2 = GetUnexpectedBalanceDelta ?s1 - bal E ?s1 a"
    with moved [OF that] supply_upd [of E s2 ?s1 a 0] show ?thesis by simp
  qed
  show "solvent E s s2" if "b \<noteq> a" unfolding solvent_def using cases that by auto
  show "solvent E s s2" if "b = a" "bal E s2 a \<noteq> 0" unfolding solvent_def using cases that by auto
  show "solvent E s s3" if "b = a" "bal E s2 a = 0" and t: "same_books E s2 t"
      and burn: "ExpectBalanceBurn (uint v) t = Some s3"
    unfolding solvent_def
    using cases that(1,2) t same_books_supply [OF t] supply_cong [OF ExpectBalanceBurn_books(1) [OF burn, of E]] ExpectBalanceBurn_books(2) [OF burn]
    by (auto simp: same_books_def)
qed

end
