(* ===== verification/VMEffects.thy ===== *)
theory VMEffects
imports StateSupply VMTableSets
begin

text \<open>
  What the EVM does to the state database: every computation of the EVM acts on it by a sequence
  of the operations of a transaction, in which reverts go back to snapshots of the computation
  itself only. So all that is known about such sequences holds for executions; in particular,
  the invariants of the database hold after any execution, and a call that fails undoes
  everything that has happened in it. The flag \<open>acc\<close> adds that the balances are accounted for
  (\<open>solvent\<close>); what the code behind the hooks is assumed to do decides which of the two holds.
\<close>

subsection \<open>Sequences of operations\<close>

definition performs :: "bool \<Rightarrow> Env \<Rightarrow> StateDB \<Rightarrow> StateDB \<Rightarrow> bool" where
  "performs acc E s s' \<longleftrightarrow>
     (env_ok E \<and> tx_wf E s \<longrightarrow>
      (\<exists>ops. run E ops s = Some s' \<and>
         (\<forall>i. OpRevertToSnapshot i \<in> set ops \<longrightarrow> jr_nextRevisionId (sdb_journal s) \<le> i)) \<and>
      (acc \<longrightarrow> solvent E s s'))"

lemma performsD:
  assumes "performs acc E s s'" "env_ok E" "tx_wf E s"
  shows "tx_wf E s'" "tidy E s s'" "jr_nextRevisionId (sdb_journal s) \<le> jr_nextRevisionId (sdb_journal s')"
    "acc \<Longrightarrow> solvent E s s'"
  using assms run_step unfolding performs_def by blast+

lemma performsE:
  assumes "performs acc E s s'" "env_ok E" "tx_wf E s"
  obtains ops where "run E ops s = Some s'" "\<forall>i. OpRevertToSnapshot i \<in> set ops \<longrightarrow> jr_nextRevisionId (sdb_journal s) \<le> i"
  using assms unfolding performs_def by blast

lemma performs_refl [simp]: "performs acc E s s"
  unfolding performs_def by (intro impI conjI exI [of _ "[]"]) (simp_all add: solvent_refl)

lemma performs_trans:
  assumes "performs acc E s t" "performs acc E t u"
  shows "performs acc E s u"
  unfolding performs_def
proof (intro impI conjI)
  assume wf: "env_ok E \<and> tx_wf E s"
  then obtain ops where ops: "run E ops s = Some t" "\<forall>i. OpRevertToSnapshot i \<in> set ops \<longrightarrow> jr_nextRevisionId (sdb_journal s) \<le> i"
    using performsE [OF assms(1)] by blast
  note t = performsD [OF assms(1)] wf
  then obtain ops' where ops': "run E ops' t = Some u" "\<forall>i. OpRevertToSnapshot i \<in> set ops' \<longrightarrow> jr_nextRevisionId (sdb_journal t) \<le> i"
    using performsE [OF assms(2)] by blast
  have "run E (ops @ ops') s = Some u" using ops(1) ops'(1) by (simp add: run_append)
  moreover have "jr_nextRevisionId (sdb_journal s) \<le> i" if "OpRevertToSnapshot i \<in> set (ops @ ops')" for i
    using that ops(2) ops'(2) t(3) wf by fastforce
  ultimately show "\<exists>ops. run E ops s = Some u \<and>
      (\<forall>i. OpRevertToSnapshot i \<in> set ops \<longrightarrow> jr_nextRevisionId (sdb_journal s) \<le> i)" by blast
  show "solvent E s u" if acc
    using solvent_trans [OF performsD(4) [OF assms(1)] performsD(4) [OF assms(2)]] performsD(1) [OF assms(1)] wf that by blast
qed

lemma performs_op:
  assumes "op_ok E op s" "exec E op s = Some s'" "\<And>i. op \<noteq> OpRevertToSnapshot i" "acc \<Longrightarrow> neutral op"
  shows "performs acc E s s'"
  unfolding performs_def
proof (intro impI conjI)
  assume "env_ok E \<and> tx_wf E s"
  then have "objs_ok E s" "world_ok (world E s)" "code_reader_ok E" by (simp_all add: tx_wf_def sdb_wf_def env_ok_def)
  with assms show "solvent E s s'" if acc using that by (blast intro: solvent_books neutral_books)
  show "\<exists>ops. run E ops s = Some s' \<and> (\<forall>i. OpRevertToSnapshot i \<in> set ops \<longrightarrow> jr_nextRevisionId (sdb_journal s) \<le> i)"
    using assms by (intro exI [of _ "[op]"]) auto
qed

lemmas performs_ops = performs_op [where op = "OpSetNonce a n" for a n]
  performs_op [where op = "OpSetState a k v" for a k v] performs_op [where op = "OpSetTransientState a k v" for a k v]
  performs_op [where op = "OpAddLog l" for l] performs_op [where op = "OpAddPreimage h p" for h p]
  performs_op [where op = "OpAddRefund g" for g] performs_op [where op = "OpSubRefund g" for g]
  performs_op [where op = "OpCreateContract a" for a] performs_op [where op = "OpAddAddressToAccessList a" for a]
  performs_op [where op = "OpAddSlotToAccessList a k" for a k] performs_op [where op = "OpGetBalance a" for a]
  performs_op [where op = "OpGetCode a" for a] performs_op [where op = "OpGetCodeSize a" for a]
  performs_op [where op = "OpGetState a k" for a k] performs_op [where op = "OpSnapshot"]
  performs_op [where op = "OpAddBalance a 0" for a]

lemmas performs_balance_ops = performs_op [where op = "OpAddBalance a v" and acc = False for a v]
  performs_op [where op = "OpSubBalance a v" and acc = False for a v] performs_op [where op = "OpExpectBurn n" and acc = False for n]
  performs_op [where op = "OpSelfDestruct a" and acc = False for a] performs_op [where op = "OpSelfDestruct6780 a" and acc = False for a]

lemma getters_load:
  "snd (GetNonce E a s) = snd (GetBalance E a s)" "snd (GetCodeHash E a s) = snd (GetBalance E a s)"
  "snd (GetStorageRoot E a s) = snd (GetBalance E a s)" "snd (Exist E a s) = snd (GetBalance E a s)"
  "snd (Empty E a s) = snd (GetBalance E a s)" "snd (HasSelfDestructed E a s) = snd (GetBalance E a s)"
  "snd (GetStateAndCommittedState E a k s) = snd (GetState E a k s)"
  by (simp_all add: GetNonce_def GetCodeHash_def GetStorageRoot_def Exist_def Empty_def HasSelfDestructed_def GetBalance_def
      GetState_eq split: prod.splits)

lemma performs_simps [simp]:
  "performs acc E s (SetNonce E a n s)" "performs acc E s (snd (SetState E a k w s))"
  "performs acc E s (SetTransientState a k w s)" "performs acc E s (AddLog l s)" "performs acc E s (AddPreimage h p s)"
  "performs acc E s (AddRefund g s)" "performs acc E s (AddAddressToAccessList a s)" "performs acc E s (snd (GetBalance E a s))"
  "performs acc E s (snd (GetCode E a s))" "performs acc E s (snd (GetCodeSize E a s))" "performs acc E s (snd (GetState E a k s))"
  "performs acc E s (snd (Snapshot s))" "performs acc E s (snd (AddBalance E a 0 s))"
  by (rule performs_ops; simp)+

lemma performs_opt:
  "SubRefund g s = Some s' \<Longrightarrow> performs acc E s s'" "AddSlotToAccessList a k s = Some s' \<Longrightarrow> performs acc E s s'"
  "CreateContract E a s = Some s' \<Longrightarrow> performs acc E s s'"
  by (rule performs_ops; simp)+

lemma performs_unaccounted:
  "performs False E s (snd (AddBalance E a v s))" "performs False E s (snd (SubBalance E a v s))"
  "performs False E s (snd (SelfDestruct E a s))" "performs False E s (snd (SelfDestruct6780 E a s))"
  "ExpectBalanceBurn n s = Some s' \<Longrightarrow> performs False E s s'"
  by (rule performs_balance_ops; simp)+

lemma performs_solvent:
  assumes "performs False E s s'" "env_ok E \<Longrightarrow> tx_wf E s \<Longrightarrow> solvent E s s'"
  shows "performs acc E s s'"
  using assms unfolding performs_def by blast

lemma performs_transfer:
  assumes "uint v \<le> bal E s a"
  shows "performs acc E s (snd (AddBalance E b v (snd (SubBalance E a v s))))"
proof (rule performs_solvent)
  show "performs False E s (snd (AddBalance E b v (snd (SubBalance E a v s))))"
    by (rule performs_trans [OF performs_unaccounted(2,1)])
  show "solvent E s (snd (AddBalance E b v (snd (SubBalance E a v s))))" if "tx_wf E s"
    using transfer_solvent assms that by (simp add: tx_wf_def sdb_wf_def)
qed

subsection \<open>Computations in a frame\<close>

definition acts :: "bool \<Rightarrow> Env \<Rightarrow> 'a vm \<Rightarrow> bool" where
  "acts acc E m \<longleftrightarrow> (\<forall>f r f'. m f = Some (r, f') \<longrightarrow> performs acc E (fr_db f) (fr_db f'))"

named_theorems act_intros \<open>computations that act on the database by operations\<close>

lemma acts_keeps: "keeps fr_db m \<Longrightarrow> acts acc E m"
  by (auto simp: acts_def keeps_def)

lemma fr_db_simps [simp]:
  "fr_db (f\<lparr>fr_stack := st\<rparr>) = fr_db f" "fr_db (f\<lparr>fr_mem := m\<rparr>) = fr_db f" "fr_db (f\<lparr>fr_pc := pc\<rparr>) = fr_db f"
  "fr_db (f\<lparr>fr_contract := c\<rparr>) = fr_db f" "fr_db (f\<lparr>fr_evm := e\<rparr>) = evm_StateDB e"
  by (simp_all add: fr_db_def)

lemma acts_bind [act_intros]: "acts acc E m \<Longrightarrow> (\<And>x. acts acc E (k x)) \<Longrightarrow> acts acc E (vbind m k)"
  unfolding acts_def by (blast elim!: vbind_SomeE intro: performs_trans)

lemma acts_then [act_intros]: "acts acc E m \<Longrightarrow> acts acc E k \<Longrightarrow> acts acc E (vthen m k)"
  unfolding vthen_def by (rule acts_bind)

lemma acts_cases [act_intros]:
  "acts acc E m \<Longrightarrow> acts acc E n \<Longrightarrow> acts acc E (if b then m else n)"
  "(\<And>x y. acts acc E (m1 x y)) \<Longrightarrow> acts acc E (case p of (x, y) \<Rightarrow> m1 x y)"
  "(\<And>x. acts acc E (m2 x)) \<Longrightarrow> (\<And>y. acts acc E (n2 y)) \<Longrightarrow> acts acc E (case v of Inl x \<Rightarrow> m2 x | Inr y \<Rightarrow> n2 y)"
  "acts acc E n3 \<Longrightarrow> (\<And>x. acts acc E (m3 x)) \<Longrightarrow> acts acc E (case w of None \<Rightarrow> n3 | Some x \<Rightarrow> m3 x)"
  "(\<And>x. acts acc E (m4 x)) \<Longrightarrow> acts acc E (let x = u in m4 x)"
  by (simp_all split: prod.splits sum.splits option.splits)

lemma acts_pure [act_intros]:
  "acts acc E (vret x)" "acts acc E (vfail e)" "acts acc E (vget g)" "acts acc E (vopt h)" "acts acc E (vcheck y)" "acts acc E (vback n)" "acts acc E (vback_u64 n)"
  "acts acc E self" "acts acc E vpop" "acts acc E (vpush w)" "acts acc E vpeek" "acts acc E (vset w)" "acts acc E (vstack op1)" "acts acc E (vmem op2)"
  "acts acc E (vpc op3)" "acts acc E (vcontract op4)" "acts acc E (memoryGasCost ms)"
  by (rule acts_keeps; (rule keeps_intros | simp add: keeps_def vcontract_def split: prod.splits)+)+

lemma acts_when [act_intros]: "acts acc E m \<Longrightarrow> acts acc E (vwhen b m)"
  by (simp add: vwhen_def acts_pure)

lemma acts_evm [act_intros]: "(\<And>e. evm_StateDB (op e) = evm_StateDB e) \<Longrightarrow> acts acc E (vevm op)"
  by (simp add: acts_def vevm_def) (simp add: fr_db_def)

lemma acts_valid [act_intros]: "acts acc E (vvalid pos)"
  by (auto simp: acts_def vvalid_def fr_db_def split: option.splits)

lemma acts_db: "(\<And>s. performs acc E s (snd (op s))) \<Longrightarrow> acts acc E (vdb op)"
  by (auto simp: acts_def vdb_def split: prod.splits) (metis snd_conv)

lemma acts_db_upd: "(\<And>s. performs acc E s (op s)) \<Longrightarrow> acts acc E (vdb_upd op)"
  by (simp add: acts_def vdb_upd_def)

lemma acts_db_opt: "(\<And>s s'. op s = Some s' \<Longrightarrow> performs acc E s s') \<Longrightarrow> acts acc E (vdb_opt op)"
  by (auto simp: acts_def vdb_opt_def split: option.splits)

lemma acts_ops [act_intros]:
  "acts acc E (vdb (GetBalance E a))" "acts acc E (vdb (GetCode E a))" "acts acc E (vdb (GetCodeSize E a))" "acts acc E (vdb (GetCodeHash E a))"
  "acts acc E (vdb (Exist E a))" "acts acc E (vdb (Empty E a))" "acts acc E (vdb (HasSelfDestructed E a))" "acts acc E (vdb (GetState E a k))"
  "acts acc E (vdb (GetStateAndCommittedState E a k))" "acts acc E (vdb (SetState E a k w))"
  "acts acc E (vdb_upd (AddPreimage h p))" "acts acc E (vdb_upd (AddRefund g))" "acts acc E (vdb_upd (AddLog l))"
  "acts acc E (vdb_upd (SetTransientState a k w))" "acts acc E (vdb_upd (AddAddressToAccessList a))"
  "acts acc E (vdb_opt (SubRefund g))" "acts acc E (vdb_opt (AddSlotToAccessList a k))"
  by (rule acts_db acts_db_upd acts_db_opt; simp add: getters_load performs_opt)+

lemma acts_shapes [act_intros]:
  "acts acc E fin" "acts acc E (un_op h1)" "acts acc E (bin_op h2)" "acts acc E (tern_op h3)" "acts acc E (push_op h4)" "acts acc E (push_big v)"
  "acts acc E (jump_to pos)"
  unfolding fin_def un_op_def bin_op_def tern_op_def push_op_def push_big_def jump_to_def
  by (rule act_intros)+

lemma acts_guards [act_intros]:
  "acts acc E m \<Longrightarrow> acts acc E (protect m)" "acts acc E m' \<Longrightarrow> acts acc E (unless_aborted m')"
  unfolding protect_def unless_aborted_def by (rule act_intros | assumption)+

lemma acts_topics [act_intros]: "acts acc E (pop_topics n)"
  by (induction n) (simp_all add: act_intros)

text \<open>What the self-destruction of a contract does to balances is accounted for as a whole.\<close>

lemma acts_solvent:
  assumes "acts False E m"
    "\<And>f r f'. tx_wf E (fr_db f) \<Longrightarrow> m f = Some (r, f') \<Longrightarrow> solvent E (fr_db f) (fr_db f')"
  shows "acts acc E m"
  using assms unfolding acts_def by (blast intro: performs_solvent)

lemma acts_unaccounted:
  "acts False E (vdb (AddBalance E a v))" "acts False E (vdb (SubBalance E a v))" "acts False E (vdb (SelfDestruct E a))"
  "acts False E (vdb (SelfDestruct6780 E a))" "acts False E (vdb_opt (ExpectBalanceBurn n))"
  by (rule acts_db acts_db_opt; simp add: performs_unaccounted)+

lemma solvent_loaded:
  assumes "tx_wf E s" "\<And>s1. quiet E s s1 \<Longrightarrow> objs_ok E s1 \<Longrightarrow> s1 = snd (GetBalance E a s) \<Longrightarrow>
    uint (fst (GetBalance E a s)) = bal E s1 a \<Longrightarrow> solvent E s1 t"
  shows "solvent E s t"
proof -
  have ok: "objs_ok E s" using assms(1) by (simp add: tx_wf_def sdb_wf_def)
  then have q: "quiet E s (snd (GetBalance E a s))" using field_getters(1) by blast
  then have books: "same_books E s (snd (GetBalance E a s))" by (rule quiet_books)
  with GetBalance_bal [OF ok, of a] q assms(2) [of "snd (GetBalance E a s)"]
  have "solvent E (snd (GetBalance E a s)) t" by (simp add: same_books_def quiet_def)
  with solvent_books [OF books] show ?thesis by (rule solvent_trans)
qed

lemma acts_selfdestruct:
  "acts acc E (vbind (vdb (GetBalance E a)) (\<lambda>balance. vbind (vdb (AddBalance E b balance)) (\<lambda>_.
     vbind (vdb (SelfDestruct E a)) (\<lambda>_.
     vthen (vwhen (b = a) (vdb_opt (ExpectBalanceBurn (uint balance)))) (vfail err)))))" (is "acts acc E ?m")
proof (rule acts_solvent)
  show "acts False E ?m" by (rule act_intros acts_unaccounted)+
  fix f r f' assume wf: "tx_wf E (fr_db f)" and m: "?m f = Some (r, f')"
  show "solvent E (fr_db f) (fr_db f')"
  proof (rule solvent_loaded [OF wf, where a = a])
    fix s1 assume s1: "quiet E (fr_db f) s1" "objs_ok E s1" "s1 = snd (GetBalance E a (fr_db f))"
      "uint (fst (GetBalance E a (fr_db f))) = bal E s1 a"
    let ?v = "fst (GetBalance E a (fr_db f))"
    let ?s2 = "snd (SelfDestruct E a (snd (AddBalance E b ?v s1)))"
    have "if b = a then ExpectBalanceBurn (uint ?v) ?s2 = Some (fr_db f') else fr_db f' = ?s2"
      using m by (auto simp: vbind_def vthen_def vwhen_def vdb_def vdb_opt_def vfail_def vret_def s1(3)
          split: prod.splits option.splits if_splits)
    with selfdestruct_solvent [OF s1(2,4), of b] show "solvent E s1 (fr_db f')" by (auto split: if_splits)
  qed
qed

lemma acts_selfdestruct6780:
  "acts acc E (vbind (vdb (GetBalance E a)) (\<lambda>balance. vbind (vdb (SubBalance E a balance)) (\<lambda>_.
     vbind (vdb (AddBalance E b balance)) (\<lambda>_. vbind (vdb (SelfDestruct6780 E a)) (\<lambda>_.
     vthen (if b = a then vbind (vdb (GetBalance E a)) (\<lambda>c. vwhen (c = 0) (vdb_opt (ExpectBalanceBurn (uint balance))))
            else vret ()) (vfail err))))))" (is "acts acc E ?m")
proof (rule acts_solvent)
  show "acts False E ?m" by (rule act_intros acts_unaccounted)+
  fix f r f' assume wf: "tx_wf E (fr_db f)" and m: "?m f = Some (r, f')"
  show "solvent E (fr_db f) (fr_db f')"
  proof (rule solvent_loaded [OF wf, where a = a])
    fix s1 assume s1: "quiet E (fr_db f) s1" "objs_ok E s1" "s1 = snd (GetBalance E a (fr_db f))"
      "uint (fst (GetBalance E a (fr_db f))) = bal E s1 a"
    let ?v = "fst (GetBalance E a (fr_db f))"
    let ?s2 = "snd (SelfDestruct6780 E a (snd (AddBalance E b ?v (snd (SubBalance E a ?v s1)))))"
    let ?s3 = "snd (GetBalance E a ?s2)"
    have final: "if b \<noteq> a then fr_db f' = ?s2 else if fst (GetBalance E a ?s2) = 0
        then ExpectBalanceBurn (uint ?v) ?s3 = Some (fr_db f') else fr_db f' = ?s3"
      using m by (auto simp: vbind_def vthen_def vwhen_def vdb_def vdb_opt_def vfail_def vret_def s1(3)
          split: prod.splits option.splits if_splits)
    have ok2: "objs_ok E ?s2" using s1(2) by (simp add: SelfDestruct6780_ok)
    have zero: "fst (GetBalance E a ?s2) = 0 \<longleftrightarrow> bal E ?s2 a = 0" unfolding GetBalance_bal [OF ok2, of a, symmetric] by (simp add: uint_0_iff)
    have q: "same_books E ?s2 ?s3" using field_getters(1) [OF ok2, of a] quiet_books by blast
    consider "b \<noteq> a" | "b = a" "bal E ?s2 a = 0" | "b = a" "bal E ?s2 a \<noteq> 0" by blast
    then show "solvent E s1 (fr_db f')"
    proof cases
      case 1
      with final selfdestruct6780_solvent(1) [OF s1(2,4), of b] show ?thesis by simp
    next
      case 2
      with final zero selfdestruct6780_solvent(2) [OF s1(2,4), of b] q show ?thesis by simp
    next
      case 3
      with final zero selfdestruct6780_solvent(3) [OF s1(2,4), of b] show ?thesis
        using solvent_trans [OF _ solvent_books [OF q]] by simp
    qed
  qed
qed

subsection \<open>Instructions\<close>

definition acts_op :: "executionFunc \<Rightarrow> bool" where
  "acts_op ex \<longleftrightarrow> (\<forall>acc E cfg. acts acc E (ex E cfg))"

lemma acts_opI: "(\<And>acc E cfg. acts acc E (ex E cfg)) \<Longrightarrow> acts_op ex"
  by (simp add: acts_op_def)

named_theorems act_rules \<open>instructions and gas functions that act on the database by operations\<close>

lemma acts_op_arithmetic [act_rules]:
  "acts_op opAdd" "acts_op opSub" "acts_op opMul" "acts_op opDiv" "acts_op opSdiv" "acts_op opMod" "acts_op opSmod" "acts_op opExp"
  "acts_op opSignExtend" "acts_op opNot" "acts_op opLt" "acts_op opGt" "acts_op opSlt" "acts_op opSgt" "acts_op opEq" "acts_op opIszero"
  "acts_op opAnd" "acts_op opOr" "acts_op opXor" "acts_op opByte" "acts_op opAddmod" "acts_op opMulmod" "acts_op opSHL" "acts_op opSHR"
  "acts_op opSAR" "acts_op opCLZ"
  by (rule acts_opI; simp add: opAdd_def opSub_def opMul_def opDiv_def opSdiv_def opMod_def opSmod_def opExp_def
      opSignExtend_def opNot_def opLt_def opGt_def opSlt_def opSgt_def opEq_def opIszero_def opAnd_def opOr_def opXor_def
      opByte_def opAddmod_def opMulmod_def opSHL_def opSHR_def opSAR_def opCLZ_def act_intros)+

lemma acts_op_environment [act_rules]:
  "acts_op opAddress" "acts_op opOrigin" "acts_op opCaller" "acts_op opCallValue" "acts_op opCallDataSize" "acts_op opReturnDataSize"
  "acts_op opCodeSize" "acts_op opGasprice" "acts_op opCoinbase" "acts_op opTimestamp" "acts_op opDifficulty" "acts_op opGasLimit"
  "acts_op opChainID" "acts_op opBaseFee" "acts_op opBlobHash" "acts_op opPc" "acts_op opMsize" "acts_op opGas"
  by (rule acts_opI; simp add: opAddress_def opOrigin_def opCaller_def opCallValue_def opCallDataSize_def opReturnDataSize_def
      opCodeSize_def opGasprice_def opCoinbase_def opTimestamp_def opDifficulty_def opGasLimit_def opChainID_def
      opBaseFee_def opBlobHash_def opPc_def opMsize_def opGas_def act_intros)+

lemma acts_op_data [act_rules]:
  "acts_op opKeccak256" "acts_op opBalance" "acts_op opCallDataLoad" "acts_op opCallDataCopy" "acts_op opReturnDataCopy"
  "acts_op opExtCodeSize" "acts_op opCodeCopy" "acts_op opExtCodeCopy" "acts_op opExtCodeHash" "acts_op opBlockhash"
  "acts_op opNumber" "acts_op opRandom" "acts_op opSelfBalance" "acts_op opBlobBaseFee"
  unfolding opKeccak256_def opBalance_def opCallDataLoad_def opCallDataCopy_def opReturnDataCopy_def opExtCodeSize_def
    opCodeCopy_def opExtCodeCopy_def opExtCodeHash_def opBlockhash_def opNumber_def opRandom_def opSelfBalance_def
    opBlobBaseFee_def
  by (rule acts_opI; (rule act_intros)+)+

lemma acts_op_memory [act_rules]:
  "acts_op opPop" "acts_op opMload" "acts_op opMstore" "acts_op opMstore8" "acts_op opMcopy" "acts_op opSload"
  "acts_op opSstore" "acts_op opTload" "acts_op opTstore" "acts_op opJump" "acts_op opJumpi" "acts_op opJumpdest"
  "acts_op (opSwap n)" "acts_op (makeDup n)" "acts_op opPush0" "acts_op opPush1" "acts_op opPush2" "acts_op (makePush sz n)"
  unfolding opPop_def opMload_def opMstore_def opMstore8_def opMcopy_def opSload_def opSstore_def opTload_def opTstore_def
    opJump_def opJumpi_def opJumpdest_def opSwap_def makeDup_def opPush0_def opPush1_def opPush2_def makePush_def
  by (rule acts_opI; (rule act_intros)+)+

lemma acts_op_system [act_rules]:
  "acts_op (makeLog n)" "acts_op opReturn" "acts_op opRevert" "acts_op opUndefined" "acts_op opStop" "acts_op opSelfdestruct"
  "acts_op opSelfdestruct6780"
  unfolding makeLog_def opReturn_def opRevert_def opUndefined_def opStop_def opSelfdestruct_def opSelfdestruct6780_def
  by (rule acts_opI; (rule acts_selfdestruct acts_selfdestruct6780 act_intros | simp)+)+

subsection \<open>Gas functions\<close>

definition acts_gas :: "gasFunc \<Rightarrow> bool" where
  "acts_gas g \<longleftrightarrow> (\<forall>acc E cfg ms. acts acc E (g E cfg ms))"

lemma acts_gasI: "(\<And>acc E cfg ms. acts acc E (g E cfg ms)) \<Longrightarrow> acts_gas g"
  by (simp add: acts_gas_def)

lemma acts_gasD: "acts_gas g \<Longrightarrow> acts acc E (g E cfg ms)"
  by (simp add: acts_gas_def)

lemma acts_forward [act_intros]: "acts acc E (forward_gas cfg mg)"
proof -
  have tail: "acts acc E (\<lambda>f. case r of Inl e \<Rightarrow> Some (Inl e, f\<lparr>fr_evm := (fr_evm f)\<lparr>evm_callGasTemp := 0\<rparr>\<rparr>)
      | Inr g \<Rightarrow> vcheck (h g) (f\<lparr>fr_evm := (fr_evm f)\<lparr>evm_callGasTemp := g\<rparr>\<rparr>))" for r :: "vmerror + u64" and h
    by (auto simp: acts_def vcheck_def vm_run fr_db_def split: sum.splits if_splits)
  show ?thesis unfolding forward_gas_def by (rule act_intros tail)+
qed

lemma acts_access [act_intros]:
  "acts acc E (access_slot a k)" "acts acc E (access_address a)" "acts acc E (charge mg)" "acts acc E (give_back gas retain)" "acts acc E (gasExp n)"
  unfolding access_slot_def access_address_def charge_def give_back_def gasExp_def by (rule act_intros)+

lemma acts_gas_plain [act_rules]:
  "acts_gas (memoryCopierGas i)" "acts_gas gasKeccak256" "acts_gas pureMemoryGascost" "acts_gas gasCreate2"
  "acts_gas gasCreateEip3860" "acts_gas gasCreate2Eip3860" "acts_gas gasExpFrontier" "acts_gas gasExpEIP158" "acts_gas (makeGasLog n)"
  "acts_gas gasSStore" "acts_gas gasSStoreEIP2200" "acts_gas (makeGasSStoreFunc r)" "acts_gas gasSLoadEIP2929"
  "acts_gas gasExtCodeCopyEIP2929" "acts_gas gasEip2929AccountCheck" "acts_gas gasSelfdestruct" "acts_gas (makeSelfdestructGasFn b)"
  unfolding memoryCopierGas_def gasKeccak256_def pureMemoryGascost_def gasCreate2_def gasCreateEip3860_def
    gasCreate2Eip3860_def gasExpFrontier_def gasExpEIP158_def makeGasLog_def gasSStore_def gasSStoreEIP2200_def makeGasSStoreFunc_def
    gasSLoadEIP2929_def gasExtCodeCopyEIP2929_def gasEip2929AccountCheck_def gasSelfdestruct_def makeSelfdestructGasFn_def
  by (rule acts_gasI; (rule act_intros)+)+

lemma acts_gas_call [act_rules]: "acts_gas gasCall" "acts_gas gasCallCode" "acts_gas gasDelegateCall" "acts_gas gasStaticCall"
  unfolding gasCall_def gasCallCode_def gasDelegateCall_def gasStaticCall_def
  by (rule acts_gasI; (rule act_intros)+)+

lemma acts_gas_variants [act_rules]:
  "acts_gas g \<Longrightarrow> acts_gas (makeCallVariantGasCallEIP2929 g n)" "acts_gas g \<Longrightarrow> acts_gas (makeCallVariantGasCallEIP7702 g)"
  unfolding makeCallVariantGasCallEIP2929_def makeCallVariantGasCallEIP7702_def
  by (rule acts_gasI; (rule act_intros | erule acts_gasD)+)+

subsection \<open>Executing operations\<close>

definition xacts :: "bool \<Rightarrow> Env \<Rightarrow> 'a xvm \<Rightarrow> bool" where
  "xacts acc E m \<longleftrightarrow> (\<forall>f r f'. m f = Result (r, f') \<longrightarrow> performs acc E (fr_db f) (fr_db f'))"

definition eacts :: "bool \<Rightarrow> Env \<Rightarrow> (StateDB \<Rightarrow> bool) \<Rightarrow> 'a evm \<Rightarrow> bool" where
  "eacts acc E P m \<longleftrightarrow> (\<forall>e x e'. P (evm_StateDB e) \<longrightarrow> m e = Result (x, e') \<longrightarrow> performs acc E (evm_StateDB e) (evm_StateDB e'))"

abbreviation always :: "StateDB \<Rightarrow> bool" where
  "always \<equiv> \<lambda>_. True"

definition callees_act :: "bool \<Rightarrow> Env \<Rightarrow> Callees \<Rightarrow> bool" where
  "callees_act acc E cs \<longleftrightarrow>
     (\<forall>a b input gas v. eacts acc E always (c_Call cs a b input gas v)) \<and>
     (\<forall>a b input gas v. eacts acc E always (c_CallCode cs a b input gas v)) \<and>
     (\<forall>o' a b input gas v. eacts acc E always (c_DelegateCall cs o' a b input gas v)) \<and>
     (\<forall>a b input gas. eacts acc E always (c_StaticCall cs a b input gas)) \<and>
     (\<forall>a input gas v. eacts acc E always (c_Create cs a input gas v)) \<and>
     (\<forall>a input gas v salt. eacts acc E always (c_Create2 cs a input gas v salt))"

lemma callees_actD:
  assumes "callees_act acc E cs"
  shows "eacts acc E always (c_Call cs a b input gas v)" "eacts acc E always (c_CallCode cs a b input gas v)"
    "eacts acc E always (c_DelegateCall cs o' a b input gas v)" "eacts acc E always (c_StaticCall cs a b input gas)"
    "eacts acc E always (c_Create cs a input gas v)" "eacts acc E always (c_Create2 cs a input gas v salt)"
  using assms unfolding callees_act_def by simp_all

lemma xacts_bind: "xacts acc E m \<Longrightarrow> (\<And>x. xacts acc E (k x)) \<Longrightarrow> xacts acc E (xbind m k)"
  unfolding xacts_def xbind_def rbind_def
  by (force split: run.splits sum.splits intro: performs_trans)

lemma xacts_lift: "acts acc E m \<Longrightarrow> xacts acc E (lift_vm m)"
  by (auto simp: xacts_def acts_def lift_vm_def ropt_def split: option.splits)

lemma xacts_on_evm: "eacts acc E always c \<Longrightarrow> xacts acc E (on_evm c)"
  by (auto simp: xacts_def eacts_def on_evm_def rbind_def fr_db_def split: run.splits)

lemma xacts_cases:
  "(\<And>x y. xacts acc E (m1 x y)) \<Longrightarrow> xacts acc E (case p of (x, y) \<Rightarrow> m1 x y)" "(\<And>x. xacts acc E (m2 x)) \<Longrightarrow> xacts acc E (let x = u in m2 x)"
  by (simp_all split: prod.splits)

definition acts_exec :: "executor \<Rightarrow> bool" where
  "acts_exec ex \<longleftrightarrow> (\<forall>acc cs E cfg. callees_act acc E cs \<longrightarrow> xacts acc E (ex cs E cfg))"

lemma acts_simple [act_rules]: "acts_op op \<Longrightarrow> acts_exec (simple op)"
  by (simp add: acts_exec_def simple_def acts_op_def xacts_lift)

lemma acts_after: "acts acc E (after_call gas ro rs x)" "acts acc E (after_create gas sv y)"
  unfolding after_call_def after_create_def by (rule act_intros | simp)+

lemma acts_exec_calls [act_rules]:
  "acts_exec opCall" "acts_exec opCallCode" "acts_exec opDelegateCall" "acts_exec opStaticCall" "acts_exec opCreate" "acts_exec opCreate2"
  unfolding acts_exec_def opCall_def opCallCode_def opDelegateCall_def opStaticCall_def opCreate_def opCreate2_def call_args_def
  by (intro allI impI; (rule xacts_bind xacts_lift xacts_on_evm xacts_cases acts_after act_intros callees_actD | assumption)+)+

subsection \<open>Instruction tables\<close>

definition entry_acts :: "operation \<Rightarrow> bool" where
  "entry_acts op \<longleftrightarrow> acts_exec (op_execute op) \<and> (\<forall>g. op_dynamicGas op = Some g \<longrightarrow> acts_gas g)"

definition table_acts :: "JumpTable \<Rightarrow> bool" where
  "table_acts jt \<longleftrightarrow> (\<forall>k. entry_acts (jt k))"

lemma entry_acts_rules [simp]:
  "acts_exec ex \<Longrightarrow> entry_acts (instr ex c mn mx)" "entry_acts op \<Longrightarrow> acts_gas g \<Longrightarrow> entry_acts (with_gas g op)"
  "entry_acts op \<Longrightarrow> entry_acts (with_constant c op)" "entry_acts op \<Longrightarrow> entry_acts (with_memory m op)"
  by (simp_all add: entry_acts_def)

lemma table_acts_upd: "table_acts jt \<Longrightarrow> entry_acts op \<Longrightarrow> table_acts (jt(k := op))"
  by (simp add: table_acts_def)

lemma table_acts_change: "table_acts jt \<Longrightarrow> (\<And>op. entry_acts op \<Longrightarrow> entry_acts (h op)) \<Longrightarrow> table_acts (change k h jt)"
  by (simp add: table_acts_def change_def)

lemma frontier_lists_act:
  "list_all (\<lambda>(k, op). entry_acts op) (frontier_arithmetic @ frontier_environment @ frontier_storage)"
  "list_all (\<lambda>(k, op). entry_acts op) (frontier_push @ frontier_push_more @ frontier_dup_swap @ frontier_swap_more @ frontier_system)"
  by (simp_all add: frontier_arithmetic_def frontier_environment_def frontier_storage_def frontier_push_def frontier_push_more_def
      frontier_dup_swap_def frontier_swap_more_def frontier_system_def act_rules)

lemma table_acts_frontier: "table_acts newFrontierInstructionSet"
proof -
  have "entry_acts op" if "map_of (frontier_arithmetic @ frontier_environment @ frontier_storage @ frontier_push @
      frontier_push_more @ frontier_dup_swap @ frontier_swap_more @ frontier_system) k = Some op" for k op
    using map_of_SomeD [OF that] frontier_lists_act by (fastforce simp: list_all_iff)
  moreover have "entry_acts undefined_operation"
    by (simp add: entry_acts_def undefined_operation_def act_rules)
  ultimately show ?thesis unfolding table_acts_def newFrontierInstructionSet_def by (simp split: option.split del: map_of_append)
qed

lemma table_acts_enable:
  assumes "table_acts jt"
  shows "table_acts (enable1884 jt)" "table_acts (enable1344 jt)" "table_acts (enable2200 jt)" "table_acts (enable2929 jt)"
    "table_acts (enable3529 jt)" "table_acts (enable3198 jt)" "table_acts (enable1153 jt)" "table_acts (enable3855 jt)"
    "table_acts (enable3860 jt)" "table_acts (enable5656 jt)" "table_acts (enable4844 jt)" "table_acts (enable7939 jt)"
    "table_acts (enable7516 jt)" "table_acts (enable6780 jt)" "table_acts (enable7702 jt)"
  using assms
  by (simp_all add: enable1884_def enable1344_def enable2200_def enable2929_def enable3529_def enable3198_def enable1153_def
      enable3855_def enable3860_def enable5656_def enable4844_def enable7939_def enable7516_def enable6780_def
      enable7702_def table_acts_upd table_acts_change act_rules)

lemma table_acts_sets:
  "table_acts newHomesteadInstructionSet" "table_acts newTangerineWhistleInstructionSet" "table_acts newSpuriousDragonInstructionSet"
  "table_acts newByzantiumInstructionSet" "table_acts newConstantinopleInstructionSet" "table_acts newIstanbulInstructionSet"
  "table_acts newBerlinInstructionSet" "table_acts newLondonInstructionSet" "table_acts newMergeInstructionSet"
  "table_acts newShanghaiInstructionSet" "table_acts newCancunInstructionSet" "table_acts newPragueInstructionSet"
  "table_acts newOsakaInstructionSet"
  by (simp_all add: newHomesteadInstructionSet_def newTangerineWhistleInstructionSet_def newSpuriousDragonInstructionSet_def
      newByzantiumInstructionSet_def newConstantinopleInstructionSet_def newIstanbulInstructionSet_def newBerlinInstructionSet_def
      newLondonInstructionSet_def newMergeInstructionSet_def newShanghaiInstructionSet_def newCancunInstructionSet_def
      newPragueInstructionSet_def newOsakaInstructionSet_def table_acts_upd table_acts_change table_acts_enable
      table_acts_frontier act_rules)

lemma NewEVM_table_acts:
  assumes "NewEVM_table rules eips = Some jt"
  shows "table_acts jt"
proof -
  obtain jt0 where "table_acts jt0" and jt: "enable_extra eips jt0 = Some jt"
    using assms table_acts_frontier table_acts_sets by (auto simp: NewEVM_table_def instruction_set_def split: if_splits)
  moreover have "table_acts jt \<Longrightarrow> EnableEIP eip jt = Some (Some jt') \<Longrightarrow> table_acts jt'" for eip jt jt'
    using table_acts_enable [of jt] by (auto simp: EnableEIP_def activators_def split: if_splits)
  ultimately show ?thesis by (induction eips arbitrary: jt0) (auto split: option.splits)
qed

end
