(* ===== verification/VMRollback.thy ===== *)
theory VMRollback
imports VMEffects VMTermination
begin

text \<open>
  What calls, creations and executions do to the state database. Assertions about computations of
  the EVM, in the style of Hoare, follow a call from its entry over the snapshot and the transfer
  to its end; by induction on the fuel, every execution acts on the database by operations. With
  the flag \<open>acc\<close> set, the balances are accounted for as well.
\<close>

subsection \<open>Undoing what a call did\<close>

definition undone :: "Env \<Rightarrow> StateDB \<Rightarrow> StateDB \<Rightarrow> bool" where
  "undone E s s' \<longleftrightarrow>
     world E s' = world E s \<and> GetUnexpectedBalanceDelta s' = GetUnexpectedBalanceDelta s \<and>
     jr_entries (sdb_journal s') = jr_entries (sdb_journal s) \<and>
     jr_validRevisions (sdb_journal s') = jr_validRevisions (sdb_journal s)"

lemma undone_refl [simp]: "undone E s s"
  by (simp add: undone_def)

lemma undone_trans: "undone E s t \<Longrightarrow> undone E t u \<Longrightarrow> undone E s u"
  by (simp add: undone_def)

lemma performs_revert:
  assumes wf: "env_ok E" "tx_wf E s" and t: "performs acc E (snd (Snapshot s)) t"
  shows "\<exists>u. RevertToSnapshot E (fst (Snapshot s)) t = Some u \<and> performs acc E s u \<and> undone E s u"
proof -
  have "performs acc E s (snd (Snapshot s))" by simp
  from performsE [OF t wf(1) performsD(1) [OF this wf]] obtain ops where ops: "run E ops (snd (Snapshot s)) = Some t"
    "\<forall>i. OpRevertToSnapshot i \<in> set ops \<longrightarrow> jr_nextRevisionId (sdb_journal (snd (Snapshot s))) \<le> i" .
  have later: "fst (Snapshot s) < i" if "OpRevertToSnapshot i \<in> set ops" for i
    using ops(2) that by (fastforce simp: Snapshot_simps)
  have sdb: "sdb_wf E s" "code_reader_ok E" using wf by (simp_all add: tx_wf_def env_ok_def)
  from anchored_finish [OF anchored_run [OF anchored_start [OF sdb(1)] sdb(2) ops(1)]] later
  obtain u where u: "RevertToSnapshot E (fst (Snapshot s)) t = Some u" "undone E s u"
    by (auto simp: Snapshot_simps undone_def GetUnexpectedBalanceDelta_def)
  have "run E (OpSnapshot # ops @ [OpRevertToSnapshot (fst (Snapshot s))]) s = Some u"
    using ops(1) u(1) by (simp add: run_append)
  moreover have "jr_nextRevisionId (sdb_journal s) \<le> i"
    if "OpRevertToSnapshot i \<in> set (OpSnapshot # ops @ [OpRevertToSnapshot (fst (Snapshot s))])" for i
    using that later by (auto simp: Snapshot_simps(1) less_imp_le)
  moreover have "solvent E s u" using u(2) by (simp add: solvent_def undone_def total_supply_def)
  ultimately have "performs acc E s u" unfolding performs_def by blast
  with u show ?thesis by blast
qed

subsection \<open>Assertions about computations of the EVM\<close>

definition hoare :: "(StateDB \<Rightarrow> bool) \<Rightarrow> 'a evm \<Rightarrow> ('a \<Rightarrow> StateDB \<Rightarrow> bool) \<Rightarrow> bool" where
  "hoare P m Q \<longleftrightarrow> (\<forall>e x e'. P (evm_StateDB e) \<longrightarrow> m e = Result (x, e') \<longrightarrow> Q x (evm_StateDB e'))"

lemma hoareD: "hoare P m Q \<Longrightarrow> P (evm_StateDB e) \<Longrightarrow> m e = Result (x, e') \<Longrightarrow> Q x (evm_StateDB e')"
  unfolding hoare_def by blast

lemma ebind_ResultE:
  assumes "ebind m k e = Result (y, e')"
  obtains x e1 where "m e = Result (x, e1)" "k x e1 = Result (y, e')"
  using assms by (auto simp: ebind_def rbind_def split: run.splits)

lemma hoare_bind: "hoare P m Q \<Longrightarrow> (\<And>x. hoare (Q x) (k x) R) \<Longrightarrow> hoare P (ebind m k) R"
  unfolding hoare_def by (blast elim: ebind_ResultE)

lemma hoare_cases:
  "(b \<Longrightarrow> hoare P m Q) \<Longrightarrow> (\<not> b \<Longrightarrow> hoare P n Q) \<Longrightarrow> hoare P (if b then m else n) Q"
  "(\<And>x. hoare P (m3 x) Q) \<Longrightarrow> hoare P (let x = u in m3 x) Q"
  "(\<And>x y. hoare P (m4 x y) Q) \<Longrightarrow> hoare P (case p of (x, y) \<Rightarrow> m4 x y) Q"
  by (auto split: prod.splits)

lemma hoare_ret: "(\<And>s. P s \<Longrightarrow> Q x s) \<Longrightarrow> hoare P (eret x) Q"
  by (simp add: hoare_def eret_def)

lemma hoare_witness: "hoare P (k ()) Q \<Longrightarrow> hoare P (ebind (ewhen b witness_charge) k) Q"
  by (simp add: hoare_def ebind_def ewhen_def witness_charge_def eret_def rbind_def)

lemma hoare_get: "hoare P (eget g) (\<lambda>_. P)"
  by (simp add: hoare_def eget_def)

lemma eacts_db:
  "(\<And>s. P s \<Longrightarrow> performs acc E s (snd (op s))) \<Longrightarrow> eacts acc E P (edb op)"
  "(\<And>s. P s \<Longrightarrow> performs acc E s (op2 s)) \<Longrightarrow> eacts acc E P (edb_upd op2)"
  "(\<And>s s'. P s \<Longrightarrow> op3 s = Some s' \<Longrightarrow> performs acc E s s') \<Longrightarrow> eacts acc E P (edb_opt op3)"
  by (auto simp: eacts_def edb_def edb_upd_def edb_opt_def rbind_def ropt_def split: prod.splits option.splits run.splits)
    (metis snd_conv)

lemma eacts_basic: "eacts acc E P (eret x)" "eacts acc E P (eget g)" "eacts acc E P m \<Longrightarrow> eacts acc E P (ewhen b m)"
  by (simp_all add: eacts_def eret_def eget_def ewhen_def)

lemma eacts_weaken: "eacts acc E always m \<Longrightarrow> eacts acc E P m"
  by (simp add: eacts_def)

lemma eacts_bind: "eacts acc E P m \<Longrightarrow> (\<And>x. eacts acc E always (k x)) \<Longrightarrow> eacts acc E P (ebind m k)"
  unfolding eacts_def by (blast elim: ebind_ResultE intro: performs_trans)

lemma eacts_cases:
  "eacts acc E P m \<Longrightarrow> eacts acc E P n \<Longrightarrow> eacts acc E P (if b then m else n)"
  "(\<And>x y. eacts acc E P (m1 x y)) \<Longrightarrow> eacts acc E P (case p of (x, y) \<Rightarrow> m1 x y)"
  "(v = None \<Longrightarrow> eacts acc E P n2) \<Longrightarrow> (\<And>x. v = Some x \<Longrightarrow> eacts acc E P (m2 x)) \<Longrightarrow> eacts acc E P (case v of None \<Rightarrow> n2 | Some x \<Rightarrow> m2 x)"
  "(\<And>x. eacts acc E P (m3 x)) \<Longrightarrow> eacts acc E P (let x = u in m3 x)"
  by (auto split: prod.splits option.splits)

lemma eacts_ops:
  "eacts acc E P (edb (GetBalance E a))" "eacts acc E P (edb (GetCode E a))" "eacts acc E P (edb (GetCodeHash E a))" "eacts acc E P (edb (GetNonce E a))"
  "eacts acc E P (edb (GetStorageRoot E a))" "eacts acc E P (edb (Exist E a))" "eacts acc E P (edb (AddBalance E a 0))"
  "eacts acc E P (edb_upd (SetNonce E a n))" "eacts acc E P (edb_upd (AddAddressToAccessList a))"
  "eacts acc E P (edb_opt (CreateContract E a))" "eacts acc E P (edb Snapshot)"
  by (rule eacts_db; simp add: getters_load performs_opt)+

lemmas eacts_rules = eacts_bind eacts_basic eacts_cases eacts_ops

lemma eacts_transfers:
  "eacts acc E P (CanTransfer E a v)" "eacts acc E P (resolveCode E cfg a)" "eacts acc E P (resolveCodeHash E cfg a)"
  unfolding CanTransfer_def resolveCode_def resolveCodeHash_def by (rule eacts_rules)+

subsection \<open>The code that a call runs\<close>

text \<open>The code behind interfaces acts on the database by operations as well.\<close>

definition hooks_act :: "bool \<Rightarrow> Env \<Rightarrow> EvmCfg \<Rightarrow> bool" where
  "hooks_act acc E cfg \<longleftrightarrow>
     (\<forall>input f r f'. hook_ExecuteWASM cfg input f = Some (r, f') \<longrightarrow> performs acc E (fr_db f) (fr_db f')) \<and>
     (\<forall>a pc input gas info e r e'. precompile cfg a = Some (AdvancedPrecompile pc) \<longrightarrow>
        pc input gas info e = Some (r, e') \<longrightarrow> performs acc E (evm_StateDB e) (evm_StateDB e'))"

definition runner_acts :: "bool \<Rightarrow> Env \<Rightarrow> runner \<Rightarrow> bool" where
  "runner_acts acc E rn \<longleftrightarrow> (\<forall>c input ro. eacts acc E always (rn c input ro))"

lemma eacts_precompile:
  assumes "hooks_act acc E cfg" "precompile cfg a = Some p"
  shows "eacts acc E P (run_precompile cfg p input gas info)"
proof -
  have "eacts acc E P (RunPrecompiledContract cfg p input gas info)"
  proof (cases p)
    case (PlainPrecompile required pc)
    then show ?thesis by (auto simp: RunPrecompiledContract_def Let_def intro!: eacts_basic split: prod.splits)
  next
    case (AdvancedPrecompile pc)
    have "performs acc E (evm_StateDB e) (evm_StateDB e')" if "pc input gas info e = Some (r, e')" for e r e'
      using assms AdvancedPrecompile that unfolding hooks_act_def by blast
    then show ?thesis unfolding AdvancedPrecompile
      by (auto simp: RunPrecompiledContract_def eacts_def ropt_def split: option.splits)
  qed
  then show ?thesis unfolding run_precompile_def by (rule eacts_bind) (rule eacts_rules)+
qed

lemma eacts_contract:
  assumes "runner_acts acc E rn"
  shows "eacts acc E P (run_contract rn c input ro)"
  unfolding run_contract_def
  by (rule eacts_bind [OF eacts_weaken]) (use assms in \<open>simp add: runner_acts_def\<close>, (rule eacts_rules)+)

lemma eacts_code_of:
  assumes "hooks_act acc E cfg" "runner_acts acc E rn"
  shows "eacts acc E P (run_code_of rn E cfg addr c info input ro)"
  unfolding run_code_of_def
  by (rule eacts_rules eacts_precompile [OF assms(1)] eacts_contract [OF assms(2)] eacts_transfers | assumption)+

subsection \<open>Calls\<close>

text \<open>
  Between the entry of a call and its snapshot only reading happens (\<open>reading\<close>); from the snapshot
  on, the call is \<open>inside\<close>, with the code of the accounts in \<open>L\<close> known; at its end, an error means that nothing has happened (\<open>outcome\<close>).
\<close>

definition reading :: "bool \<Rightarrow> Env \<Rightarrow> StateDB \<Rightarrow> StateDB \<Rightarrow> bool" where
  "reading acc E s0 s \<longleftrightarrow> tx_wf E s \<and> performs acc E s0 s \<and> undone E s0 s"

definition inside :: "bool \<Rightarrow> Env \<Rightarrow> address set \<Rightarrow> StateDB \<Rightarrow> StateDB \<Rightarrow> bool" where
  "inside acc E L s0 s \<longleftrightarrow> tx_wf E s0 \<and> performs acc E (snd (Snapshot s0)) s \<and> (\<forall>a \<in> L. code_loaded E a s)"

lemma inside_wf: "env_ok E \<Longrightarrow> inside acc E L s0 s \<Longrightarrow> tx_wf E s"
  unfolding inside_def using performsD(1) [of acc E] performs_simps(12) [of acc E s0] by blast

lemma inside_performs:
  assumes "env_ok E" "inside acc E L s0 s" "performs acc E s s'"
  shows "inside acc E L s0 s'"
  using assms(2) performsD(2) [OF assms(3,1) inside_wf [OF assms(1,2)]] performs_trans [OF _ assms(3)]
  unfolding inside_def tidy_def by blast

text \<open>Before the transfer, the caller is known to own the value.\<close>

definition calling :: "bool \<Rightarrow> Env \<Rightarrow> address set \<Rightarrow> address \<Rightarrow> u256 \<Rightarrow> StateDB \<Rightarrow> StateDB \<Rightarrow> bool" where
  "calling acc E L c v s0 s \<longleftrightarrow> inside acc E L s0 s \<and> uint v \<le> bal E s c"

lemma neutral_step:
  assumes "env_ok E" "tx_wf E s" "op_ok E op s" "exec E op s = Some s'" "neutral op"
  shows "performs acc E s s'" "bal E s' = bal E s"
proof -
  have "op \<noteq> OpRevertToSnapshot i" for i using assms(5) by auto
  with assms show "performs acc E s s'" by (intro performs_op)
  have "objs_ok E s" "world_ok (world E s)" "code_reader_ok E" using assms by (simp_all add: tx_wf_def sdb_wf_def env_ok_def)
  with assms neutral_books show "bal E s' = bal E s" unfolding same_books_def by blast
qed

lemma calling_step:
  assumes "env_ok E" "calling acc E L c v s0 s" "op_ok E op s" "exec E op s = Some s'" "neutral op"
  shows "calling acc E L c v s0 s'"
proof -
  have i: "inside acc E L s0 s" using assms(2) by (simp add: calling_def)
  note n = neutral_step [OF assms(1) inside_wf [OF assms(1) i] assms(3-5)]
  from inside_performs [OF assms(1) i n(1)] n(2) assms(2) show ?thesis by (simp add: calling_def)
qed

definition outcome :: "bool \<Rightarrow> Env \<Rightarrow> StateDB \<Rightarrow> call_result \<Rightarrow> StateDB \<Rightarrow> bool" where
  "outcome acc E s0 = (\<lambda>(ret, gas, used, err) s. performs acc E s0 s \<and> (err \<noteq> None \<longrightarrow> undone E s0 s))"

lemma hoare_CanTransfer:
  assumes "env_ok E"
  shows "hoare (reading acc E s0) (CanTransfer E a v) (\<lambda>_. reading acc E s0)"
  unfolding hoare_def
proof (intro allI impI)
  fix e x e'
  assume r: "reading acc E s0 (evm_StateDB e)" and c: "CanTransfer E a v e = Result (x, e')"
  then have e': "evm_StateDB e' = snd (GetBalance E a (evm_StateDB e))"
    by (auto simp: CanTransfer_def ebind_def edb_def eret_def rbind_def split: prod.splits)
  then have p: "performs acc E (evm_StateDB e) (evm_StateDB e')" by simp
  have wf: "tx_wf E (evm_StateDB e)" using r by (simp add: reading_def)
  then have "quiet E (evm_StateDB e) (evm_StateDB e')"
    using field_getters(1) [of E "evm_StateDB e" a] e' by (simp add: tx_wf_def sdb_wf_def)
  then have "undone E (evm_StateDB e) (evm_StateDB e')" by (simp add: undone_def quiet_def GetUnexpectedBalanceDelta_def)
  with r p performsD(1) [OF p assms wf] show "reading acc E s0 (evm_StateDB e')"
    unfolding reading_def by (blast intro: performs_trans undone_trans)
qed

lemma hoare_Snapshot:
  assumes "\<And>s. hoare (inside acc E {} s) (k (fst (Snapshot s))) (outcome acc E s)"
  shows "hoare (reading acc E s0) (ebind (edb Snapshot) k) (outcome acc E s0)"
  unfolding hoare_def
proof (intro allI impI)
  fix e x e'
  assume r: "reading acc E s0 (evm_StateDB e)" and c: "ebind (edb Snapshot) k e = Result (x, e')"
  let ?s = "evm_StateDB e"
  obtain e1 where k: "k (fst (Snapshot ?s)) e1 = Result (x, e')" and e1: "evm_StateDB e1 = snd (Snapshot ?s)"
    using c by (auto simp: ebind_def edb_def rbind_def split: prod.splits)
  have "inside acc E {} ?s (evm_StateDB e1)" using r by (simp add: inside_def reading_def e1)
  from hoareD [OF assms this k] r show "outcome acc E s0 x (evm_StateDB e')"
    unfolding outcome_def reading_def by (auto intro: performs_trans undone_trans)
qed

lemma hoare_Snapshot_call:
  assumes "\<And>s. hoare (calling acc E {} c v s) (k (fst (Snapshot s))) (outcome acc E s)"
  shows "hoare (\<lambda>s. reading acc E s0 s \<and> uint v \<le> bal E s c) (ebind (edb Snapshot) k) (outcome acc E s0)"
  unfolding hoare_def
proof (intro allI impI, elim conjE)
  fix e x e'
  assume r: "reading acc E s0 (evm_StateDB e)" and v: "uint v \<le> bal E (evm_StateDB e) c"
    and k: "ebind (edb Snapshot) k e = Result (x, e')"
  let ?s = "evm_StateDB e"
  obtain e1 where k: "k (fst (Snapshot ?s)) e1 = Result (x, e')" and e1: "evm_StateDB e1 = snd (Snapshot ?s)"
    using k by (auto simp: ebind_def edb_def rbind_def split: prod.splits)
  have "calling acc E {} c v ?s (evm_StateDB e1)"
    using r v by (simp add: calling_def inside_def reading_def e1 bal_def Snapshot_simps(2))
  from hoareD [OF assms this k] r show "outcome acc E s0 x (evm_StateDB e')"
    unfolding outcome_def reading_def by (auto intro: performs_trans undone_trans)
qed

lemma hoare_inside: "env_ok E \<Longrightarrow> eacts acc E (inside acc E L s0) m \<Longrightarrow> hoare (inside acc E L s0) m (\<lambda>_. inside acc E L s0)"
  unfolding hoare_def eacts_def by (blast intro: inside_performs)

lemma outcome_done: "inside acc E L s0 s \<Longrightarrow> outcome acc E s0 (ret, gas, used, None) s"
  using performs_trans [of acc E s0 "snd (Snapshot s0)" s] by (simp add: outcome_def inside_def)

lemma hoare_settle:
  assumes "env_ok E"
  shows "hoare (inside acc E L s0) (settle E (fst (Snapshot s0)) r) (outcome acc E s0)"
proof -
  obtain ret gas used err where r: "r = (ret, gas, used, err)" by (cases r)
  have "hoare (inside acc E L s0) (edb_opt (RevertToSnapshot E (fst (Snapshot s0)))) (\<lambda>_ s. performs acc E s0 s \<and> undone E s0 s)"
    unfolding hoare_def
  proof (intro allI impI)
    fix e x e'
    assume i: "inside acc E L s0 (evm_StateDB e)" and "edb_opt (RevertToSnapshot E (fst (Snapshot s0))) e = Result (x, e')"
    then have "RevertToSnapshot E (fst (Snapshot s0)) (evm_StateDB e) = Some (evm_StateDB e')"
      by (auto simp: edb_opt_def rbind_def ropt_def split: run.splits option.splits)
    with performs_revert [OF assms, where s = s0 and t = "evm_StateDB e"] i
    show "performs acc E s0 (evm_StateDB e') \<and> undone E s0 (evm_StateDB e')" by (auto simp: inside_def)
  qed
  then show ?thesis unfolding settle_def r prod.case
    by (intro hoare_cases hoare_ret hoare_bind) (auto simp: outcome_done, auto simp: outcome_def)
qed

text \<open>An account is created only after it has been found missing.\<close>

lemma hoare_Exist:
  assumes "env_ok E" "\<And>x. hoare (\<lambda>s. calling acc E L c v s0 s \<and> (\<not> x \<longrightarrow> live_object E s a = None)) (k x) Q"
  shows "hoare (calling acc E L c v s0) (ebind (edb (Exist E a)) k) Q"
  unfolding hoare_def
proof (intro allI impI)
  fix e y e'
  assume i: "calling acc E L c v s0 (evm_StateDB e)" and k: "ebind (edb (Exist E a)) k e = Result (y, e')"
  let ?s = "evm_StateDB e"
  obtain e1 where k: "k (fst (Exist E a ?s)) e1 = Result (y, e')" and e1: "evm_StateDB e1 = snd (Exist E a ?s)"
    using k by (auto simp: ebind_def edb_def rbind_def split: prod.splits)
  have "calling acc E L c v s0 (evm_StateDB e1)"
    unfolding e1 getters_load by (rule calling_step [OF assms(1) i, where op = "OpGetBalance a"]) simp_all
  moreover have "\<not> fst (Exist E a ?s) \<longrightarrow> live_object E (evm_StateDB e1) a = None"
    unfolding e1 by (auto simp: Exist_def split: prod.splits) (metis tidy_get(2,3) fun_cong)
  ultimately show "Q y (evm_StateDB e')" using hoareD [OF assms(2) _ k] by blast
qed

lemma hoare_created:
  assumes "env_ok E" "\<And>x. hoare (calling acc E L c v s0) (k x) Q"
  shows "hoare (\<lambda>s. calling acc E L c v s0 s \<and> (\<not> x \<longrightarrow> live_object E s a = None)) (ebind (ewhen (\<not> x) (edb_upd (CreateAccount E a))) k) Q"
proof (rule hoare_bind [OF _ assms(2)])
  have "calling acc E L c v s0 (CreateAccount E a s)" if "calling acc E L c v s0 s" "live_object E s a = None" for s
    by (rule calling_step [OF assms(1) that(1), where op = "OpCreateAccount a"]) (simp_all add: that(2))
  then show "hoare (\<lambda>s. calling acc E L c v s0 s \<and> (\<not> x \<longrightarrow> live_object E s a = None))
      (ewhen (\<not> x) (edb_upd (CreateAccount E a))) (\<lambda>_. calling acc E L c v s0)"
    by (auto simp: hoare_def ewhen_def eret_def edb_upd_def)
qed

lemma hoare_bind_calling:
  assumes "env_ok E" "\<And>x. hoare (calling acc E L c v s0) (k x) Q"
  shows "hoare (calling acc E L c v s0) (ebind (edb_opt (CreateContract E a)) k) Q"
    "hoare (calling acc E L c v s0) (ebind (ewhen b (edb_upd (SetNonce E a n))) k) Q"
proof -
  have "calling acc E L c v s0 s'" if "calling acc E L c v s0 s" "CreateContract E a s = Some s'" for s s'
    by (rule calling_step [OF assms(1) that(1), where op = "OpCreateContract a"]) (simp_all add: that(2))
  then show "hoare (calling acc E L c v s0) (ebind (edb_opt (CreateContract E a)) k) Q"
    by (intro hoare_bind [OF _ assms(2)])
      (auto simp: hoare_def edb_opt_def rbind_def ropt_def split: run.splits option.splits)
  have "calling acc E L c v s0 (SetNonce E a n s)" if "calling acc E L c v s0 s" for s
    by (rule calling_step [OF assms(1) that(1), where op = "OpSetNonce a n"]) simp_all
  then show "hoare (calling acc E L c v s0) (ebind (ewhen b (edb_upd (SetNonce E a n))) k) Q"
    by (intro hoare_bind [OF _ assms(2)]) (auto simp: hoare_def ewhen_def eret_def edb_upd_def)
qed

lemma hoare_Transfer:
  assumes "env_ok E" "\<And>x. hoare (inside acc E L s0) (k x) Q"
  shows "hoare (calling acc E L c v s0) (ebind (Transfer E c a v) k) Q"
proof (rule hoare_bind [OF _ assms(2)])
  have "inside acc E L s0 (snd (AddBalance E a v (snd (SubBalance E c v s))))" if "calling acc E L c v s0 s" for s
    using inside_performs [OF assms(1) _ performs_transfer] that by (simp add: calling_def)
  then show "hoare (calling acc E L c v s0) (Transfer E c a v) (\<lambda>_. inside acc E L s0)"
    by (auto simp: hoare_def Transfer_def ebind_def edb_def eret_def rbind_def split: prod.splits) (metis snd_conv)
qed

lemma hoare_bind_inside:
  assumes "env_ok E" "eacts acc E (inside acc E L s0) m" "\<And>x. hoare (inside acc E L s0) (k x) Q"
  shows "hoare (inside acc E L s0) (ebind m k) Q"
  by (rule hoare_bind [OF hoare_inside [OF assms(1,2)] assms(3)])

lemma hoare_read:
  assumes "\<And>x. hoare (reading acc E s0) (k x) Q"
  shows "hoare (reading acc E s0) (ebind (eget g) k) Q"
  by (rule hoare_bind [OF hoare_get assms])

lemma hoare_can:
  assumes "env_ok E" "\<And>x. hoare (reading acc E s0) (k x) Q"
  shows "hoare (reading acc E s0) (ebind (CanTransfer E a v) k) Q"
  by (rule hoare_bind [OF hoare_CanTransfer [OF assms(1)] assms(2)])

lemma CanTransfer_funded:
  assumes "tx_wf E (evm_StateDB e)" "CanTransfer E a v e = Result (x, e')"
  shows "x \<longleftrightarrow> uint v \<le> bal E (evm_StateDB e') a"
proof -
  have ok: "objs_ok E (evm_StateDB e)" using assms(1) by (simp add: tx_wf_def sdb_wf_def)
  have "x \<longleftrightarrow> v \<le> fst (GetBalance E a (evm_StateDB e))" "evm_StateDB e' = snd (GetBalance E a (evm_StateDB e))"
    using assms(2) by (auto simp: CanTransfer_def ebind_def edb_def eret_def rbind_def split: prod.splits)
  with GetBalance_bal [OF ok, of a] field_getters(1) [OF ok, of a] quiet_books show ?thesis
    by (auto simp: word_le_def same_books_def)
qed

lemma hoare_pay:
  assumes "env_ok E" "hoare (reading acc E s0) (eret r) Q" "hoare (\<lambda>s. reading acc E s0 s \<and> uint v \<le> bal E s a) m Q"
  shows "hoare (reading acc E s0) (ebind (if v \<noteq> 0 then CanTransfer E a v else eret True) (\<lambda>can. if \<not> can then eret r else m)) Q"
proof (rule hoare_bind)
  show "hoare (reading acc E s0) (if v \<noteq> 0 then CanTransfer E a v else eret True)
      (\<lambda>can s. reading acc E s0 s \<and> (can \<longrightarrow> uint v \<le> bal E s a))"
  proof (cases "v = 0")
    case True
    then show ?thesis by (simp add: hoare_ret)
  next
    case False
    have "reading acc E s0 (evm_StateDB e') \<and> (can \<longrightarrow> uint v \<le> bal E (evm_StateDB e') a)"
      if r: "reading acc E s0 (evm_StateDB e)" and c: "CanTransfer E a v e = Result (can, e')" for e can e'
    proof -
      have "tx_wf E (evm_StateDB e)" using r by (simp add: reading_def)
      with hoareD [OF hoare_CanTransfer [OF assms(1)] r c] CanTransfer_funded [OF _ c] show ?thesis by blast
    qed
    with False show ?thesis unfolding hoare_def by simp
  qed
  show "hoare (\<lambda>s. reading acc E s0 s \<and> (can \<longrightarrow> uint v \<le> bal E s a)) (if \<not> can then eret r else m) Q" for can
    using assms(2,3) by (cases can) (simp_all add: hoare_def)
qed

lemma hoare_refused: "hoare (reading acc E s0) (eret r) (outcome acc E s0)"
  by (rule hoare_ret) (auto simp: reading_def outcome_def)

lemma hoare_empty: "hoare (\<lambda>s. calling acc E L c v s0 s \<and> R s) (eret (ret, gas, used, None)) (outcome acc E s0)"
  by (rule hoare_ret) (auto simp: calling_def intro: outcome_done)

lemma evm_Call_outcome:
  assumes "env_ok E" "hooks_act acc E cfg" "runner_acts acc E rn"
  shows "hoare (reading acc E s0) (evm_Call rn E cfg caller addr input gas v) (outcome acc E s0)"
proof -
  have body: "eacts acc E P (case precompile cfg addr of
      Some p \<Rightarrow> run_precompile cfg p input gas info
    | None \<Rightarrow> ebind (resolveCode E cfg addr) (\<lambda>code. if code = [] then eret ([], gas, ZeroGas, None)
        else ebind (resolveCodeHash E cfg addr) (\<lambda>h. run_contract rn (c h code) input False)))" for info c P
    by (rule eacts_rules eacts_precompile [OF assms(2)] eacts_contract [OF assms(3)] eacts_transfers | assumption)+
  show ?thesis unfolding evm_Call_def Let_def
    by (rule hoare_witness hoare_read hoare_pay [OF assms(1)] hoare_Snapshot_call hoare_Exist [OF assms(1)] hoare_created [OF assms(1)]
        hoare_refused hoare_empty hoare_bind [OF hoare_inside [OF assms(1) body] hoare_settle [OF assms(1)]]
        hoare_Transfer [OF assms(1)] hoare_cases)+
qed

lemma evm_other_calls_outcome:
  assumes "env_ok E" "hooks_act acc E cfg" "runner_acts acc E rn"
  shows "hoare (reading acc E s0) (evm_CallCode rn E cfg caller addr input gas v) (outcome acc E s0)"
    "hoare (reading acc E s0) (evm_DelegateCall rn E cfg o' caller addr input gas v) (outcome acc E s0)"
    "hoare (reading acc E s0) (evm_StaticCall rn E cfg caller addr input gas) (outcome acc E s0)"
  unfolding evm_CallCode_def evm_DelegateCall_def evm_StaticCall_def
  by (rule hoare_read hoare_can [OF assms(1)] hoare_Snapshot hoare_refused
      hoare_bind [OF hoare_inside [OF assms(1) eacts_code_of [OF assms(2,3)]] hoare_settle [OF assms(1)]]
      hoare_bind_inside [OF assms(1) eacts_ops(7)] hoare_cases)+

subsection \<open>Creations\<close>

text \<open>
  A creation that fails has still increased the nonce of its creator and warmed the address, as the
  comments in the code say. Everything else is as before.
\<close>

definition spared :: "Env \<Rightarrow> address \<Rightarrow> StateDB \<Rightarrow> StateDB \<Rightarrow> bool" where
  "spared E c s s' \<longleftrightarrow>
     (\<forall>b. b \<noteq> c \<longrightarrow> as_acct (world E s') b = as_acct (world E s) b) \<and>
     (acct_or_new E (world E s') c)\<lparr>v_nonce := 0\<rparr> = (acct_or_new E (world E s) c)\<lparr>v_nonce := 0\<rparr> \<and>
     sdb_logs s' = sdb_logs s \<and> sdb_refund s' = sdb_refund s \<and> sdb_transientStorage s' = sdb_transientStorage s \<and>
     arb_activatedWasms (arbExtraData s') = arb_activatedWasms (arbExtraData s) \<and>
     GetUnexpectedBalanceDelta s' = GetUnexpectedBalanceDelta s"

lemma spared_refl: "spared E c s s"
  by (simp add: spared_def)

lemma spared_trans: "spared E c s t \<Longrightarrow> spared E c t u \<Longrightarrow> spared E c s u"
  by (simp add: spared_def)

lemma spared_world:
  assumes "world E s' = world E s" "GetUnexpectedBalanceDelta s' = GetUnexpectedBalanceDelta s"
  shows "spared E c s s'"
proof -
  have "as_logs (world E s') = as_logs (world E s)" "as_refund (world E s') = as_refund (world E s)"
    "as_transient (world E s') = as_transient (world E s)" "as_activated (world E s') = as_activated (world E s)"
    using assms(1) by simp_all
  then have "sdb_logs s' = sdb_logs s" "sdb_refund s' = sdb_refund s" "sdb_transientStorage s' = sdb_transientStorage s"
    "arb_activatedWasms (arbExtraData s') = arb_activatedWasms (arbExtraData s)" by (simp_all only: abs_sel)
  with assms show ?thesis by (simp only: spared_def simp_thms)
qed

lemma spared_quiet: "quiet E s s' \<Longrightarrow> spared E c s s'"
  by (rule spared_world) (simp_all add: quiet_def GetUnexpectedBalanceDelta_def)

lemma spared_undone: "undone E s s' \<Longrightarrow> spared E c s s'"
  by (rule spared_world) (simp_all add: undone_def)

lemma spared_ops:
  assumes "tx_wf E s"
  shows "spared E c s (SetNonce E c n s)" "spared E c s (AddAddressToAccessList a s)" "spared E c s (snd (GetBalance E a s))"
proof -
  have ok: "objs_ok E s" "world_ok (world E s)" using assms by (simp_all add: tx_wf_def sdb_wf_def)
  have fields: "sdb_logs t = sdb_logs s \<and> sdb_refund t = sdb_refund s \<and> sdb_transientStorage t = sdb_transientStorage s"
    if "as_logs (world E t) = as_logs (world E s)" "as_refund (world E t) = as_refund (world E s)"
      "as_transient (world E t) = as_transient (world E s)" for t
    using that by (simp only: abs_sel simp_thms)
  show "spared E c s (SetNonce E c n s)"
    unfolding spared_def GetUnexpectedBalanceDelta_def SetNonce_logged(3) [OF ok(1)]
    using fields [of "SetNonce E c n s"] unfolding SetNonce_logged(2) [OF ok(1)] acct_put_def
    by (simp add: acct_or_new_def split: option.splits)
  show "spared E c s (AddAddressToAccessList a s)"
    unfolding spared_def GetUnexpectedBalanceDelta_def AddAddressToAccessList_refines(4) [OF ok]
    using fields [of "AddAddressToAccessList a s"] unfolding AddAddressToAccessList_refines(2) [OF ok]
    by (simp add: acct_or_new_def split: option.splits)
  show "spared E c s (snd (GetBalance E a s))"
    using field_getters(1) [OF ok(1), of a] by (simp add: spared_quiet)
qed

definition creating :: "bool \<Rightarrow> Env \<Rightarrow> address \<Rightarrow> u256 \<Rightarrow> bool \<Rightarrow> address \<Rightarrow> StateDB \<Rightarrow> StateDB \<Rightarrow> bool" where
  "creating acc E c v b a s0 s \<longleftrightarrow> tx_wf E s \<and> performs acc E s0 s \<and> spared E c s0 s \<and> (b \<longrightarrow> code_loaded E a s) \<and> uint v \<le> bal E s c"

lemma spared_bal:
  assumes "spared E c s s'"
  shows "bal E s' c = bal E s c"
proof -
  have "(acct_or_new E (world E s') c)\<lparr>v_nonce := 0\<rparr> = (acct_or_new E (world E s) c)\<lparr>v_nonce := 0\<rparr>"
    using assms by (simp add: spared_def)
  from arg_cong [where f = v_balance, OF this] show ?thesis by (simp add: bal_or_new)
qed

lemma creating_step:
  assumes "env_ok E" "creating acc E c v b a s0 s" "performs acc E s s'" "spared E c s s'"
  shows "creating acc E c v b a s0 s'"
proof -
  have "tx_wf E s" using assms(2) by (simp add: creating_def)
  note d = performsD [OF assms(3,1) this]
  have "performs acc E s0 s'" "spared E c s0 s'"
    using assms(2-4) unfolding creating_def by (blast intro: performs_trans spared_trans)+
  with assms(2) d(1,2) spared_bal [OF assms(4)] show ?thesis by (simp add: creating_def tidy_def)
qed

lemma hoare_creating:
  assumes "env_ok E"
  shows "hoare (creating acc E c v b a s0) (eget g) (\<lambda>_. creating acc E c v b a s0)"
    "hoare (creating acc E c v b a s0) (edb (GetNonce E a2)) (\<lambda>_. creating acc E c v b a s0)"
    "hoare (creating acc E c v b a s0) (edb (GetStorageRoot E a3)) (\<lambda>_. creating acc E c v b a s0)"
    "hoare (creating acc E c v b a s0) (edb_upd (SetNonce E c n)) (\<lambda>_. creating acc E c v b a s0)"
    "hoare (creating acc E c v b a s0) (ewhen b' (edb_upd (AddAddressToAccessList a4))) (\<lambda>_. creating acc E c v b a s0)"
proof -
  have wf: "creating acc E c v b a s0 s \<Longrightarrow> tx_wf E s" for s by (simp add: creating_def)
  have get: "creating acc E c v b a s0 (snd (GetBalance E a' s))" if "creating acc E c v b a s0 s" for a' s
    using creating_step [OF assms that] spared_ops(3) [OF wf [OF that]] by simp
  show "hoare (creating acc E c v b a s0) (eget g) (\<lambda>_. creating acc E c v b a s0)" by (rule hoare_get)
  show "hoare (creating acc E c v b a s0) (edb (GetNonce E a2)) (\<lambda>_. creating acc E c v b a s0)"
    "hoare (creating acc E c v b a s0) (edb (GetStorageRoot E a3)) (\<lambda>_. creating acc E c v b a s0)"
    using get [of _ a2] get [of _ a3] getters_load(1) [of E a2] getters_load(3) [of E a3]
    by (auto simp: hoare_def edb_def split: prod.splits) (metis snd_conv)+
  show "hoare (creating acc E c v b a s0) (edb_upd (SetNonce E c n)) (\<lambda>_. creating acc E c v b a s0)"
    using creating_step [OF assms] spared_ops(1) [OF wf] by (auto simp: hoare_def edb_upd_def)
  show "hoare (creating acc E c v b a s0) (ewhen b' (edb_upd (AddAddressToAccessList a4))) (\<lambda>_. creating acc E c v b a s0)"
    using creating_step [OF assms] spared_ops(2) [OF wf] by (auto simp: hoare_def edb_upd_def ewhen_def eret_def)
qed

lemma hoare_pay_create:
  assumes "env_ok E" "hoare (creating acc E c 0 b a s0) (eret r) Q" "hoare (creating acc E c v b a s0) m Q"
  shows "hoare (creating acc E c 0 b a s0) (ebind (CanTransfer E c v) (\<lambda>can. if \<not> can then eret r else m)) Q"
  unfolding hoare_def
proof (intro allI impI)
  fix e x e'
  assume i: "creating acc E c 0 b a s0 (evm_StateDB e)"
    and "ebind (CanTransfer E c v) (\<lambda>can. if \<not> can then eret r else m) e = Result (x, e')"
  then obtain can e1 where can: "CanTransfer E c v e = Result (can, e1)" and k: "(if \<not> can then eret r else m) e1 = Result (x, e')"
    by (elim ebind_ResultE)
  have wf: "tx_wf E (evm_StateDB e)" using i by (simp add: creating_def)
  have "evm_StateDB e1 = snd (GetBalance E c (evm_StateDB e))"
    using can by (auto simp: CanTransfer_def ebind_def edb_def eret_def rbind_def split: prod.splits)
  with creating_step [OF assms(1) i] spared_ops(3) [OF wf] have "creating acc E c 0 b a s0 (evm_StateDB e1)" by simp
  moreover from this CanTransfer_funded [OF wf can] have "can \<Longrightarrow> creating acc E c v b a s0 (evm_StateDB e1)"
    by (simp add: creating_def)
  ultimately show "Q x (evm_StateDB e')" using k hoareD [OF assms(2)] hoareD [OF assms(3)] by (cases can) auto
qed

lemma hoare_GetCodeHash:
  assumes "env_ok E"
  shows "hoare (creating acc E c v False a s0) (edb (GetCodeHash E a)) (\<lambda>h. creating acc E c v (h = 0 \<or> h = EmptyCodeHash E) a s0)"
  unfolding hoare_def
proof (intro allI impI)
  fix e h e'
  assume c: "creating acc E c v False a s0 (evm_StateDB e)" and g: "edb (GetCodeHash E a) e = Result (h, e')"
  let ?s = "evm_StateDB e" and ?s' = "evm_StateDB e'"
  have h: "h = fst (GetCodeHash E a ?s)" "?s' = snd (GetCodeHash E a ?s)"
    using g by (auto simp: edb_def split: prod.splits)
  then have s': "?s' = snd (GetBalance E a ?s)" by (simp add: getters_load)
  have wf: "tx_wf E ?s" using c by (simp add: creating_def)
  have st: "creating acc E c v False a s0 ?s'"
    using creating_step [OF assms c] spared_ops(3) [OF wf] unfolding s' by simp
  obtain t x where t: "getStateObject E a ?s = (t, x)" by (cases "getStateObject E a ?s")
  have "x = live_object E ?s' a" "h = (case x of Some obj \<Rightarrow> CodeHash (so_data obj) | None \<Rightarrow> 0)"
    using h t tidy_get [OF t] by (simp_all add: GetCodeHash_def)
  moreover have "codes_sound E ?s'" using st by (simp add: creating_def tx_wf_def)
  ultimately have "code_loaded E a ?s'" if "h = 0 \<or> h = EmptyCodeHash E"
    using that by (auto simp: code_loaded_def codes_sound_def split: option.splits)
  with st show "creating acc E c v (h = 0 \<or> h = EmptyCodeHash E) a s0 ?s'" by (simp add: creating_def)
qed

definition created :: "bool \<Rightarrow> Env \<Rightarrow> EvmCfg \<Rightarrow> address \<Rightarrow> StateDB \<Rightarrow> create_result \<Rightarrow> StateDB \<Rightarrow> bool" where
  "created acc E cfg c s0 = (\<lambda>(ret, addr, gas, used, err) s. performs acc E s0 s \<and>
     (err \<noteq> None \<and> (IsHomestead (chainRules cfg) \<or> err \<noteq> Some ErrCodeStoreOutOfGas) \<longrightarrow> spared E c s0 s))"

lemma hoare_Snapshot_create:
  assumes "env_ok E" "\<And>s. hoare (calling acc E {a} c v s) (k (fst (Snapshot s))) (created acc E cfg c s)"
  shows "hoare (creating acc E c v True a s0) (ebind (edb Snapshot) k) (created acc E cfg c s0)"
  unfolding hoare_def
proof (intro allI impI)
  fix e x e'
  assume r: "creating acc E c v True a s0 (evm_StateDB e)" and k: "ebind (edb Snapshot) k e = Result (x, e')"
  let ?s = "evm_StateDB e"
  obtain e1 where k: "k (fst (Snapshot ?s)) e1 = Result (x, e')" and e1: "evm_StateDB e1 = snd (Snapshot ?s)"
    using k by (auto simp: ebind_def edb_def rbind_def split: prod.splits)
  have wf: "tx_wf E ?s" using r by (simp add: creating_def)
  have "code_loaded E a (evm_StateDB e1)"
    using performsD(2) [OF performs_simps(12) assms(1) wf] r unfolding e1 creating_def tidy_def by blast
  then have "calling acc E {a} c v ?s (evm_StateDB e1)"
    using wf r by (simp add: calling_def inside_def e1 creating_def bal_def Snapshot_simps(2))
  from hoareD [OF assms(2) this k] r show "created acc E cfg c s0 x (evm_StateDB e')"
    unfolding created_def creating_def by (auto intro: performs_trans spared_trans)
qed

lemma hoare_init:
  assumes "env_ok E" "runner_acts acc E rn" "a \<in> L"
  shows "hoare (inside acc E L s0) (initNewContract rn E cfg ct a) (\<lambda>_. inside acc E L s0)"
proof -
  have set: "eacts acc E (inside acc E L s0) (edb (SetCode E a code))" for code
    using assms(3) by (intro eacts_db(1) performs_op [where op = "OpSetCode a code"]) (auto simp: inside_def)
  have rn: "eacts acc E (inside acc E L s0) (rn ct [] False)"
    by (rule eacts_weaken) (use assms(2) in \<open>simp add: runner_acts_def\<close>)
  show ?thesis unfolding initNewContract_def Let_def
    by (rule hoare_bind_inside [OF assms(1) rn] hoare_bind_inside [OF assms(1) set] hoare_cases hoare_ret | assumption)+
qed

lemma hoare_reverted:
  assumes "env_ok E"
  shows "hoare (inside acc E L s0) (ebind (edb_opt (RevertToSnapshot E (fst (Snapshot s0)))) (\<lambda>_. eret r)) (created acc E cfg c s0)"
  unfolding hoare_def
proof (intro allI impI)
  fix e x e'
  assume i: "inside acc E L s0 (evm_StateDB e)"
    and "ebind (edb_opt (RevertToSnapshot E (fst (Snapshot s0)))) (\<lambda>_. eret r) e = Result (x, e')"
  then have "RevertToSnapshot E (fst (Snapshot s0)) (evm_StateDB e) = Some (evm_StateDB e')"
    by (auto simp: edb_opt_def ebind_def eret_def rbind_def ropt_def split: run.splits option.splits)
  with performs_revert [OF assms, where s = s0 and t = "evm_StateDB e"] i show "created acc E cfg c s0 x (evm_StateDB e')"
    by (auto simp: inside_def created_def spared_undone split: prod.splits)
qed

lemma hoare_kept:
  assumes "\<not> (err \<noteq> None \<and> (IsHomestead (chainRules cfg) \<or> err \<noteq> Some ErrCodeStoreOutOfGas))"
  shows "hoare (inside acc E L s0) (eret (ret, addr, gas, used, err)) (created acc E cfg c s0)"
proof (rule hoare_ret)
  fix s assume "inside acc E L s0 s"
  then have "performs acc E s0 s" using performs_trans [of acc E s0 "snd (Snapshot s0)" s] by (simp add: inside_def)
  with assms show "created acc E cfg c s0 (ret, addr, gas, used, err) s" unfolding created_def prod.case by blast
qed

lemma hoare_not_created: "hoare (creating acc E c v b a s0) (eret r) (created acc E cfg c s0)"
  by (rule hoare_ret) (auto simp: creating_def created_def split: prod.splits)

lemma evm_create_outcome:
  assumes "env_ok E" "runner_acts acc E rn"
  shows "hoare (creating acc E caller 0 False address s0) (evm_create rn E cfg caller code gas v address) (created acc E cfg caller s0)"
proof -
  note prep = hoare_bind [OF hoare_creating(1) [OF assms(1)]] hoare_pay_create [OF assms(1)]
    hoare_bind [OF hoare_creating(2) [OF assms(1)]] hoare_bind [OF hoare_creating(3) [OF assms(1)]]
    hoare_bind [OF hoare_creating(4) [OF assms(1)]] hoare_bind [OF hoare_creating(5) [OF assms(1)]]
  have tail: "hoare (inside acc E {address} s) (ebind (initNewContract rn E cfg c address) (\<lambda>(ret, err, contract).
      if err \<noteq> None \<and> (IsHomestead (chainRules cfg) \<or> err \<noteq> Some ErrCodeStoreOutOfGas) then
        ebind (edb_opt (RevertToSnapshot E (fst (Snapshot s)))) (\<lambda>_. eret (r1 ret err contract))
      else eret (ret, address, g contract, u contract, err))) (created acc E cfg caller s)" for c s r1 g u
    by (rule hoare_bind [OF hoare_init [OF assms]] hoare_cases hoare_reverted [OF assms(1)] hoare_kept | simp)+
  have rest: "hoare (creating acc E caller v (h = 0 \<or> h = EmptyCodeHash E) address s0)
      (if n \<noteq> 0 \<or> (h \<noteq> 0 \<and> h \<noteq> EmptyCodeHash E) \<or> b then eret r0 else ebind (edb Snapshot) k) (created acc E cfg caller s0)"
    if "\<And>s. hoare (calling acc E {address} caller v s) (k (fst (Snapshot s))) (created acc E cfg caller s)" for h :: hash and n :: u64 and b r0 k
    using hoare_not_created [of acc E caller v "h = 0 \<or> h = EmptyCodeHash E" address s0 r0 cfg] hoare_Snapshot_create [OF assms(1) that, of s0]
    by (cases "h = 0 \<or> h = EmptyCodeHash E") (auto simp: hoare_cases)
  show ?thesis unfolding evm_create_def Let_def
    by (rule hoare_witness prep hoare_bind [OF hoare_GetCodeHash [OF assms(1)]] hoare_not_created tail rest hoare_Exist [OF assms(1)]
        hoare_created [OF assms(1)] hoare_bind_calling [OF assms(1)] hoare_Transfer [OF assms(1)] hoare_cases(1))+
qed

subsection \<open>Executions\<close>

lemma eactsI:
  assumes "\<And>s0. env_ok E \<Longrightarrow> tx_wf E s0 \<Longrightarrow> hoare (\<lambda>s. s = s0) m (\<lambda>_. performs acc E s0)"
  shows "eacts acc E always m"
  using assms unfolding eacts_def hoare_def performs_def by blast

lemma eactsD: "eacts acc E always m \<Longrightarrow> m e = Result (x, e') \<Longrightarrow> performs acc E (evm_StateDB e) (evm_StateDB e')"
  by (simp add: eacts_def)

lemma reading_start: "tx_wf E s \<Longrightarrow> reading acc E s s"
  by (simp add: reading_def)

lemma creating_start: "tx_wf E s \<Longrightarrow> creating acc E c 0 False a s s"
  by (simp add: creating_def spared_refl)

lemma outcome_eacts:
  assumes "\<And>s0. env_ok E \<Longrightarrow> hoare (reading acc E s0) m (outcome acc E s0)"
  shows "eacts acc E always m"
proof (rule eactsI)
  fix s0 assume "env_ok E" "tx_wf E s0"
  with assms [of s0] reading_start [of E s0 acc] show "hoare (\<lambda>s. s = s0) m (\<lambda>_. performs acc E s0)"
    unfolding hoare_def outcome_def by fastforce
qed

lemma evm_create_eacts:
  assumes "runner_acts acc E rn"
  shows "eacts acc E always (evm_create rn E cfg caller code gas v a)"
proof (rule eactsI)
  fix s0 assume "env_ok E" "tx_wf E s0"
  with evm_create_outcome [OF _ assms, of caller a s0 cfg code gas v] creating_start [of E s0 acc caller a]
  show "hoare (\<lambda>s. s = s0) (evm_create rn E cfg caller code gas v a) (\<lambda>_. performs acc E s0)"
    unfolding hoare_def created_def by fastforce
qed

lemma callees_acts:
  assumes "hooks_act acc E cfg" "runner_acts acc E rn"
  shows "callees_act acc E (callees rn E cfg)"
proof -
  note calls = evm_Call_outcome [OF _ assms] evm_other_calls_outcome [OF _ assms]
  have "eacts acc E always (evm_Create rn E cfg a input gas v)" for a input gas v
    unfolding evm_Create_def by (rule eacts_bind [OF eacts_ops(4) evm_create_eacts [OF assms(2)]])
  moreover have "eacts acc E always (evm_Create2 rn E cfg a input gas v salt)" for a input gas v salt
    unfolding evm_Create2_def by (rule evm_create_eacts [OF assms(2)])
  ultimately show ?thesis
    unfolding callees_act_def callees_def Callees.simps
    using outcome_eacts [OF calls(1)] outcome_eacts [OF calls(2)] outcome_eacts [OF calls(3)] outcome_eacts [OF calls(4)]
    by (intro conjI allI)
qed

definition loop_acts :: "bool \<Rightarrow> Env \<Rightarrow> loop \<Rightarrow> bool" where
  "loop_acts acc E lp \<longleftrightarrow> (\<forall>f r f'. lp f = Result (r, f') \<longrightarrow> performs acc E (fr_db f) (fr_db f'))"

lemma evm_Run_acts:
  assumes "loop_acts acc E lp" "hooks_act acc E cfg"
  shows "runner_acts acc E (evm_Run lp cfg)"
proof -
  have body: "performs acc E (fr_db f) (fr_db f')" if "run_body lp cfg input f = Result (r, f')" for input f r f'
  proof -
    from that consider "lp f = Result (r, f')" | "hook_ExecuteWASM cfg input f = Some (r, f')"
      unfolding run_body_def ropt_def by (auto split: option.splits if_splits)
    then show ?thesis using assms unfolding loop_acts_def hooks_act_def by cases blast+
  qed
  have db: "evm_StateDB (leave ro e e') = evm_StateDB e'" "fr_db (enter c input ro e) = evm_StateDB e" for ro e e' c input
    by (simp_all add: leave_def enter_def Let_def fr_db_def)
  have "performs acc E (evm_StateDB e) (evm_StateDB e')" if "evm_Run lp cfg c input ro e = Result (x, e')" for c input ro e x e'
  proof (cases "ct_Code c = []")
    case True
    with that db show ?thesis by (auto simp: evm_Run_eq fr_db_def)
  next
    case False
    with that obtain r f where "run_body lp cfg input (enter c input ro e) = Result (r, f)" "e' = leave ro e (fr_evm f)"
      by (auto simp: evm_Run_eq rbind_def split: run.splits)
    with body [OF this(1)] db show ?thesis by (simp add: fr_db_def)
  qed
  then show ?thesis unfolding runner_acts_def eacts_def by blast
qed

lemma acts_prepare: "entry_acts op \<Longrightarrow> acts acc E (prepare_op op b E cfg)"
proof -
  assume "entry_acts op"
  then have gas: "acts acc E (g E cfg ms)" if "op_dynamicGas op = Some g" for g ms
    using that by (auto simp: entry_acts_def acts_gas_def)
  have oog: "acts acc E (out_of_gas m)" if "acts acc E m" for m :: "MultiGas vm"
    using that by (auto simp: acts_def out_of_gas_def split: option.splits sum.splits prod.splits)
  have "acts acc E (charge_dynamic op E cfg)"
    unfolding charge_dynamic_def memory_size_def pay_def
    by (cases "op_dynamicGas op") (simp_all add: act_intros oog gas)
  then show ?thesis unfolding prepare_op_def check_stack_def pay_def by (intro act_intros)
qed

lemma run_op_acts:
  assumes "table_acts jt" "callees_act acc E cs"
  shows "xacts acc E (run_op jt cs E cfg)"
proof -
  have entry: "entry_acts (jt op)" for op using assms(1) by (simp add: table_acts_def)
  then have "xacts acc E (op_execute (jt op) cs E cfg)" for op
    using assms(2) by (simp add: entry_acts_def acts_exec_def)
  then show ?thesis unfolding run_op_def
    by (intro xacts_bind xacts_lift act_intros acts_prepare entry)
qed

lemma interp_acts:
  assumes "table_acts jt" "hooks_act acc E cfg"
  shows "loop_acts acc E (interp n jt E cfg)"
proof (induction n)
  case 0
  then show ?case by (simp add: loop_acts_def)
next
  case (Suc n)
  note op = run_op_acts [OF assms(1) callees_acts [OF assms(2) evm_Run_acts [OF Suc assms(2)]], of cfg]
  have "performs acc E (fr_db f) (fr_db f')" if i: "interp (Suc n) jt E cfg f = Result (r, f')" for f r f'
  proof -
    obtain x f1 where x: "run_op jt (callees (evm_Run (interp n jt E cfg) cfg) E cfg) E cfg f = Result (x, f1)"
      using i interp_step [OF refl, of n jt E cfg f]
      by (cases "run_op jt (callees (evm_Run (interp n jt E cfg) cfg) E cfg) E cfg f") (auto simp del: interp.simps)
    then have p: "performs acc E (fr_db f) (fr_db f1)" using op unfolding xacts_def by blast
    from i interp_step [OF x] consider "f' = f1" | "interp n jt E cfg (f1\<lparr>fr_pc := fr_pc f1 + 1\<rparr>) = Result (r, f')"
      by (auto simp del: interp.simps split: sum.splits option.splits prod.splits)
    then show ?thesis
    proof cases
      case 2
      with Suc have "performs acc E (fr_db f1) (fr_db f')" unfolding loop_acts_def by (metis fr_db_simps(3))
      with p show ?thesis by (rule performs_trans)
    qed (use p in simp)
  qed
  then show ?case unfolding loop_acts_def by blast
qed

end
