(* ===== verification/VMAtomicity.thy ===== *)
theory VMAtomicity
imports VMRollback
begin

text \<open>
  Calls and creations are atomic and conserve ether: one that fails leaves the state database as it
  was, whatever the code behind it did before, and none makes ether or loses it unnoticed.
\<close>

subsection \<open>The gas of a failed call\<close>

definition returns :: "('a \<Rightarrow> bool) \<Rightarrow> 'a evm \<Rightarrow> bool" where
  "returns P m \<longleftrightarrow> (\<forall>e x e'. m e = Result (x, e') \<longrightarrow> P x)"

definition forfeits :: "call_result \<Rightarrow> bool" where
  "forfeits = (\<lambda>(ret, gas, used, err).
     err \<notin> {None, Some ErrExecutionReverted, Some ErrDepth, Some ErrInsufficientBalance} \<longrightarrow> gas = 0)"

lemma returns_rules:
  "(\<And>x. returns P (k x)) \<Longrightarrow> returns P (ebind m k)" "P x \<Longrightarrow> returns P (eret x)"
  "returns P m1 \<Longrightarrow> returns P m2 \<Longrightarrow> returns P (if b then m1 else m2)"
  by (auto simp: returns_def eret_def elim!: ebind_ResultE)

lemma returns_settle: "returns forfeits (settle E snap r)"
  unfolding settle_def by (cases r) (auto intro!: returns_rules simp: forfeits_def)

lemma calls_forfeit:
  "returns forfeits (evm_Call rn E cfg caller addr input gas v)" "returns forfeits (evm_CallCode rn E cfg caller addr input gas v)"
  "returns forfeits (evm_DelegateCall rn E cfg o' caller addr input gas v)" "returns forfeits (evm_StaticCall rn E cfg caller addr input gas)"
  unfolding evm_Call_def evm_CallCode_def evm_DelegateCall_def evm_StaticCall_def Let_def
  by (rule returns_rules returns_settle | simp add: forfeits_def)+

subsection \<open>Failed calls\<close>

lemma calls_outcome:
  assumes "NewEVM_table (chainRules cfg) eips = Some jt" "env_ok E" "hooks_act acc E cfg"
  shows "hoare (reading acc E s0) (evm_Call (run_with n jt E cfg) E cfg caller addr input gas v) (outcome acc E s0)"
    "hoare (reading acc E s0) (evm_CallCode (run_with n jt E cfg) E cfg caller addr input gas v) (outcome acc E s0)"
    "hoare (reading acc E s0) (evm_DelegateCall (run_with n jt E cfg) E cfg o' caller addr input gas v) (outcome acc E s0)"
    "hoare (reading acc E s0) (evm_StaticCall (run_with n jt E cfg) E cfg caller addr input gas) (outcome acc E s0)"
    "runner_acts acc E (run_with n jt E cfg)"
proof -
  show rn: "runner_acts acc E (run_with n jt E cfg)"
    unfolding run_with_def by (intro evm_Run_acts interp_acts NewEVM_table_acts [OF assms(1)] assms(3))
  show "hoare (reading acc E s0) (evm_Call (run_with n jt E cfg) E cfg caller addr input gas v) (outcome acc E s0)"
    by (rule evm_Call_outcome [OF assms(2,3) rn])
  show "hoare (reading acc E s0) (evm_CallCode (run_with n jt E cfg) E cfg caller addr input gas v) (outcome acc E s0)"
    "hoare (reading acc E s0) (evm_DelegateCall (run_with n jt E cfg) E cfg o' caller addr input gas v) (outcome acc E s0)"
    "hoare (reading acc E s0) (evm_StaticCall (run_with n jt E cfg) E cfg caller addr input gas) (outcome acc E s0)"
    by (rule evm_other_calls_outcome [OF assms(2,3) rn])+
qed

text \<open>
  C2: a call that fails has no effect. Whichever of the four kinds of call, whatever code it runs
  and however deep that calls and creates in turn: when it returns an error, all accounts, their
  balances, nonces, code and storage, the logs, the refund counter, the access list, the transient
  storage and the activated Stylus programs are what they were before, as are the journal, the
  valid snapshots and the unexpected balance delta. Unless the error is a revert, or the call has
  been refused for its depth or for lack of balance, no gas is returned.
\<close>

theorem failed_call_has_no_effect:
  assumes "NewEVM_table (chainRules cfg) eips = Some jt" "env_ok E" "hooks_act False E cfg" "tx_wf E (evm_StateDB e)"
    and rn: "rn = run_with n jt E cfg"
    and call: "call \<in> {evm_Call rn E cfg caller addr input gas v, evm_CallCode rn E cfg caller addr input gas v,
      evm_DelegateCall rn E cfg originCaller caller addr input gas v, evm_StaticCall rn E cfg caller addr input gas}"
    and result: "call e = Result ((ret, left, used, Some err), e')"
  shows "world E (evm_StateDB e') = world E (evm_StateDB e) \<and>
    GetUnexpectedBalanceDelta (evm_StateDB e') = GetUnexpectedBalanceDelta (evm_StateDB e) \<and>
    jr_entries (sdb_journal (evm_StateDB e')) = jr_entries (sdb_journal (evm_StateDB e)) \<and>
    jr_validRevisions (sdb_journal (evm_StateDB e')) = jr_validRevisions (sdb_journal (evm_StateDB e)) \<and>
    (err \<notin> {ErrExecutionReverted, ErrDepth, ErrInsufficientBalance} \<longrightarrow> left = 0)"
proof -
  have ends: "hoare (reading False E (evm_StateDB e)) call (outcome False E (evm_StateDB e))"
    using call by (auto simp: rn intro: calls_outcome [OF assms(1-3)])
  have "returns forfeits call"
    using call by (auto intro: calls_forfeit)
  with hoareD [OF ends reading_start [OF assms(4)] result] result show ?thesis
    by (force simp: outcome_def undone_def returns_def forfeits_def)
qed

text \<open>A database without accounts whose hash function does not map the empty code to zero.\<close>

definition env_hash :: Env where
  "env_hash = env_empty\<lparr>env_keccak := (\<lambda>bs. word_of_nat (length bs + 1))\<rparr>"

lemma env_hash_ok: "env_ok env_hash" "tx_wf env_hash NewWithReader"
proof -
  show "env_ok env_hash" by (simp add: env_ok_def code_reader_ok_def EmptyCodeHash_def env_hash_def env_empty_def)
  show "tx_wf env_hash NewWithReader" by (rule tx_wf_new) (simp add: env_hash_def env_empty_def)
qed

text \<open>A precompiled contract at address 7 that always fails.\<close>

definition cfg_failing :: EvmCfg where
  "cfg_failing = cfg_cancun\<lparr>precompile := (\<lambda>a. if a = 7 then Some (PlainPrecompile (\<lambda>_ _. 3) (\<lambda>_ _. ([], Some ErrInvalidCode))) else None)\<rparr>"

lemma cfg_failing_ok: "NewEVM_table (chainRules cfg_failing) [] = Some newCancunInstructionSet" "hooks_act acc E cfg_failing"
  by (simp_all add: cfg_failing_def hooks_act_def NewEVM_table_def instruction_set_def cfg_cancun_def rules_cancun_def)

definition err_of :: "(call_result \<times> EVM) run \<Rightarrow> vmerror option" where
  "err_of r = (case r of Result ((ret, left, used, err), e) \<Rightarrow> err | _ \<Rightarrow> None)"

theorem failed_call_has_no_effect_witness:
  "\<exists>ret left used e'. evm_Call (run_with 101 newCancunInstructionSet env_hash cfg_failing) env_hash cfg_failing 1 7 [] 100 0
      (fr_evm (fresh_frame 0 [])) = Result ((ret, left, used, Some ErrInvalidCode), e') \<and>
    world env_hash (evm_StateDB e') = world env_hash NewWithReader \<and> left = 0"
proof -
  let ?e = "fr_evm (fresh_frame 0 [])"
  let ?r = "evm_Call (run_with 101 newCancunInstructionSet env_hash cfg_failing) env_hash cfg_failing 1 7 [] 100 0 ?e"
  have "err_of ?r = Some ErrInvalidCode" by code_simp
  then obtain ret left used e' where r: "?r = Result ((ret, left, used, Some ErrInvalidCode), e')"
    by (auto simp: err_of_def split: run.splits)
  have "evm_StateDB ?e = NewWithReader" by (simp add: fresh_frame_def)
  with failed_call_has_no_effect [OF cfg_failing_ok(1) env_hash_ok(1) cfg_failing_ok(2) _ refl insertI1 r] env_hash_ok(2) r
  show ?thesis by auto
qed

subsection \<open>Failed creations\<close>

lemma creating_any: "creating acc E c 0 False a = creating acc E c 0 False b"
  by (auto simp: creating_def fun_eq_iff)

lemma creations_outcome:
  assumes "NewEVM_table (chainRules cfg) eips = Some jt" "env_ok E" "hooks_act acc E cfg"
  shows "hoare (creating acc E caller 0 False a s0) (evm_Create (run_with n jt E cfg) E cfg caller code gas v) (created acc E cfg caller s0)"
    "hoare (creating acc E caller 0 False a s0) (evm_Create2 (run_with n jt E cfg) E cfg caller code gas v salt) (created acc E cfg caller s0)"
proof -
  have make: "hoare (creating acc E caller 0 False a s0) (evm_create (run_with n jt E cfg) E cfg caller c gas v b) (created acc E cfg caller s0)"
    for c b unfolding creating_any [where a = a and b = b] by (rule evm_create_outcome [OF assms(2) calls_outcome(5) [OF assms]])
  show "hoare (creating acc E caller 0 False a s0) (evm_Create (run_with n jt E cfg) E cfg caller code gas v) (created acc E cfg caller s0)"
    unfolding evm_Create_def by (rule hoare_bind hoare_creating(2) [OF assms(2)] make)+
  show "hoare (creating acc E caller 0 False a s0) (evm_Create2 (run_with n jt E cfg) E cfg caller code gas v salt) (created acc E cfg caller s0)"
    unfolding evm_Create2_def by (rule make)
qed

text \<open>
  C5: a creation that fails leaves nothing behind but the nonce of its creator and the warmed
  address. No other account has changed, the creator has kept its balance, its code and its
  storage, and the logs, the refund counter, the transient storage and the activated Stylus
  programs are as before; in particular no account exists at the address that did not exist there
  before. From Homestead on this holds for every error. Before Homestead, running out of gas for
  the storage of the code is the exception the code makes. The rules of proposal 4762 are excluded,
  as they have no table: there the code returns without a revert when the gas does not cover the
  witness of the new account.
\<close>

theorem failed_creation_leaves_nothing:
  assumes "NewEVM_table (chainRules cfg) eips = Some jt" "env_ok E" "hooks_act False E cfg" "tx_wf E (evm_StateDB e)"
    and rn: "rn = run_with n jt E cfg"
    and creation: "creation \<in> {evm_Create rn E cfg caller code gas v, evm_Create2 rn E cfg caller code gas v salt}"
    and result: "creation e = Result ((ret, addr, left, used, Some err), e')"
    and fork: "IsHomestead (chainRules cfg) \<or> err \<noteq> ErrCodeStoreOutOfGas"
  shows "(\<forall>b. b \<noteq> caller \<longrightarrow> as_acct (world E (evm_StateDB e')) b = as_acct (world E (evm_StateDB e)) b) \<and>
    (acct_or_new E (world E (evm_StateDB e')) caller)\<lparr>v_nonce := 0\<rparr> = (acct_or_new E (world E (evm_StateDB e)) caller)\<lparr>v_nonce := 0\<rparr> \<and>
    sdb_logs (evm_StateDB e') = sdb_logs (evm_StateDB e) \<and> sdb_refund (evm_StateDB e') = sdb_refund (evm_StateDB e) \<and>
    sdb_transientStorage (evm_StateDB e') = sdb_transientStorage (evm_StateDB e) \<and>
    arb_activatedWasms (arbExtraData (evm_StateDB e')) = arb_activatedWasms (arbExtraData (evm_StateDB e)) \<and>
    GetUnexpectedBalanceDelta (evm_StateDB e') = GetUnexpectedBalanceDelta (evm_StateDB e)"
proof -
  have "hoare (creating False E caller 0 False 0 (evm_StateDB e)) creation (created False E cfg caller (evm_StateDB e))"
    using creation by (auto simp: rn intro: creations_outcome [OF assms(1-3)])
  from hoareD [OF this creating_start [OF assms(4)] result] fork show ?thesis
    by (simp add: created_def spared_def)
qed

text \<open>An account with nonce 1 stands at the address of the new contract.\<close>

definition env_taken :: Env where
  "env_taken = env_hash\<lparr>env_Account := (\<lambda>a. Inr (if a = 86 then Some \<lparr>Nonce = 1, Balance = 0, Root = 0, CodeHash = 1\<rparr> else None))\<rparr>"

lemma env_taken_ok: "env_ok env_taken" "tx_wf env_taken NewWithReader"
proof -
  show "env_ok env_taken"
    by (simp add: env_ok_def code_reader_ok_def EmptyCodeHash_def env_taken_def env_hash_def env_empty_def)
  show "tx_wf env_taken NewWithReader" by (rule tx_wf_new) (auto simp: env_taken_def split: if_splits)
qed

definition made_err :: "(create_result \<times> EVM) run \<Rightarrow> vmerror option" where
  "made_err r = (case r of Result ((ret, addr, left, used, err), e) \<Rightarrow> err | _ \<Rightarrow> None)"

theorem failed_creation_leaves_nothing_witness:
  "\<exists>ret addr left used e'. evm_Create2 (run_with 101 newCancunInstructionSet env_taken cfg_failing) env_taken cfg_failing 1 [0x50] 100 0 0
      (fr_evm (fresh_frame 0 [])) = Result ((ret, addr, left, used, Some ErrContractAddressCollision), e') \<and>
    (\<forall>b. b \<noteq> 1 \<longrightarrow> as_acct (world env_taken (evm_StateDB e')) b = as_acct (world env_taken NewWithReader) b)"
proof -
  let ?e = "fr_evm (fresh_frame 0 [])"
  let ?r = "evm_Create2 (run_with 101 newCancunInstructionSet env_taken cfg_failing) env_taken cfg_failing 1 [0x50] 100 0 0 ?e"
  have "made_err ?r = Some ErrContractAddressCollision" by code_simp
  then obtain ret addr left used e' where r: "?r = Result ((ret, addr, left, used, Some ErrContractAddressCollision), e')"
    by (auto simp: made_err_def split: run.splits)
  have "evm_StateDB ?e = NewWithReader" by (simp add: fresh_frame_def)
  with failed_creation_leaves_nothing [OF cfg_failing_ok(1) env_taken_ok(1) cfg_failing_ok(2) _ refl insertI2 [OF insertI1] r] env_taken_ok(2) r
  show ?thesis by auto
qed

subsection \<open>Conservation of ether\<close>

text \<open>
  C3: the EVM neither makes nor loses ether unnoticed. Whatever code runs behind a call or a
  creation, and whether it succeeds or fails, the sum of all balances does not grow, and the
  unexpected balance delta of the state database, which the block processor of Arbitrum checks,
  is unchanged: a transfer moves what the sender owns, and what a self-destruction burns is what it
  announces as a burn. The condition is that the sum of all balances is less than \<open>2\<^sup>2\<^sup>5\<^sup>5\<close>, so that
  no balance can overflow, and that the code behind the hooks plays by the same rule.
\<close>

theorem executions_conserve_ether:
  assumes "NewEVM_table (chainRules cfg) eips = Some jt" "env_ok E" "hooks_act True E cfg" "tx_wf E (evm_StateDB e)"
    "total_balance (world E (evm_StateDB e)) < 2 ^ 255"
    and rn: "rn = run_with n jt E cfg"
    and call: "evm_Call rn E cfg caller addr input gas v e = Result (result, e') \<or>
      evm_CallCode rn E cfg caller addr input gas v e = Result (result, e') \<or>
      evm_DelegateCall rn E cfg originCaller caller addr input gas v e = Result (result, e') \<or>
      evm_StaticCall rn E cfg caller addr input gas e = Result (result, e') \<or>
      evm_Create rn E cfg caller input gas v e = Result (made, e') \<or>
      evm_Create2 rn E cfg caller input gas v salt e = Result (made, e')"
  shows "total_balance (world E (evm_StateDB e')) \<le> total_balance (world E (evm_StateDB e)) \<and>
    GetUnexpectedBalanceDelta (evm_StateDB e') = GetUnexpectedBalanceDelta (evm_StateDB e)"
proof -
  have act: "callees_act True E (callees rn E cfg)"
    unfolding rn by (rule callees_acts [OF assms(3) calls_outcome(5) [OF assms(1-3)]])
  have "performs True E (evm_StateDB e) (evm_StateDB e')"
    using call by (elim disjE) (rule eactsD, rule callees_actD [OF act, unfolded callees_def Callees.simps], assumption)+
  from performsD(4) [OF this assms(2,4)] assms(5) show ?thesis by (simp add: solvent_def total_supply_def)
qed

text \<open>A transfer of 5 from an account that owns 9 to one that does not exist yet.\<close>

definition env_rich :: Env where
  "env_rich = env_hash\<lparr>env_Account := (\<lambda>a. Inr (if a = 1 then Some \<lparr>Nonce = 1, Balance = 9, Root = 0, CodeHash = 1\<rparr> else None))\<rparr>"

definition returned :: "('a \<times> EVM) run \<Rightarrow> bool" where
  "returned r = (case r of Result x \<Rightarrow> True | _ \<Rightarrow> False)"

lemma env_rich_ok: "env_ok env_rich" "tx_wf env_rich NewWithReader" "total_balance (world env_rich NewWithReader) < 2 ^ 255"
proof -
  show "env_ok env_rich"
    by (simp add: env_ok_def code_reader_ok_def EmptyCodeHash_def env_rich_def env_hash_def env_empty_def)
  show "tx_wf env_rich NewWithReader" by (rule tx_wf_new) (auto simp: env_rich_def split: if_splits)
  have b: "acct_balance (as_acct (world env_rich NewWithReader) a) = (if a = 1 then 9 else 0)" for a
    by (simp add: acct_balance_def view_def live_object_def NewWithReader_def env_rich_def obj_view_def obj_at_def db_object_def newObject_def)
  show "total_balance (world env_rich NewWithReader) < 2 ^ 255"
    unfolding total_balance_def b by simp
qed

theorem executions_conserve_ether_witness:
  "\<exists>result e'. evm_Call (run_with 101 newCancunInstructionSet env_rich cfg_failing) env_rich cfg_failing 1 2 [] 100 5
      (fr_evm (fresh_frame 0 [])) = Result (result, e') \<and>
    total_balance (world env_rich (evm_StateDB e')) \<le> total_balance (world env_rich NewWithReader) \<and>
    GetUnexpectedBalanceDelta (evm_StateDB e') = GetUnexpectedBalanceDelta NewWithReader"
proof -
  let ?e = "fr_evm (fresh_frame 0 [])"
  let ?r = "evm_Call (run_with 101 newCancunInstructionSet env_rich cfg_failing) env_rich cfg_failing 1 2 [] 100 5 ?e"
  have "returned ?r" by code_simp
  then obtain result e' where r: "?r = Result (result, e')" by (cases ?r) (auto simp: returned_def)
  have e: "evm_StateDB ?e = NewWithReader" by (simp add: fresh_frame_def)
  from executions_conserve_ether [OF cfg_failing_ok(1) env_rich_ok(1) cfg_failing_ok(2) _ _ refl disjI1 [OF r], unfolded e]
    env_rich_ok r show ?thesis by blast
qed

end
