(* ===== verification/StateFinalise.thy ===== *)
theory StateFinalise
imports StateContract
begin

text \<open>
  The end of a transaction: \<^verbatim>\<open>StateDB.Finalise\<close> and \<^verbatim>\<open>stateObject.finalise\<close>
  (\<^verbatim>\<open>core/state/statedb.go\<close>, \<^verbatim>\<open>core/state/state_object.go\<close>). Go ranges over the dirty addresses and over
  the dirty slots of an account in an unspecified order; the lemmas show that the outcome
  does not depend on it.
\<close>

subsection \<open>Ranging over a map\<close>

text \<open>What the language says of a range over a map: every key once, in some order.\<close>

definition range_ok :: "Env \<Rightarrow> bool" where
  "range_ok E \<longleftrightarrow>
     (\<forall>K. distinct (env_range_addr E K) \<and> set (env_range_addr E K) = fset K) \<and>
     (\<forall>K. distinct (env_range_key E K) \<and> set (env_range_key E K) = fset K)"

lemma env_empty_range: "range_ok env_empty"
  by (simp add: range_ok_def env_empty_def sorted_list_of_fset.rep_eq)

subsection \<open>Finalising one account\<close>

definition view_finalise :: "acct_view \<Rightarrow> acct_view" where
  "view_finalise v = v\<lparr>v_committed := v_current v, v_newContract := False\<rparr>"

lemma only_err_trans: "only_err s t \<Longrightarrow> only_err t u \<Longrightarrow> only_err s u"
  by (auto simp: only_err_def)

definition moved_slots :: "stateObject \<Rightarrow> stateObject \<Rightarrow> bool" where
  "moved_slots obj obj' \<longleftrightarrow>
     obj' = obj\<lparr>so_originStorage := so_originStorage obj', so_uncommittedStorage := so_uncommittedStorage obj',
       so_pendingStorage := so_pendingStorage obj'\<rparr>"

lemma moved_slotsD:
  assumes "moved_slots obj obj'"
  shows "so_dirtyStorage obj' = so_dirtyStorage obj" "so_address obj' = so_address obj"
    "so_data obj' = so_data obj" "so_code obj' = so_code obj"
    "so_selfDestructed obj' = so_selfDestructed obj" "so_newContract obj' = so_newContract obj"
  using assms by (cases obj; cases obj'; simp add: moved_slots_def)+

lemma moved_slots_trans: "moved_slots a b \<Longrightarrow> moved_slots b c \<Longrightarrow> moved_slots a c"
  by (cases a; cases b; cases c) (simp add: moved_slots_def)

text \<open>Finalising a slot moves its dirty value to the committed ones.\<close>

lemma so_finalise_slot_spec:
  assumes "so_finalise_slot E k (s, obj) = (s', obj')"
  shows "only_err s s'"
    and "obj_committed E (stateObjectsDestruct s) obj' =
      (case fmlookup (so_dirtyStorage obj) k of
         None \<Rightarrow> obj_committed E (stateObjectsDestruct s) obj
       | Some v \<Rightarrow> (obj_committed E (stateObjectsDestruct s) obj)(k := v))"
    and "moved_slots obj obj'"
proof -
  obtain w t o1 where g: "so_GetCommittedState E k s obj = (w, t, o1)"
    by (cases "so_GetCommittedState E k s obj") auto
  note spec = so_GetCommittedState_spec [OF g]
  from spec(4) obtain os where o1: "o1 = obj\<lparr>so_originStorage := os\<rparr>" ..
  have c: "obj_committed E (stateObjectsDestruct s) (obj\<lparr>so_originStorage := os\<rparr>) = obj_committed E (stateObjectsDestruct s) obj"
    using spec(5) o1 by simp
  show "only_err s s'"
    using assms g spec(2) by (auto simp: so_finalise_slot_def Let_def split: option.splits if_splits)
  show "obj_committed E (stateObjectsDestruct s) obj' =
      (case fmlookup (so_dirtyStorage obj) k of
         None \<Rightarrow> obj_committed E (stateObjectsDestruct s) obj
       | Some v \<Rightarrow> (obj_committed E (stateObjectsDestruct s) obj)(k := v))"
    using assms g o1 c
    by (auto simp: so_finalise_slot_def Let_def obj_committed_def or_else_upd split: option.splits if_splits)
  show "moved_slots obj obj'"
    using assms g o1 by (auto simp: so_finalise_slot_def moved_slots_def Let_def split: option.splits if_splits)
qed

lemma so_finalise_slots_spec:
  assumes "fold (so_finalise_slot E) ks (s, obj) = (s', obj')"
  shows "only_err s s' \<and>
    obj_committed E (stateObjectsDestruct s) obj' =
      (\<lambda>k. if k \<in> set ks then obj_current E (stateObjectsDestruct s) obj k
           else obj_committed E (stateObjectsDestruct s) obj k) \<and>
    moved_slots obj obj'"
  using assms
proof (induction ks arbitrary: s obj)
  case Nil
  then show ?case by (simp add: moved_slots_def)
next
  case (Cons k ks)
  obtain s1 o1 where g: "so_finalise_slot E k (s, obj) = (s1, o1)" by (cases "so_finalise_slot E k (s, obj)")
  note spec = so_finalise_slot_spec [OF g]
  from Cons.prems g have f: "fold (so_finalise_slot E) ks (s1, o1) = (s', obj')" by simp
  note IH = Cons.IH [OF f]
  have D: "stateObjectsDestruct s1 = stateObjectsDestruct s" using only_errD(5) [OF spec(1)] .
  have d: "so_dirtyStorage o1 = so_dirtyStorage obj" using moved_slotsD(1) [OF spec(3)] .
  have "obj_committed E (stateObjectsDestruct s) obj' x =
      (if x \<in> set (k # ks) then obj_current E (stateObjectsDestruct s) obj x
       else obj_committed E (stateObjectsDestruct s) obj x)" for x
    using IH spec(2) D d
    by (auto simp: obj_current_def or_else_def split: option.splits)
  moreover have "only_err s s'" using IH only_err_trans [OF spec(1)] by blast
  moreover have "moved_slots obj obj'"
    using IH moved_slots_trans [OF spec(3)] by blast
  ultimately show ?case by (auto simp: fun_eq_iff)
qed

lemma so_finalise_spec:
  assumes "so_finalise E s obj = (s', obj')" "range_ok E"
  shows "only_err s s'" "so_address obj' = so_address obj"
    "obj_view E (stateObjectsDestruct s) obj' = view_finalise (obj_view E (stateObjectsDestruct s) obj)"
    "obj_ok E a obj' = obj_ok E a obj"
proof -
  obtain s1 o1 where g: "fold (so_finalise_slot E) (env_range_key E (fmdom (so_dirtyStorage obj))) (s, obj) = (s1, o1)"
    by (cases "fold (so_finalise_slot E) (env_range_key E (fmdom (so_dirtyStorage obj))) (s, obj)")
  note spec = so_finalise_slots_spec [OF g]
  then have m: "moved_slots obj o1" by simp
  note moved = moved_slotsD [OF m]
  from assms(1) g have eq: "s' = s1" "obj' = o1\<lparr>so_dirtyStorage := fmempty, so_newContract := False\<rparr>"
    by (simp_all add: so_finalise_def)
  show "only_err s s'" "so_address obj' = so_address obj" "obj_ok E a obj' = obj_ok E a obj"
    using spec eq moved by (simp_all add: obj_ok_def)
  have "set (env_range_key E (fmdom (so_dirtyStorage obj))) = fset (fmdom (so_dirtyStorage obj))"
    using assms(2) by (simp add: range_ok_def)
  then have "obj_committed E (stateObjectsDestruct s) o1 = obj_current E (stateObjectsDestruct s) obj"
    using spec by (auto simp: fun_eq_iff obj_current_def or_else_def fmlookup_dom_iff split: option.splits)
  then show "obj_view E (stateObjectsDestruct s) obj' = view_finalise (obj_view E (stateObjectsDestruct s) obj)"
    unfolding eq(2) by (simp add: moved obj_view_def view_finalise_def obj_code_def obj_current_def obj_committed_def)
qed

subsection \<open>Finalising the dirty accounts\<close>

text \<open>
  \<^verbatim>\<open>finalise_at\<close> is what the loop body leaves of one account, as a function of the view before.
\<close>

definition view_empty :: "Env \<Rightarrow> acct_view \<Rightarrow> bool" where
  "view_empty E v \<longleftrightarrow> v_nonce v = 0 \<and> v_balance v = 0 \<and> v_codehash v = EmptyCodeHash E"

definition zombie_in :: "journal \<Rightarrow> address \<Rightarrow> bool" where
  "zombie_in j a \<longleftrightarrow> fm_get (jr_zombieEntries j) a = fm_get (jr_dirties j) a"

definition doomed :: "Env \<Rightarrow> bool \<Rightarrow> journal \<Rightarrow> address \<Rightarrow> acct_view \<Rightarrow> bool" where
  "doomed E del j a v \<longleftrightarrow> v_selfDestructed v \<or> (del \<and> view_empty E v \<and> \<not> zombie_in j a)"

definition finalise_at :: "Env \<Rightarrow> bool \<Rightarrow> journal \<Rightarrow> address \<Rightarrow> acct_view \<Rightarrow> acct_view option" where
  "finalise_at E del j a v = (if doomed E del j a v then None else Some (view_finalise v))"

text \<open>The view of an address depends on the entries of the two maps at that address only.\<close>

lemma view_local:
  assumes "fmlookup (stateObjects s) b = fmlookup (stateObjects t) b"
    "fmlookup (stateObjectsDestruct s) b = fmlookup (stateObjectsDestruct t) b" "objs_ok E s"
  shows "view E s b = view E t b"
proof -
  have db: "db_object E (stateObjectsDestruct s) b = db_object E (stateObjectsDestruct t) b"
    using assms(2) by (simp add: db_object_def)
  then have l: "live_object E s b = live_object E t b" using assms(1) by (simp add: live_object_def obj_at_def split: option.splits)
  have "obj_view E (stateObjectsDestruct s) obj = obj_view E (stateObjectsDestruct t) obj"
    if "live_object E s b = Some obj" for obj
  proof -
    have "so_address obj = b" using live_object_ok [OF assms(3) that] by (simp add: obj_ok_def)
    then have "db_storage E (stateObjectsDestruct s) (so_address obj) = db_storage E (stateObjectsDestruct t) (so_address obj)"
      using assms(2) by (simp add: db_storage_def fun_eq_iff)
    then show ?thesis by (simp add: obj_view_def obj_committed_def obj_current_def)
  qed
  with l show ?thesis by (cases "live_object E t b") (auto simp: view_def)
qed

definition mut_of :: "acct_view option \<Rightarrow> mutation" where
  "mut_of x = \<lparr>mut_typ = (case x of None \<Rightarrow> deletion | Some _ \<Rightarrow> update), mut_applied = False\<rparr>"

lemma mark_simps [simp]:
  "stateObjects (markDelete a s) = stateObjects s" "stateObjects (markUpdate a s) = stateObjects s"
  "stateObjectsDestruct (markDelete a s) = stateObjectsDestruct s"
  "stateObjectsDestruct (markUpdate a s) = stateObjectsDestruct s"
  "mutations (markDelete a s) = fmupd a \<lparr>mut_typ = deletion, mut_applied = False\<rparr> (mutations s)"
  "mutations (markUpdate a s) = fmupd a \<lparr>mut_typ = update, mut_applied = False\<rparr> (mutations s)"
  "sdb_journal (markDelete a s) = sdb_journal s" "sdb_journal (markUpdate a s) = sdb_journal s"
  "arbExtraData (markDelete a s) = arbExtraData s" "arbExtraData (markUpdate a s) = arbExtraData s"
  by (simp_all add: markDelete_def markUpdate_def)

text \<open>The parts of the state that \<^verbatim>\<open>Finalise\<close> leaves alone.\<close>

definition tx_data :: "StateDB \<Rightarrow> _" where
  "tx_data s = (sdb_journal s, sdb_refund s, arbExtraData s, sdb_logs s, sdb_logSize s, sdb_accessList s,
     sdb_transientStorage s, sdb_thash s, sdb_txIndex s)"

lemma tx_data_simps [simp]:
  "tx_data (markDelete a s) = tx_data s" "tx_data (markUpdate a s) = tx_data s"
  "tx_data (setStateObject obj s) = tx_data s" "tx_data (s\<lparr>stateObjects := x\<rparr>) = tx_data s"
  "tx_data (s\<lparr>stateObjectsDestruct := y\<rparr>) = tx_data s"
  by (simp_all add: tx_data_def markDelete_def markUpdate_def setStateObject_def)

lemma tx_data_only_err: "only_err s t \<Longrightarrow> tx_data t = tx_data s \<and> mutations t = mutations s"
  by (auto simp: only_err_def tx_data_def)

definition same_at :: "address \<Rightarrow> StateDB \<Rightarrow> StateDB \<Rightarrow> bool" where
  "same_at b s t \<longleftrightarrow> fmlookup (stateObjects t) b = fmlookup (stateObjects s) b \<and>
     fmlookup (stateObjectsDestruct t) b = fmlookup (stateObjectsDestruct s) b \<and>
     fmlookup (mutations t) b = fmlookup (mutations s) b"

lemma finalise_addr_cases:
  assumes "objs_ok E s" "range_ok E"
  obtains (absent) "fmlookup (stateObjects s) a = None" "finalise_addr E del a s = s"
  | (dead) obj where "fmlookup (stateObjects s) a = Some obj" "so_address obj = a"
      "finalise_at E del (sdb_journal s) a (obj_view E (stateObjectsDestruct s) obj) = None"
      "finalise_addr E del a s = markDelete a (s\<lparr>stateObjects := fmdrop a (stateObjects s),
         stateObjectsDestruct := (if fmlookup (stateObjectsDestruct s) a = None
           then fmupd a obj (stateObjectsDestruct s) else stateObjectsDestruct s)\<rparr>)"
  | (live) obj t obj' where "fmlookup (stateObjects s) a = Some obj" "so_address obj = a"
      "finalise_at E del (sdb_journal s) a (obj_view E (stateObjectsDestruct s) obj) =
         Some (obj_view E (stateObjectsDestruct s) obj')"
      "only_err s t" "obj_ok E a obj'"
      "finalise_addr E del a s = markUpdate a (setStateObject obj' t)"
proof (cases "fmlookup (stateObjects s) a")
  case None
  then show thesis by (intro absent) (simp_all add: finalise_addr_def Let_def)
next
  case (Some obj)
  then have ok: "obj_ok E a obj" using assms(1) by (auto simp: objs_ok_def)
  then have a: "so_address obj = a" by (simp add: obj_ok_def)
  let ?d = "so_selfDestructed obj \<or> (del \<and> so_empty E obj \<and> \<not> zombie_in (sdb_journal s) a)"
  have d: "doomed E del (sdb_journal s) a (obj_view E (stateObjectsDestruct s) obj) = ?d"
    by (auto simp: doomed_def view_empty_def so_empty_def obj_view_def)
  show thesis
  proof (cases ?d)
    case True
    then have "finalise_addr E del a s = markDelete a (s\<lparr>stateObjects := fmdrop a (stateObjects s),
         stateObjectsDestruct := (if fmlookup (stateObjectsDestruct s) a = None
           then fmupd a obj (stateObjectsDestruct s) else stateObjectsDestruct s)\<rparr>)"
      using Some a by (simp add: finalise_addr_def zombie_in_def Let_def markDelete_def)
    then show thesis using Some a d True by (intro dead) (simp_all add: finalise_at_def)
  next
    case False
    obtain t obj' where f: "so_finalise E s obj = (t, obj')" by (cases "so_finalise E s obj")
    note spec = so_finalise_spec [OF f assms(2)]
    have "finalise_addr E del a s = markUpdate a (setStateObject obj' t)"
      using Some False f by (auto simp: finalise_addr_def zombie_in_def Let_def)
    then show thesis using Some a d False spec(1,3) spec(4) [of a] ok
      by (intro live [of obj obj' t]) (simp_all add: finalise_at_def)
  qed
qed

lemma only_err_maps:
  "only_err s t \<Longrightarrow> stateObjects t = stateObjects s \<and> stateObjectsDestruct t = stateObjectsDestruct s"
  by (auto simp: only_err_def)

lemma finalise_addr_frame:
  assumes "objs_ok E s" "range_ok E"
  shows "objs_ok E (finalise_addr E del a s)" and "tx_data (finalise_addr E del a s) = tx_data s"
    and "b \<noteq> a \<Longrightarrow> same_at b s (finalise_addr E del a s)"
proof -
  have "objs_ok E (finalise_addr E del a s) \<and> tx_data (finalise_addr E del a s) = tx_data s \<and>
      (b \<noteq> a \<longrightarrow> same_at b s (finalise_addr E del a s))"
  proof (rule finalise_addr_cases [OF assms, of a del])
    fix obj assume "finalise_addr E del a s = markDelete a (s\<lparr>stateObjects := fmdrop a (stateObjects s),
         stateObjectsDestruct := (if fmlookup (stateObjectsDestruct s) a = None
           then fmupd a obj (stateObjectsDestruct s) else stateObjectsDestruct s)\<rparr>)"
    with assms(1) show ?thesis by (simp add: same_at_def objs_ok_def)
  next
    fix obj t obj' assume t: "only_err s t" "obj_ok E a obj'"
      and f: "finalise_addr E del a s = markUpdate a (setStateObject obj' t)"
    have "so_address obj' = a" using t(2) by (simp add: obj_ok_def)
    moreover have "mutations (setStateObject obj' t) = mutations t" by (simp add: setStateObject_def)
    ultimately show ?thesis
      using assms(1) t f tx_data_only_err [OF t(1)] only_err_maps [OF t(1)] by (simp add: same_at_def objs_ok_def)
  qed (use assms(1) in \<open>simp add: same_at_def\<close>)
  then show "objs_ok E (finalise_addr E del a s)" "tx_data (finalise_addr E del a s) = tx_data s"
    "b \<noteq> a \<Longrightarrow> same_at b s (finalise_addr E del a s)" by blast+
qed

lemma finalise_addr_at:
  fixes del :: bool
  assumes "objs_ok E s" "range_ok E" "fmlookup (stateObjects s) a = Some obj"
  defines "x \<equiv> finalise_at E del (sdb_journal s) a (obj_view E (stateObjectsDestruct s) obj)"
  shows "view E (finalise_addr E del a s) a = x"
    and "fmlookup (mutations (finalise_addr E del a s)) a = Some (mut_of x)"
    and "fmlookup (stateObjectsDestruct (finalise_addr E del a s)) a =
      (if x = None \<and> fmlookup (stateObjectsDestruct s) a = None then Some obj else fmlookup (stateObjectsDestruct s) a)"
proof -
  show "view E (finalise_addr E del a s) a = x"
    by (rule finalise_addr_cases [OF assms(1,2), of a del])
      (insert assms(3), auto simp: x_def view_def live_object_def obj_at_def db_object_def obj_ok_def dest: only_err_maps)
  show "fmlookup (mutations (finalise_addr E del a s)) a = Some (mut_of x)"
    by (rule finalise_addr_cases [OF assms(1,2), of a del])
      (insert assms(3), auto simp: x_def mut_of_def)
  show "fmlookup (stateObjectsDestruct (finalise_addr E del a s)) a =
      (if x = None \<and> fmlookup (stateObjectsDestruct s) a = None then Some obj else fmlookup (stateObjectsDestruct s) a)"
    by (rule finalise_addr_cases [OF assms(1,2), of a del])
      (insert assms(3), auto simp: x_def dest: only_err_maps)
qed

lemma same_at_trans: "same_at b s t \<Longrightarrow> same_at b t u \<Longrightarrow> same_at b s u"
  by (simp add: same_at_def)

lemma tx_data_journal: "tx_data t = tx_data s \<Longrightarrow> sdb_journal t = sdb_journal s"
  by (simp add: tx_data_def)

lemma finalise_fold_frame:
  assumes "objs_ok E s" "range_ok E"
  shows "objs_ok E (fold (finalise_addr E del) as s)" and "tx_data (fold (finalise_addr E del) as s) = tx_data s"
    and "b \<notin> set as \<Longrightarrow> same_at b s (fold (finalise_addr E del) as s)"
proof -
  have "objs_ok E (fold (finalise_addr E del) as s) \<and> tx_data (fold (finalise_addr E del) as s) = tx_data s \<and>
      (b \<notin> set as \<longrightarrow> same_at b s (fold (finalise_addr E del) as s))"
    using assms(1)
  proof (induction as arbitrary: s)
    case (Cons a as)
    note f = finalise_addr_frame [OF Cons.prems assms(2), where del = del and a = a]
    from Cons.IH [OF f(1)] f(2) f(3) [of b] show ?case by (auto intro: same_at_trans)
  qed (simp add: same_at_def)
  then show "objs_ok E (fold (finalise_addr E del) as s)" "tx_data (fold (finalise_addr E del) as s) = tx_data s"
    "b \<notin> set as \<Longrightarrow> same_at b s (fold (finalise_addr E del) as s)" by blast+
qed

lemma finalise_fold_at:
  fixes del :: bool
  assumes "objs_ok E s" "range_ok E" "distinct as" "a \<in> set as" "fmlookup (stateObjects s) a = Some obj"
  defines "x \<equiv> finalise_at E del (sdb_journal s) a (obj_view E (stateObjectsDestruct s) obj)"
  shows "view E (fold (finalise_addr E del) as s) a = x"
    and "fmlookup (mutations (fold (finalise_addr E del) as s)) a = Some (mut_of x)"
proof -
  from assms(3,4) obtain bs cs where as: "as = bs @ a # cs" and n: "a \<notin> set bs" "a \<notin> set cs"
    by (auto simp: in_set_conv_decomp)
  let ?s1 = "fold (finalise_addr E del) bs s" and ?s2 = "finalise_addr E del a (fold (finalise_addr E del) bs s)"
  note f1 = finalise_fold_frame [OF assms(1,2), where del = del and as = bs]
  from f1(3) [OF n(1)] assms(5) have o1: "fmlookup (stateObjects ?s1) a = Some obj" by (simp add: same_at_def)
  note ok2 = finalise_addr_frame(1) [OF f1(1) assms(2), where del = del and a = a]
  have same: "same_at a ?s2 (fold (finalise_addr E del) as s)"
    using finalise_fold_frame(3) [OF ok2 assms(2) n(2), of del] as by simp
  have "view E s a = view E ?s1 a"
    using f1(3) [OF n(1)] assms(1) by (intro view_local) (simp_all add: same_at_def)
  then have "obj_view E (stateObjectsDestruct ?s1) obj = obj_view E (stateObjectsDestruct s) obj"
    using o1 assms(5) by (simp add: view_def live_object_def obj_at_def)
  then have x: "x = finalise_at E del (sdb_journal ?s1) a (obj_view E (stateObjectsDestruct ?s1) obj)"
    using tx_data_journal [OF f1(2)] by (simp add: x_def)
  note at = finalise_addr_at [OF f1(1) assms(2) o1, where del = del, folded x]
  show "view E (fold (finalise_addr E del) as s) a = x"
    using view_local [OF _ _ ok2, of a "fold (finalise_addr E del) as s"] same at(1) by (simp add: same_at_def)
  show "fmlookup (mutations (fold (finalise_addr E del) as s)) a = Some (mut_of x)"
    using same at(2) by (simp add: same_at_def)
qed

lemma finalise_fold_absent:
  assumes "objs_ok E s" "range_ok E" "fmlookup (stateObjects s) a = None"
  shows "same_at a s (fold (finalise_addr E del) as s)"
  using assms(1,3)
proof (induction as arbitrary: s)
  case (Cons b as)
  note f = finalise_addr_frame [OF Cons.prems(1) assms(2), where del = del and a = b]
  have "same_at a s (finalise_addr E del b s)"
  proof (cases "b = a")
    case True
    with Cons.prems(2) show ?thesis by (simp add: finalise_addr_def same_at_def)
  next
    case False
    then show ?thesis using f(3) [of a] by simp
  qed
  moreover from this Cons.prems(2) have "fmlookup (stateObjects (finalise_addr E del b s)) a = None"
    by (simp add: same_at_def)
  ultimately show ?case using Cons.IH [OF f(1)] by (auto intro: same_at_trans)
qed (simp add: same_at_def)

lemma clear_simps [simp]:
  "stateObjects (clearJournalAndRefund s) = stateObjects s"
  "stateObjectsDestruct (clearJournalAndRefund s) = stateObjectsDestruct s"
  "mutations (clearJournalAndRefund s) = mutations s" "view E (clearJournalAndRefund s) = view E s"
  "objs_ok E (clearJournalAndRefund s) = objs_ok E s"
  "sdb_journal (clearJournalAndRefund s) = journal_reset (sdb_journal s)"
  "sdb_refund (clearJournalAndRefund s) = 0" "arbExtraData (clearJournalAndRefund s) = arbExtraData s"
  "sdb_logs (clearJournalAndRefund s) = sdb_logs s" "sdb_accessList (clearJournalAndRefund s) = sdb_accessList s"
  "sdb_transientStorage (clearJournalAndRefund s) = sdb_transientStorage s"
  by (simp_all add: clearJournalAndRefund_def view_def live_object_def objs_ok_def)

subsection \<open>Properties\<close>

text \<open>
  C7: \<^verbatim>\<open>Finalise\<close> removes exactly the dirty accounts that self-destructed or, when asked to,
  that are empty and not zombies; every other dirty account has its current storage committed
  and its creation flag cleared; all others are left alone. The mutation recorded for a dirty
  account is the one made. The outcome is the same whatever order the map iterations take, the
  refund is zero and the state is well-formed for the next transaction.
\<close>

theorem Finalise_effect:
  assumes "sdb_wf E s" "range_ok E"
  shows "let t = Finalise E del s; j = sdb_journal s in
    (\<forall>a v. view E s a = Some v \<longrightarrow> a |\<in>| fmdom (jr_dirties j) \<longrightarrow> a |\<in>| fmdom (stateObjects s) \<longrightarrow>
       view E t a = finalise_at E del j a v \<and> fmlookup (mutations t) a = Some (mut_of (finalise_at E del j a v))) \<and>
    (\<forall>a. a |\<notin>| fmdom (jr_dirties j) \<or> a |\<notin>| fmdom (stateObjects s) \<longrightarrow>
       view E t a = view E s a \<and> fmlookup (mutations t) a = fmlookup (mutations s) a) \<and>
    GetRefund t = 0 \<and> jr_entries (sdb_journal t) = [] \<and> jr_dirties (sdb_journal t) = fmempty \<and>
    arbExtraData t = arbExtraData s \<and> sdb_logs t = sdb_logs s \<and> sdb_wf E t"
proof -
  define as where "as = env_range_addr E (fmdom (jr_dirties (sdb_journal s)))"
  have as: "distinct as" "set as = fset (fmdom (jr_dirties (sdb_journal s)))"
    using assms(2) by (simp_all add: as_def range_ok_def)
  define t where "t = fold (finalise_addr E del) as s"
  have eq: "Finalise E del s = clearJournalAndRefund t" by (simp add: Finalise_def t_def as_def)
  have ok: "objs_ok E s" "world_ok (world E s)" using assms(1) by (simp_all add: sdb_wf_def)
  note frame = finalise_fold_frame [OF ok(1) assms(2), where del = del and as = as, folded t_def]
  have dirty: "view E t a = finalise_at E del (sdb_journal s) a v \<and>
      fmlookup (mutations t) a = Some (mut_of (finalise_at E del (sdb_journal s) a v))"
    if "view E s a = Some v" "a |\<in>| fmdom (jr_dirties (sdb_journal s))" "a |\<in>| fmdom (stateObjects s)" for a v
  proof -
    from that(3) obtain obj where obj: "fmlookup (stateObjects s) a = Some obj" by (auto simp: fmlookup_dom_iff)
    with that(1) have "v = obj_view E (stateObjectsDestruct s) obj" by (simp add: view_def live_object_def obj_at_def)
    with finalise_fold_at [OF ok(1) assms(2) as(1) _ obj, of del] that(2) as(2) show ?thesis by (simp add: t_def)
  qed
  have clean: "view E t a = view E s a \<and> fmlookup (mutations t) a = fmlookup (mutations s) a"
    if "a |\<notin>| fmdom (jr_dirties (sdb_journal s)) \<or> a |\<notin>| fmdom (stateObjects s)" for a
  proof -
    have "same_at a s t"
      using that frame(3) [of a] finalise_fold_absent [OF ok(1) assms(2), of a del as] as(2)
      by (auto simp: t_def fmlookup_dom_iff)
    then show ?thesis using view_local [OF _ _ ok(1), of a t] by (simp add: same_at_def)
  qed
  have "world_ok (world E (clearJournalAndRefund t))"
    using ok(2) frame(2) by (simp add: world_ok_def world_def tx_data_def)
  then have "sdb_wf E (clearJournalAndRefund t)"
    using frame(1) by (simp add: sdb_wf_def revs_ok_def dirties_for_def journal_reset_def)
  moreover have "arbExtraData t = arbExtraData s" "sdb_logs t = sdb_logs s" using frame(2) by (simp_all add: tx_data_def)
  ultimately show ?thesis
    using dirty clean unfolding Let_def eq by (simp add: GetRefund_def journal_reset_def)
qed

theorem Finalise_effect_witness:
  "\<exists>v. view env_empty (Finalise env_empty True (snd (AddBalance env_empty 7 5 NewWithReader))) 7 = Some v \<and>
     v_balance v = 5"
proof -
  let ?s = "snd (AddBalance env_empty 7 5 NewWithReader)"
  have wf: "sdb_wf env_empty ?s"
    using run_wf [OF wf_NewWithReader env_empty_ok, of "[OpAddBalance 7 5]" ?s] by simp
  have nv: "v_balance (acct_or_new env_empty (world env_empty NewWithReader) 7) = 0" by code_simp
  have "as_acct (world env_empty ?s) 7 =
      Some ((acct_or_new env_empty (world env_empty NewWithReader) 7)\<lparr>v_balance := 5\<rparr>)"
    using AddBalance_logged(2) [OF objs_ok_New, of env_empty 7 5] nv by simp
  then have v: "view env_empty ?s 7 = Some ((acct_or_new env_empty (world env_empty NewWithReader) 7)\<lparr>v_balance := 5\<rparr>)"
    (is "_ = Some ?v") by (simp add: world_def)
  have "7 |\<in>| fmdom (jr_dirties (sdb_journal ?s))" "7 |\<in>| fmdom (stateObjects ?s)" by code_simp+
  then have "view env_empty (Finalise env_empty True ?s) 7 = finalise_at env_empty True (sdb_journal ?s) 7 ?v"
    using Finalise_effect [OF wf env_empty_range, of True] v unfolding Let_def by blast
  moreover have "\<not> v_selfDestructed ?v" by code_simp
  ultimately show ?thesis
    by (simp add: finalise_at_def doomed_def view_empty_def view_finalise_def)
qed

text \<open>
  \<^verbatim>\<open>journal.reset\<close> keeps \<^verbatim>\<open>zombieEntries\<close>. An account deleted in one transaction and revived as a
  zombie in the next is kept, as intended; but a third transaction that merely touches the
  still empty account keeps it too, because the stale count is compared with the new number
  of dirty entries. With a journal made by \<^verbatim>\<open>newJournal\<close>, as the comment on \<^verbatim>\<open>reset\<close> promises, the
  same transaction deletes the account.
\<close>

definition zombie_tx2 :: StateDB where
  "zombie_tx2 =
     Finalise env_empty True (CreateZombieIfDeleted env_empty 7
       (Finalise env_empty True (snd (AddBalance env_empty 7 0 NewWithReader))))"

theorem reset_keeps_zombie_count:
  "fst (Exist env_empty 7 (Finalise env_empty True (snd (AddBalance env_empty 7 0 zombie_tx2)))) \<and>
   \<not> fst (Exist env_empty 7 (Finalise env_empty True
      (snd (AddBalance env_empty 7 0 (zombie_tx2\<lparr>sdb_journal := newJournal\<rparr>)))))"
  by code_simp

end
