(* ===== verification/Spec2Isabelle.thy ===== *)
theory Spec2Isabelle
imports Geth_Prelude Rlp Bloom MultiGas VMBase VMAnalysis VMContract VMState VMGas VMGasLaws VMWasmCost Stylus VMInstr VMCalls VMJumpTable VMInterp VMOps VMTable VMTableSets VMTermination VMEffects VMRollback VMAtomicity Lru AccessList TransientStorage StateTypes StateDB StateView StateRefine
  StateSetters StateRevert StateCode StateBalance StateSupply StateContract StateFinalise
begin

text \<open>
  Verification of the execution core of an Arbitrum fork of the Go Ethereum client (sources under
  \<^verbatim>\<open>src/\<close>): the state database, the Ethereum virtual machine on top of it, and the data structures
  and encodings both use. The definitions translate the Go code function by function and keep its
  names where they do not clash; prefixes such as \<open>so_\<close>, \<open>st_\<close>, \<open>mem_\<close>, \<open>al_\<close>, \<open>ts_\<close> and \<open>lru_\<close> stand
  for the receiver type of a method.

  \<^bold>\<open>How the parts fit together.\<close> A transaction runs as a call or a creation (\<^verbatim>\<open>core/vm/evm.go\<close>). It takes a
  snapshot of the state database, transfers the value, and runs the code of the callee in the
  interpreter loop (\<^verbatim>\<open>core/vm/interpreter.go\<close>). The loop fetches an operation from the instruction table
  of the fork, checks the stack, charges constant and dynamic gas, resizes the memory and executes.
  Instructions read and write the state database (\<^verbatim>\<open>core/state\<close>) and may start further calls. Every
  change of the database is noted in a journal, by which a failed call is undone. Gas is counted
  in several dimensions at once (\<^verbatim>\<open>arbitrum/multigas\<close>). Stylus programs run outside the EVM, behind a hook,
  and are charged by cost functions that mirror those of the EVM.

  \<^bold>\<open>Conventions.\<close> Go integers are words of their width, so arithmetic wraps as in Go; \<^verbatim>\<open>int\<close> values that count
  things and \<^verbatim>\<open>big.Int\<close> values are integers. A struct is a record, a journal entry or an error
  value a constructor of a datatype, a Go map a finite map; the order in which a range visits a map is
  a parameter (\<open>env_range_addr\<close> and its siblings). A panic is \<open>None\<close>, or \<open>Panic\<close> where running out of fuel is
  another outcome (type \<open>run\<close>). Errors are values. A method that changes its receiver returns the new
  one. The computations of a call frame are written in the state monads \<open>vm\<close>, \<open>evm\<close> and \<open>xvm\<close>.

  \<^bold>\<open>Parameters.\<close> The record \<open>Env\<close> stands for the database reader, the Keccak hash and the store of
  activated Stylus programs; the record \<open>EvmCfg\<close> for the block and transaction context, the chain rules, the
  256-bit division of the external integer package, the processing hook and the precompiled contracts. What
  the theorems need of them are named hypotheses. \<open>env_ok\<close>: code is stored under its hash, and
  the hash of the empty code is not zero. \<open>hooks_ok\<close>: the Stylus hook and the precompiled contracts
  with access to the EVM return no more gas than they got. \<open>hooks_act\<close>: they act on the database
  through its operations and revert only to their own snapshots; with its flag set, they
  also conserve ether, which excludes hooks that mint or burn it. Each
  hypothesis holds for the concrete instances of the witnesses.

  \<^bold>\<open>Theories.\<close>
  \<^item> \<open>Geth_Prelude\<close>: integer types, slices, \<^verbatim>\<open>sort.Search\<close>, the checked arithmetic of \<^verbatim>\<open>common/math\<close>, big-endian
    conversion; generic lemmas on lists, finite maps and words.
  \<^item> \<open>Rlp\<close>, \<open>Bloom\<close>: \<^verbatim>\<open>rlp/encode.go\<close>, \<^verbatim>\<open>encbuffer.go\<close>, \<^verbatim>\<open>raw.go\<close>, \<^verbatim>\<open>iterator.go\<close>; \<^verbatim>\<open>core/types/bloom9.go\<close> and the filter of an
    encoded receipt (\<^verbatim>\<open>eth/protocols/eth/receipt.go\<close>). The encoder buffer produces the canonical encoding,
    the splitting functions accept exactly canonical encodings, filters have no false negatives, and
    the filter of an encoded receipt is that of its logs; on malformed topics its loop does not end.
  \<^item> \<open>MultiGas\<close>: \<^verbatim>\<open>arbitrum/multigas/resources.go\<close>. Totals are exact sums, checked addition is exact and atomic,
    subtraction undoes it; the saturating addition is a commutative monoid.
  \<^item> \<open>Lru\<close>: \<^verbatim>\<open>common/lru/basiclru.go\<close> and \<^verbatim>\<open>RecentWasms\<close>, at the level of pointers. The cache refines a recency
    list. The locale \<open>recency_cache\<close> is the contract of a cache, interpreted on the pointer-level operations.
  \<^item> \<open>AccessList\<close>, \<open>TransientStorage\<close>: \<^verbatim>\<open>core/state/access_list.go\<close>, \<^verbatim>\<open>transient_storage.go\<close>. They implement sets and
    a map, and the deletions the journal uses undo the additions.
  \<^item> \<open>StateTypes\<close>, \<open>StateDB\<close>: the data and operations of \<^verbatim>\<open>core/state/statedb.go\<close>, \<^verbatim>\<open>state_object.go\<close>,
    \<^verbatim>\<open>journal.go\<close> and their Arbitrum extensions, from the getters to \<^verbatim>\<open>Finalise\<close> and \<^verbatim>\<open>Copy\<close>.
  \<^item> \<open>StateView\<close>: the abstract world state (\<open>world\<close>), without caches and journal. \<open>StateRefine\<close>, \<open>StateSetters\<close>: every
    operation acts on it as specified, and its journal entries undo it. \<open>StateRevert\<close>: runs of
    operations (\<open>db_op\<close>, \<open>exec\<close>, \<open>run\<close>) and snapshots: a revert restores the world, never panics. \<open>StateCode\<close>: when
    setting code can be undone. \<open>StateContract\<close>: the API as its callers see it, \<^verbatim>\<open>Prepare\<close> and \<^verbatim>\<open>Copy\<close>.
    \<open>StateFinalise\<close>: the end of a transaction. \<open>StateBalance\<close>, \<open>StateSupply\<close>: the sum of all balances, announced
    burns and mints, and \<^verbatim>\<open>unexpectedBalanceDelta\<close>.
  \<^item> \<open>VMBase\<close>, \<open>VMAnalysis\<close>, \<open>VMContract\<close>: stack, memory, jump destination analysis and contract frames
    (\<^verbatim>\<open>stack.go\<close>, \<^verbatim>\<open>memory.go\<close>, \<^verbatim>\<open>memory_table.go\<close>, \<^verbatim>\<open>common.go\<close>, \<^verbatim>\<open>analysis_legacy.go\<close>, \<^verbatim>\<open>contract.go\<close>). The bit vector marks
    exactly the instructions, and jumps go exactly to jump destinations.
  \<^item> \<open>VMState\<close>, \<open>VMGas\<close>, \<open>VMGasLaws\<close>, \<open>VMWasmCost\<close>: errors, frames and every dynamic gas function
    (\<^verbatim>\<open>gas_table.go\<close>, \<^verbatim>\<open>operations_acl.go\<close>, \<^verbatim>\<open>operations_acl_arbitrum.go\<close>). Memory fees follow the quadratic formula without
    wrapping; a call leaves a 64th of the gas behind (locale \<open>call_cost\<close>, interpreted on the four plain call
    costs); Stylus operations cost what the EVM operations cost.
  \<^item> \<open>Stylus\<close>: the prefixes of Stylus programs (\<^verbatim>\<open>statedb_arbitrum.go\<close>), with round trips.
  \<^item> \<open>VMInstr\<close>, \<open>VMCalls\<close>, \<open>VMJumpTable\<close>, \<open>VMInterp\<close>: the instructions, the tables from Frontier to Osaka with the
    proposals of \<^verbatim>\<open>eips.go\<close>, calls, creations and the loop.
  \<^item> \<open>VMOps\<close>, \<open>VMTable\<close>, \<open>VMTableSets\<close>: a contract between table entries and loop, kept by all tables.
    \<open>VMTermination\<close>: executions end, stacks stay bounded, calls return no more gas than they got; the step
    relation \<open>vm_step\<close> describes the rounds of the loop.
  \<^item> \<open>VMEffects\<close>, \<open>VMRollback\<close>, \<open>VMAtomicity\<close>: executions act on the database by runs of its operations; failed
    calls have no effect, failed creations leave only the nonce and the warm address, and no
    execution makes ether or loses it unnoticed.

  \<^bold>\<open>Fuel.\<close> Calls and the loop recurse through each other, so \<open>interp\<close> takes fuel, one unit for each round, and
  what an instruction calls runs with what is left. Every round and every nested call costs gas, and
  \<open>interp_terminates\<close> shows that any fuel above the gas of the frame is enough and that more fuel does not change the
  outcome. The other loops are structural or have a termination proof, but for four that are partial
  functions: counting encoded values, which is shown to end; listing the keys of a cache, which ends
  on well-linked lists; and the two loops over encoded receipts, which may not end.

  \<^bold>\<open>Bounds.\<close> Lengths are below \<open>2\<^sup>6\<^sup>4\<close>, or \<open>2\<^sup>6\<^sup>3\<close> where the code converts them to \<^verbatim>\<open>int\<close>. The sum of all balances
  is below \<open>2\<^sup>2\<^sup>5\<^sup>5\<close> where ether is counted, so that no balance overflows.

  \<^bold>\<open>Not modelled.\<close> EIP-4762: its witness charges depend on Verkle trees. Rules or extra proposals that
  ask for it have no instruction table (\<open>NewEVM_table\<close>), and an execution that reaches a charge stops
  without a result (\<open>witness_charge\<close>), so no theorem speaks about such executions. Tracers, the
  address filter and metrics only observe. Tries, commits, prefetching and the databases are
  input and output behind the reader. The precompiled contracts are cryptographic primitives of other
  packages. The streaming decoder of the serialization format, state transitions, block processing,
  transaction pools, consensus and networking are outside this development.
\<close>

end
